(* ===== verification/Prelude.thy ===== *)
theory Prelude
  imports Complex_Main "HOL-Library.Char_ord" "HOL-Library.List_Lexorder"
begin

text \<open>
  Shared vocabulary of the development: JavaScript numbers and strings as the TypeScript
  sources use them, JSON values (\<open>packages/shared-kernel/src/index.ts\<close>), database tables as
  lists of rows with the three statement shapes the sources send (SELECT, UPDATE, INSERT against
  unique indexes), and the automation that the component theories share.
\<close>

named_theorems js_defs "definitions of the JavaScript helpers"
named_theorems table_simps "rewrite rules for tables"

section \<open>JavaScript numbers\<close>

text \<open>
  A JavaScript number is a double. Integers and other finite values are kept apart, because the
  sources test them with \<open>Number.isSafeInteger\<close> and \<open>Number.isFinite\<close>; finite
  values are exact rationals.
\<close>

datatype js_number = JInt int | JFrac rat | JNaN | JInfinity bool

definition max_safe :: int where
  "max_safe = 2 ^ 53 - 1"

fun is_safe_integer :: "js_number \<Rightarrow> bool" where
  "is_safe_integer (JInt i) = (\<bar>i\<bar> \<le> max_safe)"
| "is_safe_integer _ = False"

fun is_finite :: "js_number \<Rightarrow> bool" where
  "is_finite (JInt _) = True"
| "is_finite (JFrac _) = True"
| "is_finite _ = False"

fun js_int :: "js_number \<Rightarrow> int" where
  "js_int (JInt i) = i"
| "js_int _ = 0"

lemma is_safe_integerE:
  assumes "is_safe_integer n"
  obtains i where "n = JInt i" and "\<bar>i\<bar> \<le> max_safe"
  using assms by (cases n) auto

fun js_rat :: "js_number \<Rightarrow> rat" where
  "js_rat (JInt i) = of_int i"
| "js_rat (JFrac q) = q"
| "js_rat _ = 0"

section \<open>Strings\<close>

text \<open>
  Strings are lists of 8-bit code units (the Latin-1 range of the UTF-16 units of the sources).
  \<open>js_trim\<close> is \<open>String.prototype.trim\<close> on that range.
\<close>

definition js_space :: "char \<Rightarrow> bool" where [js_defs]:
  "js_space c \<longleftrightarrow> (let n = (of_char c :: nat) in n = 32 \<or> (9 \<le> n \<and> n \<le> 13) \<or> n = 160)"

definition js_trim :: "string \<Rightarrow> string" where [js_defs]:
  "js_trim s = rev (dropWhile js_space (rev (dropWhile js_space s)))"

text \<open>The test \<open>!s.trim()\<close> that guards nearly every command.\<close>

definition blank :: "string \<Rightarrow> bool" where [js_defs]:
  "blank s \<longleftrightarrow> js_trim s = []"

text \<open>\<open>toLowerCase\<close> and \<open>toUpperCase\<close>, on the letters of the range.\<close>

definition js_lower_char :: "char \<Rightarrow> char" where
  "js_lower_char c = (let n = (of_char c :: nat) in
     if (65 \<le> n \<and> n \<le> 90) \<or> (192 \<le> n \<and> n \<le> 222 \<and> n \<noteq> 215) then char_of (n + 32) else c)"

definition js_lower :: "string \<Rightarrow> string" where
  "js_lower s = map js_lower_char s"

lemma dropWhile_Nil_all: "dropWhile P xs = [] \<longleftrightarrow> (\<forall>x\<in>set xs. P x)"
  by (induction xs) auto

lemma blank_iff: "blank s \<longleftrightarrow> (\<forall>c\<in>set s. js_space c)"
proof
  assume "blank s"
  then have *: "\<forall>c\<in>set (dropWhile js_space s). js_space c"
    by (simp add: blank_def js_trim_def dropWhile_Nil_all)
  show "\<forall>c\<in>set s. js_space c"
  proof (rule ccontr)
    assume "\<not> (\<forall>c\<in>set s. js_space c)"
    then have "dropWhile js_space s \<noteq> []" by (simp add: dropWhile_Nil_all)
    then have "\<not> js_space (hd (dropWhile js_space s))" by (rule hd_dropWhile)
    with * \<open>dropWhile js_space s \<noteq> []\<close> show False by simp
  qed
next
  assume "\<forall>c\<in>set s. js_space c"
  then show "blank s"
    by (auto simp: blank_def js_trim_def dropWhile_Nil_all dest: set_dropWhileD)
qed

lemma blank_Nil [simp]: "blank []"
  by (simp add: blank_iff)

section \<open>JSON\<close>

text \<open>
  \<open>Json\<close> of the shared kernel. An object is the list of its own enumerable entries in
  insertion order; the sources build objects with distinct keys.
\<close>

datatype json =
    JNull
  | JBool bool
  | JNum js_number
  | JStr string
  | JArr "json list"
  | JObj "(string \<times> json) list"

fun keys :: "(string \<times> 'a) list \<Rightarrow> string list" where
  "keys kvs = map fst kvs"

fun field :: "string \<Rightarrow> json \<Rightarrow> json option" where
  "field k (JObj kvs) = map_of kvs k"
| "field k _ = None"

section \<open>Tables\<close>

text \<open>
  A table is the list of its rows. \<open>select_rows\<close> is a SELECT with its WHERE clause,
  \<open>first_row\<close> the \<open>rows[0]\<close> of its result, \<open>update_rows\<close> an UPDATE with its SET
  clauses, and \<open>insert_row\<close> an INSERT against the unique indexes of the table, given as the
  relation of two rows that clash: a clash is the SQL state 23505 and is reported as \<open>None\<close>.
\<close>

definition select_rows :: "('r \<Rightarrow> bool) \<Rightarrow> 'r list \<Rightarrow> 'r list" where
  "select_rows p t = filter p t"

fun first_row :: "'r list \<Rightarrow> 'r option" where
  "first_row [] = None"
| "first_row (r # _) = Some r"

definition find_row :: "('r \<Rightarrow> bool) \<Rightarrow> 'r list \<Rightarrow> 'r option" where
  "find_row p t = first_row (select_rows p t)"

definition update_rows :: "('r \<Rightarrow> bool) \<Rightarrow> ('r \<Rightarrow> 'r) \<Rightarrow> 'r list \<Rightarrow> 'r list" where
  "update_rows p f t = map (\<lambda>r. if p r then f r else r) t"

definition insert_row :: "('r \<Rightarrow> 'r \<Rightarrow> bool) \<Rightarrow> 'r \<Rightarrow> 'r list \<Rightarrow> 'r list option" where
  "insert_row clash r t = (if list_ex (clash r) t then None else Some (t @ [r]))"

text \<open>No two rows of a table clash.\<close>

definition unique_rows :: "('r \<Rightarrow> 'r \<Rightarrow> bool) \<Rightarrow> 'r list \<Rightarrow> bool" where
  "unique_rows clash t \<longleftrightarrow> sorted_wrt (\<lambda>x y. \<not> clash x y \<and> \<not> clash y x) t"

lemma find_row_Nil [table_simps]: "find_row p [] = None"
  by (simp add: find_row_def select_rows_def)

lemma find_row_Cons [table_simps]:
  "find_row p (r # t) = (if p r then Some r else find_row p t)"
  by (simp add: find_row_def select_rows_def)

lemma find_row_SomeD: "find_row p t = Some r \<Longrightarrow> r \<in> set t \<and> p r"
  by (induction t) (auto simp: table_simps split: if_splits)

lemma find_row_None_iff: "find_row p t = None \<longleftrightarrow> (\<forall>r\<in>set t. \<not> p r)"
  by (induction t) (auto simp: table_simps)

lemma find_row_append [table_simps]:
  "find_row p (t @ u) = (case find_row p t of None \<Rightarrow> find_row p u | Some r \<Rightarrow> Some r)"
  by (induction t) (auto simp: table_simps)

lemma find_row_cong: "(\<And>r. r \<in> set t \<Longrightarrow> p r = q r) \<Longrightarrow> find_row p t = find_row q t"
  by (induction t) (auto simp: table_simps)

lemma update_rows_Nil [table_simps]: "update_rows p f [] = []"
  by (simp add: update_rows_def)

lemma update_rows_Cons [table_simps]:
  "update_rows p f (r # t) = (if p r then f r else r) # update_rows p f t"
  by (simp add: update_rows_def)

lemma update_rows_append [table_simps]:
  "update_rows p f (t @ u) = update_rows p f t @ update_rows p f u"
  by (simp add: update_rows_def)

lemma length_update_rows [table_simps]: "length (update_rows p f t) = length t"
  by (simp add: update_rows_def)

lemma set_update_rows: "r' \<in> set (update_rows p f t) \<longleftrightarrow>
    (\<exists>r\<in>set t. r' = (if p r then f r else r))"
  by (auto simp: update_rows_def)

lemma image_update_rows:
  assumes "\<And>r. p r \<Longrightarrow> k (f r) = k r"
  shows "k ` set (update_rows p f t) = k ` set t"
  using assms by (induction t) (auto simp: table_simps)

text \<open>Looking a row up after an update that keeps what the lookup tests.\<close>

lemma find_row_update_same:
  assumes "\<And>r. p (f r) = p r"
  shows "find_row p (update_rows p f t) = map_option f (find_row p t)"
  using assms by (induction t) (auto simp: table_simps)

lemma find_row_update_keep:
  assumes "\<And>r. p r \<Longrightarrow> q (f r) = q r"
  shows "find_row q (update_rows p f t) =
    map_option (\<lambda>r. if p r then f r else r) (find_row q t)"
  using assms by (induction t) (auto simp: table_simps)

lemma find_row_update_hit:
  assumes "find_row k t = Some r" and "p r" and "\<And>x. p x \<Longrightarrow> k (f x) = k x"
  shows "find_row k (update_rows p f t) = Some (f r)"
  using assms by (simp add: find_row_update_keep)

lemma find_row_update_other:
  assumes "\<And>r. p r \<Longrightarrow> q (f r) = q r" and "\<And>r. q r \<Longrightarrow> \<not> p r"
  shows "find_row q (update_rows p f t) = find_row q t"
  using assms by (induction t) (auto simp: table_simps)

text \<open>Joins are list comprehensions; membership in one is nested existentials.\<close>

lemma in_join_iff:
  "y \<in> set (concat (map (\<lambda>x. if p x then f x else []) xs)) \<longleftrightarrow> (\<exists>x\<in>set xs. p x \<and> y \<in> set (f x))"
  by auto

lemma insert_row_Some_iff:
  "insert_row clash r t = Some t' \<longleftrightarrow> (\<forall>x\<in>set t. \<not> clash r x) \<and> t' = t @ [r]"
  by (auto simp: insert_row_def list_ex_iff)

lemma insert_row_None_iff: "insert_row clash r t = None \<longleftrightarrow> (\<exists>x\<in>set t. clash r x)"
  by (auto simp: insert_row_def list_ex_iff)

lemma unique_rows_Nil [simp]: "unique_rows clash []"
  by (simp add: unique_rows_def)

lemma unique_rows_keyD:
  assumes "unique_rows (\<lambda>x y. k x = k y) t" and "r \<in> set t" and "r' \<in> set t" and "k r = k r'"
  shows "r = r'"
  using assms by (induction t) (auto simp: unique_rows_def)

lemma unique_rows_insert:
  assumes "unique_rows clash t" and "insert_row clash r t = Some t'"
    and "\<And>x y. clash x y \<Longrightarrow> clash y x"
  shows "unique_rows clash t'"
  using assms by (auto simp: unique_rows_def insert_row_Some_iff sorted_wrt_append)

lemma unique_rows_update:
  assumes "unique_rows clash t"
    and "\<And>x y. clash (if p x then f x else x) (if p y then f y else y) \<Longrightarrow> clash x y"
  shows "unique_rows clash (update_rows p f t)"
  using assms unfolding unique_rows_def update_rows_def sorted_wrt_map
  by (elim sorted_wrt_mono_rel[rotated]) blast


lemma unique_rows_clashD:
  assumes "unique_rows clash t" and "r \<in> set t" and "r' \<in> set t" and "clash r r'"
  shows "r = r'"
  using assms by (induction t) (auto simp: unique_rows_def)

lemma unique_rows_mono:
  assumes "unique_rows clash t" and "\<And>x y. clash' x y \<Longrightarrow> clash x y"
  shows "unique_rows clash' t"
  using assms unfolding unique_rows_def by (elim sorted_wrt_mono_rel[rotated]) blast

text \<open>Changing the one row of a key keeps a clash-free table clash-free.\<close>

lemma unique_update_at:
  assumes "unique_rows clash t" and "distinct t" and "\<And>x. x \<in> set t \<Longrightarrow> p x \<Longrightarrow> x = r"
    and "\<And>x. x \<in> set t \<Longrightarrow> x \<noteq> r \<Longrightarrow> \<not> clash x r \<Longrightarrow> \<not> clash r x \<Longrightarrow> \<not> clash x (f r) \<and> \<not> clash (f r) x"
  shows "unique_rows clash (update_rows p f t)"
proof -
  let ?f = "\<lambda>x. if p x then f x else x"
  have "\<not> clash (?f (t ! j)) (?f (t ! k)) \<and> \<not> clash (?f (t ! k)) (?f (t ! j))"
    if "j < k" "k < length t" for j k
  proof -
    have "t ! j \<noteq> t ! k" using assms(2) that by (simp add: nth_eq_iff_index_eq)
    moreover have "\<not> clash (t ! j) (t ! k) \<and> \<not> clash (t ! k) (t ! j)"
      using assms(1) that by (auto simp: unique_rows_def sorted_wrt_iff_nth_less)
    moreover have "t ! j \<in> set t" "t ! k \<in> set t" using that by auto
    ultimately show ?thesis
      using assms(3) [of "t ! j"] assms(3) [of "t ! k"] assms(4) [of "t ! j"] assms(4) [of "t ! k"] by auto
  qed
  then show ?thesis by (auto simp: unique_rows_def update_rows_def sorted_wrt_iff_nth_less)
qed

text \<open>LEFT JOIN: the matching rows, or one row of nulls.\<close>

definition left_join :: "('r \<Rightarrow> bool) \<Rightarrow> 'r list \<Rightarrow> 'r option list" where
  "left_join p t = (case select_rows p t of [] \<Rightarrow> [None] | rs \<Rightarrow> map Some rs)"

section \<open>Texts the commands refuse\<close>

text \<open>
  The test \<open>/(?:password|access[_ -]?token|secret|api[_ -]?key|license[_ -]?key)\s*[:=]\s*\S+/i\<close>
  on a reason: a key word, a colon or an equals sign, and something after it.
\<close>

fun strip_word :: "string \<Rightarrow> string \<Rightarrow> string option" where
  "strip_word [] s = Some s"
| "strip_word (c # cs) [] = None"
| "strip_word (c # cs) (d # ds) = (if js_lower_char d = c then strip_word cs ds else None)"

definition secret_words :: "string list" where
  "secret_words = [''password'', ''accesstoken'', ''access_token'', ''access token'', ''access-token'',
     ''secret'', ''apikey'', ''api_key'', ''api key'', ''api-key'', ''licensekey'', ''license_key'',
     ''license key'', ''license-key'']"

definition secret_value :: "string \<Rightarrow> bool" where
  "secret_value s =
     (case dropWhile js_space s of
        [] \<Rightarrow> False
      | c # r \<Rightarrow> (c = CHR '':'' \<or> c = CHR ''='') \<and> dropWhile js_space r \<noteq> [])"

definition secret_here :: "string \<Rightarrow> bool" where
  "secret_here s = list_ex (\<lambda>w. case strip_word w s of None \<Rightarrow> False | Some r \<Rightarrow> secret_value r) secret_words"

fun looks_secret :: "string \<Rightarrow> bool" where
  "looks_secret [] = False"
| "looks_secret (c # s) = (secret_here (c # s) \<or> looks_secret s)"


text \<open>
  A UUID as the modules test it:
  \<open>/^[0-9a-f]{8}-[0-9a-f]{4}-[1-8][0-9a-f]{3}-[89ab][0-9a-f]{3}-[0-9a-f]{12}$/i\<close>.
\<close>

definition is_hex :: "char \<Rightarrow> bool" where
  "is_hex c \<longleftrightarrow> c \<in> set ''0123456789abcdefABCDEF''"

definition uuid_pattern :: "(char \<Rightarrow> bool) list" where
  "uuid_pattern = replicate 8 is_hex @ [\<lambda>c. c = CHR ''-''] @ replicate 4 is_hex @ [\<lambda>c. c = CHR ''-''] @
     [\<lambda>c. c \<in> set ''12345678''] @ replicate 3 is_hex @ [\<lambda>c. c = CHR ''-''] @
     [\<lambda>c. c \<in> set ''89abAB''] @ replicate 3 is_hex @ [\<lambda>c. c = CHR ''-''] @ replicate 12 is_hex"

definition is_uuid :: "string \<Rightarrow> bool" where
  "is_uuid s \<longleftrightarrow> list_all2 (\<lambda>p c. p c) uuid_pattern s"


text \<open>Sums over a column, as SELECT sum(...) computes them.\<close>

lemma sum_filter_weight:
  "sum_list (map q (select_rows p t)) = sum_list (map (\<lambda>r. if p r then q r else (0 :: int)) t)"
  by (induction t) (auto simp: select_rows_def)

lemma sum_update_le:
  fixes w :: "'r \<Rightarrow> int"
  assumes "\<And>r. r \<in> set t \<Longrightarrow> p r \<Longrightarrow> w (f r) \<le> w r"
  shows "sum_list (map w (update_rows p f t)) \<le> sum_list (map w t)"
  using assms
proof (induction t)
  case Nil
  then show ?case by (simp add: table_simps)
next
  case (Cons x t)
  then have "sum_list (map w (update_rows p f t)) \<le> sum_list (map w t)" by auto
  with Cons.prems [of x] show ?case by (auto simp: table_simps)
qed

text \<open>An update that hits one row moves a sum by the difference of its weights.\<close>

lemma sum_update_one:
  fixes w :: "'r \<Rightarrow> int"
  assumes "unique_rows clash t" and "r \<in> set t" and "p r"
    and "\<And>x. x \<in> set t \<Longrightarrow> p x \<Longrightarrow> clash x r" and "\<And>x. x \<in> set t \<Longrightarrow> p x \<Longrightarrow> clash r x"
  shows "sum_list (map w (update_rows p f t)) = sum_list (map w t) - w r + w (f r)"
  using assms
proof (induction t)
  case Nil
  then show ?case by simp
next
  case (Cons x t)
  have keep: "update_rows p f t = t" if "\<forall>y\<in>set t. \<not> p y"
    using that by (induction t) (auto simp: table_simps)
  show ?case
  proof (cases "x = r")
    case True
    then have "\<forall>y\<in>set t. \<not> p y" using Cons.prems by (auto simp: unique_rows_def)
    with True Cons.prems(3) keep show ?thesis by (simp add: table_simps)
  next
    case False
    then have r: "r \<in> set t" using Cons.prems(2) by simp
    then have "\<not> p x" using Cons.prems(1,4,5) by (auto simp: unique_rows_def)
    moreover have "unique_rows clash t" using Cons.prems(1) by (simp add: unique_rows_def)
    ultimately show ?thesis using Cons.IH r Cons.prems(3-5) by (simp add: table_simps)
  qed
qed

end
