(* ===== verification/Api_Contracts.thy ===== *)
theory Api_Contracts
  imports Prelude
begin

text \<open>
  The error contract of \<open>packages/api-contracts/src/index.ts\<close>: the closed list of error codes
  with their HTTP status and category, the error response, and the optimistic-concurrency check
  \<open>assertVersion\<close>. The message text, the headers and the details of an error are left out; the
  code is what the callers and the clients branch on.
\<close>

section \<open>Error codes\<close>

datatype error_code =
    VALIDATION_ERROR | TENANT_CONTEXT_REQUIRED | INVALID_TENANT_CONTEXT
  | AUTHENTICATION_REQUIRED | IDENTITY_NOT_PROVISIONED | TENANT_MEMBERSHIP_DENIED
  | IDENTITY_LINK_CONFLICT | PERMISSION_DENIED | NOT_FOUND | VERSION_CONFLICT
  | IDEMPOTENCY_KEY_CONFLICT | OPERATION_IN_PROGRESS | BUSINESS_RULE_VIOLATION
  | GOODS_RECEIPT_OVER_ORDERED_QUANTITY | GOODS_RECEIPT_PO_NOT_RECEIVABLE
  | GOODS_RECEIPT_BLOCKING_EXCEPTION | GOODS_RECEIPT_UNIT_IDENTITY_DUPLICATE
  | COST_SOURCE_NOT_EFFECTIVE | COST_PROVENANCE_IDENTITY_CONFLICT | INVOICE_DUPLICATE
  | INVOICE_MATCH_EXCEPTION_REQUIRED | INVOICE_APPROVAL_STALE | RENEWAL_ALREADY_OPEN
  | COMMERCIAL_DOCUMENT_INTEGRITY_CONFLICT | CONTRACT_APPROVAL_STALE
  | AUTOMATION_RULE_INVALID | AUTOMATION_RULE_VERSION_CONFLICT | AUTOMATION_POLICY_DENIED
  | AUTOMATION_ACTION_UNSUPPORTED | AUTOMATION_INTENT_NOT_READY
  | AUTOMATION_AUTHORIZATION_DENIED | AUTOMATION_TARGET_SCOPE_DENIED
  | AUTOMATION_APPROVAL_STALE | AUTOMATION_CONFLICT_OPEN | AUTOMATION_KILL_SWITCH_ACTIVE
  | AUTOMATION_ACTION_CANCEL_FORBIDDEN | AUTOMATION_RECONCILIATION_REQUIRED
  | AGENT_COMMAND_ID_CONFLICT | AGENT_COMMAND_REJECTED | AGENT_MESSAGE_CONFLICT
  | ENROLLMENT_TOKEN_INVALID | ACTION_INTENT_CONFLICT | APPROVAL_CONTEXT_STALE
  | CREDIT_NOTE_OVER_CREDITABLE_AMOUNT | DEPENDENCY_UNAVAILABLE | INTERNAL_ERROR

datatype error_category =
    VALIDATION | AUTHENTICATION | AUTHORIZATION | CONFLICT | NOT_FOUND_CATEGORY
  | BUSINESS_RULE | DEPENDENCY | INTERNAL_BUG

fun error_table :: "error_code \<Rightarrow> int \<times> error_category" where
  "error_table VALIDATION_ERROR = (400, VALIDATION)"
| "error_table TENANT_CONTEXT_REQUIRED = (400, VALIDATION)"
| "error_table INVALID_TENANT_CONTEXT = (400, VALIDATION)"
| "error_table AUTHENTICATION_REQUIRED = (401, AUTHENTICATION)"
| "error_table IDENTITY_NOT_PROVISIONED = (403, AUTHORIZATION)"
| "error_table TENANT_MEMBERSHIP_DENIED = (403, AUTHORIZATION)"
| "error_table IDENTITY_LINK_CONFLICT = (409, CONFLICT)"
| "error_table PERMISSION_DENIED = (403, AUTHORIZATION)"
| "error_table NOT_FOUND = (404, NOT_FOUND_CATEGORY)"
| "error_table VERSION_CONFLICT = (409, CONFLICT)"
| "error_table IDEMPOTENCY_KEY_CONFLICT = (409, CONFLICT)"
| "error_table OPERATION_IN_PROGRESS = (409, CONFLICT)"
| "error_table BUSINESS_RULE_VIOLATION = (422, BUSINESS_RULE)"
| "error_table GOODS_RECEIPT_OVER_ORDERED_QUANTITY = (422, BUSINESS_RULE)"
| "error_table GOODS_RECEIPT_PO_NOT_RECEIVABLE = (409, CONFLICT)"
| "error_table GOODS_RECEIPT_BLOCKING_EXCEPTION = (422, BUSINESS_RULE)"
| "error_table GOODS_RECEIPT_UNIT_IDENTITY_DUPLICATE = (409, CONFLICT)"
| "error_table COST_SOURCE_NOT_EFFECTIVE = (422, BUSINESS_RULE)"
| "error_table COST_PROVENANCE_IDENTITY_CONFLICT = (409, CONFLICT)"
| "error_table INVOICE_DUPLICATE = (409, CONFLICT)"
| "error_table INVOICE_MATCH_EXCEPTION_REQUIRED = (409, CONFLICT)"
| "error_table INVOICE_APPROVAL_STALE = (409, CONFLICT)"
| "error_table RENEWAL_ALREADY_OPEN = (409, CONFLICT)"
| "error_table COMMERCIAL_DOCUMENT_INTEGRITY_CONFLICT = (409, CONFLICT)"
| "error_table CONTRACT_APPROVAL_STALE = (409, CONFLICT)"
| "error_table AUTOMATION_RULE_INVALID = (422, BUSINESS_RULE)"
| "error_table AUTOMATION_RULE_VERSION_CONFLICT = (409, CONFLICT)"
| "error_table AUTOMATION_POLICY_DENIED = (403, AUTHORIZATION)"
| "error_table AUTOMATION_ACTION_UNSUPPORTED = (422, BUSINESS_RULE)"
| "error_table AUTOMATION_INTENT_NOT_READY = (409, CONFLICT)"
| "error_table AUTOMATION_AUTHORIZATION_DENIED = (403, AUTHORIZATION)"
| "error_table AUTOMATION_TARGET_SCOPE_DENIED = (403, AUTHORIZATION)"
| "error_table AUTOMATION_APPROVAL_STALE = (409, CONFLICT)"
| "error_table AUTOMATION_CONFLICT_OPEN = (409, CONFLICT)"
| "error_table AUTOMATION_KILL_SWITCH_ACTIVE = (409, CONFLICT)"
| "error_table AUTOMATION_ACTION_CANCEL_FORBIDDEN = (409, CONFLICT)"
| "error_table AUTOMATION_RECONCILIATION_REQUIRED = (409, CONFLICT)"
| "error_table AGENT_COMMAND_ID_CONFLICT = (409, CONFLICT)"
| "error_table AGENT_COMMAND_REJECTED = (409, CONFLICT)"
| "error_table AGENT_MESSAGE_CONFLICT = (409, CONFLICT)"
| "error_table ENROLLMENT_TOKEN_INVALID = (401, AUTHENTICATION)"
| "error_table ACTION_INTENT_CONFLICT = (409, CONFLICT)"
| "error_table APPROVAL_CONTEXT_STALE = (409, CONFLICT)"
| "error_table CREDIT_NOTE_OVER_CREDITABLE_AMOUNT = (422, BUSINESS_RULE)"
| "error_table DEPENDENCY_UNAVAILABLE = (503, DEPENDENCY)"
| "error_table INTERNAL_ERROR = (500, INTERNAL_BUG)"

text \<open>
  What a handler can throw: an \<open>ApplicationError\<close>, an SQL error with its state (the code
  reacts to \<open>23505\<close>), or a plain JavaScript \<open>Error\<close>.
\<close>

datatype exn = AppError error_code | SqlError string | JsError string

text \<open>A call inside a transaction: its outcome and the state it leaves, also when it throws.\<close>

type_synonym ('s, 'a) call = "'s \<Rightarrow> (exn + 'a) \<times> 's"

record error_response =
  er_status :: int
  er_code :: error_code
  er_category :: error_category
  er_severity :: string

definition errorResponse :: "exn \<Rightarrow> error_response" where
  "errorResponse e =
     (let code = (case e of AppError c \<Rightarrow> c | _ \<Rightarrow> INTERNAL_ERROR);
          entry = error_table code
      in \<lparr>er_status = fst entry, er_code = code, er_category = snd entry,
          er_severity = (if fst entry \<ge> 500 then ''ERROR'' else ''WARNING'')\<rparr>)"

section \<open>Optimistic concurrency\<close>

definition assertVersion :: "int \<Rightarrow> js_number \<Rightarrow> exn + unit" where
  "assertVersion actual expected =
     (if \<not> is_safe_integer expected \<or> JInt actual \<noteq> expected
      then Inl (AppError VERSION_CONFLICT) else Inr ())"

lemma assertVersion_Inr:
  "assertVersion v n = Inr u \<longleftrightarrow> n = JInt v \<and> \<bar>v\<bar> \<le> max_safe"
  by (auto simp: assertVersion_def)

lemma assertVersion_Inl:
  "assertVersion v n = Inl e \<longleftrightarrow>
     e = AppError VERSION_CONFLICT \<and> \<not> (n = JInt v \<and> \<bar>v\<bar> \<le> max_safe)"
  by (cases n) (auto simp: assertVersion_def)

text \<open>
  The contract of a versioned command: on a state within the invariant it succeeds only when the
  caller names the version it has read, and then leaves the row at the next version.
  \<open>version_of\<close> reads the version of the addressed row.
\<close>

locale versioned_command =
  fixes command :: "'i \<Rightarrow> ('s, 'a) call"
    and expected :: "'i \<Rightarrow> js_number"
    and version_of :: "'s \<Rightarrow> int option"
    and invar :: "'s \<Rightarrow> bool"
  assumes success_version:
    "invar s \<Longrightarrow> command i s = (Inr a, s') \<Longrightarrow>
       invar s' \<and> (\<exists>v. version_of s = Some v \<and> expected i = JInt v \<and> version_of s' = Some (v + 1))"
begin

text \<open>Of two commands that read the same version, the second to arrive fails: no lost update.\<close>

lemma no_lost_update:
  assumes "invar s" and "command i s = (Inr a, s')" and "expected j = expected i"
  shows "\<exists>e. fst (command j s') = Inl e"
proof (rule ccontr)
  assume *: "\<not> (\<exists>e. fst (command j s') = Inl e)"
  obtain r t where rt: "command j s' = (r, t)" by (cases "command j s'")
  with * obtain b where j: "command j s' = (Inr b, t)" by (cases r) auto
  from success_version [OF assms(1,2)] obtain v
    where "invar s'" "expected i = JInt v" "version_of s' = Some (v + 1)" by blast
  with success_version [OF _ j] assms(3) show False by auto
qed

lemma stale_rejected:
  assumes "invar s" and "version_of s = Some v" and "expected i \<noteq> JInt v"
  shows "\<exists>e. fst (command i s) = Inl e"
proof (cases "command i s")
  case (Pair r t)
  then show ?thesis
    using success_version [of s i _ t] assms by (cases r) auto
qed

fun run_all :: "'i list \<Rightarrow> 's \<Rightarrow> 's option" where
  "run_all [] s = Some s"
| "run_all (i # is) s = (case command i s of (Inr a, s') \<Rightarrow> run_all is s' | _ \<Rightarrow> None)"

text \<open>A run of successful commands counts itself in the version.\<close>

lemma run_all_version:
  assumes "invar s" and "run_all is s = Some s'" and "version_of s = Some v"
  shows "invar s' \<and> version_of s' = Some (v + int (length is))"
  using assms
proof (induction "is" arbitrary: s v)
  case Nil
  then show ?case by simp
next
  case (Cons i "is")
  then obtain a t where t: "command i s = (Inr a, t)" and run: "run_all is t = Some s'"
    by (auto split: prod.splits sum.splits)
  from success_version [OF Cons.prems(1) t] Cons.prems(3)
  have "invar t" "version_of t = Some (v + 1)" by auto
  with Cons.IH [OF _ run] show ?case by fastforce
qed

end

text \<open>The outcome of a call without its value.\<close>

definition forget :: "(exn + 'a) \<times> 's \<Rightarrow> (exn + unit) \<times> 's" where
  "forget = map_prod (map_sum (\<lambda>e. e) (\<lambda>_. ())) (\<lambda>s. s)"

lemma forget_Inr: "forget x = (Inr u, s) \<longleftrightarrow> (\<exists>a. x = (Inr a, s))"
  by (cases x; cases "fst x") (auto simp: forget_def)

end
