(* ===== verification/Json_Text.thy ===== *)
theory Json_Text
  imports Api_Contracts "HOL-Library.Multiset"
begin

text \<open>
  The canonical JSON text behind request hashes (\<open>packages/messaging/src/idempotency.ts\<close>):
  object keys in code-unit order, arrays in order, strings as \<open>JSON.stringify\<close> quotes them.
  The text of a number that is not an integer below \<open>10 ^ 21\<close> is the shortest round-trip
  decimal of ECMAScript; it is the parameter \<open>fr\<close>. The hash function is the parameter
  \<open>sha\<close>.
\<close>

fun nat_text :: "nat \<Rightarrow> string" where
  "nat_text n = (if n < 10 then [char_of (48 + n)] else nat_text (n div 10) @ [char_of (48 + n mod 10)])"

declare nat_text.simps [simp del]

definition int_text :: "int \<Rightarrow> string" where
  "int_text i = (if i < 0 then ''-'' @ nat_text (nat (- i)) else nat_text (nat i))"

fun num_text :: "(rat \<Rightarrow> string) \<Rightarrow> js_number \<Rightarrow> string option" where
  "num_text fr (JInt i) = Some (if \<bar>i\<bar> < 10 ^ 21 then int_text i else fr (of_int i))"
| "num_text fr (JFrac q) = Some (fr q)"
| "num_text fr _ = None"

definition hex_digit :: "nat \<Rightarrow> char" where
  "hex_digit d = (if d < 10 then char_of (48 + d) else char_of (87 + d))"

definition quote_char :: "char \<Rightarrow> string" where
  "quote_char c = (let n = (of_char c :: nat) in
     if n = 34 then [CHR 0x5C, CHR 0x22]
     else if n = 92 then [CHR 0x5C, CHR 0x5C]
     else if n = 8 then [CHR 0x5C, CHR ''b'']
     else if n = 9 then [CHR 0x5C, CHR ''t'']
     else if n = 10 then [CHR 0x5C, CHR ''n'']
     else if n = 12 then [CHR 0x5C, CHR ''f'']
     else if n = 13 then [CHR 0x5C, CHR ''r'']
     else if n < 32 then [CHR 0x5C, CHR ''u'', CHR ''0'', CHR ''0'', hex_digit (n div 16), hex_digit (n mod 16)]
     else [c])"

definition quote_text :: "string \<Rightarrow> string" where
  "quote_text s = [CHR 0x22] @ concat (map quote_char s) @ [CHR 0x22]"

fun join :: "string \<Rightarrow> string list \<Rightarrow> string" where
  "join sep [] = []"
| "join sep [x] = x"
| "join sep (x # xs) = x @ sep @ join sep xs"

text \<open>Evaluate the elements left to right, stopping at the first exception.\<close>

fun collect :: "('e + 'a) list \<Rightarrow> 'e + 'a list" where
  "collect [] = Inr []"
| "collect (Inl e # xs) = Inl e"
| "collect (Inr a # xs) = (case collect xs of Inl e \<Rightarrow> Inl e | Inr as \<Rightarrow> Inr (a # as))"

definition member_text :: "string \<times> (exn + string) \<Rightarrow> exn + string" where
  "member_text m = map_sum id (\<lambda>t. quote_text (fst m) @ '':'' @ t) (snd m)"

fun canonical :: "(rat \<Rightarrow> string) \<Rightarrow> json \<Rightarrow> exn + string" where
  "canonical fr (JArr vs) =
     map_sum id (\<lambda>ts. ''['' @ join '','' ts @ '']'') (collect (map (canonical fr) vs))"
| "canonical fr (JObj kvs) =
     map_sum id (\<lambda>ts. ''{'' @ join '','' ts @ ''}'')
       (collect (map member_text (sort_key fst (map (\<lambda>(k, v). (k, canonical fr v)) kvs))))"
| "canonical fr (JNum n) =
     (case num_text fr n of None \<Rightarrow> Inl (AppError VALIDATION_ERROR) | Some t \<Rightarrow> Inr t)"
| "canonical fr (JStr s) = Inr (quote_text s)"
| "canonical fr (JBool b) = Inr (if b then ''true'' else ''false'')"
| "canonical fr JNull = Inr ''null''"

definition requestHash :: "(rat \<Rightarrow> string) \<Rightarrow> (string \<Rightarrow> string) \<Rightarrow> json \<Rightarrow> exn + string" where
  "requestHash fr sha v = map_sum id sha (canonical fr v)"

text \<open>
  Two JSON values that differ only in the order of object members, at any depth.
\<close>

inductive same_json :: "json \<Rightarrow> json \<Rightarrow> bool" where
  same_refl: "same_json v v"
| same_arr: "list_all2 same_json vs ws \<Longrightarrow> same_json (JArr vs) (JArr ws)"
| same_obj: "list_all2 (\<lambda>x y. fst x = fst y \<and> same_json (snd x) (snd y)) kvs lws \<Longrightarrow>
          mset lws = mset kws \<Longrightarrow> distinct (map fst kvs) \<Longrightarrow>
          same_json (JObj kvs) (JObj kws)"

lemma sort_key_perm_distinct:
  fixes xs ys :: "('k :: linorder \<times> 'v) list"
  assumes "mset xs = mset ys" and "distinct (map fst xs)"
  shows "sort_key fst xs = sort_key fst ys"
  by (rule sort_key_inj_key_eq) (use assms in \<open>auto simp: distinct_map\<close>)

lemma canonical_same_json: "same_json v w \<Longrightarrow> canonical fr v = canonical fr w"
proof (induction rule: same_json.induct)
  case (same_refl v)
  show ?case ..
next
  case (same_arr vs ws)
  then have "map (canonical fr) vs = map (canonical fr) ws"
    by (induction rule: list_all2_induct) auto
  then show ?case by simp
next
  case (same_obj kvs lws kws)
  let ?g = "\<lambda>(k, v). (k, canonical fr v)"
  from same_obj.IH have eq: "map ?g kvs = map ?g lws"
    by (induction rule: list_all2_induct) (auto simp: split_beta)
  from same_obj.IH have "map fst kvs = map fst lws"
    by (induction rule: list_all2_induct) auto
  with same_obj.hyps have "distinct (map fst (map ?g lws))" by (simp add: split_beta comp_def)
  moreover have "mset (map ?g lws) = mset (map ?g kws)" using same_obj.hyps by simp
  ultimately have "sort_key fst (map ?g lws) = sort_key fst (map ?g kws)"
    by (intro sort_key_perm_distinct)
  with eq show ?case by simp
qed

lemma requestHash_same_json: "same_json v w \<Longrightarrow> requestHash fr sha v = requestHash fr sha w"
  by (simp add: requestHash_def canonical_same_json)

text \<open>Hashing fails exactly on a number that is not finite, anywhere in the request.\<close>

fun finite_json :: "json \<Rightarrow> bool" where
  "finite_json (JArr vs) = list_all finite_json vs"
| "finite_json (JObj kvs) = list_all (\<lambda>(k, v). finite_json v) kvs"
| "finite_json (JNum n) = is_finite n"
| "finite_json _ = True"

definition is_ok :: "'e + 'a \<Rightarrow> bool" where
  "is_ok r \<longleftrightarrow> (\<exists>a. r = Inr a)"

lemma is_ok_simps [simp]: "is_ok (Inr a)" "\<not> is_ok (Inl e)" "is_ok (map_sum id f r) = is_ok r"
  by (auto simp: is_ok_def) (cases r; simp)+

lemma is_ok_collect: "is_ok (collect xs) \<longleftrightarrow> list_all is_ok xs"
  by (induction xs rule: collect.induct) (auto split: sum.splits simp: is_ok_def)

lemma canonical_ok: "is_ok (canonical fr v) \<longleftrightarrow> finite_json v"
proof (induction v rule: finite_json.induct)
  case (1 vs)
  then show ?case by (simp add: is_ok_collect list_all_iff)
next
  case (2 kvs)
  then show ?case by (auto simp: is_ok_collect list_all_iff member_text_def)
next
  case (3 n)
  then show ?case by (cases n) auto
qed simp_all

lemma collect_Inl: "collect xs = Inl e \<Longrightarrow> Inl e \<in> set xs"
  by (induction xs rule: collect.induct) (auto split: sum.splits)

lemma canonical_error: "canonical fr v = Inl e \<Longrightarrow> e = AppError VALIDATION_ERROR"
proof (induction v arbitrary: e rule: finite_json.induct)
  case (1 vs)
  from 1(2) obtain e' where "collect (map (canonical fr) vs) = Inl e'" "e = e'"
    by (cases "collect (map (canonical fr) vs)") auto
  then show ?case using 1(1) by (force dest: collect_Inl)
next
  case (2 kvs)
  let ?ms = "map member_text (sort_key fst (map (\<lambda>(k, v). (k, canonical fr v)) kvs))"
  from 2(2) have "collect ?ms = Inl e" by (cases "collect ?ms") auto
  then obtain k v where kv: "(k, v) \<in> set kvs" and "member_text (k, canonical fr v) = Inl e"
    by (force dest: collect_Inl)
  then have "canonical fr v = Inl e" by (cases "canonical fr v") (auto simp: member_text_def)
  with 2(1) kv show ?case by force
qed (auto split: option.splits)

text \<open>The members that every object inherits from \<open>Object.prototype\<close>: the test \<open>key in object\<close> finds them.\<close>

definition inherited :: "string list" where
  "inherited = [''constructor'', ''__defineGetter__'', ''__defineSetter__'', ''hasOwnProperty'',
     ''__lookupGetter__'', ''__lookupSetter__'', ''isPrototypeOf'', ''propertyIsEnumerable'', ''toString'',
     ''valueOf'', ''__proto__'', ''toLocaleString'']"

end
