(* ===== verification/Lifecycle.thy ===== *)
theory Lifecycle
  imports Api_Contracts
begin

text \<open>
  The contract that the table-driven state machines of the modules share (assets, tickets, SLA
  instances, maintenance orders, operations, contracts, suppliers): a table gives the allowed
  targets of each state, and a command moves a row along one edge of the table or leaves it.
\<close>

text \<open>A transition table written as an association list; a missing key is \<open>undefined\<close>.\<close>

definition table_targets :: "('st \<times> 'st list) list \<Rightarrow> 'st \<Rightarrow> 'st list" where
  "table_targets tbl x = (case map_of tbl x of None \<Rightarrow> [] | Some ys \<Rightarrow> ys)"

lemma table_targets_Nil [simp]: "table_targets [] x = []"
  by (simp add: table_targets_def)

lemma table_targets_Cons [simp]:
  "table_targets ((k, ys) # tbl) x = (if x = k then ys else table_targets tbl x)"
  by (simp add: table_targets_def)

text \<open>The targets of every key stay among the keys: a check the kernel evaluates.\<close>

definition table_closed :: "('st \<times> 'st list) list \<Rightarrow> bool" where
  "table_closed tbl \<longleftrightarrow> list_all (\<lambda>(k, ys). list_all (\<lambda>y. y \<in> set (map fst tbl)) ys) tbl"

lemma table_closedD:
  assumes "table_closed tbl" and "y \<in> set (table_targets tbl x)"
  shows "y \<in> set (map fst tbl)"
proof -
  from assms(2) obtain ys where "map_of tbl x = Some ys" and y: "y \<in> set ys"
    by (cases "map_of tbl x") (auto simp: table_targets_def)
  then have "(x, ys) \<in> set tbl" by (simp add: map_of_SomeD)
  with assms(1) y show ?thesis by (force simp: table_closed_def list_all_iff)
qed

locale lifecycle_graph =
  fixes targets :: "'st \<Rightarrow> 'st list"
    and states :: "'st list"
  assumes targets_closed: "y \<in> set (targets x) \<Longrightarrow> y \<in> set states"
begin

definition edge :: "'st \<Rightarrow> 'st \<Rightarrow> bool" where
  "edge x y \<longleftrightarrow> y \<in> set (targets x)"

lemma reach_in_states: "edge\<^sup>*\<^sup>* x y \<Longrightarrow> x \<in> set states \<Longrightarrow> y \<in> set states"
  by (induction rule: rtranclp_induct) (auto simp: edge_def intro: targets_closed)

lemma terminal_reach: "targets x = [] \<Longrightarrow> edge\<^sup>*\<^sup>* x y \<Longrightarrow> y = x"
  by (erule converse_rtranclpE) (auto simp: edge_def)

text \<open>A set of states no edge leaves traps every path that enters it.\<close>

lemma trapped:
  assumes "edge\<^sup>*\<^sup>* x y" and "x \<in> A" and "\<And>u v. u \<in> A \<Longrightarrow> v \<in> set (targets u) \<Longrightarrow> v \<in> A"
  shows "y \<in> A"
  using assms by (induction rule: rtranclp_induct) (auto simp: edge_def)

end

text \<open>
  Commands over such a table. \<open>after\<close> is the state a command leaves behind once its
  transaction has ended, by commit or by rollback, and \<open>state_of\<close> reads the machine's state.
\<close>

locale lifecycle_command = lifecycle_graph targets states
  for targets :: "'st \<Rightarrow> 'st list" and states :: "'st list" +
  fixes after :: "'i \<Rightarrow> 's \<Rightarrow> 's"
    and state_of :: "'s \<Rightarrow> 'st option"
  assumes after_edge:
    "state_of s = Some x \<Longrightarrow> \<exists>y. state_of (after i s) = Some y \<and> (y = x \<or> y \<in> set (targets x))"
begin

fun after_all :: "'i list \<Rightarrow> 's \<Rightarrow> 's" where
  "after_all [] s = s"
| "after_all (i # is) s = after_all is (after i s)"

lemma run_follows_edges:
  assumes "state_of s = Some x"
  shows "\<exists>y. state_of (after_all is s) = Some y \<and> edge\<^sup>*\<^sup>* x y"
  using assms
proof (induction "is" arbitrary: s x)
  case Nil
  then show ?case by simp
next
  case (Cons i "is")
  from after_edge [OF Cons.prems] obtain y
    where y: "state_of (after i s) = Some y" "y = x \<or> edge x y"
    by (auto simp: edge_def)
  from Cons.IH [OF y(1)] obtain z
    where "state_of (after_all is (after i s)) = Some z" "edge\<^sup>*\<^sup>* y z" by blast
  with y(2) show ?case by (auto intro: converse_rtranclp_into_rtranclp)
qed

lemma terminal_absorbing:
  assumes "state_of s = Some x" and "targets x = []"
  shows "state_of (after_all is s) = Some x"
  using run_follows_edges [OF assms(1), of "is"] terminal_reach [OF assms(2)] by blast

lemma run_in_states:
  assumes "state_of s = Some x" and "x \<in> set states"
  shows "\<exists>y\<in>set states. state_of (after_all is s) = Some y"
  using run_follows_edges [OF assms(1), of "is"] reach_in_states assms(2) by blast

end

end
