(* ===== verification/Persistence.thy ===== *)
theory Persistence
  imports Lifecycle
begin

text \<open>
  \<open>packages/persistence/src\<close>: the unit of work (\<open>index.ts\<close>) and the operation registry
  (\<open>operations.ts\<close>). A transaction's work gets the database and returns its outcome, the
  database it leaves, and whether one of its statements failed (PostgreSQL then answers
  COMMIT with ROLLBACK, also when the work swallowed the error). Pool and connection failures
  are not modelled.
\<close>

section \<open>Unit of work\<close>

type_synonym ('s, 'a) work = "'s \<Rightarrow> (exn + 'a) \<times> 's \<times> bool"

definition uow_run :: "string \<Rightarrow> ('s, 'a) work \<Rightarrow> ('s, 'a) call" where
  "uow_run tenantId work s =
     (if blank tenantId then (Inl (JsError ''Tenant context is required''), s)
      else case work s of
             (Inl e, s', aborted) \<Rightarrow> (Inl e, s)
           | (Inr a, s', aborted) \<Rightarrow>
               if aborted then (Inl (JsError ''Transaction did not commit''), s)
               else (Inr a, s'))"

text \<open>Work that lets every statement failure escape as its own error.\<close>

definition plain_work :: "('s, 'a) call \<Rightarrow> ('s, 'a) work" where
  "plain_work f s = (case f s of (r, s') \<Rightarrow> (r, s', False))"

text \<open>
  The interface the modules rely on: a failing call leaves the state as it was, a successful one
  is the work's own.
\<close>

locale transaction_runner =
  fixes run :: "('s, 'a) call \<Rightarrow> ('s, 'a) call"
  assumes rolls_back: "fst (run f s) = Inl e \<Longrightarrow> snd (run f s) = s"
    and commits: "run f s = (Inr a, s') \<Longrightarrow> f s = (Inr a, s')"
begin

lemma all_or_nothing: "snd (run f s) = s \<or> run f s = f s"
proof (cases "run f s")
  case (Pair r s')
  show ?thesis
  proof (cases r)
    case (Inl e)
    with Pair have "fst (run f s) = Inl e" by simp
    then have "snd (run f s) = s" by (rule rolls_back)
    then show ?thesis ..
  next
    case (Inr a)
    with Pair have "run f s = (Inr a, s')" by simp
    then have "f s = (Inr a, s')" by (rule commits)
    with Inr Pair show ?thesis by simp
  qed
qed

text \<open>An invariant that successful calls keep survives every transaction.\<close>

lemma run_invariant:
  assumes "I s" and "\<And>a s'. f s = (Inr a, s') \<Longrightarrow> I s'"
  shows "I (snd (run f s))"
proof (cases "run f s")
  case (Pair r s')
  then show ?thesis
    using commits [of f s _ s'] rolls_back [of f s] assms by (cases r) auto
qed

fun run_calls :: "('s, 'a) call list \<Rightarrow> 's \<Rightarrow> 's" where
  "run_calls [] s = s"
| "run_calls (f # fs) s = run_calls fs (snd (run f s))"

lemma run_calls_invariant:
  assumes "I s" and "\<And>f s a s'. f \<in> set fs \<Longrightarrow> I s \<Longrightarrow> f s = (Inr a, s') \<Longrightarrow> I s'"
  shows "I (run_calls fs s)"
  using assms
proof (induction fs arbitrary: s)
  case Nil
  then show ?case by simp
next
  case (Cons f fs)
  have "I (snd (run f s))"
    by (rule run_invariant) (use Cons.prems in auto)
  moreover have "\<And>g s a s'. g \<in> set fs \<Longrightarrow> I s \<Longrightarrow> g s = (Inr a, s') \<Longrightarrow> I s'"
    using Cons.prems(2) by (meson list.set_intros(2))
  ultimately show ?case using Cons.IH by simp
qed

text \<open>What every successful call relates, a history of calls relates.\<close>

lemma run_calls_related:
  assumes "reflp R" and "transp R" and "\<And>f s a s'. f \<in> set fs \<Longrightarrow> f s = (Inr a, s') \<Longrightarrow> R s s'"
  shows "R s (run_calls fs s)"
proof (rule run_calls_invariant)
  show "R s s" using assms(1) by (rule reflpD)
  fix f u a s'
  assume "f \<in> set fs" and "R s u" and "f u = (Inr a, s')"
  with assms(3) show "R s s'" by (blast intro: transpD [OF assms(2)])
qed

end

lemma uow_run_Inr:
  "uow_run t w s = (Inr a, s') \<longleftrightarrow> \<not> blank t \<and> w s = (Inr a, s', False)"
  by (auto simp: uow_run_def split: prod.splits sum.splits if_splits)

lemma uow_run_Inl: "fst (uow_run t w s) = Inl e \<Longrightarrow> snd (uow_run t w s) = s"
  by (auto simp: uow_run_def split: prod.splits sum.splits if_splits)

definition uow :: "string \<Rightarrow> ('s, 'a) call \<Rightarrow> ('s, 'a) call" where
  "uow t f = uow_run t (plain_work f)"

lemma uow_Inr: "uow t f s = (Inr a, s') \<longleftrightarrow> \<not> blank t \<and> f s = (Inr a, s')"
  by (auto simp: uow_def uow_run_Inr plain_work_def split: prod.splits)

interpretation pg: transaction_runner "uow t" for t
  by unfold_locales (simp_all add: uow_Inr, simp add: uow_def uow_run_Inl)

text \<open>
  A table-driven command on one addressed row, run in a transaction: it demands the version it has
  read and moves the state along the table (or keeps it). Such a command is a versioned command and
  a lifecycle command.
\<close>

locale keyed_machine = lifecycle_graph targets states
  for targets :: "'st \<Rightarrow> 'st list" and states :: "'st list" +
  fixes tenant :: string
    and command :: "'i \<Rightarrow> ('s, 'a) call"
    and expected :: "'i \<Rightarrow> js_number"
    and row_of :: "'s \<Rightarrow> 'r option"
    and version_col :: "'r \<Rightarrow> int"
    and state_col :: "'r \<Rightarrow> 'st"
  assumes moves: "command i s = (Inr a, s') \<Longrightarrow>
    \<exists>r r'. row_of s = Some r \<and> row_of s' = Some r' \<and> expected i = JInt (version_col r)
      \<and> version_col r' = version_col r + 1
      \<and> (state_col r' = state_col r \<or> state_col r' \<in> set (targets (state_col r)))"
begin

definition after_tx :: "'i \<Rightarrow> 's \<Rightarrow> 's" where
  "after_tx i s = snd (uow tenant (command i) s)"

lemma after_tx_edge:
  assumes "map_option state_col (row_of s) = Some x"
  shows "\<exists>y. map_option state_col (row_of (after_tx i s)) = Some y \<and> (y = x \<or> y \<in> set (targets x))"
proof (cases "after_tx i s = s")
  case True
  with assms show ?thesis by auto
next
  case False
  then obtain a where "command i s = (Inr a, after_tx i s)"
    using pg.rolls_back [of tenant "command i" s] pg.commits [of tenant "command i" s]
    unfolding after_tx_def by (metis prod.collapse sum.exhaust)
  from moves [OF this] assms show ?thesis by auto
qed

end

sublocale keyed_machine \<subseteq> versions: versioned_command
  command expected "\<lambda>s. map_option version_col (row_of s)" "\<lambda>_. True"
proof unfold_locales
  fix s i a s'
  assume "command i s = (Inr a, s')"
  from moves [OF this] show "True \<and> (\<exists>v. map_option version_col (row_of s) = Some v \<and> expected i = JInt v
      \<and> map_option version_col (row_of s') = Some (v + 1))"
    by auto
qed

sublocale keyed_machine \<subseteq> paths: lifecycle_command
  targets states after_tx "\<lambda>s. map_option state_col (row_of s)"
  by unfold_locales (rule after_tx_edge)

section \<open>Operation registry\<close>

datatype op_state = QUEUED | RUNNING | WAITING | SUCCEEDED | FAILED | CANCELLED

record operation =
  operation_id :: string
  op_tenant :: string
  op_type :: string
  op_target_type :: string
  op_target_id :: string
  op_state :: op_state
  op_correlation_id :: string
  op_created_at :: int
  op_updated_at :: int
  op_error_code :: "string option"
  op_version :: int

record enqueue_input =
  eq_operation_id :: string
  eq_type :: string
  eq_target_type :: string
  eq_target_id :: string
  eq_correlation_id :: string

definition enqueue :: "string \<Rightarrow> int \<Rightarrow> enqueue_input \<Rightarrow> (operation list, unit) call" where
  "enqueue tenantId now inp ops =
     (case insert_row (\<lambda>x y. operation_id x = operation_id y)
             \<lparr>operation_id = eq_operation_id inp, op_tenant = tenantId, op_type = eq_type inp,
              op_target_type = eq_target_type inp, op_target_id = eq_target_id inp,
              op_state = QUEUED, op_correlation_id = eq_correlation_id inp,
              op_created_at = now, op_updated_at = now, op_error_code = None, op_version = 1\<rparr> ops of
        None \<Rightarrow> (Inl (SqlError ''23505''), ops)
      | Some ops' \<Rightarrow> (Inr (), ops'))"

definition find_operation :: "string \<Rightarrow> string \<Rightarrow> operation list \<Rightarrow> operation option" where
  "find_operation tenantId oid ops =
     find_row (\<lambda>r. operation_id r = oid \<and> op_tenant r = tenantId) ops"

fun op_allowed :: "op_state \<Rightarrow> op_state list" where
  "op_allowed QUEUED = [RUNNING, CANCELLED]"
| "op_allowed RUNNING = [WAITING, SUCCEEDED, FAILED, CANCELLED]"
| "op_allowed WAITING = [RUNNING, FAILED, CANCELLED]"
| "op_allowed SUCCEEDED = []"
| "op_allowed FAILED = []"
| "op_allowed CANCELLED = []"

record transition_input =
  tr_operation_id :: string
  tr_expected_version :: js_number
  tr_from :: op_state
  tr_to :: op_state
  tr_error_code :: "string option"

definition op_transition ::
    "string \<Rightarrow> int \<Rightarrow> transition_input \<Rightarrow> (operation list, unit) call" where
  "op_transition tenantId now inp ops =
     (if tr_to inp \<notin> set (op_allowed (tr_from inp))
      then (Inl (JsError ''Invalid operation transition''), ops)
      else
        let hit = (\<lambda>r. operation_id r = tr_operation_id inp \<and> op_tenant r = tenantId
                     \<and> op_state r = tr_from inp \<and> JInt (op_version r) = tr_expected_version inp)
        in if select_rows hit ops = []
           then (Inl (JsError ''Operation version or state conflict''), ops)
           else (Inr (), update_rows hit
                   (\<lambda>r. r\<lparr>op_state := tr_to inp, op_error_code := tr_error_code inp,
                          op_version := op_version r + 1, op_updated_at := now\<rparr>) ops))"

abbreviation unique_operations :: "operation list \<Rightarrow> bool" where
  "unique_operations \<equiv> unique_rows (\<lambda>x y. operation_id x = operation_id y)"

lemma enqueue_unique:
  "unique_operations ops \<Longrightarrow> enqueue t now inp ops = (Inr (), ops') \<Longrightarrow> unique_operations ops'"
  by (auto simp: enqueue_def split: option.splits elim: unique_rows_insert)

lemma op_transition_unique:
  "unique_operations ops \<Longrightarrow> unique_operations (snd (op_transition t now inp ops))"
  by (auto simp: op_transition_def Let_def intro!: unique_rows_update split: if_splits)

lemma op_transition_Inr:
  assumes "find_operation t (tr_operation_id inp) ops = Some r" and "unique_operations ops"
    and "op_transition t now inp ops = (Inr (), ops')"
  shows "op_state r = tr_from inp \<and> tr_to inp \<in> set (op_allowed (op_state r))
    \<and> tr_expected_version inp = JInt (op_version r)
    \<and> find_operation t (tr_operation_id inp) ops' =
           Some (r\<lparr>op_state := tr_to inp, op_error_code := tr_error_code inp,
                   op_version := op_version r + 1, op_updated_at := now\<rparr>)"
proof -
  let ?hit = "\<lambda>r. operation_id r = tr_operation_id inp \<and> op_tenant r = t
                \<and> op_state r = tr_from inp \<and> JInt (op_version r) = tr_expected_version inp"
  from assms(3) have allowed: "tr_to inp \<in> set (op_allowed (tr_from inp))"
    and ex: "select_rows ?hit ops \<noteq> []"
    and ops': "ops' = update_rows ?hit (\<lambda>r. r\<lparr>op_state := tr_to inp,
          op_error_code := tr_error_code inp, op_version := op_version r + 1,
          op_updated_at := now\<rparr>) ops"
    by (auto simp: op_transition_def Let_def split: if_splits)
  from ex obtain r' where r': "r' \<in> set ops" "?hit r'"
    by (auto simp: select_rows_def filter_empty_conv)
  from assms(1) have r: "r \<in> set ops" "operation_id r = tr_operation_id inp"
    by (auto simp: find_operation_def dest!: find_row_SomeD)
  with r' assms(2) have "r' = r" by (auto intro: unique_rows_keyD)
  with r' have hit: "?hit r" by simp
  have "find_operation t (tr_operation_id inp) ops' =
     map_option (\<lambda>r. if ?hit r then r\<lparr>op_state := tr_to inp,
          op_error_code := tr_error_code inp, op_version := op_version r + 1,
          op_updated_at := now\<rparr> else r) (find_operation t (tr_operation_id inp) ops)"
    unfolding ops' find_operation_def by (rule find_row_update_keep) simp
  with hit allowed assms(1) show ?thesis by simp
qed

text \<open>
  The registry's promises: a transition is a versioned command on the addressed operation, and
  the operation's state only moves along \<open>op_allowed\<close>.
\<close>

lemma op_transition_missing:
  "find_operation t (tr_operation_id inp) ops = None \<Longrightarrow>
     \<exists>e. op_transition t now inp ops = (Inl e, ops)"
  by (auto simp: op_transition_def Let_def find_operation_def find_row_None_iff select_rows_def
      filter_empty_conv)

lemma op_transition_Inl_same: "op_transition t now inp ops = (Inl e, ops') \<Longrightarrow> ops' = ops"
  by (auto simp: op_transition_def Let_def split: if_splits)

definition op_states :: "op_state list" where
  "op_states = [QUEUED, RUNNING, WAITING, SUCCEEDED, FAILED, CANCELLED]"

text \<open>A transition tagged with the operation it addresses and the clock it reads.\<close>

definition op_command :: "string \<Rightarrow> string \<Rightarrow> int \<times> transition_input \<Rightarrow> (operation list, unit) call" where
  "op_command t oid i = op_transition t (fst i) ((snd i)\<lparr>tr_operation_id := oid\<rparr>)"

interpretation op_versions: versioned_command
  "op_command t oid" "\<lambda>i. tr_expected_version (snd i)"
  "\<lambda>ops. map_option op_version (find_operation t oid ops)" unique_operations
  for t oid
proof unfold_locales
  fix i ops and a :: unit and ops'
  assume u: "unique_operations ops" and ok: "op_command t oid i ops = (Inr a, ops')"
  let ?i = "(snd i)\<lparr>tr_operation_id := oid\<rparr>"
  from ok have tr: "op_transition t (fst i) ?i ops = (Inr (), ops')"
    by (simp add: op_command_def)
  then obtain r where r: "find_operation t (tr_operation_id ?i) ops = Some r"
    using op_transition_missing [of t ?i ops "fst i"] by fastforce
  from op_transition_Inr [OF r u tr] r op_transition_unique [OF u, of t "fst i" ?i] tr
  show "unique_operations ops' \<and> (\<exists>v. map_option op_version (find_operation t oid ops) = Some v
     \<and> tr_expected_version (snd i) = JInt v
     \<and> map_option op_version (find_operation t oid ops') = Some (v + 1))"
    by auto
qed

lemma op_command_state:
  assumes "find_operation t oid ops = Some r"
  shows "\<exists>r'. find_operation t oid (snd (op_command t oid i ops)) = Some r'
     \<and> (op_state r' = op_state r \<or> op_state r' \<in> set (op_allowed (op_state r)))"
proof (cases "op_command t oid i ops")
  case (Pair res ops')
  show ?thesis
  proof (cases res)
    case (Inl e)
    with Pair assms show ?thesis by (auto simp: op_command_def dest: op_transition_Inl_same)
  next
    case (Inr u)
    let ?i = "(snd i)\<lparr>tr_operation_id := oid\<rparr>"
    let ?hit = "\<lambda>r. operation_id r = oid \<and> op_tenant r = t
                \<and> op_state r = tr_from ?i \<and> JInt (op_version r) = tr_expected_version ?i"
    let ?f = "\<lambda>r. r\<lparr>op_state := tr_to ?i, op_error_code := tr_error_code ?i,
                op_version := op_version r + 1, op_updated_at := fst i\<rparr>"
    from Inr Pair have allowed: "tr_to ?i \<in> set (op_allowed (tr_from ?i))"
      and ops': "ops' = update_rows ?hit ?f ops"
      by (auto simp: op_command_def op_transition_def Let_def split: if_splits)
    have "find_operation t oid ops' = map_option (\<lambda>r. if ?hit r then ?f r else r) (find_operation t oid ops)"
      unfolding ops' find_operation_def by (rule find_row_update_keep) simp
    with assms allowed Pair show ?thesis by auto
  qed
qed

interpretation op_lifecycle: lifecycle_command
  op_allowed op_states "\<lambda>i ops. snd (op_command t oid i ops)"
  "\<lambda>ops. map_option op_state (find_operation t oid ops)"
  for t oid
proof unfold_locales
  show "y \<in> set op_states" for y by (cases y) (simp_all add: op_states_def)
next
  fix ops x i
  assume "map_option op_state (find_operation t oid ops) = Some x"
  then show "\<exists>y. map_option op_state (find_operation t oid (snd (op_command t oid i ops))) = Some y
     \<and> (y = x \<or> y \<in> set (op_allowed x))"
    using op_command_state by fastforce
qed

text \<open>A transition addressed to another operation leaves this one alone.\<close>

lemma op_transition_other:
  assumes "tr_operation_id inp \<noteq> oid"
  shows "find_operation t oid (snd (op_transition t' now inp ops)) = find_operation t oid ops"
  using assms unfolding op_transition_def find_operation_def Let_def
  by (auto intro!: find_row_update_other)

end
