(* ===== verification/Messaging.thy ===== *)
theory Messaging
  imports Json_Text Persistence
begin

text \<open>
  \<open>packages/messaging/src\<close>: the transactional outbox, the inbox and its consumer
  (\<open>index.ts\<close>), and the idempotency store (\<open>idempotency.ts\<close>), over the tables of
  \<open>database/migrations/platform/20260911_001_platform.sql\<close>. Envelope validation is the JSON
  schema check of a third-party library and is the parameter \<open>valid\<close>. Fresh UUIDs and clock
  readings are arguments.
\<close>

section \<open>Events and the outbox\<close>

record event =
  ev_id :: string
  ev_type :: string
  ev_schema_version :: int
  ev_occurred_at :: string
  ev_published_at :: string
  ev_producer :: "string \<times> string"
  ev_aggregate_type :: string
  ev_aggregate_id :: string
  ev_aggregate_version :: int
  ev_actor_type :: string
  ev_actor_id :: "string option"
  ev_correlation_id :: string
  ev_causation_id :: string
  ev_tenant :: string
  ev_organization_id :: string
  ev_idempotency_key :: string
  ev_payload :: json

datatype outbox_status = PENDING | PUBLISHED | OUTBOX_FAILED

record outbox_row =
  ob_id :: string
  ob_event :: event
  ob_status :: outbox_status
  ob_attempts :: nat
  ob_created_at :: int
  ob_published_at :: "int option"

definition assertEvent :: "(event \<Rightarrow> bool) \<Rightarrow> event \<Rightarrow> exn + unit" where
  "assertEvent valid e = (if valid e then Inr () else Inl (JsError ''Invalid event envelope''))"

text \<open>Primary key and \<open>event_id\<close> of the outbox table.\<close>

definition outbox_clash :: "outbox_row \<Rightarrow> outbox_row \<Rightarrow> bool" where
  "outbox_clash x y \<longleftrightarrow> ob_id x = ob_id y \<or> ev_id (ob_event x) = ev_id (ob_event y)"

definition outbox_append ::
    "(event \<Rightarrow> bool) \<Rightarrow> string \<Rightarrow> int \<Rightarrow> string \<Rightarrow> string \<Rightarrow> event \<Rightarrow> (outbox_row list, unit) call" where
  "outbox_append valid tenantId now published_at rid ev ob =
     (let envelope = ev\<lparr>ev_published_at := published_at\<rparr> in
      case assertEvent valid envelope of
        Inl e \<Rightarrow> (Inl e, ob)
      | Inr _ \<Rightarrow>
          if ev_tenant ev \<noteq> tenantId then (Inl (JsError ''Outbox tenant mismatch''), ob)
          else case insert_row outbox_clash
                 \<lparr>ob_id = rid, ob_event = envelope, ob_status = PENDING, ob_attempts = 0,
                  ob_created_at = now, ob_published_at = None\<rparr> ob of
            None \<Rightarrow> (Inl (SqlError ''23505''), ob)
          | Some ob' \<Rightarrow> (Inr (), ob'))"

text \<open>
  \<open>claimPending\<close>: the subquery takes the oldest pending rows that no other transaction has
  locked (\<open>FOR UPDATE SKIP LOCKED\<close>; \<open>locked\<close> says which are), the update counts the
  attempt and returns the payloads. It does not change the status: an event stays pending, and
  is delivered again, until \<open>markPublished\<close>.
\<close>

definition claimed_ids :: "(string \<Rightarrow> bool) \<Rightarrow> nat \<Rightarrow> outbox_row list \<Rightarrow> string list" where
  "claimed_ids locked n ob =
     take n (map ob_id (sort_key ob_created_at
       (select_rows (\<lambda>r. ob_status r = PENDING \<and> \<not> locked (ob_id r)) ob)))"

definition claimPending :: "(string \<Rightarrow> bool) \<Rightarrow> js_number \<Rightarrow> (outbox_row list, event list) call" where
  "claimPending locked limit ob =
     (if \<not> is_safe_integer limit \<or> js_int limit < 1 \<or> js_int limit > 500
      then (Inl (JsError ''Invalid outbox batch size''), ob)
      else
        let ids = claimed_ids locked (nat (js_int limit)) ob;
            hit = (\<lambda>r. ob_id r \<in> set ids)
        in (Inr (map ob_event (select_rows hit ob)),
            update_rows hit (\<lambda>r. r\<lparr>ob_attempts := ob_attempts r + 1\<rparr>) ob))"

definition markPublished :: "string \<Rightarrow> int \<Rightarrow> string \<Rightarrow> (outbox_row list, unit) call" where
  "markPublished tenantId now eventId ob =
     (Inr (), update_rows
        (\<lambda>r. ev_id (ob_event r) = eventId \<and> ev_tenant (ob_event r) = tenantId \<and> ob_status r = PENDING)
        (\<lambda>r. r\<lparr>ob_status := PUBLISHED, ob_published_at := Some now\<rparr>) ob)"

lemma outbox_append_Inr:
  "outbox_append valid t now p rid ev ob = (Inr u, ob') \<longleftrightarrow>
     valid (ev\<lparr>ev_published_at := p\<rparr>) \<and> ev_tenant ev = t \<and>
     insert_row outbox_clash
       \<lparr>ob_id = rid, ob_event = ev\<lparr>ev_published_at := p\<rparr>, ob_status = PENDING, ob_attempts = 0,
        ob_created_at = now, ob_published_at = None\<rparr> ob = Some ob'"
  by (auto simp: outbox_append_def assertEvent_def Let_def split: option.splits)

lemma outbox_append_Inl_same: "outbox_append valid t now p rid ev ob = (Inl e, ob') \<Longrightarrow> ob' = ob"
  by (auto simp: outbox_append_def assertEvent_def Let_def split: option.splits if_splits)

section \<open>The inbox\<close>

datatype inbox_status = NOT_PROCESSED | PROCESSED | INBOX_FAILED

record inbox_row =
  ib_consumer :: string
  ib_event_id :: string
  ib_tenant :: string
  ib_status :: inbox_status
  ib_processed_at :: "int option"
  ib_error_code :: "string option"

abbreviation inbox_key :: "string \<Rightarrow> string \<Rightarrow> inbox_row \<Rightarrow> bool" where
  "inbox_key c e r \<equiv> ib_consumer r = c \<and> ib_event_id r = e"

text \<open>
  \<open>claim\<close> is one upsert. Where the row is new it is inserted; on a conflict it is reset,
  but only while it is unprocessed or failed and of the same tenant. The result is whether the
  statement returned a row.
\<close>

definition inbox_claim :: "string \<Rightarrow> string \<Rightarrow> string \<Rightarrow> (inbox_row list, bool) call" where
  "inbox_claim tenantId consumer eventId ib =
     (if blank consumer then (Inl (JsError ''Consumer namespace required''), ib)
      else case find_row (inbox_key consumer eventId) ib of
             None \<Rightarrow> (Inr True, ib @ [\<lparr>ib_consumer = consumer, ib_event_id = eventId,
                        ib_tenant = tenantId, ib_status = NOT_PROCESSED, ib_processed_at = None,
                        ib_error_code = None\<rparr>])
           | Some r \<Rightarrow>
               if ib_status r \<in> {NOT_PROCESSED, INBOX_FAILED} \<and> ib_tenant r = tenantId
               then (Inr True, update_rows (inbox_key consumer eventId)
                      (\<lambda>r. r\<lparr>ib_status := NOT_PROCESSED, ib_error_code := None\<rparr>) ib)
               else (Inr False, ib))"

definition inbox_processed :: "string \<Rightarrow> int \<Rightarrow> string \<Rightarrow> string \<Rightarrow> (inbox_row list, unit) call" where
  "inbox_processed tenantId now consumer eventId ib =
     (Inr (), update_rows (\<lambda>r. inbox_key consumer eventId r \<and> ib_tenant r = tenantId)
        (\<lambda>r. r\<lparr>ib_status := PROCESSED, ib_processed_at := Some now\<rparr>) ib)"

text \<open>The mark a failed delivery leaves, in a transaction of its own.\<close>

definition inbox_fail :: "string \<Rightarrow> string \<Rightarrow> string \<Rightarrow> (inbox_row list, unit) call" where
  "inbox_fail tenantId consumer eventId ib =
     (case find_row (inbox_key consumer eventId) ib of
        None \<Rightarrow> (Inr (), ib @ [\<lparr>ib_consumer = consumer, ib_event_id = eventId,
                   ib_tenant = tenantId, ib_status = INBOX_FAILED, ib_processed_at = None,
                   ib_error_code = Some ''CONSUMER_FAILED''\<rparr>])
      | Some r \<Rightarrow>
          if ib_status r = NOT_PROCESSED \<and> ib_tenant r = tenantId
          then (Inr (), update_rows (inbox_key consumer eventId)
                 (\<lambda>r. r\<lparr>ib_status := INBOX_FAILED, ib_error_code := Some ''CONSUMER_FAILED''\<rparr>) ib)
          else (Inr (), ib))"

datatype delivery = Processed | Duplicate

text \<open>The database a consumer works on: the inbox and the domain tables of its handler.\<close>

record 'd consumer_db =
  inbox :: "inbox_row list"
  cdomain :: 'd

definition on_inbox :: "(inbox_row list, 'a) call \<Rightarrow> ('d consumer_db, 'a) call" where
  "on_inbox f s = (case f (inbox s) of (r, ib) \<Rightarrow> (r, s\<lparr>inbox := ib\<rparr>))"

definition on_domain :: "('d, 'a) call \<Rightarrow> ('d consumer_db, 'a) call" where
  "on_domain f s = (case f (cdomain s) of (r, d) \<Rightarrow> (r, s\<lparr>cdomain := d\<rparr>))"

text \<open>
  The body of a delivery over an inbox: claim, handle, mark. It takes the inbox operations as
  arguments, as \<open>consume\<close> takes them from the store.
\<close>

definition deliver ::
    "('s, bool) call \<Rightarrow> ('s, unit) call \<Rightarrow> ('s, unit) call \<Rightarrow> ('s, delivery) call" where
  "deliver claim processed handle s =
     (case claim s of
        (Inl e, s1) \<Rightarrow> (Inl e, s1)
      | (Inr False, s1) \<Rightarrow> (Inr Duplicate, s1)
      | (Inr True, s1) \<Rightarrow>
          (case handle s1 of
             (Inl e, s2) \<Rightarrow> (Inl e, s2)
           | (Inr _, s2) \<Rightarrow>
               (case processed s2 of
                  (Inl e, s3) \<Rightarrow> (Inl e, s3)
                | (Inr _, s3) \<Rightarrow> (Inr Processed, s3))))"

definition consume ::
    "(event \<Rightarrow> bool) \<Rightarrow> int \<Rightarrow> string \<Rightarrow> (event \<Rightarrow> ('d, unit) call) \<Rightarrow> event
       \<Rightarrow> ('d consumer_db, delivery) call" where
  "consume valid now consumer handler ev s =
     (case assertEvent valid ev of
        Inl e \<Rightarrow> (Inl e, s)
      | Inr _ \<Rightarrow>
          let t = ev_tenant ev in
          case uow t (deliver (on_inbox (inbox_claim t consumer (ev_id ev)))
                        (on_inbox (inbox_processed t now consumer (ev_id ev)))
                        (on_domain (handler ev))) s of
            (Inr d, s1) \<Rightarrow> (Inr d, s1)
          | (Inl e, s1) \<Rightarrow>
              (case uow t (on_inbox (inbox_fail t consumer (ev_id ev))) s1 of
                 (Inl e2, s2) \<Rightarrow> (Inl e2, s2)
               | (Inr _, s2) \<Rightarrow> (Inl e, s2)))"

text \<open>
  The interface \<open>InboxStore\<close>: once an event is settled, claiming it answers false and changes
  nothing, and a claimed event that is marked processed is settled.
\<close>

locale inbox_store =
  fixes claim :: "('s, bool) call"
    and processed :: "('s, unit) call"
    and settled :: "'s \<Rightarrow> bool"
    and inbox_of :: "'s \<Rightarrow> 'b"
  assumes claim_settled: "settled s \<Longrightarrow> claim s = (Inr False, s)"
    and processed_settles:
      "claim s = (Inr True, s1) \<Longrightarrow> inbox_of s2 = inbox_of s1 \<Longrightarrow> processed s2 = (Inr u, s3) \<Longrightarrow> settled s3"
begin

lemma deliver_duplicate: "settled s \<Longrightarrow> deliver claim processed handle s = (Inr Duplicate, s)"
  by (simp add: deliver_def claim_settled)

lemma deliver_settles:
  assumes "deliver claim processed handle s = (Inr Processed, s')"
    and "\<And>s r s'. handle s = (r, s') \<Longrightarrow> inbox_of s' = inbox_of s"
  shows "settled s'"
proof -
  from assms(1) obtain s1 s2 u v where "claim s = (Inr True, s1)" and h: "handle s1 = (Inr u, s2)"
    and "processed s2 = (Inr v, s')"
    by (auto simp: deliver_def split: prod.splits sum.splits bool.splits)
  with assms(2) [OF h] show ?thesis by (blast intro: processed_settles)
qed

text \<open>A processed event is handled once, whatever the handler of the second delivery does.\<close>

lemma deliver_twice:
  assumes "deliver claim processed handle s = (Inr Processed, s')"
    and "\<And>s r s'. handle s = (r, s') \<Longrightarrow> inbox_of s' = inbox_of s"
  shows "deliver claim processed handle' s' = (Inr Duplicate, s')"
  using deliver_settles [OF assms] by (rule deliver_duplicate)

end

definition inbox_settled :: "string \<Rightarrow> string \<Rightarrow> string \<Rightarrow> inbox_row list \<Rightarrow> bool" where
  "inbox_settled t c e ib \<longleftrightarrow> \<not> blank c \<and>
     (case find_row (inbox_key c e) ib of None \<Rightarrow> False
      | Some r \<Rightarrow> ib_status r = PROCESSED \<or> ib_tenant r \<noteq> t)"

lemma find_row_processed:
  "find_row (inbox_key c e') (snd (inbox_processed t now c e ib)) =
     map_option (\<lambda>r. if ib_event_id r = e \<and> ib_tenant r = t
        then r\<lparr>ib_status := PROCESSED, ib_processed_at := Some now\<rparr> else r)
      (find_row (inbox_key c e') ib)"
proof -
  let ?hit = "\<lambda>r. inbox_key c e r \<and> ib_tenant r = t"
  let ?f = "\<lambda>r. r\<lparr>ib_status := PROCESSED, ib_processed_at := Some now\<rparr>"
  have "find_row (inbox_key c e') (update_rows ?hit ?f ib)
      = map_option (\<lambda>r. if ?hit r then ?f r else r) (find_row (inbox_key c e') ib)"
    by (rule find_row_update_keep) simp
  then show ?thesis
    by (auto simp: inbox_processed_def dest: find_row_SomeD intro!: option.map_cong)
qed

lemma inbox_claim_True:
  assumes "inbox_claim t c e ib = (Inr True, ib')"
  shows "\<not> blank c \<and> (\<exists>r. find_row (inbox_key c e) ib' = Some r \<and> ib_tenant r = t)"
proof (cases "find_row (inbox_key c e) ib")
  case None
  with assms show ?thesis by (auto simp: inbox_claim_def table_simps split: if_splits)
next
  case (Some r)
  let ?f = "\<lambda>r. r\<lparr>ib_status := NOT_PROCESSED, ib_error_code := None\<rparr>"
  have "find_row (inbox_key c e) (update_rows (inbox_key c e) ?f ib) = Some (?f r)"
    by (subst find_row_update_same) (simp_all add: Some)
  with Some assms show ?thesis by (auto simp: inbox_claim_def split: if_splits)
qed

interpretation pg_inbox: inbox_store
  "on_inbox (inbox_claim t c e)" "on_inbox (inbox_processed t now c e)"
  "\<lambda>s. inbox_settled t c e (inbox s)" inbox
  for t c e now
proof unfold_locales
  fix s :: "'a consumer_db"
  assume "inbox_settled t c e (inbox s)"
  then show "on_inbox (inbox_claim t c e) s = (Inr False, s)"
    by (auto simp: inbox_settled_def on_inbox_def inbox_claim_def split: option.splits)
next
  fix s s1 s2 s3 :: "'a consumer_db" and u
  assume c: "on_inbox (inbox_claim t c e) s = (Inr True, s1)" and same: "inbox s2 = inbox s1"
    and p: "on_inbox (inbox_processed t now c e) s2 = (Inr u, s3)"
  from c have "inbox_claim t c e (inbox s) = (Inr True, inbox s1)"
    by (auto simp: on_inbox_def split: prod.splits)
  then obtain r where r: "\<not> blank c" "find_row (inbox_key c e) (inbox s1) = Some r" "ib_tenant r = t"
    using inbox_claim_True by blast
  from p have "inbox s3 = snd (inbox_processed t now c e (inbox s2))"
    by (auto simp: on_inbox_def split: prod.splits)
  with r same find_row_SomeD [OF r(2)] show "inbox_settled t c e (inbox s3)"
    by (simp add: inbox_settled_def find_row_processed)
qed

lemma on_domain_inbox: "on_domain f s = (r, s') \<Longrightarrow> inbox s' = inbox s"
  by (auto simp: on_domain_def split: prod.splits)

lemma consume_Inr:
  "consume valid now c h ev s = (Inr d, s') \<longleftrightarrow>
     valid ev \<and> \<not> blank (ev_tenant ev) \<and>
     deliver (on_inbox (inbox_claim (ev_tenant ev) c (ev_id ev)))
        (on_inbox (inbox_processed (ev_tenant ev) now c (ev_id ev))) (on_domain (h ev)) s = (Inr d, s')"
proof -
  let ?w = "deliver (on_inbox (inbox_claim (ev_tenant ev) c (ev_id ev)))
        (on_inbox (inbox_processed (ev_tenant ev) now c (ev_id ev))) (on_domain (h ev))"
  have "consume valid now c h ev s = (Inr d, s') \<longleftrightarrow> valid ev \<and> uow (ev_tenant ev) ?w s = (Inr d, s')"
    by (cases "uow (ev_tenant ev) ?w s")
      (auto simp: consume_def assertEvent_def Let_def split: sum.splits prod.splits)
  then show ?thesis by (simp add: uow_Inr)
qed

lemma consume_settles:
  assumes "consume valid now c h ev s = (Inr Processed, s')"
  shows "inbox_settled (ev_tenant ev) c (ev_id ev) (inbox s')"
  using assms unfolding consume_Inr by (blast intro: pg_inbox.deliver_settles on_domain_inbox)

lemma consume_settled:
  assumes "inbox_settled (ev_tenant ev) c (ev_id ev) (inbox s)"
    and "valid ev" and "\<not> blank (ev_tenant ev)"
  shows "consume valid now c h ev s = (Inr Duplicate, s)"
  using assms unfolding consume_Inr by (simp add: pg_inbox.deliver_duplicate)

text \<open>A failed delivery leaves the domain as it was.\<close>

lemma consume_failed_domain:
  assumes "consume valid now c h ev s = (Inl e, s')"
  shows "cdomain s' = cdomain s"
proof -
  have fail: "cdomain (snd (on_inbox f s)) = cdomain s" for f :: "(inbox_row list, unit) call" and s
    by (simp add: on_inbox_def split: prod.splits)
  have uow_fail: "cdomain (snd (uow t (on_inbox f) s)) = cdomain s"
    for t s and f :: "(inbox_row list, unit) call"
    using pg.all_or_nothing [of t "on_inbox f" s] fail [of f s] by auto
  show ?thesis
  proof (cases "valid ev")
    case False
    with assms show ?thesis by (simp add: consume_def assertEvent_def)
  next
    case True
    let ?w = "deliver (on_inbox (inbox_claim (ev_tenant ev) c (ev_id ev)))
        (on_inbox (inbox_processed (ev_tenant ev) now c (ev_id ev))) (on_domain (h ev))"
    obtain r s1 where u: "uow (ev_tenant ev) ?w s = (r, s1)" by (cases "uow (ev_tenant ev) ?w s")
    with assms True obtain e1 where r: "r = Inl e1"
      by (cases r) (auto simp: consume_def assertEvent_def Let_def)
    with u have "s1 = s" using pg.rolls_back [of "ev_tenant ev" ?w s e1] by simp
    with assms True u r have "s' = snd (uow (ev_tenant ev) (on_inbox (inbox_fail (ev_tenant ev) c (ev_id ev))) s)"
      by (auto simp: consume_def assertEvent_def Let_def split: prod.splits sum.splits)
    then show ?thesis using uow_fail by simp
  qed
qed

text \<open>Deliveries one after the other, whatever each returned.\<close>

fun consume_all ::
    "(event \<Rightarrow> bool) \<Rightarrow> int \<Rightarrow> string \<Rightarrow> (event \<Rightarrow> ('d, unit) call) \<Rightarrow> event list
       \<Rightarrow> 'd consumer_db \<Rightarrow> 'd consumer_db" where
  "consume_all valid now c h [] s = s"
| "consume_all valid now c h (e # es) s =
     consume_all valid now c h es (snd (consume valid now c h e s))"

text \<open>The first delivery of each event id, in order.\<close>

fun first_deliveries :: "string list \<Rightarrow> event list \<Rightarrow> event list" where
  "first_deliveries seen [] = []"
| "first_deliveries seen (e # es) =
     (if ev_id e \<in> set seen then first_deliveries seen es
      else e # first_deliveries (ev_id e # seen) es)"

text \<open>The inbox of a consumer that has processed exactly the events \<open>seen\<close> of a tenant.\<close>

definition inbox_at :: "string \<Rightarrow> string \<Rightarrow> string list \<Rightarrow> inbox_row list \<Rightarrow> bool" where
  "inbox_at t c seen ib \<longleftrightarrow>
     (\<forall>e. if e \<in> set seen then inbox_settled t c e ib else find_row (inbox_key c e) ib = None)"

lemma consume_fresh:
  assumes "find_row (inbox_key c (ev_id ev)) (inbox s) = None" and "valid ev"
    and "\<not> blank (ev_tenant ev)" and "\<not> blank c" and "h ev (cdomain s) = (Inr (), d)"
  obtains s' where "consume valid now c h ev s = (Inr Processed, s')" and "cdomain s' = d"
    and "\<And>e. e \<noteq> ev_id ev \<Longrightarrow> find_row (inbox_key c e) (inbox s') = find_row (inbox_key c e) (inbox s)"
proof
  let ?row = "\<lparr>ib_consumer = c, ib_event_id = ev_id ev, ib_tenant = ev_tenant ev,
                ib_status = NOT_PROCESSED, ib_processed_at = None, ib_error_code = None\<rparr>"
  let ?s = "s\<lparr>inbox := snd (inbox_processed (ev_tenant ev) now c (ev_id ev) (inbox s @ [?row])), cdomain := d\<rparr>"
  show "consume valid now c h ev s = (Inr Processed, ?s)"
    unfolding consume_Inr using assms
    by (simp add: deliver_def on_inbox_def on_domain_def inbox_claim_def inbox_processed_def)
  show "cdomain ?s = d" by simp
  show "find_row (inbox_key c e) (inbox ?s) = find_row (inbox_key c e) (inbox s)"
    if "e \<noteq> ev_id ev" for e
  proof -
    have "find_row (inbox_key c e) (inbox ?s) =
        map_option (\<lambda>r. if ib_event_id r = ev_id ev \<and> ib_tenant r = ev_tenant ev
          then r\<lparr>ib_status := PROCESSED, ib_processed_at := Some now\<rparr> else r)
        (find_row (inbox_key c e) (inbox s))"
      using that by (simp add: find_row_processed find_row_append find_row_Cons find_row_Nil split: option.splits)
    also have "\<dots> = find_row (inbox_key c e) (inbox s)"
      using that by (cases "find_row (inbox_key c e) (inbox s)") (auto dest: find_row_SomeD)
    finally show ?thesis .
  qed
qed

lemma consume_all_first:
  assumes "inbox_at t c seen (inbox s)" and "\<not> blank t" and "\<not> blank c"
    and "\<forall>e\<in>set es. valid e \<and> ev_tenant e = t" and "\<And>e d. h e d = (Inr (), g e d)"
  shows "cdomain (consume_all valid now c h es s) = fold g (first_deliveries seen es) (cdomain s)"
  using assms
proof (induction es arbitrary: seen s)
  case Nil
  then show ?case by simp
next
  case (Cons e es)
  from Cons.prems(4) have e: "valid e" "ev_tenant e = t" by auto
  show ?case
  proof (cases "ev_id e \<in> set seen")
    case True
    with Cons.prems(1) have "inbox_settled (ev_tenant e) c (ev_id e) (inbox s)"
      by (auto simp: inbox_at_def e)
    then have "consume valid now c h e s = (Inr Duplicate, s)"
      using Cons.prems(2) e by (intro consume_settled) simp_all
    with Cons.IH [OF Cons.prems(1,2,3) _ Cons.prems(5)] Cons.prems(4) True show ?thesis by simp
  next
    case False
    with Cons.prems(1) have new: "find_row (inbox_key c (ev_id e)) (inbox s) = None"
      by (auto simp: inbox_at_def)
    show ?thesis
    proof (rule consume_fresh [of c e s valid h "g e (cdomain s)" now])
      show "find_row (inbox_key c (ev_id e)) (inbox s) = None" by (rule new)
      show "valid e" "\<not> blank (ev_tenant e)" "\<not> blank c" "h e (cdomain s) = (Inr (), g e (cdomain s))"
        using e Cons.prems by simp_all
    next
      fix s'
      assume s': "consume valid now c h e s = (Inr Processed, s')" "cdomain s' = g e (cdomain s)"
        and other: "\<And>k. k \<noteq> ev_id e \<Longrightarrow>
          find_row (inbox_key c k) (inbox s') = find_row (inbox_key c k) (inbox s)"
      have "inbox_at t c (ev_id e # seen) (inbox s')"
        unfolding inbox_at_def
      proof
        fix k
        show "if k \<in> set (ev_id e # seen) then inbox_settled t c k (inbox s')
              else find_row (inbox_key c k) (inbox s') = None"
          using Cons.prems(1) [unfolded inbox_at_def, rule_format, of k] other [of k]
            consume_settles [OF s'(1)] e
          by (cases "k = ev_id e") (auto simp: inbox_settled_def split: if_splits)
      qed
      from Cons.IH [OF this Cons.prems(2,3) _ Cons.prems(5)] Cons.prems(4) s' False
      show ?thesis by simp
    qed
  qed
qed

section \<open>The environment of a call\<close>

text \<open>The clock, the UUIDs a call draws in order, and the envelope check.\<close>

record call_env =
  env_now :: int
  env_iso :: string
  env_uuid :: "nat \<Rightarrow> string"
  env_valid_event :: "event \<Rightarrow> bool"

end
