(* ===== verification/Auth.thy ===== *)
theory Auth
  imports Api_Contracts
begin

text \<open>
  \<open>packages/auth/src/index.ts\<close>: principals, the authorization port and its guard
  \<open>authorize\<close>, bearer tokens, request authentication with its per-request memo, and the
  step-up check. The authentication adapter is a port, so a parameter.
\<close>

section \<open>Principals and authorization\<close>

record principal =
  pr_id :: string
  pr_tenant :: string
  pr_actor_type :: string
  pr_auth_time :: "js_number option"
  pr_acr :: "string option"
  pr_amr :: "string list option"

record auth_request =
  rq_principal :: principal
  rq_action :: string
  rq_resource_type :: string
  rq_resource_id :: string
  rq_resource_tenant :: string
  rq_scope :: "(string \<times> string) list"

datatype auth_result = ALLOW | DENY

text \<open>A port may throw; a decision is its result (the reason text is left out).\<close>

type_synonym auth_port = "auth_request \<Rightarrow> exn + auth_result"

definition denyAll :: auth_port where
  "denyAll rq = Inr DENY"

definition authorize :: "auth_port \<Rightarrow> auth_request \<Rightarrow> exn + unit" where
  "authorize port rq =
     (let p = rq_principal rq in
      if pr_id p = [] \<or> pr_tenant p = [] \<or> pr_tenant p \<noteq> rq_resource_tenant rq
      then Inl (AppError PERMISSION_DENIED)
      else case port rq of
             Inl e \<Rightarrow> Inl e
           | Inr d \<Rightarrow> if d \<noteq> ALLOW then Inl (AppError PERMISSION_DENIED) else Inr ())"

lemma authorize_Inr:
  "authorize port rq = Inr u \<longleftrightarrow>
     pr_id (rq_principal rq) \<noteq> [] \<and> pr_tenant (rq_principal rq) \<noteq> [] \<and>
     pr_tenant (rq_principal rq) = rq_resource_tenant rq \<and> port rq = Inr ALLOW"
  by (auto simp: authorize_def Let_def split: sum.splits)

text \<open>
  The interface of an authorization port: it allows only what a grant of the requesting tenant
  covers. Through \<open>authorize\<close> a handler reaches a resource only with such a grant, and only
  in its own tenant.
\<close>

locale authorization_port =
  fixes port :: auth_port
    and granted :: "string \<Rightarrow> auth_request \<Rightarrow> bool"
  assumes allow_granted: "port rq = Inr ALLOW \<Longrightarrow> granted (pr_tenant (rq_principal rq)) rq"
begin

lemma authorized_granted: "authorize port rq = Inr u \<Longrightarrow> granted (rq_resource_tenant rq) rq"
  by (auto simp: authorize_Inr dest: allow_granted)

lemma ungranted_refused:
  assumes "\<not> granted (rq_resource_tenant rq) rq"
  shows "\<exists>e. authorize port rq = Inl e"
proof (cases "authorize port rq")
  case (Inr u)
  with authorized_granted assms show ?thesis by blast
qed simp

end

interpretation deny_all: authorization_port denyAll "\<lambda>t rq. False"
  by unfold_locales (simp add: denyAll_def)

section \<open>Bearer tokens\<close>

definition ascii_lower :: "char \<Rightarrow> char" where
  "ascii_lower c = (let n = (of_char c :: nat) in if 65 \<le> n \<and> n \<le> 90 then char_of (n + 32) else c)"

definition token_sep :: "char \<Rightarrow> bool" where
  "token_sep c \<longleftrightarrow> (of_char c :: nat) = 32 \<or> (of_char c :: nat) = 9"

text \<open>The match of \<open>/^Bearer[ \t]+([^ \t]+)$/i\<close>; a missing header is the empty one.\<close>

definition bearerToken :: "string option \<Rightarrow> exn + string" where
  "bearerToken header =
     (let h = (case header of None \<Rightarrow> [] | Some s \<Rightarrow> s);
          rest = drop 6 h;
          token = dropWhile token_sep rest
      in if map ascii_lower (take 6 h) = ''bearer'' \<and> rest \<noteq> [] \<and> token_sep (hd rest)
            \<and> token \<noteq> [] \<and> list_all (\<lambda>c. \<not> token_sep c) token
         then Inr token
         else Inl (AppError AUTHENTICATION_REQUIRED))"

lemma bearerToken_Inr:
  assumes "bearerToken header = Inr token"
  shows "token \<noteq> [] \<and> (\<forall>c\<in>set token. \<not> token_sep c) \<and>
    (\<exists>scheme seps. header = Some (scheme @ seps @ token) \<and> map ascii_lower scheme = ''bearer'' \<and>
       seps \<noteq> [] \<and> (\<forall>c\<in>set seps. token_sep c))"
proof -
  let ?h = "case header of None \<Rightarrow> [] | Some s \<Rightarrow> s"
  let ?rest = "drop 6 ?h"
  from assms have t: "token = dropWhile token_sep ?rest" "token \<noteq> []" "\<forall>c\<in>set token. \<not> token_sep c"
    and b: "map ascii_lower (take 6 ?h) = ''bearer''" "?rest \<noteq> []" "token_sep (hd ?rest)"
    by (auto simp: bearerToken_def Let_def list_all_iff split: if_splits)
  have "takeWhile token_sep ?rest \<noteq> []" using b by (cases ?rest) auto
  moreover have "\<forall>c\<in>set (takeWhile token_sep ?rest). token_sep c" by (auto dest: set_takeWhileD)
  moreover have "?h = take 6 ?h @ takeWhile token_sep ?rest @ token" using t by simp
  moreover have "header = Some ?h" using b(2) by (cases header) auto
  ultimately show ?thesis using t b(1) by metis
qed

section \<open>Request authentication\<close>

text \<open>
  An authentication port has an identity, so that the memo of the request
  (\<open>AsyncLocalStorage\<close>) is used only for the same port and the same token.
\<close>

record 'sel auth_adapter =
  ap_id :: nat
  ap_authenticate :: "string \<Rightarrow> 'sel \<Rightarrow> exn + principal"

record request_memo =
  rm_port :: nat
  rm_token :: string
  rm_principal :: principal

definition check_principal :: "principal \<Rightarrow> exn + principal" where
  "check_principal p = (if pr_id p = [] \<or> pr_tenant p = [] then Inl (AppError AUTHENTICATION_REQUIRED) else Inr p)"

definition withAuthenticatedRequest ::
    "'sel auth_adapter \<Rightarrow> string option \<Rightarrow> 'sel \<Rightarrow> (request_memo \<Rightarrow> exn + 'a) \<Rightarrow> exn + 'a" where
  "withAuthenticatedRequest port header sel work =
     (case bearerToken header of
        Inl e \<Rightarrow> Inl e
      | Inr token \<Rightarrow>
          (case ap_authenticate port token sel of
             Inl e \<Rightarrow> Inl e
           | Inr p \<Rightarrow>
               (case check_principal p of
                  Inl e \<Rightarrow> Inl e
                | Inr p' \<Rightarrow> work \<lparr>rm_port = ap_id port, rm_token = token, rm_principal = p'\<rparr>)))"

definition authenticate ::
    "request_memo option \<Rightarrow> 'sel auth_adapter \<Rightarrow> string option \<Rightarrow> 'sel \<Rightarrow> exn + principal" where
  "authenticate memo port header sel =
     (case bearerToken header of
        Inl e \<Rightarrow> Inl e
      | Inr token \<Rightarrow>
          let hit = (case memo of None \<Rightarrow> None
                     | Some m \<Rightarrow> if rm_port m = ap_id port \<and> rm_token m = token
                                then Some (rm_principal m) else None)
          in case hit of
               Some p \<Rightarrow> Inr p
             | None \<Rightarrow>
                 (case ap_authenticate port token sel of
                    Inl e \<Rightarrow> Inl e
                  | Inr p \<Rightarrow> check_principal p))"

definition memo_valid :: "request_memo \<Rightarrow> bool" where
  "memo_valid m \<longleftrightarrow> pr_id (rm_principal m) \<noteq> [] \<and> pr_tenant (rm_principal m) \<noteq> []"

lemma check_principal_Inr:
  "check_principal p = Inr q \<longleftrightarrow> q = p \<and> pr_id p \<noteq> [] \<and> pr_tenant p \<noteq> []"
  by (auto simp: check_principal_def)

lemma authenticate_identified:
  assumes "authenticate memo port header sel = Inr p" and "\<And>m. memo = Some m \<Longrightarrow> memo_valid m"
  shows "pr_id p \<noteq> [] \<and> pr_tenant p \<noteq> []"
  using assms
  by (auto simp: authenticate_def Let_def memo_valid_def check_principal_Inr
      split: sum.splits option.splits if_splits)

text \<open>Inside the request the memo answers without asking the port again, with the same principal.\<close>

lemma authenticate_in_request:
  assumes "bearerToken header = Inr token" and "ap_authenticate port token sel = Inr p"
    and "check_principal p = Inr p"
  shows "withAuthenticatedRequest port header sel (\<lambda>m. authenticate (Some m) port header sel') = Inr p"
  using assms by (simp add: withAuthenticatedRequest_def authenticate_def)

section \<open>Step-up authentication\<close>

definition requireStepUpMfa :: "principal \<Rightarrow> string \<Rightarrow> int \<Rightarrow> int \<Rightarrow> exn + unit" where
  "requireStepUpMfa p requiredAcr maxAgeSeconds now =
     (let fresh = (case pr_auth_time p of
                     None \<Rightarrow> False
                   | Some n \<Rightarrow> is_safe_integer n \<and> js_int n \<le> now \<and> now - js_int n \<le> maxAgeSeconds)
      in if pr_acr p \<noteq> Some requiredAcr
            \<or> \<not> (case pr_amr p of None \<Rightarrow> False | Some ms \<Rightarrow> ''mfa'' \<in> set ms) \<or> \<not> fresh
         then Inl (AppError AUTHENTICATION_REQUIRED) else Inr ())"

lemma requireStepUpMfa_Inr:
  "requireStepUpMfa p acr age now = Inr u \<longleftrightarrow>
     pr_acr p = Some acr \<and> (\<exists>ms. pr_amr p = Some ms \<and> ''mfa'' \<in> set ms) \<and>
     (\<exists>t. pr_auth_time p = Some (JInt t) \<and> \<bar>t\<bar> \<le> max_safe \<and> t \<le> now \<and> now \<le> t + age)"
  by (auto simp: requireStepUpMfa_def Let_def split: option.splits elim!: is_safe_integerE)

end
