(* ===== verification/Identity_Access.thy ===== *)
theory Identity_Access
  imports Auth Persistence
begin

text \<open>
  The decision point of the identity module: \<open>modules/identity/application/authorization.ts\<close>,
  its adapter \<open>apps/api/src/postgres-authorization.ts\<close>, sessions (\<open>sessions.ts\<close>),
  temporary elevation (\<open>privilege.ts\<close>) and \<open>assertActiveUser\<close> (\<open>permissions.ts\<close>). The
  rows a join returns come in table order; times are milliseconds. The reason texts of decisions
  are left out.
\<close>

section \<open>Tables\<close>

record user =
  u_id :: string
  u_tenant :: string
  u_status :: string
  u_archived_at :: "int option"

record role =
  ro_id :: string
  ro_tenant :: string
  ro_code :: string
  ro_status :: string

record role_binding =
  rb_tenant :: string
  rb_principal_type :: string
  rb_principal_id :: string
  rb_role_id :: string
  rb_scope_type :: string
  rb_scope_id :: string
  rb_source :: string
  rb_valid_from :: int
  rb_valid_until :: "int option"
  rb_revoked_at :: "int option"

record role_permission =
  rp_tenant :: string
  rp_role_id :: string
  rp_permission_id :: string

record permission =
  pm_id :: string
  pm_code :: string
  pm_resource_type :: string

record temporary_grant =
  tg_id :: string
  tg_tenant :: string
  tg_principal_id :: string
  tg_permission_id :: string
  tg_scope_type :: string
  tg_scope_id :: string
  tg_valid_from :: int
  tg_valid_until :: int
  tg_reason :: string
  tg_revoked_at :: "int option"
  tg_version :: int

record system_principal =
  sp_type :: string
  sp_tenant :: string
  sp_id :: string
  sp_active :: bool
  sp_capabilities :: "string list"

record session =
  se_id :: string
  se_tenant :: string
  se_user_id :: string
  se_auth_method :: string
  se_created_at :: int
  se_last_activity :: int
  se_idle_expires_at :: int
  se_absolute_expires_at :: int
  se_source_ip :: "string option"
  se_revoked_at :: "int option"
  se_version :: int

record identity_db =
  users :: "user list"
  roles :: "role list"
  role_bindings :: "role_binding list"
  role_permissions :: "role_permission list"
  permissions :: "permission list"
  temporary_grants :: "temporary_grant list"
  system_principals :: "system_principal list"
  sessions :: "session list"

text \<open>The user a query joins: active and not archived.\<close>

definition active_user :: "string \<Rightarrow> string \<Rightarrow> user \<Rightarrow> bool" where
  "active_user t uid u \<longleftrightarrow>
     u_tenant u = t \<and> u_id u = uid \<and> u_status u = ''ACTIVE'' \<and> u_archived_at u = None"

definition assertActiveUser :: "string \<Rightarrow> string \<Rightarrow> identity_db \<Rightarrow> exn + bool" where
  "assertActiveUser t uid db =
     (if select_rows (active_user t uid) (users db) = [] then Inl (AppError NOT_FOUND) else Inr True)"

section \<open>Evaluating an authorization\<close>

record auth_input =
  ai_principal_id :: string
  ai_principal_type :: string
  ai_tenant :: string
  ai_action :: string
  ai_resource_type :: string
  ai_scope :: "(string \<times> string) list"
  ai_at :: "int option"

record grant_row =
  gr_code :: string
  gr_role_code :: string
  gr_scope_type :: string
  gr_scope_id :: string
  gr_source :: string

record decision =
  de_result :: auth_result
  de_matched :: "grant_row option"

definition denied :: decision where
  "denied = \<lparr>de_result = DENY, de_matched = None\<rparr>"

definition allowed_by :: "grant_row \<Rightarrow> decision" where
  "allowed_by g = \<lparr>de_result = ALLOW, de_matched = Some g\<rparr>"

definition in_force :: "int \<Rightarrow> int \<Rightarrow> int option \<Rightarrow> bool" where
  "in_force from tm until \<longleftrightarrow> from \<le> tm \<and> (case until of None \<Rightarrow> True | Some e \<Rightarrow> tm < e)"

definition scope_value :: "(string \<times> string) list \<Rightarrow> string \<Rightarrow> string option" where
  "scope_value scope k = map_of scope k"

text \<open>The join of the four service-principal types.\<close>

definition system_rows :: "identity_db \<Rightarrow> auth_input \<Rightarrow> int \<Rightarrow> grant_row list" where
  "system_rows db inp tm =
     [\<lparr>gr_code = pm_code p, gr_role_code = ro_code r, gr_scope_type = rb_scope_type rb,
       gr_scope_id = rb_scope_id rb, gr_source = rb_source rb\<rparr>.
        ap \<leftarrow> system_principals db,
        sp_type ap = ai_principal_type inp \<and> sp_tenant ap = ai_tenant inp
          \<and> sp_id ap = ai_principal_id inp \<and> sp_active ap,
        rb \<leftarrow> role_bindings db,
        rb_tenant rb = sp_tenant ap \<and> rb_principal_id rb = sp_id ap
          \<and> rb_principal_type rb = ai_principal_type inp \<and> rb_revoked_at rb = None
          \<and> in_force (rb_valid_from rb) tm (rb_valid_until rb),
        r \<leftarrow> roles db,
        ro_tenant r = rb_tenant rb \<and> ro_id r = rb_role_id rb \<and> ro_status r = ''ACTIVE'',
        rp \<leftarrow> role_permissions db,
        rp_tenant rp = ro_tenant r \<and> rp_role_id rp = ro_id r,
        p \<leftarrow> permissions db,
        pm_id p = rp_permission_id rp \<and> pm_code p = ai_action inp
          \<and> js_lower (pm_resource_type p) = js_lower (ai_resource_type inp)]"

definition system_covers :: "auth_input \<Rightarrow> grant_row \<Rightarrow> bool" where
  "system_covers inp g \<longleftrightarrow>
     gr_scope_type g \<noteq> ''GLOBAL'' \<and> gr_scope_id g \<noteq> ''*'' \<and>
     scope_value (ai_scope inp) (js_lower (gr_scope_type g)) = Some (gr_scope_id g) \<and>
     (gr_scope_type g \<noteq> ''TENANT'' \<or> scope_value (ai_scope inp) ''tenant'' = Some (ai_tenant inp))"

text \<open>The union a user's permissions come from: role bindings, then temporary grants.\<close>

definition binding_rows :: "identity_db \<Rightarrow> auth_input \<Rightarrow> int \<Rightarrow> grant_row list" where
  "binding_rows db inp tm =
     [\<lparr>gr_code = pm_code p, gr_role_code = ro_code r, gr_scope_type = rb_scope_type rb,
       gr_scope_id = rb_scope_id rb, gr_source = rb_source rb\<rparr>.
        rb \<leftarrow> role_bindings db,
        rb_tenant rb = ai_tenant inp \<and> rb_principal_type rb = ''USER''
          \<and> rb_principal_id rb = ai_principal_id inp \<and> rb_revoked_at rb = None
          \<and> in_force (rb_valid_from rb) tm (rb_valid_until rb),
        r \<leftarrow> roles db,
        ro_id r = rb_role_id rb \<and> ro_tenant r = rb_tenant rb,
        rp \<leftarrow> role_permissions db,
        rp_role_id rp = ro_id r \<and> rp_tenant rp = ro_tenant r,
        p \<leftarrow> permissions db,
        pm_id p = rp_permission_id rp \<and> pm_code p = ai_action inp,
        u \<leftarrow> users db,
        active_user (rb_tenant rb) (rb_principal_id rb) u]"

definition temporary_rows :: "identity_db \<Rightarrow> auth_input \<Rightarrow> int \<Rightarrow> grant_row list" where
  "temporary_rows db inp tm =
     [\<lparr>gr_code = pm_code p, gr_role_code = ''TEMPORARY_GRANT'', gr_scope_type = tg_scope_type tg,
       gr_scope_id = tg_scope_id tg, gr_source = ''Temporary Elevation''\<rparr>.
        tg \<leftarrow> temporary_grants db,
        tg_tenant tg = ai_tenant inp \<and> tg_principal_id tg = ai_principal_id inp
          \<and> tg_revoked_at tg = None \<and> tg_valid_from tg \<le> tm \<and> tm < tg_valid_until tg,
        p \<leftarrow> permissions db,
        pm_id p = tg_permission_id tg \<and> pm_code p = ai_action inp,
        u \<leftarrow> users db,
        active_user (tg_tenant tg) (tg_principal_id tg) u]"

definition user_rows :: "identity_db \<Rightarrow> auth_input \<Rightarrow> int \<Rightarrow> grant_row list" where
  "user_rows db inp tm = binding_rows db inp tm @ temporary_rows db inp tm"

definition user_covers :: "auth_input \<Rightarrow> grant_row \<Rightarrow> bool" where
  "user_covers inp g \<longleftrightarrow>
     gr_scope_type g = ''TENANT'' \<or> gr_scope_type g = ''GLOBAL'' \<or>
     scope_value (ai_scope inp) (js_lower (gr_scope_type g)) = Some (gr_scope_id g)"

definition is_deny :: "grant_row \<Rightarrow> bool" where
  "is_deny g \<longleftrightarrow> gr_source g = ''EXPLICIT_DENY''"

definition service_types :: "string list" where
  "service_types = [''SYSTEM_AUTOMATION'', ''SYSTEM_CORRELATION'', ''SYSTEM_ASSET_SCORING'',
                    ''SYSTEM_RECOMMENDATION'']"

definition decide :: "(grant_row \<Rightarrow> bool) \<Rightarrow> grant_row list \<Rightarrow> decision" where
  "decide covers rows =
     (if find_row is_deny rows \<noteq> None then denied
      else case find_row covers rows of None \<Rightarrow> denied | Some g \<Rightarrow> allowed_by g)"

definition evaluateAuthorization :: "string \<Rightarrow> int \<Rightarrow> auth_input \<Rightarrow> identity_db \<Rightarrow> decision" where
  "evaluateAuthorization tx_tenant now inp db =
     (let tm = (case ai_at inp of None \<Rightarrow> now | Some t \<Rightarrow> t) in
      if ai_tenant inp \<noteq> tx_tenant then denied
      else if ai_principal_type inp = ''SYSTEM_REPORTING'' then
        (case find_row (\<lambda>r. sp_tenant r = ai_tenant inp \<and> sp_id r = ai_principal_id inp
                          \<and> sp_type r = ''SYSTEM_REPORTING'') (system_principals db) of
           None \<Rightarrow> denied
         | Some r \<Rightarrow> if sp_active r \<and> ai_action inp \<in> set (sp_capabilities r)
                    then \<lparr>de_result = ALLOW, de_matched = None\<rparr> else denied)
      else if ai_principal_type inp \<in> set service_types
      then decide (system_covers inp) (system_rows db inp tm)
      else decide (user_covers inp) (user_rows db inp tm))"

definition supported :: "string list" where
  "supported = [''USER'', ''SYSTEM_AUTOMATION'', ''SYSTEM_CORRELATION'', ''SYSTEM_ASSET_SCORING'',
                ''SYSTEM_RECOMMENDATION'', ''SYSTEM_REPORTING'']"

text \<open>The port the API uses. Whatever the transaction throws is a denial.\<close>

definition postgresAuthorization :: "int \<Rightarrow> identity_db \<Rightarrow> auth_port" where
  "postgresAuthorization now db rq =
     (if pr_actor_type (rq_principal rq) \<notin> set supported then Inr DENY
      else
        let t = pr_tenant (rq_principal rq);
            inp = \<lparr>ai_principal_id = pr_id (rq_principal rq),
                   ai_principal_type = pr_actor_type (rq_principal rq), ai_tenant = t,
                   ai_action = rq_action rq, ai_resource_type = rq_resource_type rq,
                   ai_scope = rq_scope rq, ai_at = None\<rparr>
        in case fst (uow t (\<lambda>s. (Inr (evaluateAuthorization t now inp s), s)) db) of
             Inl e \<Rightarrow> Inr DENY
           | Inr d \<Rightarrow> Inr (de_result d))"

lemma decide_allow:
  "de_result (decide covers rows) = ALLOW \<longleftrightarrow> (\<exists>g\<in>set rows. covers g) \<and> (\<forall>g\<in>set rows. \<not> is_deny g)"
proof (cases "find_row covers rows")
  case None
  then have "\<forall>g\<in>set rows. \<not> covers g" by (simp add: find_row_None_iff)
  with None show ?thesis by (auto simp: decide_def denied_def)
next
  case (Some g)
  then have "g \<in> set rows" "covers g" by (auto dest: find_row_SomeD)
  with Some show ?thesis by (auto simp: decide_def denied_def allowed_by_def find_row_None_iff)
qed

text \<open>
  The specification for users: an active user holds the permission through a role binding or a
  temporary grant in force whose scope covers the request, and none of those bindings is an
  explicit denial.
\<close>

definition binding_grant :: "identity_db \<Rightarrow> auth_input \<Rightarrow> int \<Rightarrow> grant_row \<Rightarrow> bool" where
  "binding_grant db inp tm g \<longleftrightarrow>
     (\<exists>rb\<in>set (role_bindings db). \<exists>r\<in>set (roles db). \<exists>rp\<in>set (role_permissions db).
        \<exists>p\<in>set (permissions db).
          rb_tenant rb = ai_tenant inp \<and> rb_principal_type rb = ''USER'' \<and>
          rb_principal_id rb = ai_principal_id inp \<and> rb_revoked_at rb = None \<and>
          in_force (rb_valid_from rb) tm (rb_valid_until rb) \<and>
          ro_id r = rb_role_id rb \<and> ro_tenant r = ai_tenant inp \<and>
          rp_role_id rp = ro_id r \<and> rp_tenant rp = ai_tenant inp \<and>
          pm_id p = rp_permission_id rp \<and> pm_code p = ai_action inp \<and>
          g = \<lparr>gr_code = pm_code p, gr_role_code = ro_code r, gr_scope_type = rb_scope_type rb,
               gr_scope_id = rb_scope_id rb, gr_source = rb_source rb\<rparr>)"

definition elevation_grant :: "identity_db \<Rightarrow> auth_input \<Rightarrow> int \<Rightarrow> grant_row \<Rightarrow> bool" where
  "elevation_grant db inp tm g \<longleftrightarrow>
     (\<exists>tg\<in>set (temporary_grants db). \<exists>p\<in>set (permissions db).
          tg_tenant tg = ai_tenant inp \<and> tg_principal_id tg = ai_principal_id inp \<and>
          tg_revoked_at tg = None \<and> tg_valid_from tg \<le> tm \<and> tm < tg_valid_until tg \<and>
          pm_id p = tg_permission_id tg \<and> pm_code p = ai_action inp \<and>
          g = \<lparr>gr_code = pm_code p, gr_role_code = ''TEMPORARY_GRANT'',
               gr_scope_type = tg_scope_type tg, gr_scope_id = tg_scope_id tg,
               gr_source = ''Temporary Elevation''\<rparr>)"

definition user_grant :: "identity_db \<Rightarrow> auth_input \<Rightarrow> int \<Rightarrow> grant_row \<Rightarrow> bool" where
  "user_grant db inp tm g \<longleftrightarrow>
     (\<exists>u\<in>set (users db). active_user (ai_tenant inp) (ai_principal_id inp) u) \<and>
     (binding_grant db inp tm g \<or> elevation_grant db inp tm g)"

lemma in_binding_rowsD:
  assumes "g \<in> set (binding_rows db inp tm)"
  shows "(\<exists>u\<in>set (users db). active_user (ai_tenant inp) (ai_principal_id inp) u) \<and> binding_grant db inp tm g"
  using assms unfolding binding_rows_def binding_grant_def in_join_iff list.set(1,2) singleton_iff
  by (elim bexE conjE, intro conjI bexI [rotated]) (assumption | simp)+

lemma in_binding_rowsI:
  assumes "\<exists>u\<in>set (users db). active_user (ai_tenant inp) (ai_principal_id inp) u"
    and "binding_grant db inp tm g"
  shows "g \<in> set (binding_rows db inp tm)"
  using assms unfolding binding_rows_def binding_grant_def in_join_iff list.set(1,2) singleton_iff
  by (elim bexE conjE, intro conjI bexI [rotated]) (assumption | simp)+

lemma in_temporary_rowsD:
  assumes "g \<in> set (temporary_rows db inp tm)"
  shows "(\<exists>u\<in>set (users db). active_user (ai_tenant inp) (ai_principal_id inp) u) \<and> elevation_grant db inp tm g"
  using assms unfolding temporary_rows_def elevation_grant_def in_join_iff list.set(1,2) singleton_iff
  by (elim bexE conjE, intro conjI bexI [rotated]) (assumption | simp)+

lemma in_temporary_rowsI:
  assumes "\<exists>u\<in>set (users db). active_user (ai_tenant inp) (ai_principal_id inp) u"
    and "elevation_grant db inp tm g"
  shows "g \<in> set (temporary_rows db inp tm)"
  using assms unfolding temporary_rows_def elevation_grant_def in_join_iff list.set(1,2) singleton_iff
  by (elim bexE conjE, intro conjI bexI [rotated]) (assumption | simp)+

lemma set_user_rows: "g \<in> set (user_rows db inp tm) \<longleftrightarrow> user_grant db inp tm g"
  unfolding user_rows_def user_grant_def
  by (auto dest: in_binding_rowsD in_temporary_rowsD intro: in_binding_rowsI in_temporary_rowsI)

lemma user_allowed_iff:
  assumes "ai_principal_type inp = ''USER''"
  shows "de_result (evaluateAuthorization t now inp db) = ALLOW \<longleftrightarrow>
    (let tm = (case ai_at inp of None \<Rightarrow> now | Some x \<Rightarrow> x) in
     ai_tenant inp = t \<and> (\<exists>g. user_grant db inp tm g \<and> user_covers inp g) \<and>
     (\<forall>g. user_grant db inp tm g \<longrightarrow> gr_source g \<noteq> ''EXPLICIT_DENY''))"
  using assms set_user_rows
  by (auto simp: evaluateAuthorization_def Let_def decide_allow service_types_def is_deny_def denied_def)

text \<open>
  What an ALLOW of the port rests on: a principal of the request's tenant that the tenant's own
  tables hold, active, with its permission bound in that tenant.
\<close>

definition tenant_backed :: "identity_db \<Rightarrow> string \<Rightarrow> auth_request \<Rightarrow> bool" where
  "tenant_backed db t rq \<longleftrightarrow>
     (\<exists>u\<in>set (users db). active_user t (pr_id (rq_principal rq)) u) \<or>
     (\<exists>sp\<in>set (system_principals db). sp_tenant sp = t \<and> sp_id sp = pr_id (rq_principal rq)
        \<and> sp_type sp = pr_actor_type (rq_principal rq) \<and> sp_active sp)"

lemma in_system_rowsD:
  assumes "g \<in> set (system_rows db inp tm)"
  shows "\<exists>sp\<in>set (system_principals db). sp_type sp = ai_principal_type inp \<and>
     sp_tenant sp = ai_tenant inp \<and> sp_id sp = ai_principal_id inp \<and> sp_active sp"
  using assms unfolding system_rows_def in_join_iff by blast

lemma evaluate_backed:
  assumes "de_result (evaluateAuthorization t now inp db) = ALLOW"
  shows "ai_tenant inp = t \<and>
    ((\<exists>u\<in>set (users db). active_user t (ai_principal_id inp) u) \<or>
     (\<exists>sp\<in>set (system_principals db). sp_tenant sp = t \<and> sp_id sp = ai_principal_id inp
        \<and> sp_type sp = ai_principal_type inp \<and> sp_active sp))"
proof -
  let ?tm = "case ai_at inp of None \<Rightarrow> now | Some x \<Rightarrow> x"
  from assms have t: "ai_tenant inp = t"
    by (simp add: evaluateAuthorization_def Let_def denied_def split: if_splits)
  consider (rep) "ai_principal_type inp = ''SYSTEM_REPORTING''"
    | (sys) "ai_principal_type inp \<in> set service_types" "ai_principal_type inp \<noteq> ''SYSTEM_REPORTING''"
    | (usr) "ai_principal_type inp \<notin> set service_types" "ai_principal_type inp \<noteq> ''SYSTEM_REPORTING''"
    by blast
  then show ?thesis
  proof cases
    case rep
    with assms t show ?thesis
      by (auto simp: evaluateAuthorization_def Let_def denied_def
          split: option.splits if_splits dest!: find_row_SomeD)
  next
    case sys
    with assms t obtain g where "g \<in> set (system_rows db inp ?tm)"
      by (auto simp: evaluateAuthorization_def Let_def decide_allow)
    from in_system_rowsD [OF this] t show ?thesis by blast
  next
    case usr
    with assms t obtain g where "g \<in> set (user_rows db inp ?tm)"
      by (auto simp: evaluateAuthorization_def Let_def decide_allow)
    with t show ?thesis by (simp add: set_user_rows user_grant_def)
  qed
qed

interpretation pg_auth: authorization_port "postgresAuthorization now db" "tenant_backed db" for now db
proof unfold_locales
  fix rq
  assume a: "postgresAuthorization now db rq = Inr ALLOW"
  let ?t = "pr_tenant (rq_principal rq)"
  let ?inp = "\<lparr>ai_principal_id = pr_id (rq_principal rq),
                   ai_principal_type = pr_actor_type (rq_principal rq), ai_tenant = ?t,
                   ai_action = rq_action rq, ai_resource_type = rq_resource_type rq,
                   ai_scope = rq_scope rq, ai_at = None\<rparr>"
  let ?f = "\<lambda>s. (Inr (evaluateAuthorization ?t now ?inp s) :: exn + decision, s)"
  from a obtain d where d: "fst (uow ?t ?f db) = Inr d" "de_result d = ALLOW"
    by (auto simp: postgresAuthorization_def Let_def split: if_splits sum.splits)
  then have "uow ?t ?f db = (Inr d, snd (uow ?t ?f db))" by (simp add: prod_eq_iff)
  then have "?f db = (Inr d, snd (uow ?t ?f db))" by (rule pg.commits)
  with d have "de_result (evaluateAuthorization ?t now ?inp db) = ALLOW" by simp
  from evaluate_backed [OF this] show "tenant_backed db ?t rq" by (simp add: tenant_backed_def)
qed

section \<open>Sessions\<close>

record session_input =
  si_tenant :: string
  si_user_id :: string
  si_auth_method :: string
  si_now :: int
  si_idle_ms :: js_number
  si_absolute_ms :: js_number
  si_source_ip :: "string option"

text \<open>\<open>new Date(now + ms)\<close> for a positive duration: fractions of a millisecond are cut off.\<close>

definition date_after :: "int \<Rightarrow> js_number \<Rightarrow> int" where
  "date_after now ms = now + \<lfloor>js_rat ms\<rfloor>"

definition createSession ::
    "string \<Rightarrow> string \<Rightarrow> session_input \<Rightarrow> (identity_db, string \<times> int) call" where
  "createSession tx_tenant sid inp db =
     (if si_tenant inp \<noteq> tx_tenant then (Inl (AppError PERMISSION_DENIED), db)
      else if \<not> is_finite (si_idle_ms inp) \<or> \<not> is_finite (si_absolute_ms inp)
           \<or> js_rat (si_idle_ms inp) \<le> 0 \<or> js_rat (si_absolute_ms inp) \<le> 0
           \<or> js_rat (si_absolute_ms inp) < js_rat (si_idle_ms inp)
      then (Inl (AppError VALIDATION_ERROR), db)
      else if select_rows (active_user (si_tenant inp) (si_user_id inp)) (users db) = []
      then (Inl (AppError AUTHENTICATION_REQUIRED), db)
      else
        let idle = date_after (si_now inp) (si_idle_ms inp);
            absolute = date_after (si_now inp) (si_absolute_ms inp)
        in if idle \<le> si_now inp \<or> absolute < idle then (Inl (SqlError ''23514''), db)
           else case insert_row (\<lambda>x y. se_id x = se_id y)
                  \<lparr>se_id = sid, se_tenant = si_tenant inp, se_user_id = si_user_id inp,
                   se_auth_method = si_auth_method inp, se_created_at = si_now inp,
                   se_last_activity = si_now inp, se_idle_expires_at = idle,
                   se_absolute_expires_at = absolute, se_source_ip = si_source_ip inp,
                   se_revoked_at = None, se_version = 1\<rparr> (sessions db) of
             None \<Rightarrow> (Inl (SqlError ''23505''), db)
           | Some ss \<Rightarrow> (Inr (sid, if absolute < idle then absolute else idle), db\<lparr>sessions := ss\<rparr>))"

definition revokeSession :: "string \<Rightarrow> string \<Rightarrow> js_number \<Rightarrow> int \<Rightarrow> (identity_db, unit) call" where
  "revokeSession tx_tenant sid expected now db =
     (let hit = (\<lambda>r. se_tenant r = tx_tenant \<and> se_id r = sid \<and> se_revoked_at r = None
                   \<and> JInt (se_version r) = expected)
      in if select_rows hit (sessions db) = [] then (Inl (AppError VERSION_CONFLICT), db)
         else (Inr (), db\<lparr>sessions := update_rows hit
                 (\<lambda>r. r\<lparr>se_revoked_at := Some now, se_version := se_version r + 1\<rparr>) (sessions db)\<rparr>))"

definition assertSessionActive ::
    "string \<Rightarrow> string \<Rightarrow> int \<Rightarrow> identity_db \<Rightarrow> exn + (string \<times> string \<times> int)" where
  "assertSessionActive tx_tenant sid now db =
     (case find_row (\<lambda>s. se_id s = sid \<and> se_tenant s = tx_tenant
              \<and> list_ex (active_user (se_tenant s) (se_user_id s)) (users db)
              \<and> se_revoked_at s = None \<and> now < se_idle_expires_at s
              \<and> now < se_absolute_expires_at s) (sessions db) of
        None \<Rightarrow> Inl (AppError AUTHENTICATION_REQUIRED)
      | Some s \<Rightarrow> Inr (se_user_id s, se_tenant s, se_version s))"

abbreviation unique_sessions :: "identity_db \<Rightarrow> bool" where
  "unique_sessions db \<equiv> unique_rows (\<lambda>x y. se_id x = se_id y) (sessions db)"

lemma revoked_session_dead:
  assumes "unique_sessions db" and "revokeSession t sid v now db = (Inr u, db')"
  shows "assertSessionActive t sid now' db' = Inl (AppError AUTHENTICATION_REQUIRED)"
proof -
  let ?hit = "\<lambda>r. se_tenant r = t \<and> se_id r = sid \<and> se_revoked_at r = None \<and> JInt (se_version r) = v"
  let ?f = "\<lambda>r. r\<lparr>se_revoked_at := Some now, se_version := se_version r + 1\<rparr>"
  from assms(2) have db': "db' = db\<lparr>sessions := update_rows ?hit ?f (sessions db)\<rparr>"
    and "select_rows ?hit (sessions db) \<noteq> []"
    by (auto simp: revokeSession_def Let_def split: if_splits)
  then obtain r where r: "r \<in> set (sessions db)" "?hit r"
    by (auto simp: select_rows_def filter_empty_conv)
  have "se_revoked_at s \<noteq> None" if "s \<in> set (sessions db')" "se_id s = sid" for s
  proof -
    from that(1) obtain s0 where s0: "s0 \<in> set (sessions db)" "s = (if ?hit s0 then ?f s0 else s0)"
      unfolding db' by (auto simp: set_update_rows)
    with that(2) have "se_id s0 = se_id r" using r by (auto split: if_splits)
    with assms(1) s0 r have "s0 = r" by (auto intro: unique_rows_keyD [where k = se_id])
    with s0 r show ?thesis by simp
  qed
  then have "find_row (\<lambda>s. se_id s = sid \<and> se_tenant s = t
              \<and> list_ex (active_user (se_tenant s) (se_user_id s)) (users db')
              \<and> se_revoked_at s = None \<and> now' < se_idle_expires_at s
              \<and> now' < se_absolute_expires_at s) (sessions db') = None"
    by (auto simp: find_row_None_iff)
  then show ?thesis by (simp add: assertSessionActive_def)
qed

lemma assertSessionActive_Inr:
  assumes "assertSessionActive t sid now db = Inr (uid, t', v)"
  shows "\<exists>s\<in>set (sessions db). se_id s = sid \<and> se_tenant s = t \<and> t' = t \<and> se_user_id s = uid \<and>
     se_version s = v \<and> se_revoked_at s = None \<and>
     now < se_idle_expires_at s \<and> now < se_absolute_expires_at s \<and>
     (\<exists>u\<in>set (users db). active_user t uid u)"
  using assms
  by (auto simp: assertSessionActive_def list_ex_iff split: option.splits dest!: find_row_SomeD)

text \<open>A new session is active until its idle expiry, which the caller is told.\<close>

lemma created_session_active:
  assumes "createSession t sid inp db = (Inr (i, expires), db')" and "now < expires"
  shows "i = sid \<and> assertSessionActive t sid now db' = Inr (si_user_id inp, t, 1)"
proof -
  let ?idle = "date_after (si_now inp) (si_idle_ms inp)"
  let ?abs = "date_after (si_now inp) (si_absolute_ms inp)"
  let ?row = "\<lparr>se_id = sid, se_tenant = si_tenant inp, se_user_id = si_user_id inp,
                   se_auth_method = si_auth_method inp, se_created_at = si_now inp,
                   se_last_activity = si_now inp, se_idle_expires_at = ?idle,
                   se_absolute_expires_at = ?abs, se_source_ip = si_source_ip inp,
                   se_revoked_at = None, se_version = 1\<rparr>"
  from assms(1) have t: "si_tenant inp = t" and i: "i = sid" and e: "expires = ?idle" "?idle \<le> ?abs"
    and u: "select_rows (active_user (si_tenant inp) (si_user_id inp)) (users db) \<noteq> []"
    and ins: "insert_row (\<lambda>x y. se_id x = se_id y) ?row (sessions db) = Some (sessions db')"
    and us: "users db' = users db"
    by (auto simp: createSession_def Let_def split: if_splits option.splits)
  from ins have ss: "sessions db' = sessions db @ [?row]" and fresh: "\<forall>x\<in>set (sessions db). se_id x \<noteq> sid"
    by (auto simp: insert_row_Some_iff)
  from u have "list_ex (active_user t (si_user_id inp)) (users db')"
    by (auto simp: select_rows_def filter_empty_conv list_ex_iff us t)
  with e assms(2) t fresh show ?thesis
    by (auto simp: assertSessionActive_def ss i table_simps find_row_None_iff split: option.splits
        dest!: find_row_SomeD)
qed

section \<open>Temporary elevation\<close>

record elevation_input =
  el_principal_id :: string
  el_permission_id :: string
  el_scope_type :: string
  el_scope_id :: string
  el_valid_from :: int
  el_valid_until :: int
  el_reason :: string

definition grantTemporary ::
    "string \<Rightarrow> string \<Rightarrow> elevation_input \<Rightarrow> (identity_db, string \<times> int) call" where
  "grantTemporary tx_tenant gid inp db =
     (if blank (el_reason inp) \<or> el_valid_until inp \<le> el_valid_from inp
         \<or> blank (el_scope_type inp) \<or> blank (el_scope_id inp)
      then (Inl (AppError VALIDATION_ERROR), db)
      else if select_rows (active_user tx_tenant (el_principal_id inp)) (users db) = []
      then (Inl (AppError NOT_FOUND), db)
      else case insert_row (\<lambda>x y. tg_id x = tg_id y)
             \<lparr>tg_id = gid, tg_tenant = tx_tenant, tg_principal_id = el_principal_id inp,
              tg_permission_id = el_permission_id inp, tg_scope_type = el_scope_type inp,
              tg_scope_id = el_scope_id inp, tg_valid_from = el_valid_from inp,
              tg_valid_until = el_valid_until inp, tg_reason = el_reason inp,
              tg_revoked_at = None, tg_version = 1\<rparr> (temporary_grants db) of
        None \<Rightarrow> (Inl (SqlError ''23505''), db)
      | Some gs \<Rightarrow> (Inr (gid, 1), db\<lparr>temporary_grants := gs\<rparr>))"

definition revokeTemporary :: "string \<Rightarrow> int \<Rightarrow> string \<Rightarrow> js_number \<Rightarrow> (identity_db, unit) call" where
  "revokeTemporary tx_tenant now gid expected db =
     (let hit = (\<lambda>r. tg_tenant r = tx_tenant \<and> tg_id r = gid \<and> JInt (tg_version r) = expected
                   \<and> tg_revoked_at r = None)
      in if select_rows hit (temporary_grants db) = [] then (Inl (AppError VERSION_CONFLICT), db)
         else (Inr (), db\<lparr>temporary_grants := update_rows hit
                 (\<lambda>r. r\<lparr>tg_revoked_at := Some now, tg_version := tg_version r + 1\<rparr>)
                 (temporary_grants db)\<rparr>))"

end
