(* ===== verification/Asset_Lifecycle.thy ===== *)
theory Asset_Lifecycle
  imports Messaging Identity_Access
begin

text \<open>
  \<open>modules/asset/application/lifecycle.ts\<close>: the lifecycle of an asset and the commands that
  reserve, assign, transfer and return it, over the tables of
  \<open>database/migrations/asset\<close>. A date text is represented by the instant it denotes,
  \<open>None\<close> when \<open>Date\<close> cannot read it. \<open>env_uuid n\<close> is the \<open>n\<close>-th UUID a
  call draws.
\<close>

section \<open>Tables\<close>

record asset =
  a_id :: string
  a_tenant :: string
  a_code :: string
  a_lifecycle_state :: string
  a_assignment_state :: string
  a_risk_state :: string
  a_risk_assessment_id :: "string option"
  a_risk_valid_until :: "int option"
  a_location_id :: "string option"
  a_updated_at :: int
  a_version :: int

record lifecycle_entry =
  le_id :: string
  le_tenant :: string
  le_asset_id :: string
  le_from_state :: string
  le_to_state :: string
  le_command_type :: string
  le_actor_type :: string
  le_actor_id :: string
  le_reason :: string
  le_correlation_id :: string

record reservation =
  rs_id :: string
  rs_tenant :: string
  rs_asset_id :: string
  rs_requested_for :: string
  rs_reason :: string
  rs_status :: string
  rs_expires_at :: int

record assignment =
  as_id :: string
  as_tenant :: string
  as_asset_id :: string
  as_user_id :: string
  as_type :: string
  as_status :: string
  as_reason :: string
  as_ended_at :: "int option"
  as_version :: int

record movement =
  mv_id :: string
  mv_tenant :: string
  mv_asset_id :: string
  mv_type :: string
  mv_status :: string
  mv_from_location :: "string option"
  mv_to_location :: string
  mv_from_user :: "string option"
  mv_to_user :: "string option"
  mv_reason :: string
  mv_completed_at :: int

record return_request =
  rr_id :: string
  rr_tenant :: string
  rr_asset_id :: string
  rr_assignment_id :: string
  rr_user_id :: string
  rr_due_at :: int
  rr_reason :: string
  rr_status :: string
  rr_fulfilled_at :: "int option"
  rr_cancelled_reason :: "string option"

record return_document =
  rd_id :: string
  rd_tenant :: string
  rd_request_id :: string
  rd_asset_id :: string
  rd_condition_grade :: string
  rd_location_id :: string
  rd_notes :: string

record location =
  lo_id :: string
  lo_tenant :: string
  lo_status :: string

record asset_db =
  assets :: "asset list"
  lifecycle_log :: "lifecycle_entry list"
  reservations :: "reservation list"
  assignments :: "assignment list"
  movements :: "movement list"
  return_requests :: "return_request list"
  return_documents :: "return_document list"
  locations :: "location list"
  asset_outbox :: "outbox_row list"

abbreviation asset_key :: "string \<Rightarrow> string \<Rightarrow> asset \<Rightarrow> bool" where
  "asset_key t i r \<equiv> a_tenant r = t \<and> a_id r = i"

definition find_asset :: "string \<Rightarrow> string \<Rightarrow> asset_db \<Rightarrow> asset option" where
  "find_asset t i db = find_row (asset_key t i) (assets db)"

definition set_asset :: "string \<Rightarrow> string \<Rightarrow> (asset \<Rightarrow> asset) \<Rightarrow> asset_db \<Rightarrow> asset_db" where
  "set_asset t i f db = db\<lparr>assets := update_rows (asset_key t i) f (assets db)\<rparr>"

text \<open>The partial unique indexes, and the primary keys, as clashes of two rows.\<close>

definition reservation_clash :: "reservation \<Rightarrow> reservation \<Rightarrow> bool" where
  "reservation_clash x y \<longleftrightarrow> rs_id x = rs_id y \<or>
     (rs_status x = ''ACTIVE'' \<and> rs_status y = ''ACTIVE'' \<and> rs_tenant x = rs_tenant y
      \<and> rs_asset_id x = rs_asset_id y)"

definition active_primary :: "string \<Rightarrow> string \<Rightarrow> assignment \<Rightarrow> bool" where
  "active_primary t i r \<longleftrightarrow>
     as_tenant r = t \<and> as_asset_id r = i \<and> as_status r = ''ACTIVE'' \<and> as_type r = ''PRIMARY''"

definition assignment_clash :: "assignment \<Rightarrow> assignment \<Rightarrow> bool" where
  "assignment_clash x y \<longleftrightarrow> as_id x = as_id y \<or>
     (active_primary (as_tenant y) (as_asset_id y) x \<and> active_primary (as_tenant x) (as_asset_id x) y)"

definition return_clash :: "return_request \<Rightarrow> return_request \<Rightarrow> bool" where
  "return_clash x y \<longleftrightarrow> rr_id x = rr_id y \<or>
     (rr_status x = ''PENDING'' \<and> rr_status y = ''PENDING'' \<and> rr_tenant x = rr_tenant y
      \<and> rr_assignment_id x = rr_assignment_id y)"

definition document_clash :: "return_document \<Rightarrow> return_document \<Rightarrow> bool" where
  "document_clash x y \<longleftrightarrow> rd_id x = rd_id y \<or>
     (rd_tenant x = rd_tenant y \<and> rd_request_id x = rd_request_id y)"

section \<open>The lifecycle\<close>

definition transitions :: "(string \<times> string list) list" where
  "transitions =
    [(''PLANNED'', [''PURCHASED'']),
     (''PURCHASED'', [''RECEIVED'']),
     (''RECEIVED'', [''AVAILABLE'']),
     (''AVAILABLE'', [''RESERVED'', ''RETIRED'']),
     (''RESERVED'', [''ASSIGNED'']),
     (''ASSIGNED'', [''IN_USE'']),
     (''IN_USE'', [''REPAIR'', ''RETURNED'']),
     (''REPAIR'', [''IN_USE'', ''AVAILABLE'']),
     (''RETURNED'', [''REPAIR'', ''AVAILABLE'', ''RETIRED'']),
     (''RETIRED'', [''DISPOSED'']),
     (''DISPOSED'', [])]"

record actor =
  ac_type :: string
  ac_id :: string
  ac_correlation_id :: string

record lifecycle_input =
  li_asset_id :: string
  li_expected_version :: js_number
  li_target_state :: string
  li_actor :: actor
  li_reason :: string
  li_command_type :: "string option"

record lifecycle_result =
  lr_id :: string
  lr_from_state :: string
  lr_to_state :: string
  lr_version :: int

definition command_type :: "lifecycle_input \<Rightarrow> string" where
  "command_type inp = (case li_command_type inp of None \<Rightarrow> ''ASSET.'' @ li_target_state inp | Some c \<Rightarrow> c)"

definition risk_event :: "string \<Rightarrow> call_env \<Rightarrow> lifecycle_input \<Rightarrow> asset \<Rightarrow> int \<Rightarrow> event" where
  "risk_event t env inp asset version =
     \<lparr>ev_id = env_uuid env 0, ev_type = ''ASSET.RISK_BAND_CHANGED'', ev_schema_version = 1,
      ev_occurred_at = env_iso env, ev_published_at = env_iso env,
      ev_producer = (''asset'', ''lifecycle''), ev_aggregate_type = ''ASSET'',
      ev_aggregate_id = li_asset_id inp, ev_aggregate_version = version,
      ev_actor_type = ac_type (li_actor inp), ev_actor_id = Some (ac_id (li_actor inp)),
      ev_correlation_id = ac_correlation_id (li_actor inp), ev_causation_id = command_type inp,
      ev_tenant = t, ev_organization_id = t,
      ev_idempotency_key = ''asset-risk-ineligible:'' @ li_asset_id inp @ '':'' @ int_text version,
      ev_payload = JObj [(''asset_id'', JStr (li_asset_id inp)),
        (''from_band'', JStr (a_risk_state asset)), (''to_band'', JStr ''UNKNOWN''),
        (''reason_code'', JStr ''ASSET_LIFECYCLE_NOT_SCORING_ELIGIBLE'')]\<rparr>"

definition risk_eligible :: "string \<Rightarrow> bool" where
  "risk_eligible target \<longleftrightarrow> target \<in> set [''ASSIGNED'', ''IN_USE'', ''REPAIR'']"

definition lifecycle_update :: "string \<Rightarrow> int \<Rightarrow> int \<Rightarrow> asset \<Rightarrow> asset" where
  "lifecycle_update target version now r =
     r\<lparr>a_lifecycle_state := target,
       a_assignment_state := (if target = ''RESERVED'' then ''RESERVED''
                              else if target = ''AVAILABLE'' then ''UNASSIGNED''
                              else a_assignment_state r),
       a_risk_state := (if risk_eligible target then a_risk_state r else ''UNKNOWN''),
       a_risk_assessment_id := (if risk_eligible target then a_risk_assessment_id r else None),
       a_risk_valid_until := (if risk_eligible target then a_risk_valid_until r else None),
       a_updated_at := now, a_version := version\<rparr>"

definition log_clash :: "lifecycle_entry \<Rightarrow> lifecycle_entry \<Rightarrow> bool" where
  "log_clash x y \<longleftrightarrow> le_id x = le_id y"

definition transitionLifecycle ::
    "string \<Rightarrow> call_env \<Rightarrow> lifecycle_input \<Rightarrow> (asset_db, lifecycle_result) call" where
  "transitionLifecycle t env inp db =
    (if \<not> is_safe_integer (li_expected_version inp) \<or> blank (li_reason inp)
     then (Inl (AppError VALIDATION_ERROR), db)
     else case find_asset t (li_asset_id inp) db of
       None \<Rightarrow> (Inl (AppError NOT_FOUND), db)
     | Some asset \<Rightarrow>
        (case assertVersion (a_version asset) (li_expected_version inp) of
           Inl e \<Rightarrow> (Inl e, db)
         | Inr _ \<Rightarrow>
            if li_target_state inp \<notin> set (table_targets transitions (a_lifecycle_state asset))
            then (Inl (AppError BUSINESS_RULE_VIOLATION), db)
            else
              let version = js_int (li_expected_version inp) + 1;
                  target = li_target_state inp;
                  db1 = set_asset t (li_asset_id inp) (lifecycle_update target version (env_now env)) db;
                  (published, ob) =
                    (if \<not> risk_eligible target \<and> a_risk_state asset \<noteq> ''UNKNOWN''
                     then outbox_append (env_valid_event env) t (env_now env) (env_iso env)
                            (env_uuid env 1) (risk_event t env inp asset version) (asset_outbox db1)
                     else (Inr (), asset_outbox db1));
                  db2 = db1\<lparr>asset_outbox := ob\<rparr>
              in case published of
                   Inl e \<Rightarrow> (Inl e, db2)
                 | Inr _ \<Rightarrow>
                    (case insert_row log_clash
                       \<lparr>le_id = env_uuid env 2, le_tenant = t, le_asset_id = li_asset_id inp,
                        le_from_state = a_lifecycle_state asset, le_to_state = target,
                        le_command_type = command_type inp, le_actor_type = ac_type (li_actor inp),
                        le_actor_id = ac_id (li_actor inp), le_reason = li_reason inp,
                        le_correlation_id = ac_correlation_id (li_actor inp)\<rparr> (lifecycle_log db2) of
                       None \<Rightarrow> (Inl (SqlError ''23505''), db2)
                     | Some lg \<Rightarrow>
                        (Inr \<lparr>lr_id = li_asset_id inp, lr_from_state = a_lifecycle_state asset,
                              lr_to_state = target, lr_version = version\<rparr>,
                         db2\<lparr>lifecycle_log := lg\<rparr>))))"

section \<open>Reservation and assignment\<close>

record reserve_input =
  re_asset_id :: string
  re_expected_version :: js_number
  re_requested_for :: string
  re_reason :: string
  re_expires_at :: "int option"
  re_actor :: actor

definition reserveAsset ::
    "string \<Rightarrow> call_env \<Rightarrow> reserve_input \<Rightarrow> (asset_db, string \<times> string \<times> int \<times> int) call" where
  "reserveAsset t env inp db =
    (if blank (re_requested_for inp)
        \<or> (case re_expires_at inp of None \<Rightarrow> False | Some e \<Rightarrow> e \<le> env_now env)
     then (Inl (AppError VALIDATION_ERROR), db)
     else case transitionLifecycle t env
            \<lparr>li_asset_id = re_asset_id inp, li_expected_version = re_expected_version inp,
             li_target_state = ''RESERVED'', li_actor = re_actor inp, li_reason = re_reason inp,
             li_command_type = Some ''ASSET.RESERVE''\<rparr> db of
       (Inl e, db1) \<Rightarrow> (Inl e, db1)
     | (Inr changed, db1) \<Rightarrow>
        (case re_expires_at inp of
           None \<Rightarrow> (Inl (SqlError ''22007''), db1)
         | Some expires \<Rightarrow>
            (case insert_row reservation_clash
               \<lparr>rs_id = env_uuid env 3, rs_tenant = t, rs_asset_id = re_asset_id inp,
                rs_requested_for = re_requested_for inp, rs_reason = re_reason inp,
                rs_status = ''ACTIVE'', rs_expires_at = expires\<rparr> (reservations db1) of
               None \<Rightarrow> (Inl (AppError BUSINESS_RULE_VIOLATION), db1)
             | Some rs \<Rightarrow> (Inr (env_uuid env 3, re_asset_id inp, expires, lr_version changed),
                          db1\<lparr>reservations := rs\<rparr>))))"

record assign_input =
  ag_asset_id :: string
  ag_expected_version :: js_number
  ag_user_id :: string
  ag_reason :: string
  ag_actor :: actor

text \<open>The user test of this module: \<open>employment_status\<close> only.\<close>

definition employed :: "string \<Rightarrow> string \<Rightarrow> user \<Rightarrow> bool" where
  "employed t i u \<longleftrightarrow> u_tenant u = t \<and> u_id u = i \<and> u_status u = ''ACTIVE''"

definition new_assignment :: "string \<Rightarrow> string \<Rightarrow> string \<Rightarrow> string \<Rightarrow> string \<Rightarrow> assignment" where
  "new_assignment rid t assetId userId reason =
     \<lparr>as_id = rid, as_tenant = t, as_asset_id = assetId, as_user_id = userId,
      as_type = ''PRIMARY'', as_status = ''ACTIVE'', as_reason = reason, as_ended_at = None,
      as_version = 1\<rparr>"

definition assignAsset ::
    "user list \<Rightarrow> string \<Rightarrow> call_env \<Rightarrow> assign_input \<Rightarrow> (asset_db, string \<times> string \<times> string \<times> int) call" where
  "assignAsset us t env inp db =
    (if blank (ag_user_id inp) \<or> blank (ag_reason inp) then (Inl (AppError VALIDATION_ERROR), db)
     else if find_row (employed t (ag_user_id inp)) us = None
     then (Inl (AppError BUSINESS_RULE_VIOLATION), db)
     else case transitionLifecycle t env
            \<lparr>li_asset_id = ag_asset_id inp, li_expected_version = ag_expected_version inp,
             li_target_state = ''ASSIGNED'', li_actor = ag_actor inp, li_reason = ag_reason inp,
             li_command_type = Some ''ASSET.ASSIGN''\<rparr> db of
       (Inl e, db1) \<Rightarrow> (Inl e, db1)
     | (Inr changed, db1) \<Rightarrow>
        (case insert_row assignment_clash
            (new_assignment (env_uuid env 3) t (ag_asset_id inp) (ag_user_id inp) (ag_reason inp))
            (assignments db1) of
           None \<Rightarrow> (Inl (AppError BUSINESS_RULE_VIOLATION), db1)
         | Some xs \<Rightarrow>
            (Inr (env_uuid env 3, ag_asset_id inp, ag_user_id inp, lr_version changed),
             set_asset t (ag_asset_id inp) (\<lambda>r. r\<lparr>a_assignment_state := ''ASSIGNED''\<rparr>)
               (db1\<lparr>assignments := xs\<rparr>))))"

section \<open>Transfer\<close>

record transfer_input =
  tf_asset_id :: string
  tf_expected_version :: js_number
  tf_to_location :: string
  tf_to_user :: string
  tf_reason :: string

record transfer_result =
  tr_movement_id :: string
  tr_from_location :: "string option"
  tr_to_location :: string
  tr_from_user :: string
  tr_to_user :: string
  tr_version :: int

definition active_location :: "string \<Rightarrow> string \<Rightarrow> location \<Rightarrow> bool" where
  "active_location t i l \<longleftrightarrow> lo_tenant l = t \<and> lo_id l = i \<and> lo_status l = ''ACTIVE''"

definition end_assignment :: "string \<Rightarrow> string \<Rightarrow> int \<Rightarrow> assignment list \<Rightarrow> assignment list" where
  "end_assignment t i now = update_rows (\<lambda>r. as_tenant r = t \<and> as_id r = i)
     (\<lambda>r. r\<lparr>as_status := ''ENDED'', as_ended_at := Some now, as_version := as_version r + 1\<rparr>)"

definition movement_clash :: "movement \<Rightarrow> movement \<Rightarrow> bool" where
  "movement_clash x y \<longleftrightarrow> mv_id x = mv_id y"

definition transferAsset ::
    "user list \<Rightarrow> string \<Rightarrow> call_env \<Rightarrow> transfer_input \<Rightarrow> (asset_db, transfer_result) call" where
  "transferAsset us t env inp db =
    (if blank (tf_to_location inp) \<or> blank (tf_to_user inp) \<or> blank (tf_reason inp)
     then (Inl (AppError VALIDATION_ERROR), db)
     else case find_asset t (tf_asset_id inp) db of
       None \<Rightarrow> (Inl (AppError NOT_FOUND), db)
     | Some asset \<Rightarrow>
        (case assertVersion (a_version asset) (tf_expected_version inp) of
           Inl e \<Rightarrow> (Inl e, db)
         | Inr _ \<Rightarrow>
            if a_lifecycle_state asset \<notin> set [''ASSIGNED'', ''IN_USE''] \<or> a_assignment_state asset \<noteq> ''ASSIGNED''
            then (Inl (AppError BUSINESS_RULE_VIOLATION), db)
            else if find_row (active_location t (tf_to_location inp)) (locations db) = None
            then (Inl (AppError NOT_FOUND), db)
            else if find_row (employed t (tf_to_user inp)) us = None
            then (Inl (AppError BUSINESS_RULE_VIOLATION), db)
            else case find_row (active_primary t (tf_asset_id inp)) (assignments db) of
              None \<Rightarrow> (Inl (AppError BUSINESS_RULE_VIOLATION), db)
            | Some current \<Rightarrow>
               let version = js_int (tf_expected_version inp) + 1 in
               (case insert_row movement_clash
                  \<lparr>mv_id = env_uuid env 0, mv_tenant = t, mv_asset_id = tf_asset_id inp,
                   mv_type = ''TRANSFER'', mv_status = ''COMPLETED'',
                   mv_from_location = a_location_id asset, mv_to_location = tf_to_location inp,
                   mv_from_user = Some (as_user_id current), mv_to_user = Some (tf_to_user inp),
                   mv_reason = tf_reason inp, mv_completed_at = env_now env\<rparr> (movements db) of
                  None \<Rightarrow> (Inl (SqlError ''23505''), db)
                | Some mvs \<Rightarrow>
                   let db1 = db\<lparr>movements := mvs\<rparr>;
                       (moved, xs) =
                         (if as_user_id current \<noteq> tf_to_user inp
                          then let ended = end_assignment t (as_id current) (env_now env) (assignments db1)
                               in case insert_row assignment_clash
                                    (new_assignment (env_uuid env 1) t (tf_asset_id inp) (tf_to_user inp)
                                       (tf_reason inp)) ended of
                                    None \<Rightarrow> (Inl (SqlError ''23505''), ended)
                                  | Some xs \<Rightarrow> (Inr (), xs)
                          else (Inr (), assignments db1));
                       db2 = db1\<lparr>assignments := xs\<rparr>
                   in case moved of
                        Inl e \<Rightarrow> (Inl e, db2)
                      | Inr _ \<Rightarrow>
                         (Inr \<lparr>tr_movement_id = env_uuid env 0, tr_from_location = a_location_id asset,
                               tr_to_location = tf_to_location inp, tr_from_user = as_user_id current,
                               tr_to_user = tf_to_user inp, tr_version = version\<rparr>,
                          set_asset t (tf_asset_id inp)
                            (\<lambda>r. r\<lparr>a_location_id := Some (tf_to_location inp),
                                   a_updated_at := env_now env, a_version := version\<rparr>) db2))))"


section \<open>Returns\<close>

record return_input =
  rq_asset_id :: string
  rq_expected_version :: js_number
  rq_due_at :: "int option"
  rq_reason :: string

record return_result =
  rt_request_id :: string
  rt_assignment_id :: string
  rt_user_id :: string
  rt_due_at :: int
  rt_version :: int

definition requestReturn ::
    "string \<Rightarrow> call_env \<Rightarrow> return_input \<Rightarrow> (asset_db, return_result) call" where
  "requestReturn t env inp db =
    (if blank (rq_reason inp)
        \<or> (case rq_due_at inp of None \<Rightarrow> False | Some d \<Rightarrow> d \<le> env_now env)
     then (Inl (AppError VALIDATION_ERROR), db)
     else case find_asset t (rq_asset_id inp) db of
       None \<Rightarrow> (Inl (AppError NOT_FOUND), db)
     | Some asset \<Rightarrow>
        (case assertVersion (a_version asset) (rq_expected_version inp) of
           Inl e \<Rightarrow> (Inl e, db)
         | Inr _ \<Rightarrow>
            if a_lifecycle_state asset \<notin> set [''ASSIGNED'', ''IN_USE''] \<or> a_assignment_state asset \<noteq> ''ASSIGNED''
            then (Inl (AppError BUSINESS_RULE_VIOLATION), db)
            else case find_row (active_primary t (rq_asset_id inp)) (assignments db) of
              None \<Rightarrow> (Inl (AppError BUSINESS_RULE_VIOLATION), db)
            | Some current \<Rightarrow>
               (case rq_due_at inp of
                  None \<Rightarrow> (Inl (SqlError ''22007''), db)
                | Some due \<Rightarrow>
                   (case insert_row return_clash
                      \<lparr>rr_id = env_uuid env 0, rr_tenant = t, rr_asset_id = rq_asset_id inp,
                       rr_assignment_id = as_id current, rr_user_id = as_user_id current,
                       rr_due_at = due, rr_reason = rq_reason inp, rr_status = ''PENDING'',
                       rr_fulfilled_at = None, rr_cancelled_reason = None\<rparr> (return_requests db) of
                      None \<Rightarrow> (Inl (AppError BUSINESS_RULE_VIOLATION), db)
                    | Some rrs \<Rightarrow>
                       let version = js_int (rq_expected_version inp) + 1 in
                       (Inr \<lparr>rt_request_id = env_uuid env 0, rt_assignment_id = as_id current,
                             rt_user_id = as_user_id current, rt_due_at = due, rt_version = version\<rparr>,
                        set_asset t (rq_asset_id inp)
                          (\<lambda>r. r\<lparr>a_assignment_state := ''PENDING_RETURN'', a_updated_at := env_now env,
                                 a_version := version\<rparr>)
                          (db\<lparr>return_requests := rrs\<rparr>))))))"

text \<open>The rows of the offboarding query: its three-way join, ordered by the asset.\<close>

record held_asset =
  ha_id :: string
  ha_code :: string
  ha_assignment_state :: string
  ha_lifecycle_state :: string
  ha_version :: int
  ha_request_id :: "string option"
  ha_return_state :: "string option"

definition listUserAssetsForOffboarding :: "string \<Rightarrow> string \<Rightarrow> asset_db \<Rightarrow> held_asset list" where
  "listUserAssetsForOffboarding t userId db =
     sort_key ha_id
       [\<lparr>ha_id = a_id a, ha_code = a_code a, ha_assignment_state = a_assignment_state a,
         ha_lifecycle_state = a_lifecycle_state a, ha_version = a_version a,
         ha_request_id = map_option rr_id rr, ha_return_state = map_option rr_status rr\<rparr>.
          x \<leftarrow> assignments db,
          as_tenant x = t \<and> as_user_id x = userId \<and> as_status x = ''ACTIVE'' \<and> as_type x = ''PRIMARY'',
          a \<leftarrow> assets db,
          a_tenant a = as_tenant x \<and> a_id a = as_asset_id x,
          rr \<leftarrow> left_join (\<lambda>rr. rr_tenant rr = as_tenant x \<and> rr_assignment_id rr = as_id x
                            \<and> rr_status rr = ''PENDING'') (return_requests db)]"

record cancel_input =
  ci_asset_id :: string
  ci_request_id :: string
  ci_expected_version :: js_number
  ci_reason :: string

record cancel_result =
  cr_asset_id :: string
  cr_version :: int
  cr_request_id :: string
  cr_noOp :: bool

definition request_of :: "string \<Rightarrow> string \<Rightarrow> string \<Rightarrow> return_request \<Rightarrow> bool" where
  "request_of t i asset_id r \<longleftrightarrow> rr_tenant r = t \<and> rr_id r = i \<and> rr_asset_id r = asset_id"

definition cancelReturnRequest ::
    "string \<Rightarrow> call_env \<Rightarrow> cancel_input \<Rightarrow> (asset_db, cancel_result) call" where
  "cancelReturnRequest t env inp db =
    (let reason = js_trim (ci_reason inp) in
     if blank (ci_reason inp) \<or> 2000 < length (ci_reason inp) \<or> looks_secret (ci_reason inp)
     then (Inl (AppError VALIDATION_ERROR), db)
     else case find_asset t (ci_asset_id inp) db of
       None \<Rightarrow> (Inl (AppError NOT_FOUND), db)
     | Some asset \<Rightarrow>
        let req = find_row (request_of t (ci_request_id inp) (ci_asset_id inp)) (return_requests db) in
        if (case req of None \<Rightarrow> False
              | Some r \<Rightarrow> rr_status r = ''CANCELLED'' \<and> rr_cancelled_reason r = Some reason)
        then (Inr \<lparr>cr_asset_id = ci_asset_id inp, cr_version = a_version asset,
                   cr_request_id = ci_request_id inp, cr_noOp = True\<rparr>, db)
        else case assertVersion (a_version asset) (ci_expected_version inp) of
           Inl e \<Rightarrow> (Inl e, db)
         | Inr _ \<Rightarrow>
            if (case req of None \<Rightarrow> True | Some r \<Rightarrow> rr_status r \<noteq> ''PENDING'')
               \<or> a_assignment_state asset \<noteq> ''PENDING_RETURN''
            then (Inl (AppError BUSINESS_RULE_VIOLATION), db)
            else
              let version = js_int (ci_expected_version inp) + 1;
                  db1 = db\<lparr>return_requests :=
                    update_rows (\<lambda>r. rr_tenant r = t \<and> rr_id r = ci_request_id inp)
                      (\<lambda>r. r\<lparr>rr_status := ''CANCELLED'', rr_cancelled_reason := Some reason\<rparr>)
                      (return_requests db)\<rparr>
              in (Inr \<lparr>cr_asset_id = ci_asset_id inp, cr_version = version,
                       cr_request_id = ci_request_id inp, cr_noOp = False\<rparr>,
                  set_asset t (ci_asset_id inp)
                    (\<lambda>r. r\<lparr>a_assignment_state := ''ASSIGNED'', a_version := version,
                           a_updated_at := env_now env\<rparr>) db1))"

definition readReturnRequestState :: "string \<Rightarrow> string \<Rightarrow> asset_db \<Rightarrow> exn + (string \<times> string)" where
  "readReturnRequestState t request_id db =
     (case find_row (\<lambda>r. rr_tenant r = t \<and> rr_id r = request_id) (return_requests db) of
        None \<Rightarrow> Inl (AppError NOT_FOUND)
      | Some r \<Rightarrow> Inr (rr_status r, rr_asset_id r))"

record receive_input =
  rc_asset_id :: string
  rc_expected_version :: js_number
  rc_request_id :: string
  rc_location :: string
  rc_condition_grade :: string
  rc_notes :: string

record receive_result =
  rv_return_id :: string
  rv_asset_id :: string
  rv_condition_grade :: string
  rv_location :: string
  rv_version :: int

text \<open>The writes of \<open>receiveReturn\<close> once its documents are filed.\<close>

definition close_return ::
    "string \<Rightarrow> call_env \<Rightarrow> receive_input \<Rightarrow> return_request \<Rightarrow> asset_db \<Rightarrow> asset_db" where
  "close_return t env inp req db =
     set_asset t (rc_asset_id inp)
       (\<lambda>r. r\<lparr>a_lifecycle_state := ''RETURNED'', a_assignment_state := ''UNASSIGNED'',
              a_location_id := Some (rc_location inp), a_updated_at := env_now env,
              a_version := js_int (rc_expected_version inp) + 1\<rparr>)
       (db\<lparr>assignments := end_assignment t (rr_assignment_id req) (env_now env) (assignments db),
           return_requests := update_rows (\<lambda>r. rr_tenant r = t \<and> rr_id r = rc_request_id inp)
             (\<lambda>r. r\<lparr>rr_status := ''FULFILLED'', rr_fulfilled_at := Some (env_now env)\<rparr>)
             (return_requests db)\<rparr>)"

definition receiveReturn ::
    "string \<Rightarrow> call_env \<Rightarrow> receive_input \<Rightarrow> (asset_db, receive_result) call" where
  "receiveReturn t env inp db =
    (if blank (rc_request_id inp) \<or> blank (rc_location inp)
        \<or> rc_condition_grade inp \<notin> set [''A'', ''B'', ''C'', ''D'', ''E''] \<or> blank (rc_notes inp)
     then (Inl (AppError VALIDATION_ERROR), db)
     else case find_asset t (rc_asset_id inp) db of
       None \<Rightarrow> (Inl (AppError NOT_FOUND), db)
     | Some asset \<Rightarrow>
        (case assertVersion (a_version asset) (rc_expected_version inp) of
           Inl e \<Rightarrow> (Inl e, db)
         | Inr _ \<Rightarrow>
            if a_assignment_state asset \<noteq> ''PENDING_RETURN''
            then (Inl (AppError BUSINESS_RULE_VIOLATION), db)
            else if find_row (active_location t (rc_location inp)) (locations db) = None
            then (Inl (AppError NOT_FOUND), db)
            else case find_row (request_of t (rc_request_id inp) (rc_asset_id inp)) (return_requests db) of
              None \<Rightarrow> (Inl (AppError BUSINESS_RULE_VIOLATION), db)
            | Some req \<Rightarrow>
               if rr_status req \<noteq> ''PENDING'' then (Inl (AppError BUSINESS_RULE_VIOLATION), db)
               else
               (case insert_row movement_clash
                  \<lparr>mv_id = env_uuid env 0, mv_tenant = t, mv_asset_id = rc_asset_id inp,
                   mv_type = ''RETURN'', mv_status = ''COMPLETED'',
                   mv_from_location = a_location_id asset, mv_to_location = rc_location inp,
                   mv_from_user = Some (rr_user_id req), mv_to_user = None,
                   mv_reason = rc_notes inp, mv_completed_at = env_now env\<rparr> (movements db) of
                  None \<Rightarrow> (Inl (SqlError ''23505''), db)
                | Some mvs \<Rightarrow>
                   let db1 = db\<lparr>movements := mvs\<rparr> in
                   (case insert_row document_clash
                      \<lparr>rd_id = env_uuid env 1, rd_tenant = t, rd_request_id = rc_request_id inp,
                       rd_asset_id = rc_asset_id inp, rd_condition_grade = rc_condition_grade inp,
                       rd_location_id = rc_location inp, rd_notes = rc_notes inp\<rparr>
                      (return_documents db1) of
                      None \<Rightarrow> (Inl (SqlError ''23505''), db1)
                    | Some docs \<Rightarrow>
                       (Inr \<lparr>rv_return_id = env_uuid env 1, rv_asset_id = rc_asset_id inp,
                             rv_condition_grade = rc_condition_grade inp, rv_location = rc_location inp,
                             rv_version = js_int (rc_expected_version inp) + 1\<rparr>,
                        close_return t env inp req (db1\<lparr>return_documents := docs\<rparr>))))))"


section \<open>What the commands do\<close>

definition keeps_key :: "(asset \<Rightarrow> asset) \<Rightarrow> bool" where
  "keeps_key f \<longleftrightarrow> (\<forall>r. a_tenant (f r) = a_tenant r \<and> a_id (f r) = a_id r)"

lemma keeps_key_update [simp]:
  "keeps_key (lifecycle_update target version now)"
  "keeps_key (\<lambda>r. r\<lparr>a_assignment_state := s\<rparr>)"
  "keeps_key (\<lambda>r. r\<lparr>a_location_id := l, a_updated_at := n, a_version := v\<rparr>)"
  "keeps_key (\<lambda>r. r\<lparr>a_assignment_state := s, a_updated_at := n, a_version := v\<rparr>)"
  "keeps_key (\<lambda>r. r\<lparr>a_assignment_state := s, a_version := v, a_updated_at := n\<rparr>)"
  "keeps_key (\<lambda>r. r\<lparr>a_lifecycle_state := x, a_assignment_state := s, a_location_id := l,
                    a_updated_at := n, a_version := v\<rparr>)"
  by (simp_all add: keeps_key_def lifecycle_update_def)

lemma set_asset_frame [simp]:
  "lifecycle_log (set_asset t i f db) = lifecycle_log db"
  "reservations (set_asset t i f db) = reservations db"
  "assignments (set_asset t i f db) = assignments db"
  "movements (set_asset t i f db) = movements db"
  "return_requests (set_asset t i f db) = return_requests db"
  "return_documents (set_asset t i f db) = return_documents db"
  "locations (set_asset t i f db) = locations db"
  "asset_outbox (set_asset t i f db) = asset_outbox db"
  "assets (set_asset t i f db) = update_rows (asset_key t i) f (assets db)"
  by (simp_all add: set_asset_def)

lemma set_asset_requests:
  "(set_asset t i f db)\<lparr>return_requests := x\<rparr> = set_asset t i f (db\<lparr>return_requests := x\<rparr>)"
  by (cases db) (simp add: set_asset_def)

lemma find_asset_frame [simp]:
  "find_asset t i (db\<lparr>lifecycle_log := x1\<rparr>) = find_asset t i db"
  "find_asset t i (db\<lparr>reservations := x2\<rparr>) = find_asset t i db"
  "find_asset t i (db\<lparr>assignments := x3\<rparr>) = find_asset t i db"
  "find_asset t i (db\<lparr>movements := x4\<rparr>) = find_asset t i db"
  "find_asset t i (db\<lparr>return_requests := x5\<rparr>) = find_asset t i db"
  "find_asset t i (db\<lparr>return_documents := x6\<rparr>) = find_asset t i db"
  "find_asset t i (db\<lparr>asset_outbox := x7\<rparr>) = find_asset t i db"
  by (simp_all add: find_asset_def)

lemma find_set_asset [simp]:
  assumes "keeps_key f"
  shows "find_asset t i (set_asset t i f db) = map_option f (find_asset t i db)"
  using assms by (simp add: find_asset_def keeps_key_def find_row_update_same)

lemma find_set_asset_other:
  assumes "keeps_key f" and "(t', i') \<noteq> (t, i)"
  shows "find_asset t i (set_asset t' i' f db) = find_asset t i db"
  using assms by (auto simp: find_asset_def keeps_key_def intro!: find_row_update_other)

lemma transitionLifecycle_Inr:
  assumes "transitionLifecycle t env inp db = (Inr r, db')"
  obtains asset ob lg where
    "find_asset t (li_asset_id inp) db = Some asset"
    and "li_expected_version inp = JInt (a_version asset)" and "\<not> blank (li_reason inp)"
    and "li_target_state inp \<in> set (table_targets transitions (a_lifecycle_state asset))"
    and "r = \<lparr>lr_id = li_asset_id inp, lr_from_state = a_lifecycle_state asset,
              lr_to_state = li_target_state inp, lr_version = a_version asset + 1\<rparr>"
    and "db' = (set_asset t (li_asset_id inp)
           (lifecycle_update (li_target_state inp) (a_version asset + 1) (env_now env)) db)
           \<lparr>asset_outbox := ob, lifecycle_log := lg\<rparr>"
    and "lg = lifecycle_log db @ [\<lparr>le_id = env_uuid env 2, le_tenant = t, le_asset_id = li_asset_id inp,
                        le_from_state = a_lifecycle_state asset, le_to_state = li_target_state inp,
                        le_command_type = command_type inp, le_actor_type = ac_type (li_actor inp),
                        le_actor_id = ac_id (li_actor inp), le_reason = li_reason inp,
                        le_correlation_id = ac_correlation_id (li_actor inp)\<rparr>]"
  using assms
  by (auto simp: transitionLifecycle_def Let_def assertVersion_Inr insert_row_Some_iff
      split: if_splits option.splits sum.splits prod.splits)

definition new_reservation :: "string \<Rightarrow> call_env \<Rightarrow> reserve_input \<Rightarrow> int \<Rightarrow> reservation" where
  "new_reservation t env inp expires =
     \<lparr>rs_id = env_uuid env 3, rs_tenant = t, rs_asset_id = re_asset_id inp,
      rs_requested_for = re_requested_for inp, rs_reason = re_reason inp,
      rs_status = ''ACTIVE'', rs_expires_at = expires\<rparr>"

lemma reserveAsset_Inr:
  assumes "reserveAsset t env inp db = (Inr r, db')"
  obtains chg db1 expires rs where
    "transitionLifecycle t env
            \<lparr>li_asset_id = re_asset_id inp, li_expected_version = re_expected_version inp,
             li_target_state = ''RESERVED'', li_actor = re_actor inp, li_reason = re_reason inp,
             li_command_type = Some ''ASSET.RESERVE''\<rparr> db = (Inr chg, db1)"
    and "re_expires_at inp = Some expires" and "env_now env < expires"
    and "insert_row reservation_clash (new_reservation t env inp expires) (reservations db1) = Some rs"
    and "db' = db1\<lparr>reservations := rs\<rparr>"
  using assms
  by (auto simp: reserveAsset_def new_reservation_def
      split: if_splits option.splits sum.splits prod.splits)

lemma assignAsset_Inr:
  assumes "assignAsset us t env inp db = (Inr r, db')"
  obtains chg db1 xs where
    "find_row (employed t (ag_user_id inp)) us \<noteq> None"
    and "transitionLifecycle t env
            \<lparr>li_asset_id = ag_asset_id inp, li_expected_version = ag_expected_version inp,
             li_target_state = ''ASSIGNED'', li_actor = ag_actor inp, li_reason = ag_reason inp,
             li_command_type = Some ''ASSET.ASSIGN''\<rparr> db = (Inr chg, db1)"
    and "insert_row assignment_clash
            (new_assignment (env_uuid env 3) t (ag_asset_id inp) (ag_user_id inp) (ag_reason inp))
            (assignments db1) = Some xs"
    and "db' = set_asset t (ag_asset_id inp) (\<lambda>r. r\<lparr>a_assignment_state := ''ASSIGNED''\<rparr>)
               (db1\<lparr>assignments := xs\<rparr>)"
    and "r = (env_uuid env 3, ag_asset_id inp, ag_user_id inp, lr_version chg)"
  using assms
  by (auto simp: assignAsset_def split: if_splits option.splits sum.splits prod.splits)

lemma transferAsset_Inr:
  assumes "transferAsset us t env inp db = (Inr r, db')"
  obtains asset current mvs xs where
    "find_asset t (tf_asset_id inp) db = Some asset"
    and "tf_expected_version inp = JInt (a_version asset)"
    and "a_lifecycle_state asset \<in> {''ASSIGNED'', ''IN_USE''}" and "a_assignment_state asset = ''ASSIGNED''"
    and "find_row (employed t (tf_to_user inp)) us \<noteq> None"
    and "find_row (active_location t (tf_to_location inp)) (locations db) \<noteq> None"
    and "find_row (active_primary t (tf_asset_id inp)) (assignments db) = Some current"
    and "if as_user_id current = tf_to_user inp then xs = assignments db
         else insert_row assignment_clash (new_assignment (env_uuid env 1) t (tf_asset_id inp)
                  (tf_to_user inp) (tf_reason inp))
                (end_assignment t (as_id current) (env_now env) (assignments db)) = Some xs"
    and "db' = set_asset t (tf_asset_id inp)
                 (\<lambda>r. r\<lparr>a_location_id := Some (tf_to_location inp), a_updated_at := env_now env,
                        a_version := a_version asset + 1\<rparr>)
                 (db\<lparr>movements := mvs, assignments := xs\<rparr>)"
    and "r = \<lparr>tr_movement_id = env_uuid env 0, tr_from_location = a_location_id asset,
                               tr_to_location = tf_to_location inp, tr_from_user = as_user_id current,
                               tr_to_user = tf_to_user inp, tr_version = a_version asset + 1\<rparr>"
  using assms
  by (auto simp: transferAsset_def Let_def assertVersion_Inr
      split: if_splits option.splits sum.splits prod.splits)

definition new_request :: "string \<Rightarrow> call_env \<Rightarrow> return_input \<Rightarrow> assignment \<Rightarrow> int \<Rightarrow> return_request" where
  "new_request t env inp current due =
     \<lparr>rr_id = env_uuid env 0, rr_tenant = t, rr_asset_id = rq_asset_id inp,
      rr_assignment_id = as_id current, rr_user_id = as_user_id current, rr_due_at = due,
      rr_reason = rq_reason inp, rr_status = ''PENDING'', rr_fulfilled_at = None,
      rr_cancelled_reason = None\<rparr>"

lemma requestReturn_Inr:
  assumes "requestReturn t env inp db = (Inr r, db')"
  obtains asset current due rrs where
    "find_asset t (rq_asset_id inp) db = Some asset"
    and "rq_expected_version inp = JInt (a_version asset)"
    and "a_lifecycle_state asset \<in> {''ASSIGNED'', ''IN_USE''}" and "a_assignment_state asset = ''ASSIGNED''"
    and "find_row (active_primary t (rq_asset_id inp)) (assignments db) = Some current"
    and "rq_due_at inp = Some due" and "env_now env < due"
    and "insert_row return_clash (new_request t env inp current due) (return_requests db) = Some rrs"
    and "db' = set_asset t (rq_asset_id inp)
                          (\<lambda>r. r\<lparr>a_assignment_state := ''PENDING_RETURN'', a_updated_at := env_now env,
                                 a_version := a_version asset + 1\<rparr>)
                 (db\<lparr>return_requests := rrs\<rparr>)"
    and "r = \<lparr>rt_request_id = env_uuid env 0, rt_assignment_id = as_id current,
                rt_user_id = as_user_id current, rt_due_at = due, rt_version = a_version asset + 1\<rparr>"
  using assms
  by (auto simp: requestReturn_def Let_def assertVersion_Inr new_request_def
      split: if_splits option.splits sum.splits prod.splits)

lemma receiveReturn_Inr:
  assumes "receiveReturn t env inp db = (Inr r, db')"
  obtains asset req mvs docs where
    "find_asset t (rc_asset_id inp) db = Some asset"
    and "rc_expected_version inp = JInt (a_version asset)"
    and "a_assignment_state asset = ''PENDING_RETURN''"
    and "find_row (active_location t (rc_location inp)) (locations db) \<noteq> None"
    and "find_row (request_of t (rc_request_id inp) (rc_asset_id inp)) (return_requests db) = Some req"
    and "rr_status req = ''PENDING''"
    and "db' = close_return t env inp req (db\<lparr>movements := mvs, return_documents := docs\<rparr>)"
    and "rv_version r = a_version asset + 1"
  using assms
  by (auto simp: receiveReturn_def Let_def assertVersion_Inr
      split: if_splits option.splits sum.splits prod.splits)

lemma cancelReturnRequest_Inr:
  assumes "cancelReturnRequest t env inp db = (Inr r, db')" and "\<not> cr_noOp r"
  obtains asset req where
    "find_asset t (ci_asset_id inp) db = Some asset"
    and "ci_expected_version inp = JInt (a_version asset)"
    and "a_assignment_state asset = ''PENDING_RETURN''"
    and "find_row (request_of t (ci_request_id inp) (ci_asset_id inp)) (return_requests db) = Some req"
    and "rr_status req = ''PENDING''"
    and "\<not> blank (ci_reason inp) \<and> length (ci_reason inp) \<le> 2000 \<and> \<not> looks_secret (ci_reason inp)"
    and "db' = set_asset t (ci_asset_id inp)
                    (\<lambda>r. r\<lparr>a_assignment_state := ''ASSIGNED'', a_version := a_version asset + 1,
                           a_updated_at := env_now env\<rparr>)
                (db\<lparr>return_requests :=
                    update_rows (\<lambda>r. rr_tenant r = t \<and> rr_id r = ci_request_id inp)
                      (\<lambda>r. r\<lparr>rr_status := ''CANCELLED'', rr_cancelled_reason := Some (js_trim (ci_reason inp))\<rparr>)
                      (return_requests db)\<rparr>)"
    and "r = \<lparr>cr_asset_id = ci_asset_id inp, cr_version = a_version asset + 1,
                       cr_request_id = ci_request_id inp, cr_noOp = False\<rparr>"
  using assms
  by (cases "find_asset t (ci_asset_id inp) db";
      cases "find_row (request_of t (ci_request_id inp) (ci_asset_id inp)) (return_requests db)")
    (auto simp: cancelReturnRequest_def Let_def assertVersion_Inr split: if_splits sum.splits)

lemma cancelReturnRequest_noOp:
  assumes "cancelReturnRequest t env inp db = (Inr r, db')" and "cr_noOp r"
  shows "db' = db"
  using assms
  by (auto simp: cancelReturnRequest_def Let_def split: if_splits option.splits sum.splits prod.splits)


section \<open>Commands\<close>

text \<open>
  The commands of the module, those that always move the version apart from
  \<open>cancelReturnRequest\<close>, whose replay changes nothing.
\<close>

datatype asset_update =
    Transition lifecycle_input
  | Reserve reserve_input
  | Assign assign_input
  | Transfer transfer_input
  | RequestReturn return_input
  | ReceiveReturn receive_input

datatype asset_command = Update asset_update | CancelReturn cancel_input

fun asset_update_step ::
    "user list \<Rightarrow> string \<Rightarrow> call_env \<Rightarrow> asset_update \<Rightarrow> (asset_db, unit) call" where
  "asset_update_step us t env (Transition i) db = forget (transitionLifecycle t env i db)"
| "asset_update_step us t env (Reserve i) db = forget (reserveAsset t env i db)"
| "asset_update_step us t env (Assign i) db = forget (assignAsset us t env i db)"
| "asset_update_step us t env (Transfer i) db = forget (transferAsset us t env i db)"
| "asset_update_step us t env (RequestReturn i) db = forget (requestReturn t env i db)"
| "asset_update_step us t env (ReceiveReturn i) db = forget (receiveReturn t env i db)"

fun asset_step :: "user list \<Rightarrow> string \<Rightarrow> call_env \<times> asset_command \<Rightarrow> (asset_db, unit) call" where
  "asset_step us t (env, Update u) db = asset_update_step us t env u db"
| "asset_step us t (env, CancelReturn i) db = forget (cancelReturnRequest t env i db)"

fun retarget :: "string \<Rightarrow> asset_update \<Rightarrow> asset_update" where
  "retarget a (Transition i) = Transition (i\<lparr>li_asset_id := a\<rparr>)"
| "retarget a (Reserve i) = Reserve (i\<lparr>re_asset_id := a\<rparr>)"
| "retarget a (Assign i) = Assign (i\<lparr>ag_asset_id := a\<rparr>)"
| "retarget a (Transfer i) = Transfer (i\<lparr>tf_asset_id := a\<rparr>)"
| "retarget a (RequestReturn i) = RequestReturn (i\<lparr>rq_asset_id := a\<rparr>)"
| "retarget a (ReceiveReturn i) = ReceiveReturn (i\<lparr>rc_asset_id := a\<rparr>)"

fun addressed :: "asset_update \<Rightarrow> string" where
  "addressed (Transition i) = li_asset_id i"
| "addressed (Reserve i) = re_asset_id i"
| "addressed (Assign i) = ag_asset_id i"
| "addressed (Transfer i) = tf_asset_id i"
| "addressed (RequestReturn i) = rq_asset_id i"
| "addressed (ReceiveReturn i) = rc_asset_id i"

fun expected_version :: "asset_update \<Rightarrow> js_number" where
  "expected_version (Transition i) = li_expected_version i"
| "expected_version (Reserve i) = re_expected_version i"
| "expected_version (Assign i) = ag_expected_version i"
| "expected_version (Transfer i) = tf_expected_version i"
| "expected_version (RequestReturn i) = rq_expected_version i"
| "expected_version (ReceiveReturn i) = rc_expected_version i"

lemma retarget_simps [simp]:
  "addressed (retarget a u) = a" "expected_version (retarget a u) = expected_version u"
  by (cases u; simp)+

lemma lifecycle_update_simps [simp]:
  "a_version (lifecycle_update x v n r) = v"
  "a_lifecycle_state (lifecycle_update x v n r) = x"
  "a_tenant (lifecycle_update x v n r) = a_tenant r"
  "a_id (lifecycle_update x v n r) = a_id r"
  by (simp_all add: lifecycle_update_def)

text \<open>Each update moves one asset one version on, along the table or to RETURNED.\<close>

definition step_targets :: "asset_update \<Rightarrow> string \<Rightarrow> string list" where
  "step_targets u x = (case u of
       Transition _ \<Rightarrow> table_targets transitions x
     | Reserve _ \<Rightarrow> table_targets transitions x
     | Assign _ \<Rightarrow> table_targets transitions x
     | Transfer _ \<Rightarrow> [x]
     | RequestReturn _ \<Rightarrow> [x]
     | ReceiveReturn _ \<Rightarrow> [''RETURNED''])"

lemma transition_on:
  assumes "transitionLifecycle t env inp db = (Inr r, db')"
  obtains asset asset' where
    "find_asset t (li_asset_id inp) db = Some asset"
    and "find_asset t (li_asset_id inp) db' = Some asset'"
    and "li_expected_version inp = JInt (a_version asset)"
    and "a_version asset' = a_version asset + 1"
    and "a_lifecycle_state asset' \<in> set (table_targets transitions (a_lifecycle_state asset))"
    and "a_lifecycle_state asset' = li_target_state inp"
    and "lr_version r = a_version asset + 1"
  using assms by (elim transitionLifecycle_Inr) simp

lemma asset_update_on:
  assumes "asset_update_step us t env u db = (Inr a, db')"
  shows "\<exists>x x'. find_asset t (addressed u) db = Some x \<and> find_asset t (addressed u) db' = Some x'
     \<and> expected_version u = JInt (a_version x) \<and> a_version x' = a_version x + 1
     \<and> a_lifecycle_state x' \<in> set (step_targets u (a_lifecycle_state x))"
proof (cases u)
  case (Transition i)
  with assms show ?thesis
    by (auto simp: forget_Inr step_targets_def elim!: transition_on)
next
  case (Reserve i)
  with assms show ?thesis
    by (auto simp: forget_Inr step_targets_def elim!: reserveAsset_Inr transition_on)
next
  case (Assign i)
  with assms show ?thesis
    by (auto simp: forget_Inr step_targets_def elim!: assignAsset_Inr transition_on)
next
  case (Transfer i)
  with assms show ?thesis
    by (auto simp: forget_Inr step_targets_def elim!: transferAsset_Inr)
next
  case (RequestReturn i)
  with assms show ?thesis
    by (auto simp: forget_Inr step_targets_def elim!: requestReturn_Inr)
next
  case (ReceiveReturn i)
  with assms show ?thesis
    by (auto simp: forget_Inr step_targets_def close_return_def elim!: receiveReturn_Inr)
qed

interpretation asset_versions: versioned_command
  "\<lambda>(env, u). asset_update_step us t env (retarget aid u)" "\<lambda>(env, u). expected_version u"
  "\<lambda>db. map_option a_version (find_asset t aid db)" "\<lambda>_. True"
  for us t aid
proof unfold_locales
  fix s i and b :: unit and s'
  assume ok: "(case i of (env, u) \<Rightarrow> asset_update_step us t env (retarget aid u)) s = (Inr b, s')"
  obtain env u where i: "i = (env, u)" by fastforce
  with ok have "asset_update_step us t env (retarget aid u) s = (Inr b, s')" by simp
  from asset_update_on [OF this] i
  show "True \<and> (\<exists>v. map_option a_version (find_asset t aid s) = Some v \<and>
          (case i of (env, u) \<Rightarrow> expected_version u) = JInt v \<and>
          map_option a_version (find_asset t aid s') = Some (v + 1))"
    by auto
qed

text \<open>\<open>transitionLifecycle\<close>, in its transaction, follows the table.\<close>

definition lifecycle_states :: "string list" where
  "lifecycle_states = map fst transitions"

definition lifecycle_after :: "string \<Rightarrow> string \<Rightarrow> call_env \<times> lifecycle_input \<Rightarrow> asset_db \<Rightarrow> asset_db" where
  "lifecycle_after t a i db = snd (uow t (transitionLifecycle t (fst i) ((snd i)\<lparr>li_asset_id := a\<rparr>)) db)"

lemma transitions_closed: "table_closed transitions"
  by (simp add: table_closed_def transitions_def)

interpretation asset_lifecycle: lifecycle_command
  "table_targets transitions" lifecycle_states "lifecycle_after t a"
  "\<lambda>db. map_option a_lifecycle_state (find_asset t a db)"
  for t a
proof unfold_locales
  show "y \<in> set (table_targets transitions x) \<Longrightarrow> y \<in> set lifecycle_states" for x y
    using table_closedD [OF transitions_closed] by (simp add: lifecycle_states_def)
next
  fix s x i
  assume x: "map_option a_lifecycle_state (find_asset t a s) = Some x"
  let ?f = "transitionLifecycle t (fst i) ((snd i)\<lparr>li_asset_id := a\<rparr>)"
  show "\<exists>y. map_option a_lifecycle_state (find_asset t a (lifecycle_after t a i s)) = Some y
      \<and> (y = x \<or> y \<in> set (table_targets transitions x))"
  proof (cases "snd (uow t ?f s) = s")
    case True
    with x show ?thesis by (auto simp: lifecycle_after_def)
  next
    case False
    then obtain r where "?f s = (Inr r, snd (uow t ?f s))"
      using pg.rolls_back [of t ?f s] pg.commits [of t ?f s]
      by (metis prod.collapse sum.exhaust)
    then show ?thesis
      using x by (elim transition_on) (auto simp: lifecycle_after_def)
  qed
qed


section \<open>The invariant of the asset tables\<close>

text \<open>
  Rows are unique under the primary keys and the partial unique indexes; an asset that is
  assigned or on its way back has its active primary assignment; a pending return request names
  an assignment of its own asset.
\<close>

definition held :: "asset \<Rightarrow> bool" where
  "held r \<longleftrightarrow> a_assignment_state r = ''ASSIGNED'' \<or> a_assignment_state r = ''PENDING_RETURN''"

definition has_holder :: "string \<Rightarrow> string \<Rightarrow> assignment list \<Rightarrow> bool" where
  "has_holder t i xs \<longleftrightarrow> (\<exists>x\<in>set xs. active_primary t i x)"

definition holders_ok :: "asset_db \<Rightarrow> bool" where
  "holders_ok db \<longleftrightarrow> (\<forall>r\<in>set (assets db). held r \<longrightarrow> has_holder (a_tenant r) (a_id r) (assignments db))"

definition returns_ok :: "asset_db \<Rightarrow> bool" where
  "returns_ok db \<longleftrightarrow> (\<forall>rr\<in>set (return_requests db). rr_status rr = ''PENDING'' \<longrightarrow>
     (\<exists>x\<in>set (assignments db). as_id x = rr_assignment_id rr \<and> as_tenant x = rr_tenant rr
        \<and> as_asset_id x = rr_asset_id rr))"

definition rows_ok :: "asset_db \<Rightarrow> bool" where
  "rows_ok db \<longleftrightarrow> unique_rows assignment_clash (assignments db)
     \<and> unique_rows reservation_clash (reservations db)
     \<and> unique_rows return_clash (return_requests db)"

definition asset_inv :: "asset_db \<Rightarrow> bool" where
  "asset_inv db \<longleftrightarrow> rows_ok db \<and> holders_ok db \<and> returns_ok db"

lemma assignment_clash_sym: "assignment_clash x y \<Longrightarrow> assignment_clash y x"
  by (auto simp: assignment_clash_def)

lemma reservation_clash_sym: "reservation_clash x y \<Longrightarrow> reservation_clash y x"
  by (auto simp: reservation_clash_def)

lemma return_clash_sym: "return_clash x y \<Longrightarrow> return_clash y x"
  by (auto simp: return_clash_def)

lemma unique_end_assignment:
  "unique_rows assignment_clash xs \<Longrightarrow> unique_rows assignment_clash (end_assignment t i n xs)"
  unfolding end_assignment_def
  by (erule unique_rows_update) (auto simp: assignment_clash_def active_primary_def split: if_splits)

lemma holders_set_asset:
  assumes "holders_ok db" and "keeps_key f"
    and "\<And>r. asset_key t i r \<Longrightarrow> held (f r) \<Longrightarrow> held r \<or> has_holder t i (assignments db)"
  shows "holders_ok (set_asset t i f db)"
  using assms unfolding holders_ok_def keeps_key_def
  by (fastforce simp: set_update_rows)

lemma holders_assignments:
  assumes "holders_ok db"
    and "\<And>t i. has_holder t i (assignments db) \<Longrightarrow> has_holder t i (assignments db')"
    and "assets db' = assets db"
  shows "holders_ok db'"
  using assms by (auto simp: holders_ok_def)

lemma has_holder_append [simp]:
  "has_holder t i (xs @ ys) \<longleftrightarrow> has_holder t i xs \<or> has_holder t i ys"
  by (auto simp: has_holder_def)

lemma has_holder_new [simp]: "has_holder t' i' [new_assignment rid t i u why] \<longleftrightarrow> t' = t \<and> i' = i"
  by (auto simp: has_holder_def new_assignment_def active_primary_def)

text \<open>Ending an assignment only takes the holder of its own asset.\<close>

lemma has_holder_end:
  assumes "unique_rows assignment_clash xs" and "c \<in> set xs" and "as_asset_id c = i" and "as_tenant c = t"
    and "has_holder t' i' xs" and "(t', i') \<noteq> (t, i)"
  shows "has_holder t' i' (end_assignment t (as_id c) n xs)"
proof -
  from assms(5) obtain x where x: "x \<in> set xs" "active_primary t' i' x" by (auto simp: has_holder_def)
  have "as_id x \<noteq> as_id c \<or> as_tenant x \<noteq> t"
  proof (rule ccontr)
    assume "\<not> ?thesis"
    then have "x = c" using assms(1,2) x(1) by (auto simp: assignment_clash_def intro: unique_rows_clashD)
    with x assms show False by (auto simp: active_primary_def)
  qed
  with x have "x \<in> set (end_assignment t (as_id c) n xs)"
    by (auto simp: end_assignment_def set_update_rows)
  with x show ?thesis by (auto simp: has_holder_def)
qed

lemma returns_assignments:
  assumes "returns_ok db" and "set (map (\<lambda>x. (as_id x, as_tenant x, as_asset_id x)) (assignments db))
     \<subseteq> set (map (\<lambda>x. (as_id x, as_tenant x, as_asset_id x)) (assignments db'))"
    and "\<And>rr. rr \<in> set (return_requests db') \<Longrightarrow> rr_status rr = ''PENDING'' \<Longrightarrow> rr \<in> set (return_requests db)"
  shows "returns_ok db'"
  unfolding returns_ok_def
proof (intro ballI impI)
  fix rr
  assume "rr \<in> set (return_requests db')" and "rr_status rr = ''PENDING''"
  with assms(1,3) obtain x where x: "x \<in> set (assignments db)" "as_id x = rr_assignment_id rr"
    "as_tenant x = rr_tenant rr" "as_asset_id x = rr_asset_id rr"
    by (auto simp: returns_ok_def)
  from x(1) have "(as_id x, as_tenant x, as_asset_id x) \<in>
      set (map (\<lambda>x. (as_id x, as_tenant x, as_asset_id x)) (assignments db))"
    unfolding set_map by (rule imageI)
  with assms(2) have "(as_id x, as_tenant x, as_asset_id x) \<in>
      set (map (\<lambda>x. (as_id x, as_tenant x, as_asset_id x)) (assignments db'))"
    by (rule subsetD)
  then obtain x' where "(as_id x, as_tenant x, as_asset_id x) = (as_id x', as_tenant x', as_asset_id x')"
      and "x' \<in> set (assignments db')"
    unfolding set_map by (rule imageE)
  with x show "\<exists>x\<in>set (assignments db'). as_id x = rr_assignment_id rr \<and> as_tenant x = rr_tenant rr
        \<and> as_asset_id x = rr_asset_id rr"
    by auto
qed

lemma keys_end_assignment [simp]:
  "map (\<lambda>x. (as_id x, as_tenant x, as_asset_id x)) (end_assignment t i n xs) =
   map (\<lambda>x. (as_id x, as_tenant x, as_asset_id x)) xs"
  by (auto simp: end_assignment_def update_rows_def)

lemma asset_inv_frame [simp]:
  "asset_inv (db\<lparr>lifecycle_log := x1\<rparr>) = asset_inv db"
  "asset_inv (db\<lparr>movements := x2\<rparr>) = asset_inv db"
  "asset_inv (db\<lparr>return_documents := x3\<rparr>) = asset_inv db"
  "asset_inv (db\<lparr>asset_outbox := x4\<rparr>) = asset_inv db"
  by (simp_all add: asset_inv_def rows_ok_def holders_ok_def returns_ok_def)

lemma asset_inv_set_asset:
  assumes "asset_inv db" and "keeps_key f"
    and "\<And>r. asset_key t i r \<Longrightarrow> held (f r) \<Longrightarrow> held r \<or> has_holder t i (assignments db)"
  shows "asset_inv (set_asset t i f db)"
  using assms holders_set_asset [of db f t i]
  by (simp add: asset_inv_def rows_ok_def returns_ok_def)

lemma asset_inv_transition:
  assumes "asset_inv db" and "transitionLifecycle t env inp db = (Inr r, db')"
  shows "asset_inv db'"
  using assms(2)
proof (elim transitionLifecycle_Inr)
  fix asset ob lg
  assume db': "db' = (set_asset t (li_asset_id inp)
           (lifecycle_update (li_target_state inp) (a_version asset + 1) (env_now env)) db)
           \<lparr>asset_outbox := ob, lifecycle_log := lg\<rparr>"
  have "asset_inv (set_asset t (li_asset_id inp)
           (lifecycle_update (li_target_state inp) (a_version asset + 1) (env_now env)) db)"
    using assms(1) by (rule asset_inv_set_asset) (auto simp: held_def lifecycle_update_def split: if_splits)
  then show ?thesis by (simp add: db')
qed

lemma asset_inv_reserve:
  assumes "asset_inv db" and "reserveAsset t env inp db = (Inr r, db')"
  shows "asset_inv db'"
  using assms(2)
proof (elim reserveAsset_Inr)
  fix chg db1 expires rs
  assume "transitionLifecycle t env
            \<lparr>li_asset_id = re_asset_id inp, li_expected_version = re_expected_version inp,
             li_target_state = ''RESERVED'', li_actor = re_actor inp, li_reason = re_reason inp,
             li_command_type = Some ''ASSET.RESERVE''\<rparr> db = (Inr chg, db1)"
    and ins: "insert_row reservation_clash (new_reservation t env inp expires) (reservations db1) = Some rs"
    and db': "db' = db1\<lparr>reservations := rs\<rparr>"
  then have "asset_inv db1" using assms(1) by (blast intro: asset_inv_transition)
  with unique_rows_insert [OF _ ins reservation_clash_sym] show ?thesis
    by (simp add: asset_inv_def rows_ok_def holders_ok_def returns_ok_def db')
qed

text \<open>A new assignment row keeps the tables in order.\<close>

lemma asset_inv_insert_assignment:
  assumes "rows_ok db" and "returns_ok db" and "insert_row assignment_clash x (assignments db) = Some xs"
  shows "rows_ok (db\<lparr>assignments := xs\<rparr>) \<and> returns_ok (db\<lparr>assignments := xs\<rparr>)"
proof
  show "rows_ok (db\<lparr>assignments := xs\<rparr>)"
    using assms(1) unique_rows_insert [OF _ assms(3) assignment_clash_sym] by (simp add: rows_ok_def)
  show "returns_ok (db\<lparr>assignments := xs\<rparr>)"
    by (rule returns_assignments [OF assms(2)]) (use assms(3) in \<open>auto simp: insert_row_Some_iff\<close>)
qed

lemma asset_inv_assign:
  assumes "asset_inv db" and "assignAsset us t env inp db = (Inr r, db')"
  shows "asset_inv db'"
  using assms(2)
proof (elim assignAsset_Inr)
  fix chg db1 xs
  let ?x = "new_assignment (env_uuid env 3) t (ag_asset_id inp) (ag_user_id inp) (ag_reason inp)"
  assume "transitionLifecycle t env
            \<lparr>li_asset_id = ag_asset_id inp, li_expected_version = ag_expected_version inp,
             li_target_state = ''ASSIGNED'', li_actor = ag_actor inp, li_reason = ag_reason inp,
             li_command_type = Some ''ASSET.ASSIGN''\<rparr> db = (Inr chg, db1)"
    and ins: "insert_row assignment_clash ?x (assignments db1) = Some xs"
    and db': "db' = set_asset t (ag_asset_id inp) (\<lambda>r. r\<lparr>a_assignment_state := ''ASSIGNED''\<rparr>)
               (db1\<lparr>assignments := xs\<rparr>)"
  then have 1: "asset_inv db1" using assms(1) by (blast intro: asset_inv_transition)
  have xs: "xs = assignments db1 @ [?x]" using ins by (simp add: insert_row_Some_iff)
  have "holders_ok (db1\<lparr>assignments := xs\<rparr>)"
    by (rule holders_assignments [of db1]) (use 1 in \<open>simp_all add: asset_inv_def xs\<close>)
  with 1 asset_inv_insert_assignment [OF _ _ ins] have "asset_inv (db1\<lparr>assignments := xs\<rparr>)"
    by (simp add: asset_inv_def)
  then show ?thesis unfolding db' by (rule asset_inv_set_asset) (simp_all add: xs)
qed

lemma asset_inv_transfer:
  assumes "asset_inv db" and "transferAsset us t env inp db = (Inr r, db')"
  shows "asset_inv db'"
  using assms(2)
proof (elim transferAsset_Inr)
  fix asset and current :: assignment and mvs xs
  let ?x = "new_assignment (env_uuid env 1) t (tf_asset_id inp) (tf_to_user inp) (tf_reason inp)"
  let ?ended = "end_assignment t (as_id current) (env_now env) (assignments db)"
  assume cur: "find_row (active_primary t (tf_asset_id inp)) (assignments db) = Some current"
    and xs: "if as_user_id current = tf_to_user inp then xs = assignments db
         else insert_row assignment_clash ?x ?ended = Some xs"
    and db': "db' = set_asset t (tf_asset_id inp)
                 (\<lambda>r. r\<lparr>a_location_id := Some (tf_to_location inp), a_updated_at := env_now env,
                        a_version := a_version asset + 1\<rparr>)
                 (db\<lparr>movements := mvs, assignments := xs\<rparr>)"
  have "asset_inv (db\<lparr>movements := mvs, assignments := xs\<rparr>)"
  proof (cases "as_user_id current = tf_to_user inp")
    case True
    with xs assms(1) show ?thesis by simp
  next
    case False
    with xs have ins: "insert_row assignment_clash ?x ?ended = Some xs" by simp
    let ?db1 = "db\<lparr>movements := mvs, assignments := ?ended\<rparr>"
    have c: "current \<in> set (assignments db)" "as_asset_id current = tf_asset_id inp" "as_tenant current = t"
      using find_row_SomeD [OF cur] by (auto simp: active_primary_def)
    have u: "unique_rows assignment_clash (assignments db)"
      using assms(1) by (simp add: asset_inv_def rows_ok_def)
    have "rows_ok ?db1" using assms(1) unique_end_assignment by (auto simp: asset_inv_def rows_ok_def)
    moreover have "returns_ok ?db1"
      by (rule returns_assignments [of db]) (use assms(1) in \<open>simp_all add: asset_inv_def\<close>)
    ultimately have 1: "rows_ok (?db1\<lparr>assignments := xs\<rparr>)" "returns_ok (?db1\<lparr>assignments := xs\<rparr>)"
      using asset_inv_insert_assignment [of ?db1 ?x xs] ins by simp_all
    have "holders_ok (db\<lparr>movements := mvs, assignments := xs\<rparr>)"
    proof (rule holders_assignments [of db])
      show "holders_ok db" using assms(1) by (simp add: asset_inv_def)
      show "has_holder t' i' (assignments (db\<lparr>movements := mvs, assignments := xs\<rparr>))"
        if "has_holder t' i' (assignments db)" for t' i'
        using has_holder_end [OF u c that] ins by (auto simp: insert_row_Some_iff)
    qed simp
    with 1 show ?thesis by (simp add: asset_inv_def)
  qed
  then show ?thesis unfolding db' by (rule asset_inv_set_asset) (simp_all add: held_def)
qed

lemma asset_inv_requestReturn:
  assumes "asset_inv db" and "requestReturn t env inp db = (Inr r, db')"
  shows "asset_inv db'"
  using assms(2)
proof (elim requestReturn_Inr)
  fix asset current due rrs
  assume cur: "find_row (active_primary t (rq_asset_id inp)) (assignments db) = Some current"
    and ins: "insert_row return_clash (new_request t env inp current due) (return_requests db) = Some rrs"
    and db': "db' = set_asset t (rq_asset_id inp)
                          (\<lambda>r. r\<lparr>a_assignment_state := ''PENDING_RETURN'', a_updated_at := env_now env,
                                 a_version := a_version asset + 1\<rparr>)
                 (db\<lparr>return_requests := rrs\<rparr>)"
  have c: "current \<in> set (assignments db)" "active_primary t (rq_asset_id inp) current"
    using find_row_SomeD [OF cur] by auto
  have "asset_inv (db\<lparr>return_requests := rrs\<rparr>)"
    using assms(1) unique_rows_insert [OF _ ins return_clash_sym] ins c
    by (auto simp: asset_inv_def rows_ok_def holders_ok_def returns_ok_def insert_row_Some_iff
        new_request_def active_primary_def)
  then show ?thesis
    unfolding db' by (rule asset_inv_set_asset) (use c in \<open>auto simp: has_holder_def\<close>)
qed

text \<open>Closing a return request, by cancelling or fulfilling it.\<close>

lemma asset_inv_close_request:
  assumes "asset_inv db" and "\<And>r. rr_id (f r) = rr_id r" and "\<And>r. rr_status (f r) \<noteq> ''PENDING''"
  shows "asset_inv (db\<lparr>return_requests := update_rows p f (return_requests db)\<rparr>)"
proof -
  have "unique_rows return_clash (update_rows p f (return_requests db))"
    by (rule unique_rows_update) (use assms in \<open>auto simp: asset_inv_def rows_ok_def return_clash_def split: if_splits\<close>)
  moreover have "returns_ok (db\<lparr>return_requests := update_rows p f (return_requests db)\<rparr>)"
    by (rule returns_assignments [of db])
      (use assms in \<open>auto simp: asset_inv_def set_update_rows split: if_splits\<close>)
  ultimately show ?thesis using assms(1) by (simp add: asset_inv_def rows_ok_def holders_ok_def)
qed

lemma asset_inv_cancel:
  assumes "asset_inv db" and "cancelReturnRequest t env inp db = (Inr r, db')"
  shows "asset_inv db'"
proof (cases "cr_noOp r")
  case True
  with cancelReturnRequest_noOp [OF assms(2)] assms(1) show ?thesis by simp
next
  case False
  from assms(2) False show ?thesis
  proof (elim cancelReturnRequest_Inr)
    fix asset req
    assume st: "a_assignment_state asset = ''PENDING_RETURN''"
      and f: "find_asset t (ci_asset_id inp) db = Some asset"
      and db': "db' = set_asset t (ci_asset_id inp)
                    (\<lambda>r. r\<lparr>a_assignment_state := ''ASSIGNED'', a_version := a_version asset + 1,
                           a_updated_at := env_now env\<rparr>)
                (db\<lparr>return_requests :=
                    update_rows (\<lambda>r. rr_tenant r = t \<and> rr_id r = ci_request_id inp)
                      (\<lambda>r. r\<lparr>rr_status := ''CANCELLED'', rr_cancelled_reason := Some (js_trim (ci_reason inp))\<rparr>)
                      (return_requests db)\<rparr>)"
    have h: "has_holder t (ci_asset_id inp) (assignments db)"
      using assms(1) find_row_SomeD [OF f [unfolded find_asset_def]] st
      by (auto simp: asset_inv_def holders_ok_def held_def)
    show ?thesis unfolding db'
      by (rule asset_inv_set_asset [OF asset_inv_close_request [OF assms(1)]]) (use h in simp_all)
  qed
qed

lemma asset_inv_receive:
  assumes "asset_inv db" and "receiveReturn t env inp db = (Inr r, db')"
  shows "asset_inv db'"
  using assms(2)
proof (elim receiveReturn_Inr)
  fix asset req mvs docs
  assume rq: "find_row (request_of t (rc_request_id inp) (rc_asset_id inp)) (return_requests db) = Some req"
    and p: "rr_status req = ''PENDING''"
    and db': "db' = close_return t env inp req (db\<lparr>movements := mvs, return_documents := docs\<rparr>)"
  let ?a = "rc_asset_id inp"
  let ?f = "\<lambda>r. r\<lparr>a_lifecycle_state := ''RETURNED'', a_assignment_state := ''UNASSIGNED'',
              a_location_id := Some (rc_location inp), a_updated_at := env_now env,
              a_version := js_int (rc_expected_version inp) + 1\<rparr>"
  have req: "req \<in> set (return_requests db)" "rr_tenant req = t" "rr_asset_id req = ?a"
    using find_row_SomeD [OF rq] by (auto simp: request_of_def)
  have "returns_ok db" using assms(1) by (simp add: asset_inv_def)
  with p req(1) have "\<exists>c\<in>set (assignments db). as_id c = rr_assignment_id req
      \<and> as_tenant c = rr_tenant req \<and> as_asset_id c = rr_asset_id req"
    unfolding returns_ok_def by simp
  with req obtain c where c: "c \<in> set (assignments db)" "as_id c = rr_assignment_id req"
    "as_tenant c = t" "as_asset_id c = ?a"
    by auto
  let ?ended = "end_assignment t (rr_assignment_id req) (env_now env) (assignments db)"
  let ?db1 = "set_asset t ?a ?f (db\<lparr>movements := mvs, return_documents := docs, assignments := ?ended\<rparr>)"
  have u: "unique_rows assignment_clash (assignments db)"
    using assms(1) by (simp add: asset_inv_def rows_ok_def)
  have "holders_ok ?db1"
    unfolding holders_ok_def
  proof (intro ballI impI)
    fix x assume "x \<in> set (assets ?db1)" and "held x"
    then obtain r where r: "r \<in> set (assets db)" "x = (if asset_key t ?a r then ?f r else r)"
      by (auto simp: set_update_rows)
    have "\<not> held (?f r)" by (simp add: held_def)
    with r \<open>held x\<close> have x: "x \<in> set (assets db)" "\<not> asset_key t ?a x"
      by (metis (no_types, lifting))+
    have "holders_ok db" using assms(1) by (simp add: asset_inv_def)
    with x(1) \<open>held x\<close> have "has_holder (a_tenant x) (a_id x) (assignments db)"
      by (simp add: holders_ok_def)
    from has_holder_end [OF u c(1,4,3) this] x(2) c(2)
    show "has_holder (a_tenant x) (a_id x) (assignments ?db1)" by auto
  qed
  moreover have "returns_ok ?db1"
    by (rule returns_assignments [of db]) (use assms(1) in \<open>simp_all add: asset_inv_def\<close>)
  moreover have "rows_ok ?db1"
    using assms(1) unique_end_assignment by (auto simp: asset_inv_def rows_ok_def)
  ultimately have "asset_inv ?db1" by (simp add: asset_inv_def)
  from asset_inv_close_request [OF this, of "\<lambda>r. r\<lparr>rr_status := ''FULFILLED'', rr_fulfilled_at := Some (env_now env)\<rparr>"
      "\<lambda>r. rr_tenant r = t \<and> rr_id r = rc_request_id inp"]
  show ?thesis by (simp add: db' close_return_def set_asset_requests)
qed

lemmas asset_inv_ops = asset_inv_transition asset_inv_reserve asset_inv_assign asset_inv_transfer
  asset_inv_requestReturn asset_inv_cancel asset_inv_receive

lemma asset_inv_update_step:
  assumes "asset_update_step us t env u db = (Inr a, db')" and "asset_inv db"
  shows "asset_inv db'"
  using assms by (cases u) (auto simp: forget_Inr dest: asset_inv_ops)

lemma asset_inv_step:
  assumes "asset_inv db" and "asset_step us t i db = (Inr a, db')"
  shows "asset_inv db'"
  using assms
  by (cases i; cases "snd i") (auto dest: asset_inv_update_step simp: forget_Inr intro: asset_inv_cancel)


section \<open>Runs of transactions\<close>

fun asset_run :: "user list \<Rightarrow> string \<Rightarrow> (call_env \<times> asset_command) list \<Rightarrow> asset_db \<Rightarrow> asset_db" where
  "asset_run us t [] db = db"
| "asset_run us t (c # cs) db = asset_run us t cs (snd (uow t (asset_step us t c) db))"

lemma asset_run_calls: "asset_run us t cs db = pg.run_calls t (map (asset_step us t) cs) db"
  by (induction cs arbitrary: db) simp_all

lemma asset_run_invariant:
  assumes "I db" and "\<And>c s a s'. I s \<Longrightarrow> asset_step us t c s = (Inr a, s') \<Longrightarrow> I s'"
  shows "I (asset_run us t cs db)"
  unfolding asset_run_calls by (rule pg.run_calls_invariant [of I]) (use assms in auto)

lemma one_active_primary:
  assumes "unique_rows assignment_clash xs" and "x \<in> set xs" and "y \<in> set xs"
    and "active_primary t i x" and "active_primary t i y"
  shows "x = y"
  using assms by (auto simp: assignment_clash_def active_primary_def intro: unique_rows_clashD)

lemma held_one_holder:
  assumes "asset_inv db" and "r \<in> set (assets db)" and "held r"
  shows "\<exists>!x. x \<in> set (assignments db) \<and> active_primary (a_tenant r) (a_id r) x"
proof -
  from assms have "has_holder (a_tenant r) (a_id r) (assignments db)"
    by (simp add: asset_inv_def holders_ok_def)
  then show ?thesis
    using one_active_primary assms(1) by (auto simp: has_holder_def asset_inv_def rows_ok_def)
qed

text \<open>No command of the module changes a reservation row.\<close>

lemma reservations_transition:
  "transitionLifecycle t env i db = (Inr r, db') \<Longrightarrow> reservations db' = reservations db"
  by (elim transitionLifecycle_Inr) simp

lemma reservations_step:
  assumes "asset_step us t c db = (Inr a, db')"
  shows "set (reservations db) \<subseteq> set (reservations db')"
proof -
  obtain env cmd where c: "c = (env, cmd)" by fastforce
  show ?thesis
  proof (cases cmd)
    case (CancelReturn i)
    with assms c obtain r where r: "cancelReturnRequest t env i db = (Inr r, db')"
      by (auto simp: forget_Inr)
    show ?thesis
    proof (cases "cr_noOp r")
      case True
      with cancelReturnRequest_noOp [OF r] show ?thesis by simp
    next
      case False
      with r show ?thesis by (elim cancelReturnRequest_Inr) simp_all
    qed
  next
    case (Update u)
    with assms c show ?thesis
      by (cases u) (auto simp: forget_Inr close_return_def insert_row_Some_iff dest!: reservations_transition
          elim!: reserveAsset_Inr assignAsset_Inr transferAsset_Inr requestReturn_Inr receiveReturn_Inr)
  qed
qed

definition reserved_row :: "string \<Rightarrow> string \<Rightarrow> reservation \<Rightarrow> bool" where
  "reserved_row t a x \<longleftrightarrow> rs_status x = ''ACTIVE'' \<and> rs_tenant x = t \<and> rs_asset_id x = a"

lemma reserved_row_blocks:
  assumes "x \<in> set (reservations db)" and "reserved_row t (re_asset_id j) x"
  shows "\<exists>e. fst (reserveAsset t env j db) = Inl e"
proof (rule ccontr)
  assume "\<not> ?thesis"
  then obtain r db' where "reserveAsset t env j db = (Inr r, db')"
    by (metis prod.collapse sum.exhaust)
  then show False
    using assms
    by (elim reserveAsset_Inr)
      (auto dest!: reservations_transition
        simp: insert_row_Some_iff reservation_clash_def new_reservation_def reserved_row_def)
qed

lemma reserveAsset_row:
  "reserveAsset t env i db = (Inr r, db') \<Longrightarrow> \<exists>x\<in>set (reservations db'). reserved_row t (re_asset_id i) x"
  by (elim reserveAsset_Inr) (auto simp: insert_row_Some_iff new_reservation_def reserved_row_def)

text \<open>The holder of an asset after a transfer.\<close>

lemma transfer_holder:
  assumes inv: "asset_inv db" and ok: "transferAsset us t env inp db = (Inr r, db')"
  shows "\<exists>x\<in>set (assignments db'). active_primary t (tf_asset_id inp) x \<and> as_user_id x = tf_to_user inp"
  using ok
proof (elim transferAsset_Inr)
  fix asset and current :: assignment and mvs xs
  assume cur: "find_row (active_primary t (tf_asset_id inp)) (assignments db) = Some current"
    and xs: "if as_user_id current = tf_to_user inp then xs = assignments db
         else insert_row assignment_clash (new_assignment (env_uuid env 1) t (tf_asset_id inp)
                  (tf_to_user inp) (tf_reason inp))
                (end_assignment t (as_id current) (env_now env) (assignments db)) = Some xs"
    and db': "db' = set_asset t (tf_asset_id inp)
                 (\<lambda>r. r\<lparr>a_location_id := Some (tf_to_location inp), a_updated_at := env_now env,
                        a_version := a_version asset + 1\<rparr>)
                 (db\<lparr>movements := mvs, assignments := xs\<rparr>)"
  show ?thesis
    using find_row_SomeD [OF cur] xs
    by (auto simp: db' insert_row_Some_iff new_assignment_def active_primary_def split: if_splits)
qed

lemma transfer_asset:
  assumes "transferAsset us t env inp db = (Inr r, db')"
  shows "\<exists>x. find_asset t (tf_asset_id inp) db' = Some x \<and> a_location_id x = Some (tf_to_location inp)
     \<and> a_assignment_state x = ''ASSIGNED'' \<and> a_version x = tr_version r"
  using assms by (elim transferAsset_Inr) simp

lemma cancel_replay_lemma:
  assumes "cancelReturnRequest t env inp db = (Inr r, db')"
  shows "cancelReturnRequest t env' (inp\<lparr>ci_expected_version := v\<rparr>) db' = (Inr (r\<lparr>cr_noOp := True\<rparr>), db')"
proof (cases "cr_noOp r")
  case True
  with assms show ?thesis
    by (auto simp: cancelReturnRequest_def Let_def split: if_splits option.splits sum.splits prod.splits)
next
  case False
  from assms False show ?thesis
  proof (elim cancelReturnRequest_Inr)
    fix asset req
    let ?p = "\<lambda>r. rr_tenant r = t \<and> rr_id r = ci_request_id inp"
    let ?f = "\<lambda>r. r\<lparr>rr_status := ''CANCELLED'', rr_cancelled_reason := Some (js_trim (ci_reason inp))\<rparr>"
    assume f: "find_asset t (ci_asset_id inp) db = Some asset"
      and req: "find_row (request_of t (ci_request_id inp) (ci_asset_id inp)) (return_requests db) = Some req"
      and why: "\<not> blank (ci_reason inp) \<and> length (ci_reason inp) \<le> 2000 \<and> \<not> looks_secret (ci_reason inp)"
      and db': "db' = set_asset t (ci_asset_id inp)
                    (\<lambda>r. r\<lparr>a_assignment_state := ''ASSIGNED'', a_version := a_version asset + 1,
                           a_updated_at := env_now env\<rparr>)
                (db\<lparr>return_requests := update_rows ?p ?f (return_requests db)\<rparr>)"
      and r: "r = \<lparr>cr_asset_id = ci_asset_id inp, cr_version = a_version asset + 1,
                       cr_request_id = ci_request_id inp, cr_noOp = False\<rparr>"
    have "find_row (request_of t (ci_request_id inp) (ci_asset_id inp)) (update_rows ?p ?f (return_requests db))
        = map_option (\<lambda>r. if ?p r then ?f r else r)
            (find_row (request_of t (ci_request_id inp) (ci_asset_id inp)) (return_requests db))"
      by (rule find_row_update_keep) (simp add: request_of_def)
    moreover have "?p req" using find_row_SomeD [OF req] by (simp add: request_of_def)
    ultimately have "find_row (request_of t (ci_request_id inp) (ci_asset_id inp)) (return_requests db') = Some (?f req)"
      by (simp add: req db')
    moreover have "find_asset t (ci_asset_id inp) db' = Some (asset\<lparr>a_assignment_state := ''ASSIGNED'',
        a_version := a_version asset + 1, a_updated_at := env_now env\<rparr>)"
      by (simp add: db' f)
    ultimately show ?thesis using why by (simp add: cancelReturnRequest_def Let_def r)
  qed
qed

section \<open>Properties\<close>

text \<open>A fresh environment: the UUIDs of the \<open>k\<close>-th call start with \<open>k\<close> letters.\<close>

definition env_of :: "nat \<Rightarrow> call_env" where
  "env_of k = \<lparr>env_now = 1000, env_iso = ''2026-01-01T00:00:01.000Z'',
     env_uuid = (\<lambda>n. replicate k (CHR ''k'') @ ''-'' @ replicate n (CHR ''i'')),
     env_valid_event = (\<lambda>_. True)\<rparr>"

definition sample_user :: user where
  "sample_user = \<lparr>u_id = ''ann'', u_tenant = ''t'', u_status = ''ACTIVE'', u_archived_at = None\<rparr>"

definition sample_asset_db :: asset_db where
  "sample_asset_db = \<lparr>assets = [\<lparr>a_id = ''laptop'', a_tenant = ''t'', a_code = ''A-1'',
       a_lifecycle_state = ''AVAILABLE'', a_assignment_state = ''UNASSIGNED'', a_risk_state = ''UNKNOWN'',
       a_risk_assessment_id = None, a_risk_valid_until = None, a_location_id = None,
       a_updated_at = 0, a_version = 1\<rparr>],
     lifecycle_log = [], reservations = [], assignments = [], movements = [], return_requests = [],
     return_documents = [], locations = [\<lparr>lo_id = ''hq'', lo_tenant = ''t'', lo_status = ''ACTIVE''\<rparr>],
     asset_outbox = []\<rparr>"

definition sample_actor :: actor where
  "sample_actor = \<lparr>ac_type = ''USER'', ac_id = ''op'', ac_correlation_id = ''c''\<rparr>"

definition move :: "nat \<Rightarrow> int \<Rightarrow> string \<Rightarrow> call_env \<times> asset_command" where
  "move k v x = (env_of k, Update (Transition \<lparr>li_asset_id = ''laptop'', li_expected_version = JInt v,
     li_target_state = x, li_actor = sample_actor, li_reason = ''why'', li_command_type = None\<rparr>))"

definition sample_reserve :: "int \<Rightarrow> reserve_input" where
  "sample_reserve v = \<lparr>re_asset_id = ''laptop'', re_expected_version = JInt v, re_requested_for = ''ann'',
     re_reason = ''why'', re_expires_at = Some 2000, re_actor = sample_actor\<rparr>"

definition sample_assign :: "int \<Rightarrow> assign_input" where
  "sample_assign v = \<lparr>ag_asset_id = ''laptop'', ag_expected_version = JInt v, ag_user_id = ''ann'',
     ag_reason = ''why'', ag_actor = sample_actor\<rparr>"

definition sample_return :: "int \<Rightarrow> return_input" where
  "sample_return v = \<lparr>rq_asset_id = ''laptop'', rq_expected_version = JInt v, rq_due_at = Some 5000,
     rq_reason = ''why''\<rparr>"

definition sample_receive :: "int \<Rightarrow> receive_input" where
  "sample_receive v = \<lparr>rc_asset_id = ''laptop'', rc_expected_version = JInt v,
     rc_request_id = env_uuid (env_of 4) 0, rc_location = ''hq'', rc_condition_grade = ''A'',
     rc_notes = ''ok''\<rparr>"

text \<open>Reserved, assigned, in use and a return requested, then moved on to disposal.\<close>

definition sample_commands :: "(call_env \<times> asset_command) list" where
  "sample_commands = [(env_of 1, Update (Reserve (sample_reserve 1))),
     (env_of 2, Update (Assign (sample_assign 2))), move 3 3 ''IN_USE'',
     (env_of 4, Update (RequestReturn (sample_return 4)))]"

definition disposal_commands :: "(call_env \<times> asset_command) list" where
  "disposal_commands = [move 5 5 ''RETURNED'', move 6 6 ''RETIRED'', move 7 7 ''DISPOSED'']"


text \<open>C1: Whatever commands are run against the asset tables, each in its transaction, an asset that is
  assigned or pending return has exactly one active primary assignment afterwards.\<close>

theorem asset_single_holder:
  assumes "asset_inv db" and "r \<in> set (assets (asset_run us t cs db))"
    and "a_assignment_state r = ''ASSIGNED'' \<or> a_assignment_state r = ''PENDING_RETURN''"
  shows "\<exists>!x. x \<in> set (assignments (asset_run us t cs db)) \<and> active_primary (a_tenant r) (a_id r) x"
proof -
  have "asset_inv (asset_run us t cs db)"
    by (rule asset_run_invariant [of asset_inv]) (use assms(1) asset_inv_step in blast)+
  then show ?thesis using assms(2,3) by (intro held_one_holder) (simp_all add: held_def)
qed

lemma sample_asset_inv: "asset_inv sample_asset_db"
  by code_simp

lemma sample_run_asset: "hd (assets (asset_run [sample_user] ''t'' sample_commands sample_asset_db)) \<in>
     set (assets (asset_run [sample_user] ''t'' sample_commands sample_asset_db))
   \<and> a_assignment_state (hd (assets (asset_run [sample_user] ''t'' sample_commands sample_asset_db)))
       = ''PENDING_RETURN''"
  by code_simp

theorem asset_single_holder_witness:
  "\<exists>!x. x \<in> set (assignments (asset_run [sample_user] ''t'' sample_commands sample_asset_db)) \<and>
     active_primary (a_tenant (hd (assets (asset_run [sample_user] ''t'' sample_commands sample_asset_db))))
       (a_id (hd (assets (asset_run [sample_user] ''t'' sample_commands sample_asset_db)))) x"
  by (rule asset_single_holder [OF sample_asset_inv])
    (use sample_run_asset in \<open>simp_all\<close>)

text \<open>C13: Of two updates of the same asset that carry the same expected version, the second fails, also
  when it is another kind of update.\<close>

theorem asset_no_lost_update:
  assumes "asset_update_step us t env u db = (Inr (), db')"
    and "addressed u' = addressed u" and "expected_version u' = expected_version u"
  shows "\<exists>e. fst (asset_update_step us t env' u' db') = Inl e"
proof -
  have "retarget (addressed u) u = u" "retarget (addressed u) u' = u'"
    by (cases u; simp) (use assms(2) in \<open>cases u'; simp\<close>)
  then show ?thesis
    using asset_versions.no_lost_update [where us = us and t = t and aid = "addressed u" and s = db
        and i = "(env, u)" and s' = db' and j = "(env', u')"] assms
    by simp
qed

theorem asset_no_lost_update_witness:
  "\<exists>e. fst (asset_update_step [sample_user] ''t'' (env_of 2) (Assign (sample_assign 1))
     (snd (asset_update_step [sample_user] ''t'' (env_of 1) (Reserve (sample_reserve 1)) sample_asset_db))) = Inl e"
proof -
  have "asset_update_step [sample_user] ''t'' (env_of 1) (Reserve (sample_reserve 1)) sample_asset_db =
      (Inr (), snd (asset_update_step [sample_user] ''t'' (env_of 1) (Reserve (sample_reserve 1)) sample_asset_db))"
    by code_simp
  from asset_no_lost_update [OF this, of "Assign (sample_assign 1)"] show ?thesis
    by (simp add: sample_assign_def sample_reserve_def)
qed

lemma retired_trap:
  "x \<in> {''RETIRED'', ''DISPOSED''} \<Longrightarrow> y \<in> set (table_targets transitions x) \<Longrightarrow>
     y \<in> {''RETIRED'', ''DISPOSED''}"
  by (auto simp: transitions_def)

text \<open>Through \<open>transitionLifecycle\<close> an asset that is retired is never taken back into service: it
  stays retired or is disposed of.\<close>

theorem retired_never_back:
  assumes "find_asset t a db = Some r" and "a_lifecycle_state r \<in> {''RETIRED'', ''DISPOSED''}"
  shows "\<exists>r'. find_asset t a (asset_lifecycle.after_all t a cs db) = Some r'
     \<and> a_lifecycle_state r' \<in> {''RETIRED'', ''DISPOSED''}"
proof -
  from assms(1) have "map_option a_lifecycle_state (find_asset t a db) = Some (a_lifecycle_state r)" by simp
  from asset_lifecycle.run_follows_edges [OF this, of cs] obtain y where
    y: "map_option a_lifecycle_state (find_asset t a (asset_lifecycle.after_all t a cs db)) = Some y"
    and "asset_lifecycle.edge\<^sup>*\<^sup>* (a_lifecycle_state r) y" by blast
  from asset_lifecycle.trapped [OF this(2) assms(2) retired_trap] have "y \<in> {''RETIRED'', ''DISPOSED''}" .
  with y show ?thesis by auto
qed

definition retired_db :: asset_db where
  "retired_db = set_asset ''t'' ''laptop'' (\<lambda>r. r\<lparr>a_lifecycle_state := ''RETIRED''\<rparr>) sample_asset_db"

definition to_state :: "int \<Rightarrow> string \<Rightarrow> lifecycle_input" where
  "to_state v x = \<lparr>li_asset_id = ''laptop'', li_expected_version = JInt v,
     li_target_state = x, li_actor = sample_actor, li_reason = ''why'', li_command_type = None\<rparr>"

theorem retired_never_back_witness:
  "\<exists>r'. find_asset ''t'' ''laptop'' (asset_lifecycle.after_all ''t'' ''laptop''
       [(env_of 1, to_state 1 ''DISPOSED''), (env_of 2, to_state 2 ''AVAILABLE'')] retired_db) = Some r'
     \<and> a_lifecycle_state r' \<in> {''RETIRED'', ''DISPOSED''}"
proof -
  have f: "find_asset ''t'' ''laptop'' retired_db = Some (hd (assets retired_db))"
    and r: "a_lifecycle_state (hd (assets retired_db)) \<in> {''RETIRED'', ''DISPOSED''}"
    by code_simp+
  show ?thesis by (rule retired_never_back [OF f r])
qed

text \<open>C26: An asset can be reserved once: after a reservation has succeeded, every later
  \<open>reserveAsset\<close> of the same asset fails, whatever commands of the module run in between,
  because none of them ends a reservation.\<close>

theorem reserve_only_once:
  assumes "reserveAsset t env i db = (Inr r, db')" and "re_asset_id j = re_asset_id i"
  shows "\<exists>e. fst (reserveAsset t env' j (asset_run us t cs db')) = Inl e"
proof -
  have "\<exists>x\<in>set (reservations (asset_run us t cs db')). reserved_row t (re_asset_id j) x"
    by (rule asset_run_invariant [of "\<lambda>db. \<exists>x\<in>set (reservations db). reserved_row t (re_asset_id j) x"])
      (use reserveAsset_row [OF assms(1)] assms(2) reservations_step in \<open>auto, blast\<close>)
  then show ?thesis using reserved_row_blocks by blast
qed

theorem reserve_only_once_witness:
  "\<exists>e. fst (reserveAsset ''t'' (env_of 9) (sample_reserve 9)
     (asset_run [sample_user] ''t'' (tl sample_commands @
        [(env_of 5, Update (ReceiveReturn (sample_receive 5))), move 6 6 ''AVAILABLE''])
       (snd (reserveAsset ''t'' (env_of 1) (sample_reserve 1) sample_asset_db)))) = Inl e"
proof -
  have "reserveAsset ''t'' (env_of 1) (sample_reserve 1) sample_asset_db =
     (Inr (env_uuid (env_of 1) 3, ''laptop'', 2000, 2),
      snd (reserveAsset ''t'' (env_of 1) (sample_reserve 1) sample_asset_db))"
    by code_simp
  from reserve_only_once [OF this, of "sample_reserve 9"] show ?thesis
    by (simp add: sample_reserve_def)
qed

text \<open>A transfer that succeeds makes the new user the only active primary holder of the asset and
  moves the asset to the new location, one version on.\<close>

theorem transfer_moves_asset:
  assumes "asset_inv db" and "transferAsset us t env inp db = (Inr r, db')"
  shows "(\<forall>x\<in>set (assignments db'). active_primary t (tf_asset_id inp) x \<longrightarrow> as_user_id x = tf_to_user inp)
    \<and> (\<exists>x\<in>set (assignments db'). active_primary t (tf_asset_id inp) x)
    \<and> (\<exists>x. find_asset t (tf_asset_id inp) db' = Some x \<and> a_location_id x = Some (tf_to_location inp)
         \<and> a_assignment_state x = ''ASSIGNED'' \<and> a_version x = tr_version r)"
proof -
  have "unique_rows assignment_clash (assignments db')"
    using asset_inv_transfer [OF assms] by (simp add: asset_inv_def rows_ok_def)
  with transfer_holder [OF assms] transfer_asset [OF assms(2)] show ?thesis
    using one_active_primary by blast
qed

definition bob :: user where
  "bob = sample_user\<lparr>u_id := ''bob''\<rparr>"

definition assigned_db :: asset_db where
  "assigned_db = asset_run [sample_user] ''t'' (take 2 sample_commands) sample_asset_db"

definition sample_transfer :: transfer_input where
  "sample_transfer = \<lparr>tf_asset_id = ''laptop'', tf_expected_version = JInt 3, tf_to_location = ''hq'',
     tf_to_user = ''bob'', tf_reason = ''moves''\<rparr>"

theorem transfer_moves_asset_witness:
  "\<exists>x\<in>set (assignments (snd (transferAsset [bob] ''t'' (env_of 5) sample_transfer assigned_db))).
     active_primary ''t'' ''laptop'' x \<and> as_user_id x = ''bob''"
proof -
  have "asset_inv assigned_db" by code_simp
  moreover have "transferAsset [bob] ''t'' (env_of 5) sample_transfer assigned_db =
     (Inr \<lparr>tr_movement_id = env_uuid (env_of 5) 0, tr_from_location = None, tr_to_location = ''hq'',
           tr_from_user = ''ann'', tr_to_user = ''bob'', tr_version = 4\<rparr>,
      snd (transferAsset [bob] ''t'' (env_of 5) sample_transfer assigned_db))"
    by code_simp
  ultimately show ?thesis
    using transfer_moves_asset by (fastforce simp: sample_transfer_def)
qed

text \<open>Cancelling a return request is idempotent: repeated with the same reason and any expected
  version, it changes nothing and answers with the same version, flagged as a no-op.\<close>

theorem cancel_return_idempotent:
  assumes "cancelReturnRequest t env inp db = (Inr r, db')"
  shows "cancelReturnRequest t env' (inp\<lparr>ci_expected_version := v\<rparr>) db' = (Inr (r\<lparr>cr_noOp := True\<rparr>), db')"
  using assms by (rule cancel_replay_lemma)

definition returning_db :: asset_db where
  "returning_db = asset_run [sample_user] ''t'' sample_commands sample_asset_db"

definition sample_cancel :: cancel_input where
  "sample_cancel = \<lparr>ci_asset_id = ''laptop'', ci_request_id = env_uuid (env_of 4) 0,
     ci_expected_version = JInt 5, ci_reason = '' kept ''\<rparr>"

theorem cancel_return_idempotent_witness:
  "cancelReturnRequest ''t'' (env_of 7) (sample_cancel\<lparr>ci_expected_version := JNaN\<rparr>)
     (snd (cancelReturnRequest ''t'' (env_of 6) sample_cancel returning_db)) =
   (Inr \<lparr>cr_asset_id = ''laptop'', cr_version = 6, cr_request_id = env_uuid (env_of 4) 0, cr_noOp = True\<rparr>,
    snd (cancelReturnRequest ''t'' (env_of 6) sample_cancel returning_db))"
proof -
  have "cancelReturnRequest ''t'' (env_of 6) sample_cancel returning_db =
    (Inr \<lparr>cr_asset_id = ''laptop'', cr_version = 6, cr_request_id = env_uuid (env_of 4) 0, cr_noOp = False\<rparr>,
     snd (cancelReturnRequest ''t'' (env_of 6) sample_cancel returning_db))"
    by code_simp
  from cancel_return_idempotent [OF this] show ?thesis by simp
qed

text \<open>Disposal is not final. A return requested while the asset was in use stays receivable, so an
  asset that has been retired and disposed of can be received and is RETURNED again.\<close>

theorem disposed_asset_returns:
  "map_option a_lifecycle_state (find_asset ''t'' ''laptop''
       (asset_run [sample_user] ''t'' (sample_commands @ disposal_commands) sample_asset_db)) = Some ''DISPOSED''
   \<and> map_option a_lifecycle_state (find_asset ''t'' ''laptop''
       (asset_run [sample_user] ''t'' (sample_commands @ disposal_commands @
          [(env_of 8, Update (ReceiveReturn (sample_receive 8)))]) sample_asset_db)) = Some ''RETURNED''"
  by code_simp

end
