(* ===== verification/Calendar.thy ===== *)
theory Calendar
  imports Prelude
begin

text \<open>
  The proleptic Gregorian calendar of JavaScript's \<open>Date\<close>, as far as the sources use it: dates as
  \<open>YYYY-MM-DD\<close> texts in UTC, the day number of a date and the date of a day number,
  \<open>Date.UTC\<close> with its month overflow. Days are counted from 0000-01-01.
\<close>

section \<open>Dates and day numbers\<close>

type_synonym date = "int \<times> int \<times> int"

definition leap :: "int \<Rightarrow> bool" where
  "leap y \<longleftrightarrow> y mod 4 = 0 \<and> (y mod 100 \<noteq> 0 \<or> y mod 400 = 0)"

definition month_len :: "int \<Rightarrow> int \<Rightarrow> int" where
  "month_len y m = (if m = 2 then (if leap y then 29 else 28) else if m \<in> {4, 6, 9, 11} then 30 else 31)"

definition before_month :: "int \<Rightarrow> int \<Rightarrow> int" where
  "before_month y m = sum_list (map (month_len y) [1..m - 1])"

definition year_start :: "int \<Rightarrow> int" where
  "year_start y = 365 * y + (y + 3) div 4 - (y + 99) div 100 + (y + 399) div 400"

fun valid_date :: "date \<Rightarrow> bool" where
  "valid_date (y, m, d) \<longleftrightarrow> 1 \<le> m \<and> m \<le> 12 \<and> 1 \<le> d \<and> d \<le> month_len y m"

fun day_number :: "date \<Rightarrow> int" where
  "day_number (y, m, d) = year_start y + before_month y m + d - 1"

text \<open>The year of a day number: an estimate, corrected by one either way.\<close>

definition year_of :: "int \<Rightarrow> int" where
  "year_of n = (let y = (400 * n) div 146097 in
     if n < year_start y then y - 1 else if year_start (y + 1) \<le> n then y + 1 else y)"

fun month_of :: "int \<Rightarrow> int \<Rightarrow> nat \<Rightarrow> int \<times> int" where
  "month_of y r 0 = (12, r + 1)"
| "month_of y r (Suc k) =
     (let m = 12 - int (Suc k) in if r < month_len y m then (m, r + 1) else month_of y (r - month_len y m) k)"

definition civil :: "int \<Rightarrow> date" where
  "civil n = (let y = year_of n in (y, month_of y (n - year_start y) 11))"

lemma div_bounds:
  fixes x k :: int
  assumes "0 < k"
  shows "k * (x div k) \<le> x" "x < k * (x div k) + k"
  using assms mult_div_mod_eq [of k x] pos_mod_sign [of k x] pos_mod_bound [of k x] by linarith+

lemma div_eqI:
  fixes x k q :: int
  assumes "k * q \<le> x" and "x < k * q + k"
  shows "x div k = q"
  using assms by (intro int_div_pos_eq [where r = "x - k * q"]) auto

lemma ceiling_step:
  fixes y k :: int
  assumes "0 < k" and "j = k - 1"
  shows "(y + k) div k = (y + j) div k + (if k dvd y then 1 else 0)"
proof -
  obtain q r where y: "y = k * q + r" "0 \<le> r" "r < k"
    using assms(1) mult_div_mod_eq [of k y] by (metis pos_mod_bound pos_mod_sign)
  have "(y + k) div k = q + 1" by (rule div_eqI) (simp_all add: y distrib_left)
  moreover have "(y + j) div k = q" if "r = 0"
    by (rule div_eqI) (use that y assms in simp_all)
  moreover have "(y + j) div k = q + 1" if "r \<noteq> 0"
    by (rule div_eqI) (use that y assms(2) in \<open>simp_all add: distrib_left\<close>)
  moreover have "k dvd y \<longleftrightarrow> r = 0"
    using y by (metis dvd_add_right_iff dvd_triv_left zdvd_not_zless order_le_less dvd_0_right)
  ultimately show ?thesis by auto
qed

lemma leap_dvd: "leap y \<longleftrightarrow> 4 dvd y \<and> (\<not> 100 dvd y \<or> 400 dvd y)"
  by (simp add: leap_def dvd_eq_mod_eq_0)

lemma year_start_Suc: "year_start (y + 1) = year_start y + (if leap y then 366 else 365)"
proof -
  define P Q R where "P \<longleftrightarrow> 4 dvd y" and "Q \<longleftrightarrow> 100 dvd y" and "R \<longleftrightarrow> 400 dvd y"
  define a b c where "a = (y + 3) div 4" and "b = (y + 99) div 100" and "c = (y + 399) div 400"
  define a' b' c' where "a' = (y + 4) div 4" and "b' = (y + 100) div 100" and "c' = (y + 400) div 400"
  have "a' = a + (if P then 1 else 0)" "b' = b + (if Q then 1 else 0)" "c' = c + (if R then 1 else 0)"
    unfolding a_def b_def c_def a'_def b'_def c'_def P_def Q_def R_def by (rule ceiling_step, simp, simp)+
  moreover have "Q \<Longrightarrow> P" "R \<Longrightarrow> Q"
    unfolding P_def Q_def R_def using dvd_trans [of 4 100 y] dvd_trans [of 100 400 y] by simp_all
  moreover have "leap y \<longleftrightarrow> P \<and> (\<not> Q \<or> R)" unfolding P_def Q_def R_def by (rule leap_dvd)
  moreover have "year_start y = 365 * y + a - b + c" unfolding year_start_def a_def b_def c_def ..
  moreover have "y + 1 + 3 = y + 4" "y + 1 + 99 = y + 100" "y + 1 + 399 = y + 400" by simp_all
  then have "year_start (y + 1) = 365 * (y + 1) + a' - b' + c'"
    unfolding year_start_def a'_def b'_def c'_def by (simp only:)
  ultimately show ?thesis by (cases P; cases Q; cases R) simp_all
qed

lemma year_start_mono: "x < y \<Longrightarrow> year_start x + 365 \<le> year_start y"
proof (induction y rule: int_gr_induct [where k = x])
  case base
  then show ?case by (simp add: year_start_Suc)
next
  case (step i)
  then show ?case by (simp add: year_start_Suc split: if_splits)
qed

lemma year_start_estimate: "146097 * y - 500 \<le> 400 * year_start y \<and> 400 * year_start y \<le> 146097 * y + 710"
proof -
  define a b c where "a = (y + 3) div 4" and "b = (y + 99) div 100" and "c = (y + 399) div 400"
  have "4 * a \<le> y + 3" "y + 3 < 4 * a + 4" "100 * b \<le> y + 99" "y + 99 < 100 * b + 100"
    "400 * c \<le> y + 399" "y + 399 < 400 * c + 400"
    unfolding a_def b_def c_def by (rule div_bounds, simp)+
  moreover have "year_start y = 365 * y + a - b + c" by (simp add: year_start_def a_def b_def c_def)
  ultimately show ?thesis by linarith
qed

lemma year_of_bounds: "year_start (year_of n) \<le> n" "n < year_start (year_of n + 1)"
proof -
  define y where "y = (400 * n) div 146097"
  have "146097 * y \<le> 400 * n" "400 * n < 146097 * y + 146097"
    unfolding y_def by (rule div_bounds, simp)+
  then have "year_start (y - 1) \<le> n" "n < year_start (y + 1 + 1)"
    using year_start_estimate [of "y - 1"] year_start_estimate [of "y + 2"] by (simp_all add: add.assoc)
  then show "year_start (year_of n) \<le> n" "n < year_start (year_of n + 1)"
    unfolding year_of_def Let_def y_def [symmetric] by auto
qed

lemma year_of_eqI:
  assumes "year_start y \<le> n" and "n < year_start (y + 1)"
  shows "year_of n = y"
proof (rule ccontr)
  assume "year_of n \<noteq> y"
  then consider "year_of n + 1 \<le> y" | "y + 1 \<le> year_of n" by linarith
  then show False
  proof cases
    case 1
    then have "year_start (year_of n + 1) \<le> year_start y"
      using year_start_mono [of "year_of n + 1" y] by (cases "year_of n + 1 = y") auto
    with year_of_bounds(2) [of n] assms(1) show False by linarith
  next
    case 2
    then have "year_start (y + 1) \<le> year_start (year_of n)"
      using year_start_mono [of "y + 1" "year_of n"] by (cases "y + 1 = year_of n") auto
    with year_of_bounds(1) [of n] assms(2) show False by linarith
  qed
qed

lemma month_len_bounds: "28 \<le> month_len y m" "month_len y m \<le> 31"
  by (simp_all add: month_len_def)

lemma before_month_Suc: "1 \<le> m \<Longrightarrow> before_month y (m + 1) = before_month y m + month_len y m"
  using upto_rec2 [of 1 m] by (simp add: before_month_def)

lemma before_month_1 [simp]: "before_month y 1 = 0"
  by (simp add: before_month_def)

lemma before_month_13: "before_month y 13 = (if leap y then 366 else 365)"
  by (simp add: before_month_def month_len_def upto.simps)

lemma before_month_mono: "m < m' \<Longrightarrow> 1 \<le> m \<Longrightarrow> before_month y m + month_len y m \<le> before_month y m'"
proof (induction m' rule: int_gr_induct [where k = m])
  case base
  then show ?case by (simp add: before_month_Suc)
next
  case (step i)
  then show ?case using before_month_Suc [of i y] month_len_bounds(1) [of y i] by simp
qed

text \<open>Earlier dates have smaller day numbers.\<close>

fun earlier :: "date \<Rightarrow> date \<Rightarrow> bool" where
  "earlier (y, m, d) (y', m', d') \<longleftrightarrow> y < y' \<or> y = y' \<and> (m < m' \<or> m = m' \<and> d < d')"

lemma day_number_in_year:
  assumes "valid_date (y, m, d)"
  shows "year_start y \<le> day_number (y, m, d)" "day_number (y, m, d) < year_start (y + 1)"
proof -
  have "0 \<le> before_month y m"
    using assms before_month_mono [of 1 m y] month_len_bounds(1) [of y 1] by (cases "m = 1") auto
  with assms show "year_start y \<le> day_number (y, m, d)" by simp
  have "before_month y m + month_len y m \<le> before_month y 13"
    using assms by (intro before_month_mono) auto
  with assms show "day_number (y, m, d) < year_start (y + 1)"
    by (simp add: before_month_13 year_start_Suc)
qed

lemma day_number_less:
  assumes "earlier x x'" and "valid_date x" and "valid_date x'"
  shows "day_number x < day_number x'"
proof -
  obtain y m d y' m' d' where [simp]: "x = (y, m, d)" "x' = (y', m', d')" by (cases x, cases x')
  from assms(1) consider "y < y'" | "y = y'" "m < m'" | "y = y'" "m = m'" "d < d'" by auto
  then show ?thesis
  proof cases
    case 1
    then have "year_start (y + 1) \<le> year_start y'"
      using year_start_mono [of "y + 1" y'] by (cases "y + 1 = y'") auto
    with day_number_in_year(2) [of y m d] day_number_in_year(1) [of y' m' d'] assms(2,3) show ?thesis by simp
  next
    case 2
    with before_month_mono [of m m' y] assms(2,3) show ?thesis by simp
  qed simp
qed

lemma earlier_total: "earlier x x' \<or> x = x' \<or> earlier x' x"
  by (cases x; cases x') auto

lemma day_number_less_iff:
  assumes "valid_date x" and "valid_date x'"
  shows "day_number x < day_number x' \<longleftrightarrow> earlier x x'"
  using day_number_less [OF _ assms] day_number_less [OF _ assms(2,1)] earlier_total [of x x'] by fastforce

lemma day_number_inj:
  assumes "valid_date x" and "valid_date x'" and "day_number x = day_number x'"
  shows "x = x'"
  using day_number_less [OF _ assms(1,2)] day_number_less [OF _ assms(2,1)] earlier_total [of x x'] assms(3) by fastforce

lemma month_of_spec:
  assumes "k \<le> 11" and "m = 12 - int k" and "0 \<le> r" and "before_month y m + r < before_month y 13"
    and "month_of y r k = (m', d')"
  shows "1 \<le> m' \<and> m' \<le> 12 \<and> 1 \<le> d' \<and> d' \<le> month_len y m' \<and> before_month y m' + d' - 1 = before_month y m + r"
  using assms
proof (induction k arbitrary: r m)
  case 0
  then show ?case using before_month_Suc [of 12 y] by auto
next
  case (Suc k)
  show ?case
  proof (cases "r < month_len y m")
    case True
    with Suc.prems show ?thesis by (auto simp: Let_def)
  next
    case False
    have m: "1 \<le> m" using Suc.prems by simp
    have "month_of y (r - month_len y m) k = (m', d')" using Suc.prems False by (simp add: Let_def)
    from Suc.IH [OF _ _ _ _ this, of "m + 1"] Suc.prems False before_month_Suc [OF m, of y]
    show ?thesis by simp
  qed
qed

lemma civil_spec: "valid_date (civil n) \<and> day_number (civil n) = n"
proof -
  obtain m d where md: "month_of (year_of n) (n - year_start (year_of n)) 11 = (m, d)" by fastforce
  have "before_month (year_of n) 1 + (n - year_start (year_of n)) < before_month (year_of n) 13"
    using year_of_bounds(2) [of n] by (simp add: before_month_13 year_start_Suc)
  with month_of_spec [OF _ _ _ _ md, of 1] year_of_bounds(1) [of n] show ?thesis
    by (simp add: civil_def md)
qed

lemma civil_day_number: "valid_date x \<Longrightarrow> civil (day_number x) = x"
  using civil_spec [of "day_number x"] by (auto intro: day_number_inj)

section \<open>Date texts\<close>

definition digit_char :: "char \<Rightarrow> bool" where
  "digit_char c \<longleftrightarrow> 48 \<le> (of_char c :: nat) \<and> (of_char c :: nat) \<le> 57"

definition digit :: "char \<Rightarrow> int" where
  "digit c = int (of_char c) - 48"

fun digits_value :: "string \<Rightarrow> int" where
  "digits_value [] = 0"
| "digits_value (c # s) = digit c * 10 ^ length s + digits_value s"

text \<open>
  The test of the sources on a date text: the pattern \<open>/^\d{4}-\d{2}-\d{2}$/\<close>, and that the date
  the text denotes prints as the same text, which holds exactly for the dates of the calendar.
\<close>

definition date_of_text :: "string \<Rightarrow> date option" where
  "date_of_text s =
     (let y = take 4 s; m = take 2 (drop 5 s); d = drop 8 s;
          x = (digits_value y, digits_value m, digits_value d)
      in if length s = 10 \<and> s ! 4 = CHR ''-'' \<and> s ! 7 = CHR ''-'' \<and> list_all digit_char (y @ m @ d) \<and> valid_date x
         then Some x else None)"

fun pad :: "nat \<Rightarrow> int \<Rightarrow> string" where
  "pad 0 n = []"
| "pad (Suc k) n = pad k (n div 10) @ [char_of (nat (48 + n mod 10))]"

text \<open>\<open>toISOString\<close> of midnight, up to the \<open>T\<close>; years beyond four digits carry a sign and six digits.\<close>

fun iso_date :: "date \<Rightarrow> string" where
  "iso_date (y, m, d) =
     (if 0 \<le> y \<and> y \<le> 9999 then pad 4 y else (if y < 0 then ''-'' else ''+'') @ pad 6 \<bar>y\<bar>)
       @ ''-'' @ pad 2 m @ ''-'' @ pad 2 d"

lemma length_pad [simp]: "length (pad k n) = k"
  by (induction k arbitrary: n) simp_all

lemma digits_value_snoc: "digits_value (s @ [c]) = 10 * digits_value s + digit c"
  by (induction s) (simp_all add: algebra_simps)

lemma pad_digits: "list_all digit_char (pad k n)"
proof (induction k arbitrary: n)
  case (Suc k)
  have "0 \<le> n mod 10" "n mod 10 < 10" by simp_all
  then have "digit_char (char_of (nat (48 + n mod 10)))"
    unfolding digit_char_def by (simp add: of_char_of take_bit_nat_def nat_le_iff le_nat_iff)
  with Suc show ?case by simp
qed simp

lemma digits_value_pad: "0 \<le> n \<Longrightarrow> digits_value (pad k n) = n mod 10 ^ k"
proof (induction k arbitrary: n)
  case (Suc k)
  have d: "digit (char_of (nat (48 + n mod 10))) = n mod 10"
    by (simp add: digit_def of_char_of take_bit_nat_def nat_mod_distrib)
  from Suc have "digits_value (pad (Suc k) n) = 10 * (n div 10 mod 10 ^ k) + n mod 10"
    by (simp add: digits_value_snoc d)
  also have "\<dots> = n mod (10 * 10 ^ k)" by (rule zmod_zmult2_eq [symmetric]) simp
  finally show ?case by simp
qed simp

lemma lex_append:
  fixes a b u v :: string
  assumes "length a = length b"
  shows "a @ u < b @ v \<longleftrightarrow> a < b \<or> a = b \<and> u < v"
  using assms by (induction a b rule: list_induct2) auto

lemma digits_value_bounds: "list_all digit_char s \<Longrightarrow> 0 \<le> digits_value s \<and> digits_value s < 10 ^ length s"
proof (induction s)
  case (Cons c s)
  then have "0 \<le> digit c" "digit c \<le> 9" by (auto simp: digit_char_def digit_def)
  then have "digit c * 10 ^ length s \<le> 9 * 10 ^ length s" "0 \<le> digit c * 10 ^ length s"
    by (auto intro: mult_right_mono)
  moreover have "0 \<le> digits_value s" "digits_value s < 10 ^ length s" using Cons by auto
  ultimately show ?case unfolding digits_value.simps length_Cons power_Suc by linarith
qed simp

lemma digits_less_iff:
  assumes "length a = length b" and "list_all digit_char a" and "list_all digit_char b"
  shows "(a < b \<longleftrightarrow> digits_value a < digits_value b) \<and> (a = b \<longleftrightarrow> digits_value a = digits_value b)"
  using assms
proof (induction a b rule: list_induct2)
  case (Cons c a d b)
  define K :: int where "K = 10 ^ length b"
  have va: "0 \<le> digits_value a" "digits_value a < K" "0 \<le> digits_value b" "digits_value b < K"
    using digits_value_bounds [of a] digits_value_bounds [of b] Cons by (auto simp: K_def)
  have lt: "i * K + v < j * K + w" if "i < j" "0 \<le> w" "v < K" for i j v w :: int
  proof -
    have "(i + 1) * K \<le> j * K" using that va by (intro mult_right_mono) auto
    with that show ?thesis by (simp add: distrib_right)
  qed
  have v: "digits_value (c # a) = digit c * K + digits_value a" "digits_value (d # b) = digit d * K + digits_value b"
    using Cons.hyps by (simp_all add: K_def)
  consider "digit c < digit d" | "digit d < digit c" | "digit c = digit d" by linarith
  then show ?case
  proof cases
    case 1
    with lt [OF 1 va(3,2)] show ?thesis unfolding v by (auto simp: digit_def less_char_def)
  next
    case 2
    with lt [OF 2 va(1,4)] show ?thesis unfolding v by (auto simp: digit_def less_char_def)
  next
    case 3
    then have "c = d" by (simp add: digit_def)
    with Cons show ?thesis unfolding v by auto
  qed
qed simp

text \<open>Comparing date texts compares the dates.\<close>

lemma date_text_parts:
  assumes "date_of_text s = Some x"
  obtains y m d where "s = y @ CHR ''-'' # m @ CHR ''-'' # d" and "length y = 4" and "length m = 2" and "length d = 2"
    and "list_all digit_char y" and "list_all digit_char m" and "list_all digit_char d"
    and "x = (digits_value y, digits_value m, digits_value d)" and "valid_date x"
proof -
  from assms have l: "length s = 10" "s ! 4 = CHR ''-''" "s ! 7 = CHR ''-''"
    by (auto simp: date_of_text_def Let_def split: if_splits)
  have "s = take 4 s @ s ! 4 # drop 5 s" using id_take_nth_drop [of 4 s] l(1) by simp
  moreover have "drop 5 s = take 2 (drop 5 s) @ s ! 7 # drop 8 s"
    using l(1) id_take_nth_drop [of 2 "drop 5 s"] by simp
  ultimately have "s = take 4 s @ CHR ''-'' # take 2 (drop 5 s) @ CHR ''-'' # drop 8 s" using l by metis
  with assms l(1) show thesis
    by (intro that [of "take 4 s" "take 2 (drop 5 s)" "drop 8 s"])
      (auto simp: date_of_text_def Let_def split: if_splits)
qed

lemma date_text_less:
  assumes "date_of_text s = Some x" and "date_of_text s' = Some x'"
  shows "s < s' \<longleftrightarrow> day_number x < day_number x'"
proof -
  from assms(1) obtain y m d where p: "s = y @ CHR ''-'' # m @ CHR ''-'' # d" "length y = 4" "length m = 2" "length d = 2"
    "list_all digit_char y" "list_all digit_char m" "list_all digit_char d"
    "x = (digits_value y, digits_value m, digits_value d)" "valid_date x" by (rule date_text_parts)
  from assms(2) obtain y' m' d' where p': "s' = y' @ CHR ''-'' # m' @ CHR ''-'' # d'" "length y' = 4" "length m' = 2"
    "length d' = 2" "list_all digit_char y'" "list_all digit_char m'" "list_all digit_char d'"
    "x' = (digits_value y', digits_value m', digits_value d')" "valid_date x'" by (rule date_text_parts)
  have "s < s' \<longleftrightarrow> y < y' \<or> y = y' \<and> (m < m' \<or> m = m' \<and> d < d')"
    using p(2-4) p'(2-4) by (simp add: p(1) p'(1) lex_append)
  also have "\<dots> \<longleftrightarrow> earlier x x'"
    using digits_less_iff [of y y'] digits_less_iff [of m m'] digits_less_iff [of d d'] p(2-7) p'(2-7)
    by (simp add: p(8) p'(8))
  finally show ?thesis using day_number_less_iff [OF p(9) p'(9)] by simp
qed

text \<open>Printing a date of four-digit years and reading it back.\<close>

lemma date_of_iso_date:
  assumes "valid_date (y, m, d)" and "0 \<le> y" and "y \<le> 9999"
  shows "date_of_text (iso_date (y, m, d)) = Some (y, m, d)"
proof -
  have b: "1 \<le> m" "m \<le> 12" "1 \<le> d" "d \<le> 31"
    using assms(1) month_len_bounds(2) [of y m] by auto
  let ?s = "pad 4 y @ ''-'' @ pad 2 m @ ''-'' @ pad 2 d"
  have "take 4 ?s = pad 4 y" "take 2 (drop 5 ?s) = pad 2 m" "drop 8 ?s = pad 2 d" "length ?s = 10"
    "?s ! 4 = CHR ''-''" "?s ! 7 = CHR ''-''"
    by (simp_all add: nth_append)
  moreover have "digits_value (pad 4 y) = y" "digits_value (pad 2 m) = m" "digits_value (pad 2 d) = d"
    using assms b by (simp_all add: digits_value_pad)
  ultimately show ?thesis
    using assms pad_digits by (simp add: date_of_text_def Let_def del: pad.simps)
qed

section \<open>Months\<close>

text \<open>
  \<open>Date.UTC(y, m, d)\<close> in days: the month counts from 0 and may run over, the day may be 0, and the
  years 0 to 99 stand for 1900 to 1999.
\<close>

definition utc_days :: "int \<Rightarrow> int \<Rightarrow> int \<Rightarrow> int" where
  "utc_days y m d =
     (let y' = (if 0 \<le> y \<and> y \<le> 99 then 1900 + y else y)
      in day_number (y' + m div 12, m mod 12 + 1, 1) + d - 1)"

text \<open>The same day some months later, or the last day of that month when it is shorter.\<close>

fun add_months :: "date \<Rightarrow> int \<Rightarrow> date" where
  "add_months (y, m, d) n =
     (let k = m - 1 + n; y' = y + k div 12; m' = k mod 12 + 1 in (y', m', min d (month_len y' m')))"

lemma valid_add_months: "valid_date x \<Longrightarrow> valid_date (add_months x n)"
proof (cases x)
  case (fields y m d)
  assume "valid_date x"
  moreover have "0 \<le> (m - 1 + n) mod 12" "(m - 1 + n) mod 12 < 12" by simp_all
  ultimately show ?thesis
    using month_len_bounds(1) [of "y + (m - 1 + n) div 12" "(m - 1 + n) mod 12 + 1"]
    by (simp add: fields Let_def)
qed

fun month_index :: "date \<Rightarrow> int" where
  "month_index (y, m, d) = 12 * y + m - 1"

lemma month_index_add_months: "month_index (add_months x n) = month_index x + n"
proof (cases x)
  case (fields y m d)
  define q r where "q = (m - 1 + n) div 12" and "r = (m - 1 + n) mod 12"
  have "12 * q + r = m - 1 + n" unfolding q_def r_def by (rule mult_div_mod_eq)
  moreover have "month_index (add_months x n) = 12 * (y + q) + (r + 1) - 1"
    by (simp add: fields Let_def q_def r_def)
  ultimately show ?thesis by (simp add: fields)
qed

lemma earlier_month_index:
  assumes "valid_date x" and "valid_date x'" and "month_index x < month_index x'"
  shows "day_number x < day_number x'"
proof -
  have "earlier x x'" using assms by (cases x; cases x') auto
  then show ?thesis using assms by (intro day_number_less)
qed

lemma add_months_0: "valid_date x \<Longrightarrow> add_months x 0 = x"
  by (cases x) (simp add: Let_def div_pos_pos_trivial mod_pos_pos_trivial)

lemma month_end:
  assumes "1 \<le> m" and "m \<le> 12"
  shows "day_number (y + m div 12, m mod 12 + 1, 1) - 1 = day_number (y, m, month_len y m)"
proof (cases "m = 12")
  case True
  then show ?thesis
    using before_month_13 [of y] before_month_Suc [of 12 y] year_start_Suc [of y] by simp
next
  case False
  with assms have "m div 12 = 0" "m mod 12 = m" by simp_all
  with before_month_Suc [of m y] assms show ?thesis by simp
qed

text \<open>The two calls of \<open>Date.UTC\<close> behind an anniversary.\<close>

lemma utc_month_end:
  assumes "\<not> (0 \<le> y \<and> y \<le> 99)"
  shows "utc_days y (k + 1) 0 = day_number (y + k div 12, k mod 12 + 1, month_len (y + k div 12) (k mod 12 + 1))"
proof -
  define q r where "q = k div 12" and "r = k mod 12"
  have r: "0 \<le> r" "r < 12" by (simp_all add: r_def)
  have "k + 1 = (r + 1) + q * 12" using div_mult_mod_eq [of k 12] unfolding q_def r_def by linarith
  then have "(k + 1) div 12 = q + (r + 1) div 12" "(k + 1) mod 12 = (r + 1) mod 12"
    by (simp_all only: div_mult_self1 mod_mult_self1 zero_neq_numeral not_False_eq_True simp_thms)
  then have "utc_days y (k + 1) 0 = day_number (y + q + (r + 1) div 12, (r + 1) mod 12 + 1, 1) - 1"
    using assms unfolding utc_days_def Let_def by (auto simp: add.assoc)
  also have "\<dots> = day_number (y + q, r + 1, month_len (y + q) (r + 1))"
    using r by (intro month_end) auto
  finally show ?thesis by (simp only: q_def r_def)
qed

lemma utc_anniversary:
  assumes "valid_date (y, m, d)" and "\<not> (0 \<le> y \<and> y \<le> 99)"
  shows "utc_days y (m - 1 + n) (min d (snd (snd (civil (utc_days y (m - 1 + n + 1) 0)))))
    = day_number (add_months (y, m, d) n)"
proof -
  let ?k = "m - 1 + n"
  have "0 \<le> ?k mod 12" "?k mod 12 < 12" by simp_all
  then have "valid_date (y + ?k div 12, ?k mod 12 + 1, month_len (y + ?k div 12) (?k mod 12 + 1))"
    using month_len_bounds(1) [of "y + ?k div 12" "?k mod 12 + 1"] by simp
  then have "snd (snd (civil (utc_days y (?k + 1) 0))) = month_len (y + ?k div 12) (?k mod 12 + 1)"
    unfolding utc_month_end [OF assms(2)] by (simp only: civil_day_number snd_conv)
  then show ?thesis using assms(2) unfolding utc_days_def [of y ?k] Let_def by (auto simp: Let_def)
qed

section \<open>Instants\<close>

text \<open>An instant is a number of milliseconds since 1970; \<open>iso_time\<close> is its \<open>toISOString\<close>.\<close>

definition day_ms :: int where
  "day_ms = 86400000"

definition epoch_day :: int where
  "epoch_day = 719528"

definition iso_clock :: "int \<Rightarrow> string" where
  "iso_clock ms = pad 2 (ms div 3600000) @ '':'' @ pad 2 (ms div 60000 mod 60) @ '':'' @ pad 2 (ms div 1000 mod 60)
     @ ''.'' @ pad 3 (ms mod 1000) @ ''Z''"

definition iso_time :: "int \<Rightarrow> string" where
  "iso_time ms = iso_date (civil (epoch_day + ms div day_ms)) @ ''T'' @ iso_clock (ms mod day_ms)"

end
