(* ===== verification/Asset_Scoring.thy ===== *)
theory Asset_Scoring
  imports Calendar
begin

text \<open>
  \<open>modules/asset/domain/scoring.ts\<close>: the risk and the replacement assessment of an asset from
  evidence. Counts and scores are integers. The ratio of an age is exact; the comparisons with its
  double agree with these for expected lives below \<open>2 ^ 49\<close> months. The thresholds of the
  economic ratio, which the caller passes as a double, are the exact values of the doubles.
\<close>

section \<open>Evidence\<close>

record evidence =
  ev_available :: bool
  ev_score :: int
  ev_details :: "(string \<times> json) list"
  ev_missing_reason :: "string option"

definition SCORING_ELIGIBLE_LIFECYCLE_STATES :: "string list" where
  "SCORING_ELIGIBLE_LIFECYCLE_STATES = [''ASSIGNED'', ''IN_USE'', ''REPAIR'']"

definition healthPoints :: "(string \<times> int option) list" where
  "healthPoints = [(''HEALTHY'', Some 0), (''WARNING'', Some 20), (''CRITICAL'', Some 40), (''UNKNOWN'', None)]"

definition operationalPoints :: "(string \<times> int option) list" where
  "operationalPoints = [(''ONLINE'', Some 0), (''MAINTENANCE'', Some 15), (''OFFLINE'', Some 30),
     (''UNAVAILABLE'', Some 30), (''UNKNOWN'', None)]"

text \<open>\<open>points[state] ?? null\<close>.\<close>

definition points :: "(string \<times> int option) list \<Rightarrow> string \<Rightarrow> int option" where
  "points tbl s = (case map_of tbl s of None \<Rightarrow> None | Some p \<Rightarrow> p)"

fun json_int :: "int option \<Rightarrow> json" where
  "json_int None = JNull"
| "json_int (Some i) = JNum (JInt i)"

fun known_max :: "int option \<Rightarrow> int option \<Rightarrow> int" where
  "known_max (Some a) (Some b) = max a b"
| "known_max (Some a) None = a"
| "known_max None (Some b) = b"
| "known_max None None = 0"

definition currentConditionEvidence :: "string \<Rightarrow> string \<Rightarrow> evidence" where
  "currentConditionEvidence health operational =
     (let h = points healthPoints health; q = points operationalPoints operational in
      \<lparr>ev_available = (h \<noteq> None \<and> q \<noteq> None), ev_score = known_max h q,
       ev_details = [(''health_state'', JStr health), (''health_contribution'', json_int h),
         (''operational_state'', JStr operational), (''operational_contribution'', json_int q),
         (''combination'', JStr ''MAX'')],
       ev_missing_reason = (if h = None \<or> q = None then Some ''CURRENT_CONDITION_STATE_UNKNOWN'' else None)\<rparr>)"

definition incidentReliabilityContribution :: "int \<Rightarrow> int" where
  "incidentReliabilityContribution n = (if n = 0 then 0 else if n = 1 then 15 else if n = 2 then 25 else 40)"

definition monitoringReliabilityContribution :: "int \<Rightarrow> int" where
  "monitoringReliabilityContribution n = (if n = 0 then 0 else if n \<le> 2 then 10 else if n \<le> 5 then 25 else 40)"

definition maintenanceContribution :: "int \<Rightarrow> int" where
  "maintenanceContribution n = (if n = 0 then 0 else if n = 1 then 5 else if n = 2 then 10 else 20)"

section \<open>Risk\<close>

definition riskBand :: "int \<Rightarrow> int \<Rightarrow> string" where
  "riskBand score completeness =
     (if score < 50 \<and> completeness < 70 then ''UNKNOWN''
      else if score < 25 then ''LOW'' else if score < 50 then ''MEDIUM''
      else if score < 70 then ''HIGH'' else ''CRITICAL'')"

record risk_input =
  ri_health :: string
  ri_operational :: string
  ri_incident_episodes :: "int option"
  ri_monitoring_episodes :: "int option"
  ri_monitoring_identity :: bool
  ri_incident_monitoring_ids :: "string list"
  ri_monitoring_ids :: "string list"
  ri_corrective :: int
  ri_unknown :: int
  ri_maintenance_available :: bool

record assessment =
  am_score :: int
  am_band :: string
  am_completeness :: int
  am_groups :: "(string \<times> evidence) list"
  am_missing :: "(string \<times> string option) list"

definition monitor_count :: "risk_input \<Rightarrow> int" where
  "monitor_count inp =
     int (length (filter (\<lambda>i. i \<notin> set (ri_incident_monitoring_ids inp)) (ri_monitoring_ids inp)))"

definition incident_points :: "risk_input \<Rightarrow> int option" where
  "incident_points inp = map_option incidentReliabilityContribution (ri_incident_episodes inp)"

definition monitoring_points :: "risk_input \<Rightarrow> int option" where
  "monitoring_points inp =
     (if ri_monitoring_identity inp \<and> ri_monitoring_episodes inp \<noteq> None
      then Some (monitoringReliabilityContribution (monitor_count inp)) else None)"

definition zero_or :: "int option \<Rightarrow> int" where
  "zero_or x = (case x of None \<Rightarrow> 0 | Some i \<Rightarrow> i)"

definition reliability_evidence :: "risk_input \<Rightarrow> evidence" where
  "reliability_evidence inp =
     (let i = incident_points inp; m = monitoring_points inp; ok = (i \<noteq> None \<and> m \<noteq> None) in
      \<lparr>ev_available = ok, ev_score = max (zero_or i) (zero_or m),
       ev_details = [(''incident_episode_count'', json_int (ri_incident_episodes inp)),
         (''incident_contribution'', json_int i),
         (''monitoring_episode_count_before_overlap'', json_int (ri_monitoring_episodes inp)),
         (''monitoring_incident_overlap_excluded'',
            JNum (JInt (int (length (ri_monitoring_ids inp)) - monitor_count inp))),
         (''monitoring_episode_count'', JNum (JInt (monitor_count inp))),
         (''monitoring_contribution'', json_int m), (''combination'', JStr ''MAX'')],
       ev_missing_reason = (if ok then None else Some ''RELIABILITY_EVIDENCE_UNAVAILABLE'')\<rparr>)"

definition maintenance_evidence :: "risk_input \<Rightarrow> evidence" where
  "maintenance_evidence inp =
     (let ok = (ri_maintenance_available inp \<and> ri_unknown inp = 0) in
      \<lparr>ev_available = ok, ev_score = maintenanceContribution (ri_corrective inp),
       ev_details = [(''corrective_completed_count'', JNum (JInt (ri_corrective inp))),
         (''unknown_classification_count'', JNum (JInt (ri_unknown inp))),
         (''excluded_types'', JArr [JStr ''PREVENTIVE'', JStr ''INSPECTION'', JStr ''OTHER''])],
       ev_missing_reason = (if ok then None
         else Some (if ri_unknown inp \<noteq> 0 then ''UNKNOWN_MAINTENANCE_CLASSIFICATION''
                    else ''MAINTENANCE_EVIDENCE_UNAVAILABLE''))\<rparr>)"

definition missing_evidence :: "(string \<times> evidence) list \<Rightarrow> (string \<times> string option) list" where
  "missing_evidence gs = map (\<lambda>(g, e). (g, ev_missing_reason e)) (filter (\<lambda>(g, e). \<not> ev_available e) gs)"

definition calculateRisk :: "risk_input \<Rightarrow> assessment" where
  "calculateRisk inp =
     (let condition = currentConditionEvidence (ri_health inp) (ri_operational inp);
          reliability = reliability_evidence inp;
          maintenance = maintenance_evidence inp;
          groups = [(''CURRENT_CONDITION'', condition), (''RELIABILITY'', reliability),
                    (''CORRECTIVE_MAINTENANCE'', maintenance)];
          completeness = (if ev_available condition then 40 else 0) + (if ev_available reliability then 40 else 0)
            + (if ev_available maintenance then 20 else 0);
          score = min 100 (ev_score condition + ev_score reliability + ev_score maintenance)
      in \<lparr>am_score = score, am_band = riskBand score completeness, am_completeness = completeness,
          am_groups = groups, am_missing = missing_evidence groups\<rparr>)"

section \<open>Age\<close>

definition ageMonthsUtc :: "string \<Rightarrow> string \<Rightarrow> int option" where
  "ageMonthsUtc acquiredOn asOf =
     (case (date_of_text acquiredOn, date_of_text (take 10 asOf)) of
        (Some (sy, sm, sd), Some (ey, em, ed)) \<Rightarrow>
          if day_number (ey, em, ed) < day_number (sy, sm, sd) then None
          else
            let months = (ey - sy) * 12 + em - sm;
                anniversaryDay = min sd (snd (snd (civil (utc_days sy (sm - 1 + months + 1) 0))));
                anniversary = utc_days sy (sm - 1 + months) anniversaryDay;
                months' = (if day_number (ey, em, ed) < anniversary then months - 1 else months)
            in Some (max 0 months')
      | _ \<Rightarrow> None)"

definition age_points :: "int \<Rightarrow> int \<Rightarrow> int" where
  "age_points age life =
     (if 10 * age < 7 * life then 0 else if 10 * age < 9 * life then 5 else if age < life then 10
      else if 10 * age < 12 * life then 15 else 20)"

fun ageContribution :: "js_number \<Rightarrow> js_number \<Rightarrow> (rat \<times> int) option" where
  "ageContribution (JInt age) (JInt life) =
     (if age < 0 \<or> life \<le> 0 then None else Some (of_int age / of_int life, age_points age life))"
| "ageContribution _ _ = None"

section \<open>Replacement\<close>

definition warrantyContribution :: "string \<Rightarrow> int option" where
  "warrantyContribution s =
     (if s = ''VALID'' then Some 0 else if s = ''EXPIRING'' then Some 5 else if s = ''EXPIRED'' then Some 15 else None)"

definition economicRepairContribution :: "js_number \<Rightarrow> int option" where
  "economicRepairContribution r =
     (if \<not> is_finite r \<or> js_rat r < 0 then None
      else let q = js_rat r in
        Some (if q < 3602879701896397 / 2 ^ 54 then 0 else if q < 3602879701896397 / 2 ^ 53 then 5
              else if q < 5404319552844595 / 2 ^ 53 then 10 else if q < 3602879701896397 / 2 ^ 52 then 15 else 25))"

definition replacementBand :: "int \<Rightarrow> int \<Rightarrow> string" where
  "replacementBand score completeness =
     (if score < 60 \<and> completeness < 70 then ''UNKNOWN''
      else if score < 40 then ''MONITOR'' else if score < 60 then ''REVIEW''
      else if score < 80 then ''PLAN'' else ''PRIORITY'')"

text \<open>\<open>Number(item.details.availability_weight ?? 0)\<close>; the callers store integers.\<close>

definition availability_weight :: "evidence \<Rightarrow> int" where
  "availability_weight e =
     (case map_of (ev_details e) ''availability_weight'' of Some (JNum (JInt w)) \<Rightarrow> w | _ \<Rightarrow> 0)"

definition calculateReplacement :: "(string \<times> evidence) list \<Rightarrow> assessment" where
  "calculateReplacement components =
     (let available = map snd components;
          completeness = sum_list (map (\<lambda>e. if ev_available e then availability_weight e else 0) available);
          score = min 100 (sum_list (map ev_score available))
      in \<lparr>am_score = score, am_band = replacementBand score completeness, am_completeness = completeness,
          am_groups = components, am_missing = missing_evidence components\<rparr>)"

section \<open>Properties\<close>

lemma date_of_text_valid: "date_of_text s = Some x \<Longrightarrow> valid_date x"
  by (auto simp: date_of_text_def Let_def split: if_splits)

lemma month_index_le:
  assumes "valid_date x" and "valid_date z" and "day_number x \<le> day_number z"
  shows "month_index x \<le> month_index z"
  using earlier_month_index [OF assms(2,1)] assms(3) by linarith

text \<open>C31: The age of an asset in months is the number of completed months: the asset's monthly anniversary,
  clamped to the last day of shorter months, has passed that many times and not once more.\<close>

theorem age_months_exact:
  assumes "date_of_text acquired = Some (y, m, d)" and "date_of_text (take 10 asOf) = Some z"
    and "day_number (y, m, d) \<le> day_number z" and "100 \<le> y"
  shows "\<exists>k\<ge>0. ageMonthsUtc acquired asOf = Some k
    \<and> day_number (add_months (y, m, d) k) \<le> day_number z
    \<and> day_number z < day_number (add_months (y, m, d) (k + 1))"
proof -
  obtain ey em ed where z: "z = (ey, em, ed)" by (cases z)
  let ?x = "(y, m, d)" and ?M = "(ey - y) * 12 + em - m"
  have v: "valid_date ?x" "valid_date z" using assms(1,2) by (blast intro: date_of_text_valid)+
  have M: "month_index ?x + ?M = month_index z" by (simp add: z)
  have "0 \<le> ?M" using month_index_le [OF v assms(3)] M by linarith
  have late: "day_number z < day_number (add_months ?x n)" if "?M < n" for n
    using that M v by (intro earlier_month_index valid_add_months) (simp_all only: month_index_add_months)
  have early: "day_number (add_months ?x n) < day_number z" if "n < ?M" for n
    using that M v by (intro earlier_month_index valid_add_months) (simp_all only: month_index_add_months)
  have "ageMonthsUtc acquired asOf =
      Some (max 0 (if day_number z < day_number (add_months ?x ?M) then ?M - 1 else ?M))"
    using assms v utc_anniversary [of y m d ?M] by (simp add: ageMonthsUtc_def z Let_def del: add_months.simps day_number.simps)
  moreover have "1 \<le> ?M" if "day_number z < day_number (add_months ?x ?M)"
  proof -
    have "?M \<noteq> 0"
    proof
      assume "?M = 0"
      with that have "day_number z < day_number ?x" by (simp only: add_months_0 [OF v(1)])
      with assms(3) show False by linarith
    qed
    with \<open>0 \<le> ?M\<close> show ?thesis by simp
  qed
  ultimately show ?thesis
    using \<open>0 \<le> ?M\<close> late [of "?M + 1"] early [of "?M - 1"]
    by (cases "day_number z < day_number (add_months ?x ?M)") (auto simp del: add_months.simps day_number.simps)
qed

theorem age_months_exact_witness:
  "\<exists>k\<ge>0. ageMonthsUtc ''2024-01-31'' ''2025-02-28T10:00:00Z'' = Some k
    \<and> day_number (add_months (2024, 1, 31) k) \<le> day_number (2025, 2, 28)
    \<and> day_number (2025, 2, 28) < day_number (add_months (2024, 1, 31) (k + 1))"
proof (rule age_months_exact)
  show "date_of_text ''2024-01-31'' = Some (2024, 1, 31)" by code_simp
  show "date_of_text (take 10 ''2025-02-28T10:00:00Z'') = Some (2025, 2, 28)" by code_simp
  show "day_number (2024, 1, 31) \<le> day_number (2025, 2, 28)" by code_simp
qed simp

text \<open>A risk score lies between 0 and 100; a reassuring band, LOW or MEDIUM, is given exactly to a score
  below 50 with at least 70 percent of the evidence, so missing evidence never makes an asset look
  safe; and the assessment lists a missing piece of evidence exactly when it is not complete.\<close>

theorem risk_assessment_sound:
  "0 \<le> am_score (calculateRisk inp) \<and> am_score (calculateRisk inp) \<le> 100
   \<and> (am_band (calculateRisk inp) \<in> {''LOW'', ''MEDIUM''} \<longleftrightarrow>
        am_score (calculateRisk inp) < 50 \<and> 70 \<le> am_completeness (calculateRisk inp))
   \<and> (am_missing (calculateRisk inp) = [] \<longleftrightarrow> am_completeness (calculateRisk inp) = 100)"
proof -
  have p: "0 \<le> known_max (points healthPoints h) (points operationalPoints q)" for h q
    by (auto simp: points_def healthPoints_def operationalPoints_def)
  have "0 \<le> zero_or (incident_points inp)"
    by (auto simp: zero_or_def incident_points_def incidentReliabilityContribution_def split: option.splits)
  moreover have "0 \<le> maintenanceContribution n" for n by (simp add: maintenanceContribution_def)
  ultimately have "0 \<le> am_score (calculateRisk inp)"
    using p by (simp add: calculateRisk_def Let_def currentConditionEvidence_def reliability_evidence_def maintenance_evidence_def
        add_nonneg_nonneg le_max_iff_disj)
  then show ?thesis
    by (auto simp: calculateRisk_def Let_def riskBand_def missing_evidence_def)
qed

end
