(* ===== verification/License_Seats.thy ===== *)
theory License_Seats
  imports Messaging
begin

text \<open>
  \<open>modules/license/application/assignments.ts\<close>: seats of license entitlements, reserved for
  deployments, assigned to users and assets, and reclaimed, over the tables of
  \<open>database/migrations/license\<close>. The JSON snapshot of a history row is left out; its version,
  action and reason are kept. Times are milliseconds and a database day is 86,400,000 of them.
\<close>

section \<open>Tables\<close>

record entitlement =
  en_id :: string
  en_tenant :: string
  en_product :: string
  en_pool :: "string option"
  en_type :: string
  en_quantity :: int
  en_term_version :: int
  en_renewal_notice_days :: "int option"
  en_purchased_at :: "int option"
  en_contract_reference :: "string option"
  en_supplier_reference :: "string option"
  en_cost_cents :: "int option"
  en_currency :: "string option"
  en_restrictions :: "string list"
  en_created_by :: string
  en_created_at :: int
  en_version :: int

record license_term =
  tm_id :: string
  tm_tenant :: string
  tm_entitlement :: string
  tm_version :: int
  tm_valid_from :: int
  tm_valid_until :: "int option"
  tm_recorded_by :: string
  tm_reason :: string

record pool =
  po_id :: string
  po_tenant :: string
  po_name :: string
  po_type :: string
  po_scope :: string
  po_contract_reference :: "string option"
  po_state :: string
  po_created_by :: string
  po_version :: int

record license_assignment =
  la_id :: string
  la_tenant :: string
  la_entitlement :: string
  la_reservation :: "string option"
  la_principal_type :: string
  la_principal_id :: string
  la_quantity :: int
  la_state :: string
  la_version :: int
  la_activated_at :: "int option"
  la_cancelled_at :: "int option"
  la_reclaimed_at :: "int option"
  la_reclaim_reference :: "string option"
  la_created_by :: string
  la_created_at :: int

record seat_reservation =
  sr_id :: string
  sr_tenant :: string
  sr_entitlement :: string
  sr_target :: string
  sr_asset :: string
  sr_quantity :: int
  sr_state :: string
  sr_version :: int

record history_row =
  hs_id :: string
  hs_tenant :: string
  hs_ref :: string
  hs_version :: int
  hs_action :: string
  hs_actor :: string
  hs_reason :: string

record usage_observation =
  us_id :: string
  us_tenant :: string
  us_entitlement :: string
  us_source :: string
  us_active_usage :: int
  us_observed_at :: int
  us_threshold_days :: "int option"
  us_evidence :: string
  us_created_by :: string
  us_created_at :: int

record compliance_fact =
  cf_id :: string
  cf_tenant :: string
  cf_entitlement :: string
  cf_state :: string
  cf_evidence_key :: string
  cf_payload :: json

record license_db =
  entitlements :: "entitlement list"
  terms :: "license_term list"
  pools :: "pool list"
  licenses :: "license_assignment list"
  seat_reservations :: "seat_reservation list"
  assignment_history :: "history_row list"
  reservation_history :: "history_row list"
  usage_observations :: "usage_observation list"
  compliance_facts :: "compliance_fact list"

section \<open>Shared checks\<close>

fun seatTypesByPrincipal :: "string \<Rightarrow> string list" where
  "seatTypesByPrincipal p =
     (if p = ''USER'' then [''PER_USER'', ''NAMED_USER'']
      else if p = ''ASSET'' then [''PER_DEVICE'', ''SERVER_INSTANCE''] else [])"

definition sanitizeReason :: "string \<Rightarrow> exn + string" where
  "sanitizeReason value =
     (if blank value \<or> 2000 < length value \<or> looks_secret value
      then Inl (AppError VALIDATION_ERROR) else Inr (js_trim value))"

definition history_clash :: "history_row \<Rightarrow> history_row \<Rightarrow> bool" where
  "history_clash x y \<longleftrightarrow> hs_id x = hs_id y \<or>
     (hs_tenant x = hs_tenant y \<and> hs_ref x = hs_ref y \<and> hs_version x = hs_version y)"

definition history ::
    "string \<Rightarrow> string \<Rightarrow> string \<Rightarrow> int \<Rightarrow> string \<Rightarrow> string \<Rightarrow> string \<Rightarrow> (history_row list, unit) call" where
  "history t hid ref version action actorId reason h =
     (case sanitizeReason reason of
        Inl e \<Rightarrow> (Inl e, h)
      | Inr r \<Rightarrow>
         (case insert_row history_clash
            \<lparr>hs_id = hid, hs_tenant = t, hs_ref = ref, hs_version = version, hs_action = action,
             hs_actor = actorId, hs_reason = r\<rparr> h of
            None \<Rightarrow> (Inl (SqlError ''23505''), h)
          | Some h' \<Rightarrow> (Inr (), h')))"

definition live_states :: "string list" where
  "live_states = [''ASSIGNED'', ''ACTIVE'', ''SUSPENDED'', ''RECLAIM_PENDING'']"

definition live :: "license_assignment \<Rightarrow> bool" where
  "live a \<longleftrightarrow> la_state a \<in> set live_states"

text \<open>The rows the queries join an entitlement with: its current term and its pool.\<close>

definition term_of :: "license_db \<Rightarrow> entitlement \<Rightarrow> license_term option" where
  "term_of db e = find_row (\<lambda>t. tm_tenant t = en_tenant e \<and> tm_entitlement t = en_id e
                              \<and> tm_version t = en_term_version e) (terms db)"

definition pool_of :: "license_db \<Rightarrow> entitlement \<Rightarrow> pool option" where
  "pool_of db e = (case en_pool e of None \<Rightarrow> None
     | Some i \<Rightarrow> find_row (\<lambda>p. po_tenant p = en_tenant e \<and> po_id p = i) (pools db))"

definition term_in_force :: "int \<Rightarrow> license_term \<Rightarrow> bool" where
  "term_in_force now tm \<longleftrightarrow> tm_valid_from tm \<le> now
     \<and> (case tm_valid_until tm of None \<Rightarrow> True | Some u \<Rightarrow> now < u)"

definition effective :: "license_db \<Rightarrow> int \<Rightarrow> entitlement \<Rightarrow> bool" where
  "effective db now e \<longleftrightarrow>
     (case term_of db e of None \<Rightarrow> False | Some tm \<Rightarrow> term_in_force now tm) \<and>
     (en_pool e = None \<or> (case pool_of db e of None \<Rightarrow> False | Some p \<Rightarrow> po_state p = ''ACTIVE''))"

definition live_quantity :: "string \<Rightarrow> string \<Rightarrow> license_db \<Rightarrow> int" where
  "live_quantity t i db =
     sum_list (map la_quantity (select_rows (\<lambda>a. la_tenant a = t \<and> la_entitlement a = i \<and> live a) (licenses db)))"

definition reserved_quantity :: "(seat_reservation \<Rightarrow> bool) \<Rightarrow> string \<Rightarrow> string \<Rightarrow> license_db \<Rightarrow> int" where
  "reserved_quantity p t i db =
     sum_list (map sr_quantity (select_rows (\<lambda>r. sr_tenant r = t \<and> sr_entitlement r = i
        \<and> sr_state r = ''RESERVED'' \<and> p r) (seat_reservations db)))"

section \<open>Seats for deployments\<close>

record seat_result =
  st_id :: "string option"
  st_entitlement :: string
  st_target :: "string option"
  st_asset :: string
  st_state :: string
  st_version :: int
  st_created :: bool
  st_already_assigned :: bool

definition reservation_key_clash :: "seat_reservation \<Rightarrow> seat_reservation \<Rightarrow> bool" where
  "reservation_key_clash x y \<longleftrightarrow> sr_id x = sr_id y \<or>
     (sr_tenant x = sr_tenant y \<and> sr_target x = sr_target y)"

record seat_input =
  se_product :: string
  se_principal_type :: string
  se_principal_id :: string
  se_target :: "string option"
  se_existing :: "(string \<times> int) option"
  se_actor :: string
  se_reason :: string

definition seat_candidates :: "string \<Rightarrow> int \<Rightarrow> seat_input \<Rightarrow> license_db \<Rightarrow> entitlement list" where
  "seat_candidates t now inp db =
     (let until = (\<lambda>e. case term_of db e of None \<Rightarrow> None | Some tm \<Rightarrow> tm_valid_until tm) in
      sort_key (\<lambda>e. case until e of None \<Rightarrow> 1 | Some _ \<Rightarrow> (0 :: nat))
       (sort_key (\<lambda>e. case until e of None \<Rightarrow> 0 | Some u \<Rightarrow> u)
        (sort_key en_created_at
         (sort_key en_id
           (select_rows (\<lambda>e. en_tenant e = t \<and> en_product e = se_product inp
              \<and> en_type e \<in> set (seatTypesByPrincipal (se_principal_type inp))
              \<and> effective db now e) (entitlements db))))))"

text \<open>Saving the reservation: an update of the released row of the target, or a new row.\<close>

definition save_reservation ::
    "string \<Rightarrow> call_env \<Rightarrow> seat_input \<Rightarrow> string \<Rightarrow> (seat_reservation list, seat_reservation) call" where
  "save_reservation t env inp entitlement rs =
     (case se_existing inp of
        Some (rid, v) \<Rightarrow>
          let p = (\<lambda>r. sr_tenant r = t \<and> sr_id r = rid);
              rs' = update_rows p (\<lambda>r. r\<lparr>sr_entitlement := entitlement, sr_asset := se_principal_id inp,
                       sr_state := ''RESERVED'', sr_version := v + 1\<rparr>) rs
          in (case find_row p rs' of
                None \<Rightarrow> (Inl (JsError ''undefined row''), rs')
              | Some row \<Rightarrow> (Inr row, rs'))
      | None \<Rightarrow>
          (case se_target inp of
             None \<Rightarrow> (Inl (SqlError ''23502''), rs)
           | Some target \<Rightarrow>
               let row = \<lparr>sr_id = env_uuid env 0, sr_tenant = t, sr_entitlement = entitlement,
                          sr_target = target, sr_asset = se_principal_id inp, sr_quantity = 1,
                          sr_state = ''RESERVED'', sr_version = 1\<rparr>
               in (case insert_row reservation_key_clash row rs of
                     None \<Rightarrow> (Inl (SqlError ''23505''), rs)
                   | Some rs' \<Rightarrow> (Inr row, rs'))))"

fun reserve_first ::
    "string \<Rightarrow> call_env \<Rightarrow> seat_input \<Rightarrow> entitlement list \<Rightarrow> (license_db, seat_result) call" where
  "reserve_first t env inp [] db = (Inl (AppError BUSINESS_RULE_VIOLATION), db)"
| "reserve_first t env inp (e # es) db =
    (if se_target inp \<noteq> None \<and> se_principal_type inp = ''ASSET''
        \<and> find_row (\<lambda>a. la_tenant a = t \<and> la_entitlement a = en_id e \<and> la_principal_type a = ''ASSET''
              \<and> la_principal_id a = se_principal_id inp \<and> live a) (licenses db) \<noteq> None
     then (Inr \<lparr>st_id = None, st_entitlement = en_id e, st_target = se_target inp,
                st_asset = se_principal_id inp, st_state = ''ASSIGNED'', st_version = 0,
                st_created = False, st_already_assigned = True\<rparr>, db)
     else if live_quantity t (en_id e) db
             + reserved_quantity (\<lambda>r. case se_target inp of None \<Rightarrow> True | Some x \<Rightarrow> sr_target r \<noteq> x)
                 t (en_id e) db \<ge> en_quantity e
     then reserve_first t env inp es db
     else if (case se_target inp of None \<Rightarrow> False | Some x \<Rightarrow> \<not> is_uuid x)
     then (Inl (AppError VALIDATION_ERROR), db)
     else case save_reservation t env inp (en_id e) (seat_reservations db) of
        (Inl err, rs) \<Rightarrow> (Inl err, db\<lparr>seat_reservations := rs\<rparr>)
      | (Inr row, rs) \<Rightarrow>
         let rid = (case se_existing inp of None \<Rightarrow> env_uuid env 0 | Some (i, _) \<Rightarrow> i);
             version = (case se_existing inp of None \<Rightarrow> 0 | Some (_, v) \<Rightarrow> v) + 1;
             (logged, h) = history t (env_uuid env 1) rid version ''RESERVED'' (se_actor inp)
                             (se_reason inp) (reservation_history db);
             db' = db\<lparr>seat_reservations := rs, reservation_history := h\<rparr>
         in (case logged of
               Inl err \<Rightarrow> (Inl err, db')
             | Inr _ \<Rightarrow>
                (Inr \<lparr>st_id = Some (sr_id row), st_entitlement = sr_entitlement row,
                      st_target = Some (sr_target row), st_asset = sr_asset row,
                      st_state = sr_state row, st_version = sr_version row,
                      st_created = (se_existing inp = None), st_already_assigned = False\<rparr>, db')))"

definition reserveAvailableSeat ::
    "string \<Rightarrow> call_env \<Rightarrow> seat_input \<Rightarrow> (license_db, seat_result) call" where
  "reserveAvailableSeat t env inp db = reserve_first t env inp (seat_candidates t (env_now env) inp db) db"

record deployment_input =
  de_product :: string
  de_asset :: string
  de_target :: string
  de_actor :: string

text \<open>The first live assignment of an asset under an effective entitlement of a product.\<close>

definition covering_assignment ::
    "string \<Rightarrow> int \<Rightarrow> string \<Rightarrow> string \<Rightarrow> license_db \<Rightarrow> license_assignment option" where
  "covering_assignment t now product asset db =
     first_row (sort_key la_created_at
       (select_rows (\<lambda>a. la_tenant a = t \<and> la_principal_type a = ''ASSET'' \<and> la_principal_id a = asset
          \<and> live a
          \<and> list_ex (\<lambda>e. en_tenant e = la_tenant a \<and> en_id e = la_entitlement a
                        \<and> en_product e = product \<and> effective db now e) (entitlements db))
         (licenses db)))"

definition reserveLicenseForDeployment ::
    "string \<Rightarrow> call_env \<Rightarrow> deployment_input \<Rightarrow> (license_db, seat_result) call" where
  "reserveLicenseForDeployment t env inp db =
    (if \<not> is_uuid (de_product inp) \<or> \<not> is_uuid (de_asset inp) \<or> \<not> is_uuid (de_target inp)
     then (Inl (AppError VALIDATION_ERROR), db)
     else
      let existing = find_row (\<lambda>r. sr_tenant r = t \<and> sr_target r = de_target inp) (seat_reservations db)
      in case (case existing of None \<Rightarrow> None
                 | Some r \<Rightarrow> if sr_state r \<noteq> ''RELEASED'' then Some r else None) of
        Some r \<Rightarrow>
          (Inr \<lparr>st_id = Some (sr_id r), st_entitlement = sr_entitlement r, st_target = Some (sr_target r),
                st_asset = sr_asset r, st_state = sr_state r, st_version = sr_version r,
                st_created = False, st_already_assigned = False\<rparr>, db)
      | None \<Rightarrow>
         (case covering_assignment t (env_now env) (de_product inp) (de_asset inp) db of
            Some a \<Rightarrow>
              (Inr \<lparr>st_id = None, st_entitlement = la_entitlement a, st_target = Some (de_target inp),
                    st_asset = de_asset inp, st_state = ''ASSIGNED'', st_version = 0,
                    st_created = False, st_already_assigned = True\<rparr>, db)
          | None \<Rightarrow>
              reserveAvailableSeat t env
                \<lparr>se_product = de_product inp, se_principal_type = ''ASSET'',
                 se_principal_id = de_asset inp, se_target = Some (de_target inp),
                 se_existing = map_option (\<lambda>r. (sr_id r, sr_version r)) existing,
                 se_actor = de_actor inp,
                 se_reason = ''Reserve a license seat before deployment execution.''\<rparr> db))"

definition releaseDeploymentReservation ::
    "string \<Rightarrow> call_env \<Rightarrow> string \<Rightarrow> string \<Rightarrow> string \<Rightarrow> (license_db, seat_reservation option) call" where
  "releaseDeploymentReservation t env target actorId reason db =
    (if \<not> is_uuid target then (Inl (AppError VALIDATION_ERROR), db)
     else case find_row (\<lambda>r. sr_tenant r = t \<and> sr_target r = target) (seat_reservations db) of
       None \<Rightarrow> (Inr None, db)
     | Some r \<Rightarrow>
        if sr_state r = ''RELEASED'' then (Inr None, db)
        else if sr_state r = ''ASSIGNED'' then (Inl (AppError BUSINESS_RULE_VIOLATION), db)
        else
          let version = sr_version r + 1;
              rs = update_rows (\<lambda>x. sr_tenant x = t \<and> sr_id x = sr_id r)
                     (\<lambda>x. x\<lparr>sr_state := ''RELEASED'', sr_version := version\<rparr>) (seat_reservations db);
              (logged, h) = history t (env_uuid env 0) (sr_id r) version ''RELEASED'' actorId reason
                              (reservation_history db);
              db' = db\<lparr>seat_reservations := rs, reservation_history := h\<rparr>
          in (case logged of
                Inl e \<Rightarrow> (Inl e, db')
              | Inr _ \<Rightarrow> (Inr (Some (r\<lparr>sr_state := ''RELEASED'', sr_version := version\<rparr>)), db')))"


section \<open>Assignments\<close>

text \<open>
  Primary key, the index on the reservation, and the one live assignment of a principal per
  entitlement. The index on the reservation is the arbiter of an ON CONFLICT clause and kept apart.
\<close>

definition same_reservation :: "license_assignment \<Rightarrow> license_assignment \<Rightarrow> bool" where
  "same_reservation x y \<longleftrightarrow>
     la_reservation x \<noteq> None \<and> la_tenant x = la_tenant y \<and> la_reservation x = la_reservation y"

definition license_clash :: "license_assignment \<Rightarrow> license_assignment \<Rightarrow> bool" where
  "license_clash x y \<longleftrightarrow> la_id x = la_id y \<or> same_reservation x y \<or>
     (live x \<and> live y \<and> la_tenant x = la_tenant y \<and> la_entitlement x = la_entitlement y
      \<and> la_principal_type x = la_principal_type y \<and> la_principal_id x = la_principal_id y)"

definition new_license ::
    "string \<Rightarrow> string \<Rightarrow> int \<Rightarrow> string \<Rightarrow> string option \<Rightarrow> string \<Rightarrow> string \<Rightarrow> string \<Rightarrow> license_assignment" where
  "new_license i t now entitlement reservation ptype pid by_id =
     \<lparr>la_id = i, la_tenant = t, la_entitlement = entitlement, la_reservation = reservation,
      la_principal_type = ptype, la_principal_id = pid, la_quantity = 1, la_state = ''ASSIGNED'',
      la_version = 1, la_activated_at = None, la_cancelled_at = None, la_reclaimed_at = None,
      la_reclaim_reference = None, la_created_by = by_id, la_created_at = now\<rparr>"

record activation =
  an_assignment :: "string option"
  an_entitlement :: "string option"
  an_version :: "int option"
  an_already_active :: bool

abbreviation license_key :: "string \<Rightarrow> string \<Rightarrow> license_assignment \<Rightarrow> bool" where
  "license_key t i a \<equiv> la_tenant a = t \<and> la_id a = i"

text \<open>The three history rows of an activation, in the order the code writes them.\<close>

definition log_activation ::
    "string \<Rightarrow> call_env \<Rightarrow> string \<Rightarrow> string \<Rightarrow> int \<Rightarrow> string \<Rightarrow> (license_db, unit) call" where
  "log_activation t env aid rid version actorId db =
     (case history t (env_uuid env 1) aid 1 ''ASSIGNED'' actorId
             ''Verified software deployment assigned the reserved license.'' (assignment_history db) of
        (Inl e, h) \<Rightarrow> (Inl e, db)
      | (Inr _, h1) \<Rightarrow>
         let db1 = db\<lparr>assignment_history := h1,
               licenses := update_rows (license_key t aid)
                 (\<lambda>a. a\<lparr>la_state := ''ACTIVE'', la_activated_at := Some (env_now env), la_version := 2\<rparr>)
                 (licenses db)\<rparr>
         in (case history t (env_uuid env 2) aid 2 ''ACTIVATED'' actorId
                 ''Verified software deployment activated the reserved license.'' h1 of
               (Inl e, h) \<Rightarrow> (Inl e, db1)
             | (Inr _, h2) \<Rightarrow>
                 (case insert_row history_clash
                    \<lparr>hs_id = env_uuid env 3, hs_tenant = t, hs_ref = rid, hs_version = version,
                     hs_action = ''ASSIGNED'', hs_actor = actorId,
                     hs_reason = ''Verified deployment converted the reservation to an assignment.''\<rparr>
                    (reservation_history db1) of
                    None \<Rightarrow> (Inl (SqlError ''23505''), db1\<lparr>assignment_history := h2\<rparr>)
                  | Some h3 \<Rightarrow> (Inr (), db1\<lparr>assignment_history := h2, reservation_history := h3\<rparr>))))"

definition activateDeploymentReservation ::
    "string \<Rightarrow> call_env \<Rightarrow> deployment_input \<Rightarrow> (license_db, activation) call" where
  "activateDeploymentReservation t env inp db =
    (if \<not> is_uuid (de_target inp) \<or> \<not> is_uuid (de_product inp) \<or> \<not> is_uuid (de_asset inp)
     then (Inl (AppError VALIDATION_ERROR), db)
     else case find_row (\<lambda>r. sr_tenant r = t \<and> sr_target r = de_target inp
            \<and> list_ex (\<lambda>e. en_tenant e = sr_tenant r \<and> en_id e = sr_entitlement r) (entitlements db))
          (seat_reservations db) of
       None \<Rightarrow>
        (case covering_assignment t (env_now env) (de_product inp) (de_asset inp) db of
           Some a \<Rightarrow> (Inr \<lparr>an_assignment = Some (la_id a), an_entitlement = Some (la_entitlement a),
                          an_version = Some (la_version a), an_already_active = True\<rparr>, db)
         | None \<Rightarrow> (Inl (AppError NOT_FOUND), db))
     | Some r \<Rightarrow>
        if sr_state r = ''ASSIGNED'' then
          let a = find_row (\<lambda>a. la_tenant a = t \<and> la_reservation a = Some (sr_id r)) (licenses db)
          in (Inr \<lparr>an_assignment = map_option la_id a, an_entitlement = Some (sr_entitlement r),
                   an_version = Some (case a of None \<Rightarrow> 0 | Some x \<Rightarrow> la_version x),
                   an_already_active = True\<rparr>, db)
        else if sr_state r \<noteq> ''RESERVED'' then (Inl (AppError BUSINESS_RULE_VIOLATION), db)
        else
          let aid = env_uuid env 0;
              row = new_license aid t (env_now env) (sr_entitlement r) (Some (sr_id r)) ''ASSET''
                      (sr_asset r) (de_actor inp)
          in if list_ex (same_reservation row) (licenses db)
             then (Inr \<lparr>an_assignment = None, an_entitlement = None, an_version = None,
                        an_already_active = True\<rparr>, db)
             else case insert_row license_clash row (licenses db) of
               None \<Rightarrow> (Inl (SqlError ''23505''), db)
             | Some ls \<Rightarrow>
                let db1 = db\<lparr>licenses := ls,
                      seat_reservations := update_rows (\<lambda>x. sr_tenant x = t \<and> sr_id x = sr_id r)
                        (\<lambda>x. x\<lparr>sr_state := ''ASSIGNED'', sr_version := sr_version x + 1\<rparr>)
                        (seat_reservations db)\<rparr>
                in (case log_activation t env aid (sr_id r) (sr_version r + 1) (de_actor inp) db1 of
                      (Inl e, db2) \<Rightarrow> (Inl e, db2)
                    | (Inr _, db2) \<Rightarrow>
                       (Inr \<lparr>an_assignment = Some aid, an_entitlement = Some (sr_entitlement r),
                             an_version = Some 2, an_already_active = False\<rparr>, db2)))"

record assignment_input =
  ai_entitlement :: string
  ai_ptype :: string
  ai_pid :: string
  ai_actor_id :: string
  ai_why :: string

definition createLicenseAssignment ::
    "string \<Rightarrow> call_env \<Rightarrow> assignment_input \<Rightarrow> (license_db, license_assignment) call" where
  "createLicenseAssignment t env inp db =
    (if \<not> is_uuid (ai_entitlement inp) \<or> \<not> is_uuid (ai_pid inp)
     then (Inl (AppError VALIDATION_ERROR), db)
     else case find_row (\<lambda>e. en_tenant e = t \<and> en_id e = ai_entitlement inp \<and> term_of db e \<noteq> None)
          (entitlements db) of
       None \<Rightarrow> (Inl (AppError NOT_FOUND), db)
     | Some e \<Rightarrow>
        if en_type e \<notin> set (seatTypesByPrincipal (ai_ptype inp))
        then (Inl (AppError BUSINESS_RULE_VIOLATION), db)
        else if \<not> (case term_of db e of None \<Rightarrow> False | Some tm \<Rightarrow> term_in_force (env_now env) tm)
             \<or> (case pool_of db e of None \<Rightarrow> False | Some p \<Rightarrow> po_state p \<noteq> ''ACTIVE'')
        then (Inl (AppError BUSINESS_RULE_VIOLATION), db)
        else if find_row (\<lambda>a. la_tenant a = t \<and> la_entitlement a = ai_entitlement inp
                 \<and> la_principal_type a = ai_ptype inp \<and> la_principal_id a = ai_pid inp \<and> live a)
               (licenses db) \<noteq> None
        then (Inl (AppError VERSION_CONFLICT), db)
        else if live_quantity t (ai_entitlement inp) db
                 + reserved_quantity (\<lambda>_. True) t (ai_entitlement inp) db \<ge> en_quantity e
        then (Inl (AppError BUSINESS_RULE_VIOLATION), db)
        else
          let row = new_license (env_uuid env 0) t (env_now env) (ai_entitlement inp) None
                      (ai_ptype inp) (ai_pid inp) (ai_actor_id inp)
          in case insert_row license_clash row (licenses db) of
               None \<Rightarrow> (Inl (SqlError ''23505''), db)
             | Some ls \<Rightarrow>
                (case history t (env_uuid env 1) (env_uuid env 0) 1 ''ASSIGNED'' (ai_actor_id inp)
                        (ai_why inp) (assignment_history db) of
                   (Inl err, h) \<Rightarrow> (Inl err, db\<lparr>licenses := ls\<rparr>)
                 | (Inr _, h) \<Rightarrow> (Inr row, db\<lparr>licenses := ls, assignment_history := h\<rparr>)))"

datatype license_action = ACTIVATE | SUSPEND | RECLAIM | COMPLETE_RECLAIM | CANCEL

definition license_transitions :: "((string \<times> license_action) \<times> string) list" where
  "license_transitions =
    [((''ASSIGNED'', ACTIVATE), ''ACTIVE''),
     ((''ASSIGNED'', CANCEL), ''CANCELLED''),
     ((''ACTIVE'', SUSPEND), ''SUSPENDED''),
     ((''SUSPENDED'', ACTIVATE), ''ACTIVE''),
     ((''ACTIVE'', RECLAIM), ''RECLAIM_PENDING''),
     ((''SUSPENDED'', RECLAIM), ''RECLAIM_PENDING''),
     ((''RECLAIM_PENDING'', COMPLETE_RECLAIM), ''RECLAIMED'')]"

fun action_name :: "license_action \<Rightarrow> string" where
  "action_name CANCEL = ''CANCELLED''"
| "action_name COMPLETE_RECLAIM = ''RECLAIMED''"
| "action_name RECLAIM = ''RECLAIM_PENDING''"
| "action_name ACTIVATE = ''ACTIVATED''"
| "action_name SUSPEND = ''SUSPENDED''"

record move_input =
  mi_assignment :: string
  mi_expected_version :: js_number
  mi_action :: license_action
  mi_actor :: string
  mi_reason :: string
  mi_verification :: "string option"

definition move_license :: "string \<Rightarrow> int \<Rightarrow> int \<Rightarrow> string option \<Rightarrow> license_assignment \<Rightarrow> license_assignment" where
  "move_license next version now ref a =
     a\<lparr>la_state := next, la_version := version,
       la_activated_at := (if next = ''ACTIVE''
          then (case la_activated_at a of None \<Rightarrow> Some now | Some x \<Rightarrow> Some x) else la_activated_at a),
       la_cancelled_at := (if next = ''CANCELLED'' then Some now else la_cancelled_at a),
       la_reclaimed_at := (if next = ''RECLAIMED'' then Some now else la_reclaimed_at a),
       la_reclaim_reference := (if next = ''RECLAIMED'' then ref else la_reclaim_reference a)\<rparr>"

text \<open>The reason of the last cancellation on record.\<close>

definition last_cancellation :: "string \<Rightarrow> string \<Rightarrow> license_db \<Rightarrow> string option" where
  "last_cancellation t i db = map_option hs_reason (first_row (sort_key (\<lambda>h. - hs_version h)
     (select_rows (\<lambda>h. hs_tenant h = t \<and> hs_ref h = i \<and> hs_action h = ''CANCELLED'') (assignment_history db))))"

definition transitionLicenseAssignment ::
    "string \<Rightarrow> call_env \<Rightarrow> move_input \<Rightarrow> (license_db, license_assignment \<times> license_assignment \<times> bool) call" where
  "transitionLicenseAssignment t env inp db =
    (if \<not> is_uuid (mi_assignment inp) then (Inl (AppError VALIDATION_ERROR), db)
     else case find_row (license_key t (mi_assignment inp)) (licenses db) of
       None \<Rightarrow> (Inl (AppError NOT_FOUND), db)
     | Some current \<Rightarrow>
       (case sanitizeReason (mi_reason inp) of
          Inl e \<Rightarrow> (Inl e, db)
        | Inr reason \<Rightarrow>
          if mi_action inp = CANCEL \<and> la_state current = ''CANCELLED''
             \<and> is_finite (mi_expected_version inp) \<and> 0 < js_rat (mi_expected_version inp)
             \<and> js_rat (mi_expected_version inp) \<le> of_int (la_version current)
             \<and> last_cancellation t (mi_assignment inp) db = Some reason
          then (Inr (current, current, True), db)
          else case assertVersion (la_version current) (mi_expected_version inp) of
            Inl e \<Rightarrow> (Inl e, db)
          | Inr _ \<Rightarrow>
            (case map_of license_transitions (la_state current, mi_action inp) of
               None \<Rightarrow> (Inl (AppError BUSINESS_RULE_VIOLATION), db)
             | Some next \<Rightarrow>
                let ref = map_option js_trim (mi_verification inp) in
                if mi_action inp = COMPLETE_RECLAIM \<and> (ref = None \<or> ref = Some [])
                then (Inl (AppError VALIDATION_ERROR), db)
                else if mi_action inp = ACTIVATE \<and>
                     \<not> list_ex (\<lambda>e. en_tenant e = t \<and> en_id e = la_entitlement current
                            \<and> effective db (env_now env) e) (entitlements db)
                then (Inl (AppError BUSINESS_RULE_VIOLATION), db)
                else if (case ref of None \<Rightarrow> False
                          | Some x \<Rightarrow> x \<noteq> [] \<and> (256 < length x \<or> looks_secret x))
                then (Inl (AppError VALIDATION_ERROR), db)
                else
                  let version = js_int (mi_expected_version inp) + 1;
                      f = move_license next version (env_now env) ref;
                      ls = update_rows (license_key t (mi_assignment inp)) f (licenses db)
                  in (case history t (env_uuid env 0) (mi_assignment inp) version
                             (action_name (mi_action inp)) (mi_actor inp) (mi_reason inp)
                             (assignment_history db) of
                        (Inl e, h) \<Rightarrow> (Inl e, db\<lparr>licenses := ls\<rparr>)
                      | (Inr _, h) \<Rightarrow>
                         (Inr (f current, current, False),
                          db\<lparr>licenses := ls, assignment_history := h\<rparr>)))))"


section \<open>Usage and compliance\<close>

text \<open>\<open>/(?:Z|[+-]\d{2}:\d{2})$/i\<close>: the text ends in a time zone.\<close>

definition is_digit :: "char \<Rightarrow> bool" where
  "is_digit c \<longleftrightarrow> c \<in> set ''0123456789''"

definition has_zone :: "string \<Rightarrow> bool" where
  "has_zone s =
     (case rev s of
        [] \<Rightarrow> False
      | c # r \<Rightarrow> c = CHR ''Z'' \<or> c = CHR ''z'' \<or>
          list_all2 (\<lambda>p x. p x)
            [is_digit, is_digit, \<lambda>x. x = CHR '':'', is_digit, is_digit, \<lambda>x. x = CHR ''+'' \<or> x = CHR ''-'']
            (take 6 (rev s)))"

record usage_input =
  ui_entitlement :: string
  ui_source :: string
  ui_active_usage :: js_number
  ui_observed_text :: string
  ui_observed_at :: "int option"
  ui_threshold :: "js_number option"
  ui_evidence :: "string option"
  ui_actor :: string

definition recordLicenseUsageObservation ::
    "string \<Rightarrow> call_env \<Rightarrow> usage_input \<Rightarrow> (license_db, usage_observation) call" where
  "recordLicenseUsageObservation t env inp db =
    (let evidence = (case ui_evidence inp of None \<Rightarrow> [] | Some x \<Rightarrow> js_trim x) in
     if \<not> is_uuid (ui_entitlement inp) then (Inl (AppError VALIDATION_ERROR), db)
     else if \<not> is_safe_integer (ui_active_usage inp) \<or> js_int (ui_active_usage inp) < 0
     then (Inl (AppError VALIDATION_ERROR), db)
     else if \<not> has_zone (ui_observed_text inp) then (Inl (AppError VALIDATION_ERROR), db)
     else case ui_observed_at inp of
       None \<Rightarrow> (Inl (AppError VALIDATION_ERROR), db)
     | Some observed \<Rightarrow>
        if env_now env < observed then (Inl (AppError VALIDATION_ERROR), db)
        else if (case ui_threshold inp of None \<Rightarrow> False
             | Some n \<Rightarrow> \<not> is_safe_integer n \<or> js_int n < 1 \<or> 3650 < js_int n)
        then (Inl (AppError VALIDATION_ERROR), db)
        else if evidence = [] \<or> 256 < length evidence \<or> looks_secret evidence
        then (Inl (AppError VALIDATION_ERROR), db)
        else if find_row (\<lambda>e. en_tenant e = t \<and> en_id e = ui_entitlement inp) (entitlements db) = None
        then (Inl (AppError NOT_FOUND), db)
        else
          let row = \<lparr>us_id = env_uuid env 0, us_tenant = t, us_entitlement = ui_entitlement inp,
                     us_source = ui_source inp, us_active_usage = js_int (ui_active_usage inp),
                     us_observed_at = observed, us_threshold_days = map_option js_int (ui_threshold inp),
                     us_evidence = evidence, us_created_by = ui_actor inp, us_created_at = env_now env\<rparr>
          in case insert_row (\<lambda>x y. us_id x = us_id y) row (usage_observations db) of
               None \<Rightarrow> (Inl (SqlError ''23505''), db)
             | Some us \<Rightarrow> (Inr row, db\<lparr>usage_observations := us\<rparr>))"

definition day_ms :: int where
  "day_ms = 86400000"

record compliance_row =
  co_entitlement :: entitlement
  co_assigned :: int
  co_reserved :: int
  co_usage :: "usage_observation option"
  co_state :: string
  co_explanation :: string

definition latest_usage :: "license_db \<Rightarrow> entitlement \<Rightarrow> usage_observation option" where
  "latest_usage db e = first_row (sort_key (\<lambda>u. - us_observed_at u) (sort_key (\<lambda>u. - us_created_at u)
     (select_rows (\<lambda>u. us_tenant u = en_tenant e \<and> us_entitlement u = en_id e) (usage_observations db))))"

definition countable_types :: "string list" where
  "countable_types = [''PER_USER'', ''NAMED_USER'', ''PER_DEVICE'', ''SERVER_INSTANCE'']"

definition compliance_state ::
    "int \<Rightarrow> entitlement \<Rightarrow> license_term \<Rightarrow> int \<Rightarrow> int \<Rightarrow> usage_observation option \<Rightarrow> string" where
  "compliance_state now e tm assigned reserved usage =
     (let recent = (case usage of None \<Rightarrow> False | Some u \<Rightarrow> now - 90 * day_ms \<le> us_observed_at u) in
      if (case tm_valid_until tm of None \<Rightarrow> False | Some u \<Rightarrow> u \<le> now) then ''EXPIRED''
      else if en_type e \<notin> set countable_types then ''UNKNOWN''
      else if en_quantity e < assigned + reserved then ''OVERUSED''
      else if (case (en_renewal_notice_days e, tm_valid_until tm) of
                 (Some d, Some u) \<Rightarrow> 0 < d \<and> u \<le> now + d * day_ms | _ \<Rightarrow> False) then ''AT_RISK''
      else if recent \<and> (case usage of None \<Rightarrow> False
                 | Some u \<Rightarrow> us_threshold_days u \<noteq> None \<and> us_active_usage u < assigned) then ''UNDERUSED''
      else if recent then ''COMPLIANT'' else ''UNKNOWN'')"

definition explanation :: "string \<Rightarrow> string \<Rightarrow> string" where
  "explanation state license_type =
     (if state = ''UNKNOWN'' then
        if license_type \<in> set countable_types
        then ''No recent authoritative usage observation is available.''
        else ''This license model has no configured countable consumption rule.''
      else if state = ''OVERUSED'' then ''Active assignments and reservations exceed the entitlement quantity.''
      else if state = ''UNDERUSED'' then ''Recent authoritative usage evidence is below assigned quantity.''
      else if state = ''AT_RISK'' then ''The entitlement is inside its configured renewal notice window.''
      else if state = ''EXPIRED'' then ''The current entitlement term has expired.''
      else ''Countable assignments and reservations are within entitlement quantity.'')"

definition listLicenseCompliance :: "string \<Rightarrow> int \<Rightarrow> license_db \<Rightarrow> compliance_row list" where
  "listLicenseCompliance t now db =
     take 500
       [let assigned = live_quantity (en_tenant e) (en_id e) db;
            reserved = reserved_quantity (\<lambda>_. True) (en_tenant e) (en_id e) db;
            state = compliance_state now e tm assigned reserved (latest_usage db e)
        in \<lparr>co_entitlement = e, co_assigned = assigned, co_reserved = reserved,
             co_usage = latest_usage db e, co_state = state, co_explanation = explanation state (en_type e)\<rparr>.
          e \<leftarrow> sort_key (\<lambda>e. - en_created_at e) (sort_key en_id (select_rows (\<lambda>e. en_tenant e = t) (entitlements db))),
          tm \<leftarrow> select_rows (\<lambda>m. tm_tenant m = en_tenant e \<and> tm_entitlement m = en_id e
                              \<and> tm_version m = en_term_version e) (terms db)]"

definition evidence_key :: "compliance_row \<Rightarrow> string" where
  "evidence_key c = join '':'' [int_text (en_version (co_entitlement c)), int_text (co_assigned c),
     int_text (co_reserved c),
     (case co_usage c of None \<Rightarrow> ''no-usage-observation'' | Some u \<Rightarrow> us_id u)]"

definition fact_payload :: "compliance_row \<Rightarrow> json" where
  "fact_payload c =
     (let e = co_entitlement c;
          n = (\<lambda>i. JNum (JInt i));
          usage = (case co_usage c of None \<Rightarrow> JNull | Some u \<Rightarrow> n (us_active_usage u)) in
      if co_state c = ''OVERUSED''
      then JObj [(''entitlement_id'', JStr (en_id e)), (''entitled'', n (en_quantity e)),
             (''assigned'', n (co_assigned c)), (''installed'', JNull), (''active_usage'', usage),
             (''overage'', n (co_assigned c + co_reserved c - en_quantity e))]
      else JObj [(''entitlement_id'', JStr (en_id e)), (''entitled'', n (en_quantity e)),
             (''active_usage'', usage),
             (''reclaimable_count'', n (co_assigned c
                - (case co_usage c of None \<Rightarrow> 0 | Some u \<Rightarrow> us_active_usage u))),
             (''usage_observation_id'', (case co_usage c of None \<Rightarrow> JStr ''null'' | Some u \<Rightarrow> JStr (us_id u)))])"

abbreviation fact_key_clash :: "compliance_fact \<Rightarrow> compliance_fact \<Rightarrow> bool" where
  "fact_key_clash x y \<equiv> cf_tenant x = cf_tenant y \<and> cf_entitlement x = cf_entitlement y
     \<and> cf_state x = cf_state y \<and> cf_evidence_key x = cf_evidence_key y"

text \<open>ON CONFLICT DO NOTHING on the evidence key; the facts it inserted are returned.\<close>

fun record_facts ::
    "string \<Rightarrow> (nat \<Rightarrow> string) \<Rightarrow> nat \<Rightarrow> compliance_row list \<Rightarrow> (compliance_fact list, compliance_fact list) call" where
  "record_facts t uuid n [] fs = (Inr [], fs)"
| "record_facts t uuid n (c # cs) fs =
    (if co_state c \<noteq> ''OVERUSED'' \<and> co_state c \<noteq> ''UNDERUSED'' then record_facts t uuid n cs fs
     else
       let row = \<lparr>cf_id = uuid n, cf_tenant = t, cf_entitlement = en_id (co_entitlement c),
                  cf_state = co_state c, cf_evidence_key = evidence_key c, cf_payload = fact_payload c\<rparr>
       in if list_ex (fact_key_clash row) fs then record_facts t uuid (Suc n) cs fs
          else case insert_row (\<lambda>x y. cf_id x = cf_id y) row fs of
            None \<Rightarrow> (Inl (SqlError ''23505''), fs)
          | Some fs' \<Rightarrow>
             (case record_facts t uuid (Suc n) cs fs' of
                (Inl e, fs'') \<Rightarrow> (Inl e, fs'')
              | (Inr new, fs'') \<Rightarrow> (Inr (row # new), fs'')))"

definition recordLicenseComplianceFacts ::
    "string \<Rightarrow> call_env \<Rightarrow> (license_db, compliance_fact list) call" where
  "recordLicenseComplianceFacts t env db =
     (case record_facts t (env_uuid env) 0 (listLicenseCompliance t (env_now env) db) (compliance_facts db) of
        (r, fs) \<Rightarrow> (r, db\<lparr>compliance_facts := fs\<rparr>))"

record availability =
  av_entitlement :: string
  av_type :: string
  av_quantity :: int
  av_assigned :: int
  av_reserved :: int
  av_supported :: bool
  av_available :: "int option"
  av_effective_state :: string

definition readLicenseAvailability ::
    "string \<Rightarrow> int \<Rightarrow> string \<Rightarrow> license_db \<Rightarrow> exn + availability" where
  "readLicenseAvailability t now i db =
    (if \<not> is_uuid i then Inl (AppError VALIDATION_ERROR)
     else case find_row (\<lambda>e. en_tenant e = t \<and> en_id e = i \<and> term_of db e \<noteq> None) (entitlements db) of
       None \<Rightarrow> Inl (AppError NOT_FOUND)
     | Some e \<Rightarrow>
        let supported = en_type e \<in> set countable_types;
            assigned = live_quantity t i db;
            reserved = reserved_quantity (\<lambda>_. True) t i db
        in Inr \<lparr>av_entitlement = en_id e, av_type = en_type e, av_quantity = en_quantity e,
                av_assigned = assigned, av_reserved = reserved, av_supported = supported,
                av_available = (if supported then Some (max 0 (en_quantity e - (assigned + reserved))) else None),
                av_effective_state =
                  (case term_of db e of
                     None \<Rightarrow> ''ACTIVE''
                   | Some tm \<Rightarrow>
                      if (case tm_valid_until tm of None \<Rightarrow> False | Some u \<Rightarrow> u \<le> now) then ''EXPIRED''
                      else if now < tm_valid_from tm then ''NOT_YET_VALID'' else ''ACTIVE'')\<rparr>)"

definition readLicenseAssignment :: "string \<Rightarrow> string \<Rightarrow> license_db \<Rightarrow> exn + license_assignment" where
  "readLicenseAssignment t i db =
    (if \<not> is_uuid i then Inl (AppError VALIDATION_ERROR)
     else case find_row (license_key t i) (licenses db) of
       None \<Rightarrow> Inl (AppError NOT_FOUND) | Some a \<Rightarrow> Inr a)"

definition listUserLicenseAssignmentsForOffboarding ::
    "string \<Rightarrow> string \<Rightarrow> license_db \<Rightarrow> (string \<times> string \<times> int \<times> int) list" where
  "listUserLicenseAssignmentsForOffboarding t userId db =
     map (\<lambda>a. (la_id a, la_state a, la_version a, la_quantity a))
       (sort_key la_id (select_rows (\<lambda>a. la_tenant a = t \<and> la_principal_type a = ''USER''
          \<and> la_principal_id a = userId) (licenses db)))"


section \<open>Seats are never oversold\<close>

definition seat_weight :: "string \<Rightarrow> string \<Rightarrow> license_assignment \<Rightarrow> int" where
  "seat_weight t i a = (if la_tenant a = t \<and> la_entitlement a = i \<and> live a then la_quantity a else 0)"

definition hold_weight :: "string \<Rightarrow> string \<Rightarrow> seat_reservation \<Rightarrow> int" where
  "hold_weight t i r = (if sr_tenant r = t \<and> sr_entitlement r = i \<and> sr_state r = ''RESERVED'' then sr_quantity r else 0)"

definition allocated :: "string \<Rightarrow> string \<Rightarrow> license_db \<Rightarrow> int" where
  "allocated t i db = live_quantity t i db + reserved_quantity (\<lambda>_. True) t i db"

definition capacity_ok :: "license_db \<Rightarrow> bool" where
  "capacity_ok db \<longleftrightarrow> (\<forall>e\<in>set (entitlements db). allocated (en_tenant e) (en_id e) db \<le> en_quantity e)"

definition license_rows_ok :: "license_db \<Rightarrow> bool" where
  "license_rows_ok db \<longleftrightarrow> unique_rows (\<lambda>x y. en_id x = en_id y) (entitlements db)
     \<and> unique_rows reservation_key_clash (seat_reservations db)
     \<and> unique_rows license_clash (licenses db)
     \<and> (\<forall>r\<in>set (seat_reservations db). sr_quantity r = 1) \<and> (\<forall>a\<in>set (licenses db). la_quantity a = 1)"

definition license_inv :: "license_db \<Rightarrow> bool" where
  "license_inv db \<longleftrightarrow> license_rows_ok db \<and> capacity_ok db"

lemma allocated_weights:
  "allocated t i db = sum_list (map (seat_weight t i) (licenses db))
     + sum_list (map (hold_weight t i) (seat_reservations db))"
  unfolding allocated_def live_quantity_def reserved_quantity_def sum_filter_weight
  by (simp add: seat_weight_def [abs_def] hold_weight_def [abs_def])

lemma license_clash_sym: "license_clash x y \<Longrightarrow> license_clash y x"
  by (auto simp: license_clash_def same_reservation_def)

lemma reservation_key_clash_sym: "reservation_key_clash x y \<Longrightarrow> reservation_key_clash y x"
  by (auto simp: reservation_key_clash_def)

lemma capacity_mono:
  assumes "capacity_ok db" and "entitlements db' = entitlements db"
    and "\<And>t i. allocated t i db' \<le> allocated t i db"
  shows "capacity_ok db'"
  unfolding capacity_ok_def assms(2)
proof
  fix e assume "e \<in> set (entitlements db)"
  with assms(1) have "allocated (en_tenant e) (en_id e) db \<le> en_quantity e" by (simp add: capacity_ok_def)
  with assms(3) [of "en_tenant e" "en_id e"] show "allocated (en_tenant e) (en_id e) db' \<le> en_quantity e"
    by simp
qed

lemma capacity_take_seat:
  assumes "capacity_ok db" and "entitlements db' = entitlements db"
    and "unique_rows (\<lambda>x y. en_id x = en_id y) (entitlements db)"
    and "e \<in> set (entitlements db)" and "allocated (en_tenant e) (en_id e) db < en_quantity e"
    and "\<And>t i. allocated t i db' \<le> allocated t i db + (if t = en_tenant e \<and> i = en_id e then 1 else 0)"
  shows "capacity_ok db'"
  unfolding capacity_ok_def
proof
  fix e' assume "e' \<in> set (entitlements db')"
  then have e': "e' \<in> set (entitlements db)" using assms(2) by simp
  show "allocated (en_tenant e') (en_id e') db' \<le> en_quantity e'"
  proof (cases "en_id e' = en_id e")
    case True
    then have "e' = e" using assms(3,4) e' by (auto intro: unique_rows_keyD)
    with assms(5) assms(6) [of "en_tenant e" "en_id e"] show ?thesis by simp
  next
    case False
    have "allocated (en_tenant e') (en_id e') db \<le> en_quantity e'"
      using assms(1) e' by (simp add: capacity_ok_def)
    with False assms(6) [of "en_tenant e'" "en_id e'"] show ?thesis by simp
  qed
qed

lemma seat_weight_new [simp]:
  "seat_weight t i (new_license aid t' now ent res pt pid who) = (if t = t' \<and> i = ent then 1 else 0)"
  by (auto simp: seat_weight_def new_license_def live_def live_states_def)

lemma new_license_sel [simp]:
  "la_id (new_license aid t' now ent res pt pid who) = aid"
  "la_quantity (new_license aid t' now ent res pt pid who) = 1"
  "la_state (new_license aid t' now ent res pt pid who) = ''ASSIGNED''"
  by (simp_all add: new_license_def)

text \<open>Releasing, moving and reading never take a seat.\<close>

lemma releaseDeploymentReservation_Inr:
  assumes "releaseDeploymentReservation t env target who why db = (Inr r, db')"
  obtains "db' = db" | r0 h where
    "find_row (\<lambda>r. sr_tenant r = t \<and> sr_target r = target) (seat_reservations db) = Some r0"
    and "sr_state r0 \<noteq> ''RELEASED''" and "sr_state r0 \<noteq> ''ASSIGNED''"
    and "db' = db\<lparr>seat_reservations := update_rows (\<lambda>x. sr_tenant x = t \<and> sr_id x = sr_id r0)
                     (\<lambda>x. x\<lparr>sr_state := ''RELEASED'', sr_version := sr_version r0 + 1\<rparr>) (seat_reservations db),
              reservation_history := h\<rparr>"
  using assms
  by (auto simp: releaseDeploymentReservation_def Let_def split: if_splits option.splits sum.splits prod.splits)

lemma license_inv_release:
  assumes inv: "license_inv db" and ok: "releaseDeploymentReservation t env target who why db = (Inr r, db')"
  shows "license_inv db'"
  using ok
proof (cases rule: releaseDeploymentReservation_Inr)
  case 1
  with inv show ?thesis by simp
next
  case (2 r0 h)
  let ?p = "\<lambda>x. sr_tenant x = t \<and> sr_id x = sr_id r0"
  let ?f = "\<lambda>x. x\<lparr>sr_state := ''RELEASED'', sr_version := sr_version r0 + 1\<rparr>"
  from inv have rows: "license_rows_ok db" and cap: "capacity_ok db" by (auto simp: license_inv_def)
  have "capacity_ok db'"
  proof (rule capacity_mono [OF cap])
    show "entitlements db' = entitlements db" by (simp add: 2)
    fix t' i
    have "sum_list (map (hold_weight t' i) (update_rows ?p ?f (seat_reservations db)))
        \<le> sum_list (map (hold_weight t' i) (seat_reservations db))"
      by (rule sum_update_le) (use rows in \<open>auto simp: hold_weight_def license_rows_ok_def\<close>)
    then show "allocated t' i db' \<le> allocated t' i db" by (simp add: allocated_weights 2)
  qed
  moreover have "unique_rows reservation_key_clash (update_rows ?p ?f (seat_reservations db))"
    by (rule unique_rows_update) (use rows in \<open>auto simp: license_rows_ok_def reservation_key_clash_def split: if_splits\<close>)
  ultimately show ?thesis
    using rows by (auto simp: license_inv_def license_rows_ok_def 2 set_update_rows)
qed

lemma transitionLicenseAssignment_Inr:
  assumes "transitionLicenseAssignment t env inp db = (Inr r, db')"
  obtains current where "find_row (license_key t (mi_assignment inp)) (licenses db) = Some current"
      and "r = (current, current, True)" and "db' = db"
  | current nxt ref h where
    "find_row (license_key t (mi_assignment inp)) (licenses db) = Some current"
    and "mi_expected_version inp = JInt (la_version current)"
    and "map_of license_transitions (la_state current, mi_action inp) = Some nxt"
    and "r = (move_license nxt (la_version current + 1) (env_now env) ref current, current, False)"
    and "db' = db\<lparr>licenses := update_rows (license_key t (mi_assignment inp))
            (move_license nxt (la_version current + 1) (env_now env) ref) (licenses db),
          assignment_history := h\<rparr>"
    and "mi_action inp = COMPLETE_RECLAIM \<Longrightarrow> ref \<noteq> None \<and> ref \<noteq> Some []"
  using assms
  by (auto simp: transitionLicenseAssignment_def Let_def assertVersion_Inr
      split: if_splits option.splits sum.splits prod.splits)


lemma map_of_license_transitions:
  "map_of license_transitions (x, a) = Some y \<Longrightarrow> x \<in> set live_states
     \<and> (y \<in> set live_states \<or> (x = ''ASSIGNED'' \<and> y = ''CANCELLED'') \<or> (x = ''RECLAIM_PENDING'' \<and> y = ''RECLAIMED''))"
  by (auto simp: license_transitions_def live_states_def split: if_splits)

lemma move_license_sel [simp]:
  "la_id (move_license y v n ref a) = la_id a" "la_tenant (move_license y v n ref a) = la_tenant a"
  "la_entitlement (move_license y v n ref a) = la_entitlement a"
  "la_reservation (move_license y v n ref a) = la_reservation a"
  "la_principal_type (move_license y v n ref a) = la_principal_type a"
  "la_principal_id (move_license y v n ref a) = la_principal_id a"
  "la_quantity (move_license y v n ref a) = la_quantity a"
  "la_state (move_license y v n ref a) = y" "la_version (move_license y v n ref a) = v"
  by (simp_all add: move_license_def)

definition same_place :: "license_assignment \<Rightarrow> license_assignment \<Rightarrow> bool" where
  "same_place a b \<longleftrightarrow> la_id a = la_id b \<and> la_tenant a = la_tenant b \<and> la_entitlement a = la_entitlement b
     \<and> la_reservation a = la_reservation b \<and> la_principal_type a = la_principal_type b
     \<and> la_principal_id a = la_principal_id b \<and> la_quantity a = la_quantity b"

lemma license_clash_mono:
  assumes "license_clash x' y'" and "same_place x' x" and "same_place y' y"
    and "live x' \<Longrightarrow> live x" and "live y' \<Longrightarrow> live y"
  shows "license_clash x y"
  using assms by (auto simp: license_clash_def same_reservation_def same_place_def)

lemma same_place_move [simp]: "same_place (move_license y v n ref a) a"
  by (simp add: same_place_def)

text \<open>Changing the state of one live assignment keeps the rows in order and takes no seat.\<close>

lemma license_inv_update_live:
  assumes inv: "license_inv db" and cur: "find_row (license_key t i) (licenses db) = Some current"
    and lv: "live current"
    and f: "\<And>a. same_place (f a) a"
  shows "license_inv (db\<lparr>licenses := update_rows (license_key t i) f (licenses db), assignment_history := h\<rparr>)"
proof -
  let ?ls = "update_rows (license_key t i) f (licenses db)"
  let ?db = "db\<lparr>licenses := ?ls, assignment_history := h\<rparr>"
  from inv have rows: "license_rows_ok db" and cap: "capacity_ok db" by (auto simp: license_inv_def)
  have u: "unique_rows license_clash (licenses db)" using rows by (simp add: license_rows_ok_def)
  have c: "current \<in> set (licenses db)" "license_key t i current" using find_row_SomeD [OF cur] by auto
  have only: "a = current" if "a \<in> set (licenses db)" "license_key t i a" for a
    using that c u by (auto simp: license_clash_def intro: unique_rows_clashD)
  have "capacity_ok ?db"
  proof (rule capacity_mono [OF cap])
    show "entitlements ?db = entitlements db" by simp
    fix t' i'
    have "sum_list (map (seat_weight t' i') ?ls) \<le> sum_list (map (seat_weight t' i') (licenses db))"
    proof (rule sum_update_le)
      fix a assume a: "a \<in> set (licenses db)" "license_key t i a"
      then have "live a" using only lv by simp
      moreover have "la_quantity a = 1" using rows a by (simp add: license_rows_ok_def)
      ultimately show "seat_weight t' i' (f a) \<le> seat_weight t' i' a"
        using f [of a] by (simp add: seat_weight_def same_place_def)
    qed
    then show "allocated t' i' ?db \<le> allocated t' i' db" by (simp add: allocated_weights)
  qed
  moreover have "unique_rows license_clash ?ls"
    unfolding unique_rows_def update_rows_def sorted_wrt_map
  proof (rule sorted_wrt_mono_rel [OF _ u [unfolded unique_rows_def]])
    fix x y assume xy: "x \<in> set (licenses db)" "y \<in> set (licenses db)"
      "\<not> license_clash x y \<and> \<not> license_clash y x"
    let ?g = "\<lambda>a. if license_key t i a then f a else a"
    have "live a" if "a \<in> set (licenses db)" "live (?g a)" for a
      using that only lv by (cases "license_key t i a") auto
    moreover have "same_place (?g a) a" for a
      using f [of a] by (simp add: same_place_def)
    ultimately show "\<not> license_clash (?g x) (?g y) \<and> \<not> license_clash (?g y) (?g x)"
      using xy license_clash_mono [of "?g x" "?g y" x y] license_clash_mono [of "?g y" "?g x" y x] by blast
  qed
  moreover have "\<forall>a\<in>set ?ls. la_quantity a = 1"
    using rows f by (auto simp: license_rows_ok_def set_update_rows same_place_def)
  ultimately show ?thesis using rows by (simp add: license_inv_def license_rows_ok_def)
qed

lemma license_inv_transition:
  assumes "license_inv db" and ok: "transitionLicenseAssignment t env inp db = (Inr r, db')"
  shows "license_inv db'"
  using ok
proof (cases rule: transitionLicenseAssignment_Inr)
  case (1 current)
  with assms show ?thesis by simp
next
  case (2 current nxt ref h)
  have "live current" using map_of_license_transitions [OF 2(3)] by (simp add: live_def)
  from license_inv_update_live [OF assms(1) 2(1) this] show ?thesis by (simp add: 2(5))
qed

text \<open>A new seat, where the check has found room for one.\<close>

lemma license_inv_new:
  assumes inv: "license_inv db" and e: "e \<in> set (entitlements db)" "en_tenant e = t" "en_id e = ent"
    and room: "allocated t ent db < en_quantity e"
    and ins: "insert_row license_clash (new_license aid t now ent res pt pid who) (licenses db) = Some ls"
  shows "license_inv (db\<lparr>licenses := ls, assignment_history := h\<rparr>)"
proof -
  let ?db = "db\<lparr>licenses := ls, assignment_history := h\<rparr>"
  from inv have rows: "license_rows_ok db" and cap: "capacity_ok db" by (auto simp: license_inv_def)
  have ls: "ls = licenses db @ [new_license aid t now ent res pt pid who]"
    using ins by (simp add: insert_row_Some_iff)
  have "capacity_ok ?db"
    by (rule capacity_take_seat [OF cap _ _ e(1)])
      (use rows e room in \<open>auto simp: license_rows_ok_def allocated_weights ls\<close>)
  moreover have "unique_rows license_clash ls"
    using rows unique_rows_insert [OF _ ins license_clash_sym] by (simp add: license_rows_ok_def)
  ultimately show ?thesis using rows by (auto simp: license_inv_def license_rows_ok_def ls)
qed

lemma createLicenseAssignment_Inr:
  assumes "createLicenseAssignment t env inp db = (Inr r, db')"
  obtains e ls h where
    "find_row (\<lambda>e. en_tenant e = t \<and> en_id e = ai_entitlement inp \<and> term_of db e \<noteq> None) (entitlements db) = Some e"
    and "allocated t (ai_entitlement inp) db < en_quantity e"
    and "r = new_license (env_uuid env 0) t (env_now env) (ai_entitlement inp) None (ai_ptype inp)
               (ai_pid inp) (ai_actor_id inp)"
    and "insert_row license_clash r (licenses db) = Some ls"
    and "db' = db\<lparr>licenses := ls, assignment_history := h\<rparr>"
    and "en_type e \<in> set (seatTypesByPrincipal (ai_ptype inp))"
  using assms
  by (auto simp: createLicenseAssignment_def Let_def allocated_def simp del: seatTypesByPrincipal.simps
      split: if_splits option.splits sum.splits prod.splits)

lemma license_inv_create:
  assumes "license_inv db" and "createLicenseAssignment t env inp db = (Inr r, db')"
  shows "license_inv db'"
  using assms(2)
proof (cases rule: createLicenseAssignment_Inr)
  case (1 e ls h)
  have e: "e \<in> set (entitlements db)" "en_tenant e = t" "en_id e = ai_entitlement inp"
    using find_row_SomeD [OF 1(1)] by auto
  show ?thesis
    unfolding 1(5) by (rule license_inv_new [OF assms(1) e 1(2) 1(4) [unfolded 1(3)]])
qed


lemma license_inv_frame [simp]:
  "license_inv (db\<lparr>reservation_history := h1\<rparr>) = license_inv db"
  "license_inv (db\<lparr>assignment_history := h2\<rparr>) = license_inv db"
  "license_inv (db\<lparr>usage_observations := h3\<rparr>) = license_inv db"
  "license_inv (db\<lparr>compliance_facts := h4\<rparr>) = license_inv db"
  by (simp_all add: license_inv_def license_rows_ok_def capacity_ok_def allocated_weights)

lemma reserve_first_step:
  assumes "reserve_first t env inp (e # es) db = (Inr r, db')"
  shows "reserve_first t env inp es db = (Inr r, db') \<or> db' = db \<or>
    (live_quantity t (en_id e) db
             + reserved_quantity (\<lambda>r. case se_target inp of None \<Rightarrow> True | Some x \<Rightarrow> sr_target r \<noteq> x)
                 t (en_id e) db < en_quantity e \<and>
     (\<exists>row rs h. save_reservation t env inp (en_id e) (seat_reservations db) = (Inr row, rs) \<and>
        db' = db\<lparr>seat_reservations := rs, reservation_history := h\<rparr>))"
proof (cases "save_reservation t env inp (en_id e) (seat_reservations db)")
  case (Pair out rs)
  show ?thesis
    using assms unfolding reserve_first.simps Pair Let_def
    by (simp only: prod.case split: if_split_asm sum.split_asm prod.split_asm)
      (simp_all add: Pair not_le, blast?)
qed

lemma reserve_first_Inr:
  assumes "reserve_first t env inp es db = (Inr r, db')"
  obtains "db' = db" | e row rs h where "e \<in> set es"
    and "live_quantity t (en_id e) db
             + reserved_quantity (\<lambda>r. case se_target inp of None \<Rightarrow> True | Some x \<Rightarrow> sr_target r \<noteq> x)
                 t (en_id e) db < en_quantity e"
    and "save_reservation t env inp (en_id e) (seat_reservations db) = (Inr row, rs)"
    and "db' = db\<lparr>seat_reservations := rs, reservation_history := h\<rparr>"
  using assms
proof (induction es)
  case Nil
  then show ?case by simp
next
  case (Cons e es)
  from reserve_first_step [OF Cons.prems(3)] show ?case
  proof (elim disjE exE conjE)
    assume "reserve_first t env inp es db = (Inr r, db')"
    then show ?thesis by (rule Cons.IH [OF Cons.prems(1), rotated -1]) (auto intro: Cons.prems(2))
  next
    assume "db' = db"
    then show ?thesis by (rule Cons.prems(1))
  qed (rule Cons.prems(2) [of e]; simp)
qed

lemma reserved_exclude:
  assumes "\<And>r. r \<in> set (seat_reservations db) \<Longrightarrow> sr_tenant r = t \<Longrightarrow> sr_target r = x \<Longrightarrow> sr_state r \<noteq> ''RESERVED''"
  shows "reserved_quantity (\<lambda>r. sr_target r \<noteq> x) t i db = reserved_quantity (\<lambda>_. True) t i db"
  unfolding reserved_quantity_def select_rows_def
  by (rule arg_cong [where f = "\<lambda>l. sum_list (map sr_quantity l)"], rule filter_cong) (use assms in auto)

text \<open>
  The reservation a target already has, as \<open>reserveLicenseForDeployment\<close> passes it on: none, or a
  released one.
\<close>

definition reservation_known :: "string \<Rightarrow> seat_input \<Rightarrow> license_db \<Rightarrow> bool" where
  "reservation_known t inp db \<longleftrightarrow> (\<exists>x. se_target inp = Some x \<and>
     (let found = find_row (\<lambda>r. sr_tenant r = t \<and> sr_target r = x) (seat_reservations db)
      in se_existing inp = map_option (\<lambda>r. (sr_id r, sr_version r)) found
         \<and> (case found of None \<Rightarrow> True | Some r \<Rightarrow> sr_state r = ''RELEASED'')))"

lemma license_inv_hold:
  assumes inv: "license_inv db" and known: "reservation_known t inp db"
    and e: "e \<in> set (entitlements db)" "en_tenant e = t"
    and room: "live_quantity t (en_id e) db
             + reserved_quantity (\<lambda>r. case se_target inp of None \<Rightarrow> True | Some x \<Rightarrow> sr_target r \<noteq> x)
                 t (en_id e) db < en_quantity e"
    and save: "save_reservation t env inp (en_id e) (seat_reservations db) = (Inr row, rs)"
  shows "license_inv (db\<lparr>seat_reservations := rs, reservation_history := h\<rparr>)"
proof -
  let ?S = "seat_reservations db"
  let ?db = "db\<lparr>seat_reservations := rs, reservation_history := h\<rparr>"
  from inv have rows: "license_rows_ok db" and cap: "capacity_ok db" by (auto simp: license_inv_def)
  have u: "unique_rows reservation_key_clash ?S" and q: "\<forall>r\<in>set ?S. sr_quantity r = 1"
    using rows by (auto simp: license_rows_ok_def)
  from known obtain x where x: "se_target inp = Some x"
    and ex: "se_existing inp = map_option (\<lambda>r. (sr_id r, sr_version r))
               (find_row (\<lambda>r. sr_tenant r = t \<and> sr_target r = x) ?S)"
    and rel: "\<And>r. find_row (\<lambda>r. sr_tenant r = t \<and> sr_target r = x) ?S = Some r \<Longrightarrow> sr_state r = ''RELEASED''"
    by (auto simp: reservation_known_def Let_def split: option.splits)
  have free: "sr_state r \<noteq> ''RESERVED''" if "r \<in> set ?S" "sr_tenant r = t" "sr_target r = x" for r
  proof (cases "find_row (\<lambda>r. sr_tenant r = t \<and> sr_target r = x) ?S")
    case None
    with that show ?thesis by (auto simp: find_row_None_iff)
  next
    case (Some r0)
    with that u have "r = r0"
      by (auto simp: reservation_key_clash_def dest!: find_row_SomeD intro: unique_rows_clashD)
    with rel [OF Some] show ?thesis by simp
  qed
  from room have room': "allocated t (en_id e) db < en_quantity e"
    using reserved_exclude [OF free] by (simp add: x allocated_def)
  have *: "unique_rows reservation_key_clash rs \<and> (\<forall>r\<in>set rs. sr_quantity r = 1) \<and>
     (\<forall>t' i. sum_list (map (hold_weight t' i) rs)
        = sum_list (map (hold_weight t' i) ?S) + (if t' = t \<and> i = en_id e then 1 else 0))"
  proof (cases "find_row (\<lambda>r. sr_tenant r = t \<and> sr_target r = x) ?S")
    case None
    with save ex x have ins: "insert_row reservation_key_clash row ?S = Some rs"
      and row: "row = \<lparr>sr_id = env_uuid env 0, sr_tenant = t, sr_entitlement = en_id e,
                          sr_target = x, sr_asset = se_principal_id inp, sr_quantity = 1,
                          sr_state = ''RESERVED'', sr_version = 1\<rparr>"
      by (auto simp: save_reservation_def Let_def split: option.splits)
    have "rs = ?S @ [row]" using ins by (simp add: insert_row_Some_iff)
    then show ?thesis
      using unique_rows_insert [OF u ins reservation_key_clash_sym] q by (auto simp: row hold_weight_def)
  next
    case (Some r0)
    let ?p = "\<lambda>r. sr_tenant r = t \<and> sr_id r = sr_id r0"
    let ?f = "\<lambda>r. r\<lparr>sr_entitlement := en_id e, sr_asset := se_principal_id inp,
                       sr_state := ''RESERVED'', sr_version := sr_version r0 + 1\<rparr>"
    from Some save ex have rs: "rs = update_rows ?p ?f ?S"
      by (auto simp: save_reservation_def Let_def split: option.splits)
    have r0: "r0 \<in> set ?S" "sr_tenant r0 = t" using find_row_SomeD [OF Some] by auto
    have "sum_list (map (hold_weight t' i) rs)
        = sum_list (map (hold_weight t' i) ?S) - hold_weight t' i r0 + hold_weight t' i (?f r0)" for t' i
      unfolding rs by (rule sum_update_one [OF u r0(1)]) (auto simp: r0 reservation_key_clash_def)
    moreover have "unique_rows reservation_key_clash rs"
      unfolding rs by (rule unique_rows_update [OF u]) (auto simp: reservation_key_clash_def split: if_splits)
    ultimately show ?thesis
      using rel [OF Some] q r0 by (auto simp: hold_weight_def rs set_update_rows)
  qed
  have "capacity_ok ?db"
    by (rule capacity_take_seat [OF cap _ _ e(1)])
      (use rows e room' * in \<open>auto simp: license_rows_ok_def allocated_weights\<close>)
  with * rows show ?thesis by (simp add: license_inv_def license_rows_ok_def)
qed

lemma set_seat_candidates:
  "e \<in> set (seat_candidates t now inp db) \<Longrightarrow> e \<in> set (entitlements db) \<and> en_tenant e = t
     \<and> en_type e \<in> set (seatTypesByPrincipal (se_principal_type inp)) \<and> effective db now e"
  by (simp add: seat_candidates_def Let_def select_rows_def del: seatTypesByPrincipal.simps)

lemma license_inv_reserve:
  assumes inv: "license_inv db" and ok: "reserveLicenseForDeployment t env inp db = (Inr r, db')"
  shows "license_inv db'"
proof -
  let ?found = "find_row (\<lambda>r. sr_tenant r = t \<and> sr_target r = de_target inp) (seat_reservations db)"
  let ?inp = "\<lparr>se_product = de_product inp, se_principal_type = ''ASSET'',
                 se_principal_id = de_asset inp, se_target = Some (de_target inp),
                 se_existing = map_option (\<lambda>r. (sr_id r, sr_version r)) ?found,
                 se_actor = de_actor inp,
                 se_reason = ''Reserve a license seat before deployment execution.''\<rparr>"
  from ok consider "db' = db" | "reserveAvailableSeat t env ?inp db = (Inr r, db')"
      "case ?found of None \<Rightarrow> True | Some r \<Rightarrow> sr_state r = ''RELEASED''"
    by (auto simp: reserveLicenseForDeployment_def Let_def split: if_splits option.splits)
  then show ?thesis
  proof cases
    case 1
    with inv show ?thesis by simp
  next
    case 2
    have known: "reservation_known t ?inp db" using 2(2) by (simp add: reservation_known_def)
    from 2(1) show ?thesis
      unfolding reserveAvailableSeat_def
    proof (cases rule: reserve_first_Inr)
      case 1
      with inv show ?thesis by simp
    next
      case (2 e row rs h)
      from set_seat_candidates [OF 2(1)] have "e \<in> set (entitlements db)" "en_tenant e = t" by auto
      from license_inv_hold [OF inv known this 2(2,3)] show ?thesis by (simp add: 2(4))
    qed
  qed
qed


text \<open>Activation turns a held seat into an assigned one.\<close>

lemma log_activation_Inr:
  assumes "log_activation t env aid rid v who db = (Inr u, db')"
  obtains h1 h2 where "db' = (db\<lparr>licenses := update_rows (license_key t aid)
                 (\<lambda>a. a\<lparr>la_state := ''ACTIVE'', la_activated_at := Some (env_now env), la_version := 2\<rparr>)
                 (licenses db), assignment_history := h1\<rparr>)\<lparr>reservation_history := h2\<rparr>"
  using assms
  by (cases db) (auto simp: log_activation_def Let_def split: prod.splits sum.splits option.splits)

lemma activateDeploymentReservation_Inr:
  assumes "activateDeploymentReservation t env inp db = (Inr r, db')"
  obtains "db' = db" | r0 ls where
    "r0 \<in> set (seat_reservations db)" and "sr_tenant r0 = t" and "sr_target r0 = de_target inp"
    and "sr_state r0 = ''RESERVED''"
    and "insert_row license_clash (new_license (env_uuid env 0) t (env_now env) (sr_entitlement r0)
           (Some (sr_id r0)) ''ASSET'' (sr_asset r0) (de_actor inp)) (licenses db) = Some ls"
    and "log_activation t env (env_uuid env 0) (sr_id r0) (sr_version r0 + 1) (de_actor inp)
           (db\<lparr>licenses := ls, seat_reservations := update_rows (\<lambda>x. sr_tenant x = t \<and> sr_id x = sr_id r0)
                        (\<lambda>x. x\<lparr>sr_state := ''ASSIGNED'', sr_version := sr_version x + 1\<rparr>)
                        (seat_reservations db)\<rparr>) = (Inr (), db')"
    and "r = \<lparr>an_assignment = Some (env_uuid env 0), an_entitlement = Some (sr_entitlement r0),
              an_version = Some 2, an_already_active = False\<rparr>"
  using assms
  by (auto simp: activateDeploymentReservation_def Let_def dest!: find_row_SomeD
      split: if_splits option.splits prod.splits sum.splits)

lemma license_inv_convert:
  assumes inv: "license_inv db" and r0: "r0 \<in> set (seat_reservations db)" "sr_tenant r0 = t"
      "sr_state r0 = ''RESERVED''"
    and ins: "insert_row license_clash (new_license aid t now (sr_entitlement r0) res pt pid who) (licenses db) = Some ls"
  shows "license_inv (db\<lparr>licenses := ls, seat_reservations := update_rows (\<lambda>x. sr_tenant x = t \<and> sr_id x = sr_id r0)
                        (\<lambda>x. x\<lparr>sr_state := ''ASSIGNED'', sr_version := sr_version x + 1\<rparr>)
                        (seat_reservations db)\<rparr>)"
proof -
  let ?S = "seat_reservations db"
  let ?p = "\<lambda>x. sr_tenant x = t \<and> sr_id x = sr_id r0"
  let ?f = "\<lambda>x. x\<lparr>sr_state := ''ASSIGNED'', sr_version := sr_version x + 1\<rparr>"
  let ?db = "db\<lparr>licenses := ls, seat_reservations := update_rows ?p ?f ?S\<rparr>"
  from inv have rows: "license_rows_ok db" and cap: "capacity_ok db" by (auto simp: license_inv_def)
  have u: "unique_rows reservation_key_clash ?S" and q: "sr_quantity r0 = 1"
    using rows r0(1) by (auto simp: license_rows_ok_def)
  have ls: "ls = licenses db @ [new_license aid t now (sr_entitlement r0) res pt pid who]"
    using ins by (simp add: insert_row_Some_iff)
  have "capacity_ok ?db"
  proof (rule capacity_mono [OF cap])
    fix t' i
    have "sum_list (map (hold_weight t' i) (update_rows ?p ?f ?S))
        = sum_list (map (hold_weight t' i) ?S) - hold_weight t' i r0 + hold_weight t' i (?f r0)"
      by (rule sum_update_one [OF u r0(1)]) (auto simp: r0 reservation_key_clash_def)
    then show "allocated t' i ?db \<le> allocated t' i db"
      by (simp add: allocated_weights ls) (simp add: hold_weight_def r0 q)
  qed simp
  moreover have "unique_rows reservation_key_clash (update_rows ?p ?f ?S)"
    by (rule unique_rows_update [OF u]) (auto simp: reservation_key_clash_def split: if_splits)
  moreover have "unique_rows license_clash ls"
    using rows unique_rows_insert [OF _ ins license_clash_sym] by (simp add: license_rows_ok_def)
  ultimately show ?thesis
    using rows by (auto simp: license_inv_def license_rows_ok_def ls set_update_rows)
qed

lemma license_inv_activate:
  assumes inv: "license_inv db" and ok: "activateDeploymentReservation t env inp db = (Inr r, db')"
  shows "license_inv db'"
  using ok
proof (cases rule: activateDeploymentReservation_Inr)
  case 1
  with inv show ?thesis by simp
next
  case (2 r0 ls)
  let ?row = "new_license (env_uuid env 0) t (env_now env) (sr_entitlement r0)
           (Some (sr_id r0)) ''ASSET'' (sr_asset r0) (de_actor inp)"
  let ?db1 = "db\<lparr>licenses := ls, seat_reservations := update_rows (\<lambda>x. sr_tenant x = t \<and> sr_id x = sr_id r0)
                        (\<lambda>x. x\<lparr>sr_state := ''ASSIGNED'', sr_version := sr_version x + 1\<rparr>)
                        (seat_reservations db)\<rparr>"
  have 1: "license_inv ?db1" by (rule license_inv_convert [OF inv 2(1,2,4,5)])
  have "find_row (license_key t (env_uuid env 0)) (licenses ?db1) = Some ?row"
    using 2(5)
    by (auto simp: insert_row_Some_iff license_clash_def table_simps find_row_None_iff new_license_def
        split: option.splits dest!: find_row_SomeD)
  moreover have "live ?row" by (simp add: live_def live_states_def)
  ultimately have "license_inv (?db1\<lparr>licenses := update_rows (license_key t (env_uuid env 0))
       (\<lambda>a. a\<lparr>la_state := ''ACTIVE'', la_activated_at := Some (env_now env), la_version := 2\<rparr>) (licenses ?db1),
       assignment_history := h\<rparr>)" for h
    by (intro license_inv_update_live [OF 1]) (simp_all add: same_place_def)
  with 2(6) show ?thesis by (elim log_activation_Inr) simp
qed

section \<open>Runs\<close>

datatype license_command =
    ReserveSeat deployment_input
  | ReleaseSeat string string string
  | ActivateSeat deployment_input
  | CreateAssignment assignment_input
  | MoveAssignment move_input
  | RecordUsage usage_input
  | RecordFacts

fun license_step :: "string \<Rightarrow> call_env \<times> license_command \<Rightarrow> (license_db, unit) call" where
  "license_step t (env, ReserveSeat i) db = forget (reserveLicenseForDeployment t env i db)"
| "license_step t (env, ReleaseSeat x who why) db = forget (releaseDeploymentReservation t env x who why db)"
| "license_step t (env, ActivateSeat i) db = forget (activateDeploymentReservation t env i db)"
| "license_step t (env, CreateAssignment i) db = forget (createLicenseAssignment t env i db)"
| "license_step t (env, MoveAssignment i) db = forget (transitionLicenseAssignment t env i db)"
| "license_step t (env, RecordUsage i) db = forget (recordLicenseUsageObservation t env i db)"
| "license_step t (env, RecordFacts) db = forget (recordLicenseComplianceFacts t env db)"

fun license_run :: "string \<Rightarrow> (call_env \<times> license_command) list \<Rightarrow> license_db \<Rightarrow> license_db" where
  "license_run t [] db = db"
| "license_run t (c # cs) db = license_run t cs (snd (uow t (license_step t c) db))"

lemma license_run_calls: "license_run t cs db = pg.run_calls t (map (license_step t) cs) db"
  by (induction cs arbitrary: db) simp_all

lemma license_inv_usage:
  "license_inv db \<Longrightarrow> recordLicenseUsageObservation t env i db = (Inr r, db') \<Longrightarrow> license_inv db'"
  by (auto simp: recordLicenseUsageObservation_def Let_def split: if_splits option.splits)

lemma license_inv_facts:
  "license_inv db \<Longrightarrow> recordLicenseComplianceFacts t env db = (Inr r, db') \<Longrightarrow> license_inv db'"
  by (auto simp: recordLicenseComplianceFacts_def split: prod.splits)

lemmas license_inv_ops = license_inv_reserve license_inv_release license_inv_activate license_inv_create
  license_inv_transition license_inv_usage license_inv_facts

lemma license_inv_step:
  assumes "license_inv db" and "license_step t c db = (Inr a, db')"
  shows "license_inv db'"
  using assms by (cases c; cases "snd c") (auto simp: forget_Inr dest: license_inv_ops)

lemma license_inv_run: "license_inv db \<Longrightarrow> license_inv (license_run t cs db)"
  unfolding license_run_calls by (rule pg.run_calls_invariant [of license_inv]) (auto intro: license_inv_step)

lemma covered_not_overused:
  assumes "license_inv db" and "c \<in> set (listLicenseCompliance t now db)"
  shows "co_state c \<noteq> ''OVERUSED''"
proof -
  from assms(2) obtain e tm where e: "e \<in> set (entitlements db)"
    and c: "co_state c = compliance_state now e tm (live_quantity (en_tenant e) (en_id e) db)
           (reserved_quantity (\<lambda>_. True) (en_tenant e) (en_id e) db) (latest_usage db e)"
    unfolding listLicenseCompliance_def by (auto dest!: in_set_takeD simp: Let_def select_rows_def)
  from assms(1) e have "allocated (en_tenant e) (en_id e) db \<le> en_quantity e"
    by (simp add: license_inv_def capacity_ok_def)
  then show ?thesis by (simp add: c compliance_state_def Let_def allocated_def)
qed


section \<open>The life of an assignment\<close>

definition license_targets :: "string \<Rightarrow> string list" where
  "license_targets x = map snd (filter (\<lambda>k. fst (fst k) = x) license_transitions)"

definition license_states :: "string list" where
  "license_states = live_states @ [''CANCELLED'', ''RECLAIMED'']"

definition license_after :: "string \<Rightarrow> string \<Rightarrow> call_env \<times> move_input \<Rightarrow> license_db \<Rightarrow> license_db" where
  "license_after t aid i db =
     snd (uow t (transitionLicenseAssignment t (fst i) ((snd i)\<lparr>mi_assignment := aid\<rparr>)) db)"

lemma license_targets_map_of: "map_of license_transitions (x, a) = Some y \<Longrightarrow> y \<in> set (license_targets x)"
  by (auto simp: license_targets_def dest!: map_of_SomeD intro!: image_eqI [where x = "((x, a), y)"])

lemma license_after_state:
  assumes "find_row (license_key t aid) (licenses db) = Some a"
  shows "\<exists>a'. find_row (license_key t aid) (licenses (license_after t aid i db)) = Some a'
     \<and> (la_state a' = la_state a \<or> la_state a' \<in> set (license_targets (la_state a)))"
proof -
  let ?i = "(snd i)\<lparr>mi_assignment := aid\<rparr>"
  let ?f = "transitionLicenseAssignment t (fst i) ?i"
  show ?thesis
  proof (cases "snd (uow t ?f db) = db")
    case True
    with assms show ?thesis by (auto simp: license_after_def)
  next
    case False
    then obtain r where "?f db = (Inr r, snd (uow t ?f db))"
      using pg.rolls_back [of t ?f db] pg.commits [of t ?f db] by (metis prod.collapse sum.exhaust)
    then show ?thesis
    proof (cases rule: transitionLicenseAssignment_Inr)
      case (1 current)
      with False show ?thesis by simp
    next
      case (2 current nxt ref h)
      have "find_row (license_key t aid) (licenses (license_after t aid i db)) =
          map_option (move_license nxt (la_version current + 1) (env_now (fst i)) ref)
            (find_row (license_key t aid) (licenses db))"
        using 2(5) by (simp add: license_after_def find_row_update_same)
      with 2(1,3) assms show ?thesis by (auto dest: license_targets_map_of)
    qed
  qed
qed

interpretation license_lifecycle: lifecycle_command
  license_targets license_states "license_after t aid"
  "\<lambda>db. map_option la_state (find_row (license_key t aid) (licenses db))"
  for t aid
proof unfold_locales
  show "y \<in> set (license_targets x) \<Longrightarrow> y \<in> set license_states" for x y
    by (auto simp: license_targets_def license_transitions_def license_states_def live_states_def
        split: if_splits)
next
  fix s :: license_db and x i
  assume "map_option la_state (find_row (license_key t aid) (licenses s)) = Some x"
  then show "\<exists>y. map_option la_state (find_row (license_key t aid) (licenses (license_after t aid i s))) = Some y
      \<and> (y = x \<or> y \<in> set (license_targets x))"
    using license_after_state by fastforce
qed

text \<open>The reservation row of a target after it has been reserved.\<close>

lemma saved_reservation_found:
  assumes u: "unique_rows reservation_key_clash S" and x: "se_target inp = Some x"
    and ex: "se_existing inp = map_option (\<lambda>r. (sr_id r, sr_version r))
               (find_row (\<lambda>r. sr_tenant r = t \<and> sr_target r = x) S)"
    and save: "save_reservation t env inp ent S = (Inr row, rs)"
  shows "find_row (\<lambda>r. sr_tenant r = t \<and> sr_target r = x) rs = Some row \<and> sr_state row = ''RESERVED''"
proof (cases "find_row (\<lambda>r. sr_tenant r = t \<and> sr_target r = x) S")
  case None
  with save ex x show ?thesis
    by (auto simp: save_reservation_def Let_def insert_row_Some_iff table_simps split: option.splits)
next
  case (Some r0)
  let ?p = "\<lambda>r. sr_tenant r = t \<and> sr_id r = sr_id r0"
  let ?q = "\<lambda>r. sr_tenant r = t \<and> sr_target r = x"
  let ?f = "\<lambda>r. r\<lparr>sr_entitlement := ent, sr_asset := se_principal_id inp,
                       sr_state := ''RESERVED'', sr_version := sr_version r0 + 1\<rparr>"
  from Some save ex have rs: "rs = update_rows ?p ?f S" and row: "find_row ?p rs = Some row"
    by (auto simp: save_reservation_def Let_def split: option.splits)
  have r0: "?p r0" "?q r0" "r0 \<in> set S" using find_row_SomeD [OF Some] by auto
  have "find_row ?p S = Some r0"
  proof -
    obtain r1 where r1: "find_row ?p S = Some r1" using r0 by (cases "find_row ?p S") (auto simp: find_row_None_iff)
    from find_row_SomeD [OF r1] r0 u have "r1 = r0"
      by (auto simp: reservation_key_clash_def intro: unique_rows_clashD)
    with r1 show ?thesis by simp
  qed
  then have "row = ?f r0" using row unfolding rs by (subst (asm) find_row_update_same) simp_all
  moreover have "find_row ?q rs = map_option (\<lambda>r. if ?p r then ?f r else r) (find_row ?q S)"
    unfolding rs by (rule find_row_update_keep) simp
  ultimately show ?thesis using Some r0 by simp
qed

lemma reserve_first_found:
  assumes "reserve_first t env inp es db = (Inr r, db')" and "st_id r = Some rid"
    and x: "se_target inp = Some x"
    and ex: "se_existing inp = map_option (\<lambda>r. (sr_id r, sr_version r))
               (find_row (\<lambda>r. sr_tenant r = t \<and> sr_target r = x) (seat_reservations db))"
    and u: "unique_rows reservation_key_clash (seat_reservations db)"
  shows "\<exists>row. find_row (\<lambda>r. sr_tenant r = t \<and> sr_target r = x) (seat_reservations db') = Some row
     \<and> sr_state row = ''RESERVED'' \<and>
     r = \<lparr>st_id = Some (sr_id row), st_entitlement = sr_entitlement row,
          st_target = Some (sr_target row), st_asset = sr_asset row, st_state = sr_state row,
          st_version = sr_version row, st_created = (se_existing inp = None), st_already_assigned = False\<rparr>"
  using assms(1)
proof (induction es)
  case Nil
  then show ?case by simp
next
  case (Cons e es)
  show ?case
  proof (cases "save_reservation t env inp (en_id e) (seat_reservations db)")
    case (Pair out rs)
    have found: "find_row (\<lambda>r. sr_tenant r = t \<and> sr_target r = x) rs = Some row \<and> sr_state row = ''RESERVED''"
      if "out = Inr row" for row
      using saved_reservation_found [OF u x ex, of env "en_id e" row rs] Pair that by simp
    have "reserve_first t env inp es db = (Inr r, db') \<or>
      (\<exists>row h. out = Inr row \<and> db' = db\<lparr>seat_reservations := rs, reservation_history := h\<rparr> \<and>
         r = \<lparr>st_id = Some (sr_id row), st_entitlement = sr_entitlement row,
          st_target = Some (sr_target row), st_asset = sr_asset row, st_state = sr_state row,
          st_version = sr_version row, st_created = (se_existing inp = None), st_already_assigned = False\<rparr>)"
      using Cons.prems assms(2) unfolding reserve_first.simps Pair Let_def
      by (simp only: prod.case split: if_split_asm sum.split_asm prod.split_asm) auto
    then show ?thesis
    proof (elim disjE exE conjE)
      assume "reserve_first t env inp es db = (Inr r, db')"
      then show ?thesis by (rule Cons.IH)
    next
      fix row h
      assume "out = Inr row" and "db' = db\<lparr>seat_reservations := rs, reservation_history := h\<rparr>"
        and "r = \<lparr>st_id = Some (sr_id row), st_entitlement = sr_entitlement row,
          st_target = Some (sr_target row), st_asset = sr_asset row, st_state = sr_state row,
          st_version = sr_version row, st_created = (se_existing inp = None), st_already_assigned = False\<rparr>"
      with found [of row] show ?thesis by simp
    qed
  qed
qed

lemma reserve_again:
  assumes u: "unique_rows reservation_key_clash (seat_reservations db)"
    and ok: "reserveLicenseForDeployment t env inp db = (Inr r, db')" and rid: "st_id r = Some rid"
  shows "reserveLicenseForDeployment t env' inp db' = (Inr (r\<lparr>st_created := False\<rparr>), db')"
proof -
  let ?found = "find_row (\<lambda>r. sr_tenant r = t \<and> sr_target r = de_target inp) (seat_reservations db)"
  let ?inp = "\<lparr>se_product = de_product inp, se_principal_type = ''ASSET'',
                 se_principal_id = de_asset inp, se_target = Some (de_target inp),
                 se_existing = map_option (\<lambda>r. (sr_id r, sr_version r)) ?found,
                 se_actor = de_actor inp,
                 se_reason = ''Reserve a license seat before deployment execution.''\<rparr>"
  have ids: "is_uuid (de_product inp)" "is_uuid (de_asset inp)" "is_uuid (de_target inp)"
    using ok by (auto simp: reserveLicenseForDeployment_def split: if_splits)
  show ?thesis
  proof (cases "\<exists>r0. ?found = Some r0 \<and> sr_state r0 \<noteq> ''RELEASED''")
    case True
    then obtain r0 where "?found = Some r0" "sr_state r0 \<noteq> ''RELEASED''" by blast
    with ok ids show ?thesis by (auto simp: reserveLicenseForDeployment_def)
  next
    case False
    then have none: "(case ?found of None \<Rightarrow> None
                 | Some r \<Rightarrow> if sr_state r \<noteq> ''RELEASED'' then Some r else None) = None"
      by (auto split: option.splits)
    from ok ids rid have fresh:
      "reserve_first t env ?inp (seat_candidates t (env_now env) ?inp db) db = (Inr r, db')"
      unfolding reserveLicenseForDeployment_def Let_def none
      by (cases "covering_assignment t (env_now env) (de_product inp) (de_asset inp) db")
        (auto simp: reserveAvailableSeat_def)
    from reserve_first_found [OF fresh rid _ _ u] obtain row where
      "find_row (\<lambda>r. sr_tenant r = t \<and> sr_target r = de_target inp) (seat_reservations db') = Some row"
      "sr_state row = ''RESERVED''"
      "r = \<lparr>st_id = Some (sr_id row), st_entitlement = sr_entitlement row,
          st_target = Some (sr_target row), st_asset = sr_asset row, st_state = sr_state row,
          st_version = sr_version row, st_created = (se_existing ?inp = None), st_already_assigned = False\<rparr>"
      by auto
    with ids show ?thesis by (simp add: reserveLicenseForDeployment_def)
  qed
qed

section \<open>Properties\<close>

definition uuid_of :: "char \<Rightarrow> string" where
  "uuid_of c = replicate 8 c @ ''-1111-4111-8111-111111111111''"

definition license_env :: "nat \<Rightarrow> call_env" where
  "license_env k = \<lparr>env_now = 1000, env_iso = ''2026-01-01T00:00:01.000Z'',
     env_uuid = (\<lambda>n. uuid_of (char_of (48 + k)) @ replicate n (CHR ''i'')),
     env_valid_event = (\<lambda>_. True)\<rparr>"

definition sample_license_db :: license_db where
  "sample_license_db = \<lparr>entitlements = [\<lparr>en_id = uuid_of CHR ''e'', en_tenant = ''t'',
       en_product = uuid_of CHR ''a'', en_pool = None, en_type = ''PER_DEVICE'', en_quantity = 1,
       en_term_version = 1, en_renewal_notice_days = None, en_purchased_at = None,
       en_contract_reference = None, en_supplier_reference = None, en_cost_cents = None, en_currency = None,
       en_restrictions = [], en_created_by = ''op'', en_created_at = 0, en_version = 1\<rparr>],
     terms = [\<lparr>tm_id = uuid_of CHR ''0'', tm_tenant = ''t'', tm_entitlement = uuid_of CHR ''e'', tm_version = 1, tm_valid_from = 0,
       tm_valid_until = None, tm_recorded_by = ''op'', tm_reason = ''bought''\<rparr>],
     pools = [], licenses = [], seat_reservations = [], assignment_history = [],
     reservation_history = [], usage_observations = [], compliance_facts = []\<rparr>"

definition deploy :: "char \<Rightarrow> char \<Rightarrow> deployment_input" where
  "deploy asset target = \<lparr>de_product = uuid_of CHR ''a'', de_asset = uuid_of asset,
     de_target = uuid_of target, de_actor = ''op''\<rparr>"

definition license_commands :: "(call_env \<times> license_command) list" where
  "license_commands = [(license_env 1, ReserveSeat (deploy CHR ''b'' CHR ''c'')),
     (license_env 2, ReserveSeat (deploy CHR ''d'' CHR ''f'')),
     (license_env 3, ActivateSeat (deploy CHR ''b'' CHR ''c''))]"

lemma sample_license_inv: "license_inv sample_license_db"
  by code_simp

text \<open>Whatever reservations, activations, assignments, releases and reclaims run against the license
  tables, each in its transaction, the live assignments and held reservations of an entitlement never
  exceed its quantity.\<close>

theorem seats_never_oversold:
  assumes "license_inv db" and "e \<in> set (entitlements (license_run t cs db))"
  shows "live_quantity (en_tenant e) (en_id e) (license_run t cs db)
     + reserved_quantity (\<lambda>_. True) (en_tenant e) (en_id e) (license_run t cs db) \<le> en_quantity e"
  using license_inv_run [OF assms(1), of t cs] assms(2)
  by (simp add: license_inv_def capacity_ok_def allocated_def)

theorem seats_never_oversold_witness:
  "live_quantity ''t'' (uuid_of CHR ''e'') (license_run ''t'' license_commands sample_license_db)
     + reserved_quantity (\<lambda>_. True) ''t'' (uuid_of CHR ''e'') (license_run ''t'' license_commands sample_license_db) \<le> 1
   \<and> map la_state (licenses (license_run ''t'' license_commands sample_license_db)) = [''ACTIVE'']"
proof -
  let ?e = "hd (entitlements sample_license_db)"
  have e: "?e \<in> set (entitlements (license_run ''t'' license_commands sample_license_db))" by code_simp
  have "en_tenant ?e = ''t'' \<and> en_id ?e = uuid_of CHR ''e'' \<and> en_quantity ?e = 1" by code_simp
  moreover have "map la_state (licenses (license_run ''t'' license_commands sample_license_db)) = [''ACTIVE'']"
    by code_simp
  ultimately show ?thesis using seats_never_oversold [OF sample_license_inv e] by simp
qed

text \<open>Reserving a seat for a deployment target is idempotent: while the reservation stands, asking
  again returns the same reservation, not created anew, and changes nothing.\<close>

theorem reserve_seat_idempotent:
  assumes "license_inv db" and "reserveLicenseForDeployment t env inp db = (Inr r, db')"
    and "st_id r = Some rid"
  shows "reserveLicenseForDeployment t env' inp db' = (Inr (r\<lparr>st_created := False\<rparr>), db')"
  using assms by (intro reserve_again) (auto simp: license_inv_def license_rows_ok_def)

theorem reserve_seat_idempotent_witness:
  "\<exists>r. reserveLicenseForDeployment ''t'' (license_env 2) (deploy CHR ''b'' CHR ''c'')
       (snd (reserveLicenseForDeployment ''t'' (license_env 1) (deploy CHR ''b'' CHR ''c'') sample_license_db)) =
     (Inr (r\<lparr>st_created := False\<rparr>),
      snd (reserveLicenseForDeployment ''t'' (license_env 1) (deploy CHR ''b'' CHR ''c'') sample_license_db))
   \<and> st_id r = Some (uuid_of CHR ''1'')"
proof -
  have "\<exists>r. reserveLicenseForDeployment ''t'' (license_env 1) (deploy CHR ''b'' CHR ''c'') sample_license_db =
      (Inr r, snd (reserveLicenseForDeployment ''t'' (license_env 1) (deploy CHR ''b'' CHR ''c'') sample_license_db))
     \<and> st_id r = Some (uuid_of CHR ''1'')"
    by (rule exI [of _ "\<lparr>st_id = Some (uuid_of CHR ''1''), st_entitlement = uuid_of CHR ''e'',
         st_target = Some (uuid_of CHR ''c''), st_asset = uuid_of CHR ''b'', st_state = ''RESERVED'',
         st_version = 1, st_created = True, st_already_assigned = False\<rparr>"]) code_simp
  then obtain r where r: "reserveLicenseForDeployment ''t'' (license_env 1) (deploy CHR ''b'' CHR ''c'') sample_license_db =
      (Inr r, snd (reserveLicenseForDeployment ''t'' (license_env 1) (deploy CHR ''b'' CHR ''c'') sample_license_db))"
    "st_id r = Some (uuid_of CHR ''1'')" by blast
  from reserve_seat_idempotent [OF sample_license_inv r] r(2) show ?thesis by blast
qed

text \<open>An assignment that has been cancelled or reclaimed stays so under every further transition.\<close>

theorem license_terminal:
  assumes "find_row (license_key t aid) (licenses db) = Some a"
    and "la_state a = ''CANCELLED'' \<or> la_state a = ''RECLAIMED''"
  shows "map_option la_state (find_row (license_key t aid)
     (licenses (license_lifecycle.after_all t aid cs db))) = Some (la_state a)"
proof (rule license_lifecycle.terminal_absorbing)
  show "map_option la_state (find_row (license_key t aid) (licenses db)) = Some (la_state a)"
    using assms(1) by simp
  show "license_targets (la_state a) = []"
    using assms(2) by (auto simp: license_targets_def license_transitions_def)
qed

definition cancelled_db :: license_db where
  "cancelled_db = sample_license_db\<lparr>licenses := [(new_license (uuid_of CHR ''b'') ''t'' 0 (uuid_of CHR ''e'')
     None ''ASSET'' (uuid_of CHR ''d'') ''op'')\<lparr>la_state := ''CANCELLED'', la_cancelled_at := Some 5\<rparr>]\<rparr>"

definition reactivate :: move_input where
  "reactivate = \<lparr>mi_assignment = uuid_of CHR ''b'', mi_expected_version = JInt 1, mi_action = ACTIVATE,
     mi_actor = ''op'', mi_reason = ''again'', mi_verification = None\<rparr>"

theorem license_terminal_witness:
  "map_option la_state (find_row (license_key ''t'' (uuid_of CHR ''b''))
     (licenses (license_lifecycle.after_all ''t'' (uuid_of CHR ''b'') [(license_env 1, reactivate)] cancelled_db)))
     = Some ''CANCELLED''"
proof -
  have "find_row (license_key ''t'' (uuid_of CHR ''b'')) (licenses cancelled_db) = Some (hd (licenses cancelled_db))"
    and s: "la_state (hd (licenses cancelled_db)) = ''CANCELLED''"
    by code_simp+
  from license_terminal [OF this(1), of "[(license_env 1, reactivate)]"] s show ?thesis by simp
qed

text \<open>A seat is only handed to a principal that the license model counts, under an entitlement whose
  term is in force, and only while the principal holds no live assignment of it.\<close>

theorem create_assignment_guards:
  assumes "createLicenseAssignment t env inp db = (Inr r, db')"
  shows "\<exists>e\<in>set (entitlements db). en_tenant e = t \<and> en_id e = ai_entitlement inp
     \<and> en_type e \<in> set (seatTypesByPrincipal (ai_ptype inp))
     \<and> (\<exists>tm. term_of db e = Some tm \<and> term_in_force (env_now env) tm)
     \<and> (\<forall>a\<in>set (licenses db). \<not> (la_tenant a = t \<and> la_entitlement a = ai_entitlement inp
          \<and> la_principal_type a = ai_ptype inp \<and> la_principal_id a = ai_pid inp \<and> live a))
     \<and> licenses db' = licenses db @ [r] \<and> la_state r = ''ASSIGNED'' \<and> la_version r = 1"
  using assms
  by (auto simp: createLicenseAssignment_def Let_def insert_row_Some_iff find_row_None_iff new_license_def
      simp del: seatTypesByPrincipal.simps dest!: find_row_SomeD
      split: if_splits option.splits sum.splits prod.splits)

definition give :: assignment_input where
  "give = \<lparr>ai_entitlement = uuid_of CHR ''e'', ai_ptype = ''ASSET'', ai_pid = uuid_of CHR ''d'',
     ai_actor_id = ''op'', ai_why = ''new device''\<rparr>"

theorem create_assignment_guards_witness:
  "\<exists>e\<in>set (entitlements sample_license_db). en_tenant e = ''t'' \<and> en_type e \<in> set (seatTypesByPrincipal ''ASSET'')"
proof -
  have "createLicenseAssignment ''t'' (license_env 1) give sample_license_db =
    (Inr (new_license (uuid_of CHR ''1'') ''t'' 1000 (uuid_of CHR ''e'') None ''ASSET'' (uuid_of CHR ''d'') ''op''),
     snd (createLicenseAssignment ''t'' (license_env 1) give sample_license_db))"
    by code_simp
  from create_assignment_guards [OF this] show ?thesis
    by (auto simp: give_def simp del: seatTypesByPrincipal.simps)
qed

text \<open>While the tables are in order no entitlement is reported as overused.\<close>

theorem never_reported_overused:
  assumes "license_inv db" and "c \<in> set (listLicenseCompliance t' now (license_run t cs db))"
  shows "co_state c \<noteq> ''OVERUSED''"
  using covered_not_overused [OF license_inv_run [OF assms(1)] assms(2)] .

theorem never_reported_overused_witness:
  "co_state (hd (listLicenseCompliance ''t'' 1000 (license_run ''t'' license_commands sample_license_db))) \<noteq> ''OVERUSED''"
proof -
  have "hd (listLicenseCompliance ''t'' 1000 (license_run ''t'' license_commands sample_license_db))
     \<in> set (listLicenseCompliance ''t'' 1000 (license_run ''t'' license_commands sample_license_db))"
    by (rule hd_in_set) code_simp
  then show ?thesis by (rule never_reported_overused [OF sample_license_inv])
qed

end
