(* ===== verification/Helpdesk.thy ===== *)
theory Helpdesk
  imports Asset_Lifecycle
begin

text \<open>
  \<open>modules/ticket/application/ticket.ts\<close>: creation, transition and enrichment of helpdesk
  tickets, over \<open>helpdesk.tickets\<close>, \<open>ticket_messages\<close> and \<open>ticket_transitions\<close>. The requester's
  profile columns an enrichment copies are a parameter, as they are not otherwise modelled.
\<close>

definition ticket_transitions :: "(string \<times> string list) list" where
  "ticket_transitions =
    [(''NEW'', [''TRIAGE'', ''CANCELLED'']),
     (''TRIAGE'', [''ASSIGNED'', ''CANCELLED'']),
     (''ASSIGNED'', [''IN_PROGRESS'']),
     (''IN_PROGRESS'', [''WAITING_USER'', ''WAITING_VENDOR'', ''WAITING_APPROVAL'', ''WAITING_CHANGE'', ''RESOLVED'']),
     (''WAITING_USER'', [''IN_PROGRESS'']),
     (''WAITING_VENDOR'', [''IN_PROGRESS'']),
     (''WAITING_APPROVAL'', [''IN_PROGRESS'']),
     (''WAITING_CHANGE'', [''IN_PROGRESS'']),
     (''RESOLVED'', [''CLOSED'', ''REOPENED'']),
     (''REOPENED'', [''IN_PROGRESS'']),
     (''CLOSED'', []),
     (''CANCELLED'', [])]"

definition ticketTerminalStates :: "string list" where
  "ticketTerminalStates = [''CLOSED'', ''CANCELLED'']"

definition isTicketTerminalState :: "string \<Rightarrow> bool" where
  "isTicketTerminalState s \<longleftrightarrow>
     (case map_of ticket_transitions s of None \<Rightarrow> True | Some ys \<Rightarrow> length ys = 0)"

record ticket =
  tk_id :: string
  tk_tenant :: string
  tk_code :: string
  tk_title :: string
  tk_description :: string
  tk_requester :: string
  tk_assignee :: "string option"
  tk_priority :: string
  tk_state :: string
  tk_resolution_code :: "string option"
  tk_resolved_at :: "int option"
  tk_source_channel :: string
  tk_source_context :: "(string \<times> string) option"
  tk_enrichment :: json
  tk_version :: int

record ticket_message =
  tmsg_id :: string
  tmsg_tenant :: string
  tmsg_ticket :: string
  tmsg_author :: string
  tmsg_channel :: string
  tmsg_body :: string

record ticket_entry =
  te_id :: string
  te_tenant :: string
  te_ticket :: string
  te_from :: string
  te_to :: string
  te_command :: string
  te_reason :: string
  te_actor :: actor

record ticket_db =
  tickets :: "ticket list"
  ticket_messages :: "ticket_message list"
  ticket_log :: "ticket_entry list"

abbreviation ticket_key :: "string \<Rightarrow> string \<Rightarrow> ticket \<Rightarrow> bool" where
  "ticket_key t i r \<equiv> tk_tenant r = t \<and> tk_id r = i"

definition find_ticket :: "string \<Rightarrow> string \<Rightarrow> ticket_db \<Rightarrow> ticket option" where
  "find_ticket t i db = find_row (ticket_key t i) (tickets db)"

definition ticket_clash :: "ticket \<Rightarrow> ticket \<Rightarrow> bool" where
  "ticket_clash x y \<longleftrightarrow> tk_id x = tk_id y \<or> (tk_tenant x = tk_tenant y \<and> tk_code x = tk_code y)"

record new_ticket =
  nt_code :: string
  nt_title :: string
  nt_description :: string
  nt_requester :: string
  nt_priority :: string
  nt_source_channel :: string
  nt_source_context :: "(string \<times> string) option"

definition createTicket ::
    "user list \<Rightarrow> string \<Rightarrow> call_env \<Rightarrow> new_ticket \<Rightarrow> (ticket_db, ticket) call" where
  "createTicket us t env inp db =
    (if blank (nt_code inp) \<or> blank (nt_title inp) \<or> blank (nt_description inp) \<or> blank (nt_requester inp)
        \<or> nt_priority inp \<notin> set [''P1'', ''P2'', ''P3'', ''P4'']
        \<or> nt_source_channel inp \<notin> set [''PORTAL'', ''EMAIL'', ''API'']
     then (Inl (AppError VALIDATION_ERROR), db)
     else if (case nt_source_context inp of None \<Rightarrow> False
                | Some (ty, ref) \<Rightarrow> \<not> is_uuid ref \<or> ty \<noteq> ''KNOWLEDGE_RECOMMENDATION'')
     then (Inl (AppError VALIDATION_ERROR), db)
     else if find_row (employed t (nt_requester inp)) us = None
     then (Inl (AppError BUSINESS_RULE_VIOLATION), db)
     else
       let row = \<lparr>tk_id = env_uuid env 0, tk_tenant = t, tk_code = nt_code inp, tk_title = nt_title inp,
                  tk_description = nt_description inp, tk_requester = nt_requester inp,
                  tk_assignee = None, tk_priority = nt_priority inp, tk_state = ''NEW'',
                  tk_resolution_code = None, tk_resolved_at = None,
                  tk_source_channel = nt_source_channel inp, tk_source_context = nt_source_context inp,
                  tk_enrichment = JObj [], tk_version = 1\<rparr>
       in case insert_row ticket_clash row (tickets db) of
            None \<Rightarrow> (Inl (AppError BUSINESS_RULE_VIOLATION), db)
          | Some ts \<Rightarrow>
             (case insert_row (\<lambda>x y. tmsg_id x = tmsg_id y)
                \<lparr>tmsg_id = env_uuid env 1, tmsg_tenant = t, tmsg_ticket = env_uuid env 0,
                 tmsg_author = nt_requester inp, tmsg_channel = nt_source_channel inp,
                 tmsg_body = nt_description inp\<rparr> (ticket_messages db) of
                None \<Rightarrow> (Inl (AppError BUSINESS_RULE_VIOLATION), db\<lparr>tickets := ts\<rparr>)
              | Some ms \<Rightarrow> (Inr row, db\<lparr>tickets := ts, ticket_messages := ms\<rparr>)))"

definition readTicketReference :: "string \<Rightarrow> string \<Rightarrow> ticket_db \<Rightarrow> ticket option" where
  "readTicketReference t i db = find_ticket t i db"

record ticket_move =
  tt_ticket :: string
  tt_expected_version :: js_number
  tt_target :: string
  tt_reason :: string
  tt_actor :: actor
  tt_assignee :: "string option"
  tt_resolution_code :: "string option"

definition move_ticket :: "ticket_move \<Rightarrow> int \<Rightarrow> int \<Rightarrow> ticket \<Rightarrow> ticket" where
  "move_ticket inp now version r =
     r\<lparr>tk_state := tt_target inp,
       tk_assignee := (case tt_assignee inp of None \<Rightarrow> tk_assignee r | Some u \<Rightarrow> Some u),
       tk_resolution_code := (if tt_target inp = ''RESOLVED'' then tt_resolution_code inp else tk_resolution_code r),
       tk_resolved_at := (if tt_target inp = ''RESOLVED'' then Some now else tk_resolved_at r),
       tk_version := version\<rparr>"

definition transitionTicket ::
    "user list \<Rightarrow> string \<Rightarrow> call_env \<Rightarrow> ticket_move \<Rightarrow> (ticket_db, string \<times> string \<times> int) call" where
  "transitionTicket us t env inp db =
    (if \<not> is_safe_integer (tt_expected_version inp) \<or> blank (tt_reason inp)
        \<or> map_of ticket_transitions (tt_target inp) = None
     then (Inl (AppError VALIDATION_ERROR), db)
     else case find_ticket t (tt_ticket inp) db of
       None \<Rightarrow> (Inl (AppError NOT_FOUND), db)
     | Some ticket \<Rightarrow>
        (case assertVersion (tk_version ticket) (tt_expected_version inp) of
           Inl e \<Rightarrow> (Inl e, db)
         | Inr _ \<Rightarrow>
            if tt_target inp \<notin> set (table_targets ticket_transitions (tk_state ticket))
            then (Inl (AppError BUSINESS_RULE_VIOLATION), db)
            else if tt_target inp = ''RESOLVED''
                 \<and> (case tt_resolution_code inp of None \<Rightarrow> True | Some c \<Rightarrow> blank c)
            then (Inl (AppError BUSINESS_RULE_VIOLATION), db)
            else if (case tt_assignee inp of None \<Rightarrow> False
                      | Some u \<Rightarrow> u \<noteq> [] \<and> find_row (employed t u) us = None)
            then (Inl (AppError BUSINESS_RULE_VIOLATION), db)
            else if tt_assignee inp = Some [] then (Inl (SqlError ''22P02''), db)
            else
              let version = js_int (tt_expected_version inp) + 1;
                  db1 = db\<lparr>tickets := update_rows (ticket_key t (tt_ticket inp))
                          (move_ticket inp (env_now env) version) (tickets db)\<rparr>
              in (case insert_row (\<lambda>x y. te_id x = te_id y)
                    \<lparr>te_id = env_uuid env 0, te_tenant = t, te_ticket = tt_ticket inp,
                     te_from = tk_state ticket, te_to = tt_target inp,
                     te_command = ''TICKET.'' @ tt_target inp, te_reason = tt_reason inp,
                     te_actor = tt_actor inp\<rparr> (ticket_log db1) of
                    None \<Rightarrow> (Inl (SqlError ''23505''), db1)
                  | Some lg \<Rightarrow> (Inr (tk_state ticket, tt_target inp, version), db1\<lparr>ticket_log := lg\<rparr>))))"

record ticket_enrich =
  tn_ticket :: string
  tn_expected_version :: js_number
  tn_asset :: "string option"
  tn_reason :: string

text \<open>
  \<open>profile u\<close> is the object built from the profile columns of the requester, \<open>tag a\<close> the asset's
  \<open>asset_tag\<close>; \<open>adb\<close> is the asset module's database.
\<close>

definition enrichTicket ::
    "(user \<Rightarrow> json) \<Rightarrow> (asset \<Rightarrow> json) \<Rightarrow> user list \<Rightarrow> asset_db \<Rightarrow> string \<Rightarrow> ticket_enrich \<Rightarrow>
     (ticket_db, int \<times> json) call" where
  "enrichTicket profile tag us adb t inp db =
    (if \<not> is_safe_integer (tn_expected_version inp) \<or> blank (tn_reason inp)
     then (Inl (AppError VALIDATION_ERROR), db)
     else case find_ticket t (tn_ticket inp) db of
       None \<Rightarrow> (Inl (AppError NOT_FOUND), db)
     | Some ticket \<Rightarrow>
        (case assertVersion (tk_version ticket) (tn_expected_version inp) of
           Inl e \<Rightarrow> (Inl e, db)
         | Inr _ \<Rightarrow>
          (case find_row (\<lambda>u. u_tenant u = t \<and> u_id u = tk_requester ticket) us of
             None \<Rightarrow> (Inl (AppError NOT_FOUND), db)
           | Some requester \<Rightarrow>
              if u_status requester \<noteq> ''ACTIVE'' then (Inl (AppError BUSINESS_RULE_VIOLATION), db)
              else
                let base = [(''requester'', profile requester)];
                    wanted = (case tn_asset inp of None \<Rightarrow> None | Some a \<Rightarrow> if a = [] then None else Some a);
                    found = (case wanted of None \<Rightarrow> None | Some a \<Rightarrow>
                      find_row (\<lambda>r. asset_key t a r \<and> list_ex (\<lambda>x. as_tenant x = a_tenant r
                          \<and> as_asset_id x = a_id r \<and> as_user_id x = u_id requester
                          \<and> as_status x = ''ACTIVE'') (assignments adb)) (assets adb))
                in if wanted \<noteq> None \<and> found = None then (Inl (AppError BUSINESS_RULE_VIOLATION), db)
                   else
                     let enrichment = JObj (base @ (case found of None \<Rightarrow> [] | Some r \<Rightarrow>
                           [(''asset'', JObj [(''id'', JStr (a_id r)), (''asset_code'', JStr (a_code r)),
                              (''asset_tag'', tag r), (''lifecycle_state'', JStr (a_lifecycle_state r)),
                              (''current_location_id'',
                                 case a_location_id r of None \<Rightarrow> JNull | Some l \<Rightarrow> JStr l)])]));
                         version = js_int (tn_expected_version inp) + 1
                     in (Inr (version, enrichment),
                         db\<lparr>tickets := update_rows (ticket_key t (tn_ticket inp))
                              (\<lambda>r. r\<lparr>tk_enrichment := enrichment, tk_version := version\<rparr>) (tickets db)\<rparr>))))"

section \<open>What the commands do\<close>

definition ticket_states :: "string list" where
  "ticket_states = map fst ticket_transitions"

lemma ticket_transitions_closed: "table_closed ticket_transitions"
  by (simp add: table_closed_def ticket_transitions_def)

lemma move_ticket_sel [simp]:
  "tk_id (move_ticket i n v r) = tk_id r" "tk_tenant (move_ticket i n v r) = tk_tenant r"
  "tk_state (move_ticket i n v r) = tt_target i" "tk_version (move_ticket i n v r) = v"
  "tk_code (move_ticket i n v r) = tk_code r"
  by (simp_all add: move_ticket_def)

lemma transitionTicket_Inr:
  assumes "transitionTicket us t env inp db = (Inr r, db')"
  obtains ticket lg where "find_ticket t (tt_ticket inp) db = Some ticket"
    and "tt_expected_version inp = JInt (tk_version ticket)"
    and "tt_target inp \<in> set (table_targets ticket_transitions (tk_state ticket))"
    and "tt_target inp = ''RESOLVED'' \<Longrightarrow> \<exists>c. tt_resolution_code inp = Some c \<and> \<not> blank c"
    and "\<And>u. tt_assignee inp = Some u \<Longrightarrow> find_row (employed t u) us \<noteq> None"
    and "r = (tk_state ticket, tt_target inp, tk_version ticket + 1)"
    and "db' = db\<lparr>tickets := update_rows (ticket_key t (tt_ticket inp))
               (move_ticket inp (env_now env) (tk_version ticket + 1)) (tickets db), ticket_log := lg\<rparr>"
  using assms
  by (auto simp: transitionTicket_def Let_def assertVersion_Inr split: if_splits option.splits sum.splits)

datatype ticket_command = MoveTicket call_env ticket_move | EnrichTicket ticket_enrich

fun ticket_step ::
    "(user \<Rightarrow> json) \<Rightarrow> (asset \<Rightarrow> json) \<Rightarrow> user list \<Rightarrow> asset_db \<Rightarrow> string \<Rightarrow> string \<Rightarrow> ticket_command \<Rightarrow> (ticket_db, unit) call" where
  "ticket_step profile tag us adb t tid (MoveTicket env i) db =
     forget (transitionTicket us t env (i\<lparr>tt_ticket := tid\<rparr>) db)"
| "ticket_step profile tag us adb t tid (EnrichTicket i) db =
     forget (enrichTicket profile tag us adb t (i\<lparr>tn_ticket := tid\<rparr>) db)"

fun ticket_expected :: "ticket_command \<Rightarrow> js_number" where
  "ticket_expected (MoveTicket _ i) = tt_expected_version i"
| "ticket_expected (EnrichTicket i) = tn_expected_version i"

lemma enrichTicket_Inr:
  assumes "enrichTicket profile tag us adb t inp db = (Inr r, db')"
  obtains ticket en where "find_ticket t (tn_ticket inp) db = Some ticket"
    and "tn_expected_version inp = JInt (tk_version ticket)"
    and "db' = db\<lparr>tickets := update_rows (ticket_key t (tn_ticket inp))
               (\<lambda>r. r\<lparr>tk_enrichment := en, tk_version := tk_version ticket + 1\<rparr>) (tickets db)\<rparr>"
  using assms
  by (auto simp: enrichTicket_def Let_def assertVersion_Inr split: if_splits option.splits sum.splits)

interpretation ticket_machine: keyed_machine
  "table_targets ticket_transitions" ticket_states t "ticket_step profile tag us adb t tid" ticket_expected
  "find_ticket t tid" tk_version tk_state
  for profile tag us adb t tid
proof unfold_locales
  show "y \<in> set (table_targets ticket_transitions x) \<Longrightarrow> y \<in> set ticket_states" for x y
    using table_closedD [OF ticket_transitions_closed] by (simp add: ticket_states_def)
next
  fix i s a s'
  assume ok: "ticket_step profile tag us adb t tid i s = (Inr a, s')"
  show "\<exists>r r'. find_ticket t tid s = Some r \<and> find_ticket t tid s' = Some r' \<and> ticket_expected i = JInt (tk_version r)
      \<and> tk_version r' = tk_version r + 1
      \<and> (tk_state r' = tk_state r \<or> tk_state r' \<in> set (table_targets ticket_transitions (tk_state r)))"
  proof (cases i)
    case (MoveTicket env j)
    with ok show ?thesis
      by (auto simp: forget_Inr find_ticket_def find_row_update_same elim!: transitionTicket_Inr)
  next
    case (EnrichTicket j)
    with ok show ?thesis
      by (auto simp: forget_Inr find_ticket_def find_row_update_same elim!: enrichTicket_Inr)
  qed
qed

section \<open>Properties\<close>

text \<open>A ticket that is closed or cancelled stays so, whatever transitions and enrichments follow.\<close>

theorem finished_ticket_final:
  assumes "find_ticket t tid db = Some r" and "tk_state r = ''CLOSED'' \<or> tk_state r = ''CANCELLED''"
  shows "map_option tk_state (find_ticket t tid (ticket_machine.paths.after_all t profile tag us adb tid cs db))
     = Some (tk_state r)"
proof (rule ticket_machine.paths.terminal_absorbing)
  show "map_option tk_state (find_ticket t tid db) = Some (tk_state r)" using assms(1) by simp
  show "table_targets ticket_transitions (tk_state r) = []"
    using assms(2) by (auto simp: ticket_transitions_def)
qed

definition sample_ticket :: ticket where
  "sample_ticket = \<lparr>tk_id = ''k'', tk_tenant = ''t'', tk_code = ''T-1'', tk_title = ''x'', tk_description = ''y'',
     tk_requester = ''ann'', tk_assignee = None, tk_priority = ''P3'', tk_state = ''IN_PROGRESS'',
     tk_resolution_code = None, tk_resolved_at = None, tk_source_channel = ''PORTAL'',
     tk_source_context = None, tk_enrichment = JObj [], tk_version = 4\<rparr>"

definition ticket_to :: "int \<Rightarrow> string \<Rightarrow> ticket_move" where
  "ticket_to v x = \<lparr>tt_ticket = ''k'', tt_expected_version = JInt v, tt_target = x, tt_reason = ''why'',
     tt_actor = sample_actor, tt_assignee = None, tt_resolution_code = Some ''FIXED''\<rparr>"

definition tickets_in :: "string \<Rightarrow> ticket_db" where
  "tickets_in x = \<lparr>tickets = [sample_ticket\<lparr>tk_state := x\<rparr>], ticket_messages = [], ticket_log = []\<rparr>"

theorem finished_ticket_final_witness:
  "map_option tk_state (find_ticket ''t'' ''k'' (ticket_machine.paths.after_all ''t'' (\<lambda>_. JNull) (\<lambda>_. JNull) []
     sample_asset_db ''k'' [MoveTicket (env_of 1) (ticket_to 4 ''IN_PROGRESS'')] (tickets_in ''CLOSED'')))
     = Some ''CLOSED''"
proof -
  have f: "find_ticket ''t'' ''k'' (tickets_in ''CLOSED'') = Some (sample_ticket\<lparr>tk_state := ''CLOSED''\<rparr>)"
    by code_simp
  have s: "tk_state (sample_ticket\<lparr>tk_state := ''CLOSED''\<rparr>) = ''CLOSED''" by simp
  show ?thesis
    by (rule trans [OF finished_ticket_final [OF f]]) (simp_all only: s simp_thms)
qed

text \<open>A ticket is resolved only with a resolution code that is not blank, and the row then carries the
  code and the time of resolution.\<close>

theorem resolved_with_code:
  assumes "transitionTicket us t env inp db = (Inr r, db')" and "tt_target inp = ''RESOLVED''"
  shows "\<exists>x c. find_ticket t (tt_ticket inp) db' = Some x \<and> tk_state x = ''RESOLVED''
     \<and> tk_resolution_code x = Some c \<and> \<not> blank c \<and> tk_resolved_at x = Some (env_now env)"
  using assms by (elim transitionTicket_Inr) (auto simp: find_ticket_def find_row_update_same move_ticket_def)

theorem resolved_with_code_witness:
  "\<exists>x c. find_ticket ''t'' ''k'' (snd (transitionTicket [] ''t'' (env_of 1) (ticket_to 4 ''RESOLVED'') (tickets_in ''IN_PROGRESS'')))
     = Some x \<and> tk_state x = ''RESOLVED'' \<and> tk_resolution_code x = Some c \<and> \<not> blank c"
proof -
  have "transitionTicket [] ''t'' (env_of 1) (ticket_to 4 ''RESOLVED'') (tickets_in ''IN_PROGRESS'') =
     (Inr (''IN_PROGRESS'', ''RESOLVED'', 5),
      snd (transitionTicket [] ''t'' (env_of 1) (ticket_to 4 ''RESOLVED'') (tickets_in ''IN_PROGRESS'')))"
    by code_simp
  from resolved_with_code [OF this] show ?thesis by (auto simp: ticket_to_def)
qed

text \<open>The terminal test agrees with the list of terminal states on every state of the table, and a
  state outside the table counts as terminal.\<close>

theorem terminal_test_agrees:
  "isTicketTerminalState s \<longleftrightarrow> s \<notin> set ticket_states - set ticketTerminalStates"
  by (auto simp: isTicketTerminalState_def ticketTerminalStates_def ticket_states_def ticket_transitions_def
      split: if_splits)

lemma ticket_edges:
  "ticket_machine.edge\<^sup>*\<^sup>* ''RESOLVED'' ''CLOSED''"
  "ticket_machine.edge\<^sup>*\<^sup>* ''IN_PROGRESS'' ''CLOSED''"
proof -
  show r: "ticket_machine.edge\<^sup>*\<^sup>* ''RESOLVED'' ''CLOSED''"
    by (rule r_into_rtranclp, unfold ticket_machine.edge_def) (simp add: ticket_transitions_def)
  show "ticket_machine.edge\<^sup>*\<^sup>* ''IN_PROGRESS'' ''CLOSED''"
    by (rule converse_rtranclp_into_rtranclp [OF _ r], unfold ticket_machine.edge_def)
      (simp add: ticket_transitions_def)
qed

lemma ticket_edge_closed:
  assumes "''IN_PROGRESS'' \<in> set (table_targets ticket_transitions x)"
  shows "ticket_machine.edge\<^sup>*\<^sup>* x ''CLOSED''"
  by (rule converse_rtranclp_into_rtranclp [OF _ ticket_edges(2)]) (simp add: ticket_machine.edge_def assms)

text \<open>No ticket is stuck: from every state of the table a terminal state can be reached.\<close>

theorem ticket_can_finish:
  assumes "x \<in> set ticket_states"
  shows "\<exists>y. ticket_machine.edge\<^sup>*\<^sup>* x y \<and> isTicketTerminalState y"
proof -
  have fin: "isTicketTerminalState ''CLOSED''" "isTicketTerminalState ''CANCELLED''"
    by (simp_all add: isTicketTerminalState_def ticket_transitions_def)
  from assms consider "''CANCELLED'' \<in> set (table_targets ticket_transitions x)"
    | "''IN_PROGRESS'' \<in> set (table_targets ticket_transitions x)" | "x = ''IN_PROGRESS''" | "x = ''RESOLVED''"
    | "x = ''CLOSED''" | "x = ''CANCELLED''"
    by (auto simp: ticket_states_def ticket_transitions_def)
  then show ?thesis
  proof cases
    case 1
    then have "ticket_machine.edge x ''CANCELLED''" by (simp add: ticket_machine.edge_def)
    with fin show ?thesis by blast
  next
    case 2
    from ticket_edge_closed [OF this] fin show ?thesis by blast
  qed (use fin ticket_edges in blast)+
qed

theorem ticket_can_finish_witness:
  "\<exists>y. ticket_machine.edge\<^sup>*\<^sup>* ''WAITING_VENDOR'' y \<and> isTicketTerminalState y"
  by (rule ticket_can_finish) (simp add: ticket_states_def ticket_transitions_def)

end
