(* ===== verification/Maintenance.thy ===== *)
theory Maintenance
  imports Calendar Auth Messaging
begin

text \<open>
  \<open>modules/maintenance\<close>: the canonical warranty state (\<open>domain/warranty-state.ts\<close>) and the warranties and
  orders of \<open>application/maintenance.ts\<close>, over \<open>database/migrations/maintenance\<close>. An instant is
  a number of milliseconds, \<open>None\<close> when \<open>Date.parse\<close> cannot read its text; \<open>pg_date\<close> is the date, printed as
  \<open>YYYY-MM-DD\<close>, that the database reads from a text.
\<close>

section \<open>Warranty state\<close>

record warranty =
  wa_id :: string
  wa_tenant :: string
  wa_asset_id :: string
  wa_provider :: string
  wa_contract_ref :: "string option"
  wa_starts_at :: string
  wa_ends_at :: string
  wa_coverage :: string

record warranty_state =
  ws_state :: string
  ws_reason_code :: "string option"
  ws_warranty_id :: "string option"
  ws_ends_at :: "string option"
  ws_remaining_days :: "js_number option"

definition expiring_within_days :: int where
  "expiring_within_days = 90"

text \<open>\<open>new Date(t).toISOString().slice(0, 10)\<close>.\<close>

definition utc_date_text :: "int \<Rightarrow> string" where
  "utc_date_text ms = take 10 (iso_date (civil (epoch_day + ms div day_ms)))"

definition validDate :: "string \<Rightarrow> bool" where
  "validDate s \<longleftrightarrow> date_of_text s \<noteq> None"

definition daysBetween :: "string \<Rightarrow> string \<Rightarrow> js_number" where
  "daysBetween s e =
     (case (date_of_text s, date_of_text e) of
        (Some x, Some z) \<Rightarrow> JInt (day_number z - day_number x)
      | _ \<Rightarrow> JNaN)"

definition unknown_state :: "string \<Rightarrow> warranty_state" where
  "unknown_state reason = \<lparr>ws_state = ''UNKNOWN'', ws_reason_code = Some reason, ws_warranty_id = None,
     ws_ends_at = None, ws_remaining_days = None\<rparr>"

fun at_most :: "js_number \<Rightarrow> int \<Rightarrow> bool" where
  "at_most (JInt i) k = (i \<le> k)"
| "at_most _ k = False"

definition effective_state :: "string \<Rightarrow> warranty \<Rightarrow> warranty_state" where
  "effective_state asOfDate w =
     (let remaining = daysBetween asOfDate (wa_ends_at w) in
      \<lparr>ws_state = (if wa_ends_at w \<le> asOfDate then ''EXPIRED''
          else if at_most remaining expiring_within_days then ''EXPIRING'' else ''VALID''),
       ws_reason_code = None, ws_warranty_id = Some (wa_id w), ws_ends_at = Some (wa_ends_at w),
       ws_remaining_days = Some remaining\<rparr>)"

definition evaluateWarrantyState :: "warranty list \<Rightarrow> int option \<Rightarrow> warranty_state" where
  "evaluateWarrantyState records asOf =
     (case asOf of
        None \<Rightarrow> unknown_state ''INVALID_AS_OF''
      | Some ms \<Rightarrow>
         let asOfDate = utc_date_text ms in
         if records = [] then unknown_state ''NO_WARRANTY''
         else if list_ex (\<lambda>r. \<not> validDate (wa_starts_at r) \<or> \<not> validDate (wa_ends_at r)
                   \<or> wa_ends_at r < wa_starts_at r) records
         then unknown_state ''INVALID_WARRANTY_EVIDENCE''
         else
           let started = filter (\<lambda>r. wa_starts_at r \<le> asOfDate) records;
               unexpired = filter (\<lambda>r. asOfDate < wa_ends_at r) started
           in (case unexpired of
                 [w] \<Rightarrow> effective_state asOfDate w
               | _ # _ \<Rightarrow> unknown_state ''AMBIGUOUS_WARRANTY_EVIDENCE''
               | [] \<Rightarrow>
                  (case started of
                     [w] \<Rightarrow> effective_state asOfDate w
                   | _ # _ \<Rightarrow> unknown_state ''AMBIGUOUS_WARRANTY_EVIDENCE''
                   | [] \<Rightarrow> unknown_state ''NO_EFFECTIVE_WARRANTY'')))"

section \<open>Warranties and orders\<close>

definition maintenance_transitions :: "(string \<times> string list) list" where
  "maintenance_transitions =
    [(''DRAFT'', [''OPEN'', ''CANCELLED'']),
     (''OPEN'', [''DIAGNOSING'', ''CANCELLED'']),
     (''DIAGNOSING'', [''WAITING_APPROVAL'', ''WAITING_PART'', ''WAITING_VENDOR'', ''IN_REPAIR'']),
     (''WAITING_APPROVAL'', [''IN_REPAIR'', ''CANCELLED'']),
     (''WAITING_PART'', [''IN_REPAIR'', ''CANCELLED'']),
     (''WAITING_VENDOR'', [''IN_REPAIR'', ''CANCELLED'']),
     (''IN_REPAIR'', [''VERIFYING'', ''FAILED'']),
     (''VERIFYING'', [''COMPLETED'', ''FAILED'']),
     (''COMPLETED'', []),
     (''CANCELLED'', []),
     (''FAILED'', [])]"

definition maintenanceClassifications :: "string list" where
  "maintenanceClassifications = [''CORRECTIVE'', ''PREVENTIVE'', ''INSPECTION'', ''OTHER'', ''UNKNOWN'']"

record order =
  mo_id :: string
  mo_tenant :: string
  mo_asset_id :: string
  mo_title :: string
  mo_description :: string
  mo_state :: string
  mo_version :: int
  mo_warranty_id :: "string option"
  mo_classification :: string
  mo_completed_at :: "int option"
  mo_updated_at :: int

record maintenance_db =
  warranties :: "warranty list"
  orders :: "order list"

abbreviation order_key :: "string \<Rightarrow> string \<Rightarrow> order \<Rightarrow> bool" where
  "order_key t i r \<equiv> mo_tenant r = t \<and> mo_id r = i"

definition find_order :: "string \<Rightarrow> string \<Rightarrow> maintenance_db \<Rightarrow> order option" where
  "find_order t i db = find_row (order_key t i) (orders db)"

record warranty_input =
  wi_asset_id :: string
  wi_provider :: string
  wi_contract_ref :: "string option"
  wi_starts_at :: string
  wi_ends_at :: string
  wi_coverage :: string

text \<open>A comparison with an invalid date is false, so an unreadable date reaches the database.\<close>

definition createWarranty ::
    "(string \<Rightarrow> int option) \<Rightarrow> (string \<Rightarrow> string option) \<Rightarrow> (exn + unit) \<Rightarrow> string \<Rightarrow> call_env \<Rightarrow> warranty_input
       \<Rightarrow> (maintenance_db, warranty) call" where
  "createWarranty parse pg_date validateAsset t env inp db =
    (case validateAsset of
       Inl e \<Rightarrow> (Inl e, db)
     | Inr _ \<Rightarrow>
        if blank (wi_provider inp) \<or> blank (wi_coverage inp)
           \<or> (case (parse (wi_ends_at inp), parse (wi_starts_at inp)) of (Some e, Some s) \<Rightarrow> e < s | _ \<Rightarrow> False)
        then (Inl (AppError VALIDATION_ERROR), db)
        else case (pg_date (wi_starts_at inp), pg_date (wi_ends_at inp)) of
          (Some s, Some e) \<Rightarrow>
            let row = \<lparr>wa_id = env_uuid env 0, wa_tenant = t, wa_asset_id = wi_asset_id inp,
                       wa_provider = wi_provider inp, wa_contract_ref = wi_contract_ref inp,
                       wa_starts_at = s, wa_ends_at = e, wa_coverage = wi_coverage inp\<rparr>
            in if e < s then (Inl (SqlError ''23514''), db)
               else (case insert_row (\<lambda>x y. wa_id x = wa_id y) row (warranties db) of
                  None \<Rightarrow> (Inl (SqlError ''23505''), db)
                | Some ws \<Rightarrow> (Inr row, db\<lparr>warranties := ws\<rparr>))
        | _ \<Rightarrow> (Inl (SqlError ''22007''), db))"

definition evaluateWarrantyForAsset :: "string \<Rightarrow> string \<Rightarrow> int option \<Rightarrow> maintenance_db \<Rightarrow> warranty_state" where
  "evaluateWarrantyForAsset t assetId asOf db =
     evaluateWarrantyState
       (sort_key wa_id (select_rows (\<lambda>w. wa_tenant w = t \<and> wa_asset_id w = assetId) (warranties db))) asOf"

definition queryWarrantyAsset ::
    "auth_port \<Rightarrow> string \<Rightarrow> principal \<Rightarrow> string \<Rightarrow> int option \<Rightarrow> maintenance_db \<Rightarrow> exn + warranty_state" where
  "queryWarrantyAsset port t p assetId asOf db =
     (if asOf = None then Inl (AppError VALIDATION_ERROR)
      else case authorize port \<lparr>rq_principal = p, rq_action = ''warranty.read'', rq_resource_type = ''warranty'', rq_resource_id = assetId,
                 rq_resource_tenant = t, rq_scope = [(''asset'', assetId), (''tenant'', t)]\<rparr> of
        Inl e \<Rightarrow> Inl e
      | Inr _ \<Rightarrow> Inr (evaluateWarrantyForAsset t assetId asOf db))"

definition evaluateWarrantyAssetForProjection ::
    "string \<Rightarrow> string \<Rightarrow> int option \<Rightarrow> maintenance_db \<Rightarrow> warranty_state" where
  "evaluateWarrantyAssetForProjection = evaluateWarrantyForAsset"

record order_input =
  oi_asset_id :: string
  oi_title :: string
  oi_description :: string
  oi_classification :: string
  oi_warranty_id :: "string option"

definition createMaintenance :: "string \<Rightarrow> call_env \<Rightarrow> order_input \<Rightarrow> (maintenance_db, order) call" where
  "createMaintenance t env inp db =
    (if blank (oi_title inp) \<or> blank (oi_description inp) then (Inl (AppError VALIDATION_ERROR), db)
     else if oi_classification inp \<notin> set (filter (\<lambda>c. c \<noteq> ''UNKNOWN'') maintenanceClassifications)
     then (Inl (AppError VALIDATION_ERROR), db)
     else if (case oi_warranty_id inp of None \<Rightarrow> False
              | Some w \<Rightarrow> find_row (\<lambda>x. wa_id x = w) (warranties db) = None)
     then (Inl (SqlError ''23503''), db)
     else
       let row = \<lparr>mo_id = env_uuid env 0, mo_tenant = t, mo_asset_id = oi_asset_id inp, mo_title = oi_title inp,
                  mo_description = oi_description inp, mo_state = ''DRAFT'', mo_version = 1,
                  mo_warranty_id = oi_warranty_id inp, mo_classification = oi_classification inp,
                  mo_completed_at = None, mo_updated_at = env_now env\<rparr>
       in case insert_row (\<lambda>x y. mo_id x = mo_id y) row (orders db) of
            None \<Rightarrow> (Inl (SqlError ''23505''), db)
          | Some os \<Rightarrow> (Inr row, db\<lparr>orders := os\<rparr>))"

record classification_input =
  cl_id :: string
  cl_expected_version :: js_number
  cl_classification :: string
  cl_reason :: string

record classification_result =
  cr_from :: "string option"
  cr_classification :: string
  cr_version :: int
  cr_no_op :: bool

definition terminal_orders :: "string list" where
  "terminal_orders = [''COMPLETED'', ''CANCELLED'', ''FAILED'']"

definition updateMaintenanceClassification ::
    "string \<Rightarrow> call_env \<Rightarrow> classification_input \<Rightarrow> (maintenance_db, classification_result) call" where
  "updateMaintenanceClassification t env inp db =
    (case find_order t (cl_id inp) db of
       None \<Rightarrow> (Inl (AppError NOT_FOUND), db)
     | Some current \<Rightarrow>
        (case assertVersion (mo_version current) (cl_expected_version inp) of
           Inl e \<Rightarrow> (Inl e, db)
         | Inr _ \<Rightarrow>
            if blank (cl_reason inp) \<or> mo_state current \<in> set terminal_orders
            then (Inl (AppError BUSINESS_RULE_VIOLATION), db)
            else if mo_classification current = cl_classification inp
            then (Inr \<lparr>cr_from = None, cr_classification = cl_classification inp,
                        cr_version = js_int (cl_expected_version inp), cr_no_op = True\<rparr>, db)
            else if cl_classification inp \<notin> set maintenanceClassifications
            then (Inl (SqlError ''23514''), db)
            else
              let version = js_int (cl_expected_version inp) + 1 in
              (Inr \<lparr>cr_from = Some (mo_classification current), cr_classification = cl_classification inp,
                    cr_version = version, cr_no_op = False\<rparr>,
               db\<lparr>orders := update_rows (order_key t (cl_id inp))
                  (\<lambda>r. r\<lparr>mo_classification := cl_classification inp, mo_version := version,
                         mo_updated_at := env_now env\<rparr>) (orders db)\<rparr>)))"

record history_order =
  ho_id :: string
  ho_classification :: string
  ho_completed_at :: int

definition queryMaintenanceAssetHistory ::
    "auth_port \<Rightarrow> string \<Rightarrow> principal \<Rightarrow> string \<Rightarrow> int option \<Rightarrow> int option \<Rightarrow> maintenance_db
       \<Rightarrow> exn + history_order list \<times> int" where
  "queryMaintenanceAssetHistory port t p assetId from to db =
     (case (from, to) of
        (Some a, Some b) \<Rightarrow>
          if b < a then Inl (AppError VALIDATION_ERROR)
          else (case authorize port \<lparr>rq_principal = p, rq_action = ''maintenance.read'',
                 rq_resource_type = ''maintenance'', rq_resource_id = assetId, rq_resource_tenant = t,
                 rq_scope = [(''asset'', assetId), (''tenant'', t)]\<rparr> of
            Inl e \<Rightarrow> Inl e
          | Inr _ \<Rightarrow>
             let rows = sort_key (\<lambda>r. the (mo_completed_at r)) (sort_key mo_id (select_rows
                   (\<lambda>r. mo_tenant r = t \<and> mo_asset_id r = assetId \<and> mo_state r = ''COMPLETED''
                      \<and> (case mo_completed_at r of None \<Rightarrow> False | Some c \<Rightarrow> a \<le> c \<and> c < b)) (orders db)))
             in Inr (map (\<lambda>r. \<lparr>ho_id = mo_id r, ho_classification = mo_classification r,
                               ho_completed_at = the (mo_completed_at r)\<rparr>) rows,
                     int (length (filter (\<lambda>r. mo_classification r = ''UNKNOWN'') rows))))
      | _ \<Rightarrow> Inl (AppError VALIDATION_ERROR))"

record order_move =
  om_id :: string
  om_expected_version :: js_number
  om_target :: string
  om_reason :: string

definition transitionMaintenance ::
    "string \<Rightarrow> call_env \<Rightarrow> order_move \<Rightarrow> (maintenance_db, string \<times> string \<times> int) call" where
  "transitionMaintenance t env inp db =
    (case find_order t (om_id inp) db of
       None \<Rightarrow> (Inl (AppError NOT_FOUND), db)
     | Some item \<Rightarrow>
        (case assertVersion (mo_version item) (om_expected_version inp) of
           Inl e \<Rightarrow> (Inl e, db)
         | Inr _ \<Rightarrow>
            if blank (om_reason inp) \<or> om_target inp \<notin> set (table_targets maintenance_transitions (mo_state item))
            then (Inl (AppError BUSINESS_RULE_VIOLATION), db)
            else
              let version = js_int (om_expected_version inp) + 1 in
              (Inr (mo_state item, om_target inp, version),
               db\<lparr>orders := update_rows (order_key t (om_id inp))
                  (\<lambda>r. r\<lparr>mo_state := om_target inp, mo_version := version,
                         mo_completed_at := (if om_target inp = ''COMPLETED'' then Some (env_now env)
                                             else mo_completed_at r),
                         mo_updated_at := env_now env\<rparr>) (orders db)\<rparr>)))"

section \<open>Warranty states by day numbers\<close>

definition start_day :: "warranty \<Rightarrow> int" where
  "start_day w = (case date_of_text (wa_starts_at w) of None \<Rightarrow> 0 | Some x \<Rightarrow> day_number x)"

definition end_day :: "warranty \<Rightarrow> int" where
  "end_day w = (case date_of_text (wa_ends_at w) of None \<Rightarrow> 0 | Some x \<Rightarrow> day_number x)"

definition dated :: "warranty \<Rightarrow> bool" where
  "dated w \<longleftrightarrow> validDate (wa_starts_at w) \<and> validDate (wa_ends_at w) \<and> start_day w \<le> end_day w"

text \<open>The policy in terms of days: what the texts of the code are meant to decide on day \<open>D\<close>.\<close>

definition warranty_reference :: "warranty list \<Rightarrow> int \<Rightarrow> string \<times> string option \<times> js_number option" where
  "warranty_reference ws D =
     (let started = filter (\<lambda>w. start_day w \<le> D) ws;
          running = filter (\<lambda>w. D < end_day w) started
      in case running of
           [w] \<Rightarrow> (if end_day w - D \<le> 90 then ''EXPIRING'' else ''VALID'', Some (wa_id w), Some (JInt (end_day w - D)))
         | [] \<Rightarrow> (case started of
                  [w] \<Rightarrow> (''EXPIRED'', Some (wa_id w), Some (JInt (end_day w - D)))
                | _ \<Rightarrow> (''UNKNOWN'', None, None))
         | _ \<Rightarrow> (''UNKNOWN'', None, None))"

lemma year_of_range:
  assumes "0 \<le> D" and "D < year_start 10000"
  shows "0 \<le> year_of D" "year_of D \<le> 9999"
proof -
  show "0 \<le> year_of D"
  proof (rule ccontr)
    assume "\<not> 0 \<le> year_of D"
    then have "year_start (year_of D + 1) \<le> year_start 0"
      using year_start_mono [of "year_of D + 1" 0] by (cases "year_of D + 1 = 0") auto
    then show False using year_of_bounds(2) [of D] assms(1) by (simp add: year_start_def)
  qed
  show "year_of D \<le> 9999"
  proof (rule ccontr)
    assume "\<not> year_of D \<le> 9999"
    then have "year_start 10000 \<le> year_start (year_of D)"
      using year_start_mono [of 10000 "year_of D"] by (cases "year_of D = 10000") auto
    then show False using year_of_bounds(1) [of D] assms(2) by simp
  qed
qed

lemma utc_date_text_day:
  assumes "D = epoch_day + ms div day_ms" and "0 \<le> D" and "D < year_start 10000"
  shows "date_of_text (utc_date_text ms) = Some (civil D)"
proof -
  obtain m d where c: "civil D = (year_of D, m, d)" by (auto simp: civil_def Let_def prod_eq_iff)
  have "length (iso_date (civil D)) = 10" using year_of_range [OF assms(2,3)] by (simp add: c)
  then have "utc_date_text ms = iso_date (civil D)" by (simp add: utc_date_text_def assms(1))
  then show ?thesis
    using civil_spec [of D] year_of_range [OF assms(2,3)] date_of_iso_date unfolding c by metis
qed

lemma text_vs_day:
  assumes "date_of_text s = Some x" and "date_of_text s' = Some x'"
  shows "s \<le> s' \<longleftrightarrow> day_number x \<le> day_number x'"
  using date_text_less [OF assms(2,1)] by (auto simp: not_less [symmetric])

lemma dated_texts:
  assumes "dated w" and "date_of_text today = Some x"
  shows "wa_starts_at w \<le> today \<longleftrightarrow> start_day w \<le> day_number x"
    and "today < wa_ends_at w \<longleftrightarrow> day_number x < end_day w"
    and "wa_ends_at w \<le> today \<longleftrightarrow> end_day w \<le> day_number x"
    and "\<not> wa_ends_at w < wa_starts_at w"
    and "daysBetween today (wa_ends_at w) = JInt (end_day w - day_number x)"
proof -
  from assms(1) obtain s e where d: "date_of_text (wa_starts_at w) = Some s" "date_of_text (wa_ends_at w) = Some e"
    "day_number s \<le> day_number e"
    by (auto simp: dated_def validDate_def start_day_def end_day_def)
  note d' = d(1,2) assms(2)
  show "wa_starts_at w \<le> today \<longleftrightarrow> start_day w \<le> day_number x"
    and "today < wa_ends_at w \<longleftrightarrow> day_number x < end_day w"
    and "wa_ends_at w \<le> today \<longleftrightarrow> end_day w \<le> day_number x"
    and "\<not> wa_ends_at w < wa_starts_at w"
    and "daysBetween today (wa_ends_at w) = JInt (end_day w - day_number x)"
    using d(3) by (simp_all add: start_day_def end_day_def daysBetween_def d' text_vs_day [OF d'(1) d'(3)]
        text_vs_day [OF d'(2) d'(3)] date_text_less [OF d'(3) d'(2)] date_text_less [OF d'(2) d'(1)])
qed

lemma warranty_days:
  assumes "\<And>w. w \<in> set ws \<Longrightarrow> dated w" and "D = epoch_day + ms div day_ms" and "0 \<le> D" and "D < year_start 10000"
  shows "(\<lambda>r. (ws_state r, ws_warranty_id r, ws_remaining_days r)) (evaluateWarrantyState ws (Some ms)) = warranty_reference ws D"
proof -
  let ?today = "utc_date_text ms"
  have today: "date_of_text ?today = Some (civil D)" using assms(2-4) by (rule utc_date_text_day)
  have D: "day_number (civil D) = D" using civil_spec by blast
  note texts = dated_texts [OF assms(1) today, unfolded D]
  have ok: "\<not> list_ex (\<lambda>r. \<not> validDate (wa_starts_at r) \<or> \<not> validDate (wa_ends_at r) \<or> wa_ends_at r < wa_starts_at r) ws"
    using assms(1) texts(4) by (auto simp: list_ex_iff dated_def)
  have started: "filter (\<lambda>r. wa_starts_at r \<le> ?today) ws = filter (\<lambda>w. start_day w \<le> D) ws"
    using texts(1) by (auto intro: filter_cong)
  have running: "filter (\<lambda>r. ?today < wa_ends_at r) (filter (\<lambda>w. start_day w \<le> D) ws)
      = filter (\<lambda>w. D < end_day w) (filter (\<lambda>w. start_day w \<le> D) ws)"
    using texts(2) by (auto intro: filter_cong)
  have eff: "effective_state ?today w = \<lparr>ws_state = (if end_day w \<le> D then ''EXPIRED''
        else if end_day w - D \<le> 90 then ''EXPIRING'' else ''VALID''), ws_reason_code = None,
      ws_warranty_id = Some (wa_id w), ws_ends_at = Some (wa_ends_at w), ws_remaining_days = Some (JInt (end_day w - D))\<rparr>"
    if "w \<in> set ws" for w
    using texts(3,5) [OF that] by (simp add: effective_state_def expiring_within_days_def Let_def)
  define S where "S = filter (\<lambda>w. start_day w \<le> D) ws"
  define R where "R = filter (\<lambda>w. D < end_day w) S"
  have running': "filter (\<lambda>r. ?today < wa_ends_at r) S = R"
    unfolding R_def S_def by (rule running)
  have code: "evaluateWarrantyState ws (Some ms) =
      (if ws = [] then unknown_state ''NO_WARRANTY''
       else case R of
         [w] \<Rightarrow> effective_state ?today w
       | _ # _ \<Rightarrow> unknown_state ''AMBIGUOUS_WARRANTY_EVIDENCE''
       | [] \<Rightarrow> (case S of [w] \<Rightarrow> effective_state ?today w
                | _ # _ \<Rightarrow> unknown_state ''AMBIGUOUS_WARRANTY_EVIDENCE''
                | [] \<Rightarrow> unknown_state ''NO_EFFECTIVE_WARRANTY''))"
    unfolding evaluateWarrantyState_def Let_def option.case started S_def [symmetric] running'
    using ok by (simp only: if_False)
  have R: "w \<in> set ws \<and> D < end_day w" if "R = [w]" for w
  proof -
    have "w \<in> set R" unfolding that by simp
    then show ?thesis by (simp add: R_def S_def)
  qed
  have S: "w \<in> set ws \<and> end_day w \<le> D" if "S = [w]" "R = []" for w
  proof -
    have "w \<in> set S" unfolding that by simp
    then have "w \<in> set ws" by (simp add: S_def)
    moreover have "end_day w \<le> D" using that by (simp add: R_def split: if_splits)
    ultimately show ?thesis ..
  qed
  have ref: "warranty_reference ws D =
      (case R of
         [w] \<Rightarrow> (if end_day w - D \<le> 90 then ''EXPIRING'' else ''VALID'', Some (wa_id w), Some (JInt (end_day w - D)))
       | [] \<Rightarrow> (case S of [w] \<Rightarrow> (''EXPIRED'', Some (wa_id w), Some (JInt (end_day w - D)))
              | _ \<Rightarrow> (''UNKNOWN'', None, None))
       | _ \<Rightarrow> (''UNKNOWN'', None, None))"
    unfolding warranty_reference_def Let_def S_def [symmetric] R_def [symmetric] ..
  have empty: "S = []" "R = []" if "ws = []" using that by (simp_all add: S_def R_def)
  consider w where "R = [w]" | w where "R = []" "S = [w]" | "R = []" "S = []" | w v rs where "R = w # v # rs"
    | w v rs where "R = []" "S = w # v # rs"
    by (cases R; cases S; cases "tl R"; cases "tl S") auto
  then show ?thesis
  proof cases
    case (1 w)
    with R [OF 1] empty(2) show ?thesis by (auto simp: code ref eff)
  next
    case (2 w)
    with S [OF 2(2,1)] empty(1) show ?thesis by (auto simp: code ref eff)
  qed (auto simp: code ref unknown_state_def)
qed

section \<open>Order histories\<close>

definition order_states :: "string list" where
  "order_states = map fst maintenance_transitions"

lemma transitionMaintenance_Inr:
  assumes "transitionMaintenance t env inp db = (Inr r, db')"
  obtains x f where "find_order t (om_id inp) db = Some x" and "om_expected_version inp = JInt (mo_version x)"
    and "om_target inp \<in> set (table_targets maintenance_transitions (mo_state x))"
    and "db' = db\<lparr>orders := update_rows (order_key t (om_id inp)) f (orders db)\<rparr>"
    and "\<And>y. mo_tenant (f y) = mo_tenant y \<and> mo_id (f y) = mo_id y \<and> mo_state (f y) = om_target inp
           \<and> mo_version (f y) = mo_version x + 1"
  using assms
  by (auto simp: transitionMaintenance_def Let_def assertVersion_Inr split: option.splits sum.splits if_splits intro!: that)

interpretation maintenance_machine: keyed_machine
  "table_targets maintenance_transitions" order_states t
  "\<lambda>i. transitionMaintenance t (fst i) ((snd i)\<lparr>om_id := oid\<rparr>)"
  "\<lambda>i. om_expected_version (snd i)" "find_order t oid" mo_version mo_state
  for t oid
proof unfold_locales
  have "table_closed maintenance_transitions" by (simp add: table_closed_def maintenance_transitions_def)
  then show "y \<in> set (table_targets maintenance_transitions x) \<Longrightarrow> y \<in> set order_states" for x y
    using table_closedD by (simp add: order_states_def)
next
  fix i s a s'
  assume "transitionMaintenance t (fst i) ((snd i)\<lparr>om_id := oid\<rparr>) s = (Inr a, s')"
  then show "\<exists>r r'. find_order t oid s = Some r \<and> find_order t oid s' = Some r'
      \<and> om_expected_version (snd i) = JInt (mo_version r) \<and> mo_version r' = mo_version r + 1
      \<and> (mo_state r' = mo_state r \<or> mo_state r' \<in> set (table_targets maintenance_transitions (mo_state r)))"
    by (elim transitionMaintenance_Inr) (simp add: find_order_def find_row_update_same)
qed

datatype maintenance_call =
    CreateWarranty call_env "exn + unit" warranty_input
  | CreateOrder call_env order_input
  | Reclassify call_env classification_input
  | MoveOrder call_env order_move

fun maintenance_step ::
    "(string \<Rightarrow> int option) \<Rightarrow> (string \<Rightarrow> string option) \<Rightarrow> string \<Rightarrow> maintenance_call \<Rightarrow> (maintenance_db, unit) call" where
  "maintenance_step parse pg_date t (CreateWarranty env v i) db = forget (createWarranty parse pg_date v t env i db)"
| "maintenance_step parse pg_date t (CreateOrder env i) db = forget (createMaintenance t env i db)"
| "maintenance_step parse pg_date t (Reclassify env i) db = forget (updateMaintenanceClassification t env i db)"
| "maintenance_step parse pg_date t (MoveOrder env i) db = forget (transitionMaintenance t env i db)"

fun maintenance_run ::
    "(string \<Rightarrow> int option) \<Rightarrow> (string \<Rightarrow> string option) \<Rightarrow> string \<Rightarrow> maintenance_call list \<Rightarrow> maintenance_db \<Rightarrow> maintenance_db" where
  "maintenance_run parse pg_date t [] db = db"
| "maintenance_run parse pg_date t (c # cs) db =
     maintenance_run parse pg_date t cs (snd (uow t (maintenance_step parse pg_date t c) db))"

lemma maintenance_run_calls:
  "maintenance_run parse pg_date t cs db = pg.run_calls t (map (maintenance_step parse pg_date t) cs) db"
  by (induction cs arbitrary: db) simp_all

text \<open>A finished order is never touched again.\<close>

definition finished_kept :: "maintenance_db \<Rightarrow> maintenance_db \<Rightarrow> bool" where
  "finished_kept db db' \<longleftrightarrow> (\<forall>t i x. find_order t i db = Some x \<and> mo_state x \<in> set terminal_orders \<longrightarrow>
     find_order t i db' = Some x)"

lemma finished_kept_update:
  assumes "find_order t i db = Some x" and "mo_state x \<notin> set terminal_orders"
    and "\<And>y. mo_tenant (f y) = mo_tenant y \<and> mo_id (f y) = mo_id y"
  shows "finished_kept db (db\<lparr>orders := update_rows (order_key t i) f (orders db)\<rparr>)"
  unfolding finished_kept_def
proof (intro allI impI, elim conjE)
  fix u j y
  assume y: "find_order u j db = Some y" "mo_state y \<in> set terminal_orders"
  then have "\<not> (u = t \<and> j = i)" using assms(1,2) by auto
  with y(1) show "find_order u j (db\<lparr>orders := update_rows (order_key t i) f (orders db)\<rparr>) = Some y"
    using find_row_update_other [of "order_key t i" "order_key u j" f "orders db"] assms(3)
    by (simp add: find_order_def)
qed

lemma finished_kept_step:
  assumes "maintenance_step parse pg_date t c db = (Inr a, db')"
  shows "finished_kept db db'"
proof (cases c)
  case (CreateWarranty env v i)
  with assms have "orders db' = orders db"
    by (auto simp: forget_Inr createWarranty_def Let_def split: sum.splits if_splits option.splits)
  then show ?thesis by (simp add: finished_kept_def find_order_def)
next
  case (CreateOrder env i)
  with assms show ?thesis
    by (auto simp: forget_Inr createMaintenance_def Let_def finished_kept_def find_order_def insert_row_Some_iff find_row_append
        split: if_splits option.splits)
next
  case (Reclassify env i)
  with assms obtain r where "updateMaintenanceClassification t env i db = (Inr r, db')" by (auto simp: forget_Inr)
  then consider "db' = db" | x where "find_order t (cl_id i) db = Some x" "mo_state x \<notin> set terminal_orders"
      "db' = db\<lparr>orders := update_rows (order_key t (cl_id i))
         (\<lambda>r. r\<lparr>mo_classification := cl_classification i, mo_version := js_int (cl_expected_version i) + 1,
                mo_updated_at := env_now env\<rparr>) (orders db)\<rparr>"
    by (auto simp: updateMaintenanceClassification_def Let_def split: option.splits sum.splits if_splits)
  then show ?thesis
  proof cases
    case 1
    then show ?thesis by (simp add: finished_kept_def)
  next
    case 2
    show ?thesis unfolding 2(3) by (rule finished_kept_update [OF 2(1,2)]) simp
  qed
next
  case (MoveOrder env i)
  with assms obtain r where "transitionMaintenance t env i db = (Inr r, db')" by (auto simp: forget_Inr)
  then obtain x f where x: "find_order t (om_id i) db = Some x"
    "om_target i \<in> set (table_targets maintenance_transitions (mo_state x))"
    "db' = db\<lparr>orders := update_rows (order_key t (om_id i)) f (orders db)\<rparr>"
    "\<And>y. mo_tenant (f y) = mo_tenant y \<and> mo_id (f y) = mo_id y" by (rule transitionMaintenance_Inr) blast
  from x(2) have "mo_state x \<notin> set terminal_orders"
    by (auto simp: terminal_orders_def maintenance_transitions_def)
  with x show ?thesis by (auto intro: finished_kept_update)
qed

lemma finished_kept_run: "finished_kept db (maintenance_run parse pg_date t cs db)"
  unfolding maintenance_run_calls
proof -
  have "reflp finished_kept" by (simp add: reflp_def finished_kept_def)
  moreover have "transp finished_kept" by (rule transpI) (simp add: finished_kept_def)
  ultimately show "finished_kept db (pg.run_calls t (map (maintenance_step parse pg_date t) cs) db)"
    by (rule pg.run_calls_related) (auto intro: finished_kept_step)
qed

section \<open>Properties\<close>

text \<open>C32: The warranty state decided from date texts is the policy on days: of the warranties that have started,
  exactly one that has not ended makes the asset VALID, or EXPIRING in its last 90 days; one that has
  ended makes it EXPIRED; anything else, overlapping evidence included, is UNKNOWN.\<close>

theorem warranty_state_exact:
  assumes "list_all dated ws" and "0 \<le> epoch_day + ms div day_ms" and "epoch_day + ms div day_ms < year_start 10000"
  shows "(\<lambda>r. (ws_state r, ws_warranty_id r, ws_remaining_days r)) (evaluateWarrantyState ws (Some ms))
    = warranty_reference ws (epoch_day + ms div day_ms)"
  using assms by (intro warranty_days) (auto simp: list_all_iff)

definition sample_warranty :: warranty where
  "sample_warranty = \<lparr>wa_id = ''w'', wa_tenant = ''t'', wa_asset_id = ''a'', wa_provider = ''p'', wa_contract_ref = None,
     wa_starts_at = ''1970-01-01'', wa_ends_at = ''1970-04-02'', wa_coverage = ''c''\<rparr>"

theorem warranty_state_exact_witness:
  "ws_state (evaluateWarrantyState [sample_warranty] (Some day_ms)) = ''EXPIRING''"
proof -
  have "list_all dated [sample_warranty]" by code_simp
  moreover have "0 \<le> epoch_day + day_ms div day_ms" "epoch_day + day_ms div day_ms < year_start 10000" by code_simp+
  ultimately have "(\<lambda>r. (ws_state r, ws_warranty_id r, ws_remaining_days r))
      (evaluateWarrantyState [sample_warranty] (Some day_ms)) = warranty_reference [sample_warranty] (epoch_day + day_ms div day_ms)"
    by (rule warranty_state_exact)
  moreover have "fst (warranty_reference [sample_warranty] (epoch_day + day_ms div day_ms)) = ''EXPIRING''" by code_simp
  ultimately show ?thesis by (metis fst_conv)
qed

text \<open>A maintenance order that is completed, cancelled or failed never changes again, neither its state nor
  its classification, whatever maintenance commands follow.\<close>

theorem finished_order_frozen:
  assumes "find_order u i db = Some x" and "mo_state x \<in> {''COMPLETED'', ''CANCELLED'', ''FAILED''}"
  shows "find_order u i (maintenance_run parse pg_date t cs db) = Some x"
  using finished_kept_run [of db parse pg_date t cs] assms by (auto simp: finished_kept_def terminal_orders_def)

definition done_order :: order where
  "done_order = \<lparr>mo_id = ''o'', mo_tenant = ''t'', mo_asset_id = ''a'', mo_title = ''fan'', mo_description = ''noise'',
     mo_state = ''COMPLETED'', mo_version = 5, mo_warranty_id = None, mo_classification = ''UNKNOWN'',
     mo_completed_at = Some 9, mo_updated_at = 9\<rparr>"

definition done_env :: call_env where
  "done_env = \<lparr>env_now = 10, env_iso = [], env_uuid = (\<lambda>_. ''u''), env_valid_event = (\<lambda>_. True)\<rparr>"

theorem finished_order_frozen_witness:
  "find_order ''t'' ''o'' (maintenance_run (\<lambda>_. None) (\<lambda>_. None) ''t''
     [Reclassify done_env \<lparr>cl_id = ''o'', cl_expected_version = JInt 5, cl_classification = ''CORRECTIVE'', cl_reason = ''r''\<rparr>,
      MoveOrder done_env \<lparr>om_id = ''o'', om_expected_version = JInt 5, om_target = ''FAILED'', om_reason = ''r''\<rparr>]
     \<lparr>warranties = [], orders = [done_order]\<rparr>) = Some done_order"
  by (rule finished_order_frozen) (simp_all add: find_order_def find_row_Cons done_order_def)

end
