(* ===== verification/Control_Plane.thy ===== *)
theory Control_Plane
  imports Messaging
begin

text \<open>
  \<open>modules/control-plane/application\<close>: approval requests and their decisions (\<open>approval.ts\<close>)
  and SLA instances (\<open>sla.ts\<close>), over \<open>database/migrations/control\<close>. A due date is the instant it
  denotes in milliseconds; a start text that \<open>Date\<close> cannot read makes \<open>toISOString\<close> throw.
  The ids of approvals are kept as their UUID columns give them back.
\<close>

text \<open>
  A text in a UUID column, in the spelling that the routes let through, reads back in lower case; no other value is one.
\<close>

definition uuid_shape :: "string \<Rightarrow> bool" where
  "uuid_shape s \<longleftrightarrow>
     list_all2 (\<lambda>p c. p c) (replicate 8 is_hex @ [\<lambda>c. c = CHR ''-''] @ replicate 4 is_hex @ [\<lambda>c. c = CHR ''-'']
       @ replicate 4 is_hex @ [\<lambda>c. c = CHR ''-''] @ replicate 4 is_hex @ [\<lambda>c. c = CHR ''-''] @ replicate 12 is_hex) s"

definition uuid_of_text :: "string \<Rightarrow> exn + string" where
  "uuid_of_text s = (if uuid_shape s then Inr (js_lower s) else Inl (SqlError ''22P02''))"

lemma uuid_of_text_Inr: "uuid_of_text s = Inr u \<longleftrightarrow> uuid_shape s \<and> u = js_lower s"
  by (auto simp: uuid_of_text_def)

lemma uuid_of_text_lower: "uuid_of_text s = Inr u \<Longrightarrow> u = js_lower s"
  by (simp add: uuid_of_text_def split: if_splits)

lemma js_lower_char_idem: "js_lower_char (js_lower_char c) = js_lower_char c"
  by (auto simp: js_lower_char_def Let_def)

lemma js_lower_idem [simp]: "js_lower (js_lower s) = js_lower s"
  by (simp add: js_lower_def js_lower_char_idem)

section \<open>Approvals\<close>

record approval_policy =
  apol_id :: string
  apol_tenant :: string
  apol_version :: int
  apol_state :: string

record approval_request =
  aq_id :: string
  aq_tenant :: string
  aq_source_type :: string
  aq_source_id :: string
  aq_policy_id :: string
  aq_policy_version :: int
  aq_requested_by :: string
  aq_state :: string
  aq_context :: json
  aq_version :: int

record approval_decision =
  ad_id :: string
  ad_tenant :: string
  ad_request_id :: string
  ad_actor_id :: string
  ad_decision :: string
  ad_reason :: string

record approval_db =
  approval_policies :: "approval_policy list"
  approval_requests :: "approval_request list"
  approval_decisions :: "approval_decision list"

text \<open>Primary key, and the one request per invoice source.\<close>

definition approval_clash :: "approval_request \<Rightarrow> approval_request \<Rightarrow> bool" where
  "approval_clash x y \<longleftrightarrow> aq_id x = aq_id y \<or>
     (aq_source_type x \<in> set [''INVOICE_APPROVAL'', ''INVOICE_MATCH_EXCEPTION'']
      \<and> aq_tenant x = aq_tenant y \<and> aq_source_type x = aq_source_type y \<and> aq_source_id x = aq_source_id y)"

record approval_input =
  pi_source_type :: string
  pi_source_id :: string
  pi_policy_id :: string
  pi_policy_version :: js_number
  pi_requester_id :: string
  pi_context :: "json option"

definition createApproval ::
    "string \<Rightarrow> call_env \<Rightarrow> approval_input \<Rightarrow> (approval_db, string \<times> string \<times> int \<times> string \<times> string) call" where
  "createApproval t env inp db =
    (case uuid_of_text (pi_policy_id inp) of
       Inl e \<Rightarrow> (Inl e, db)
     | Inr policy \<Rightarrow>
        if find_row (\<lambda>p. apol_tenant p = t \<and> apol_id p = policy
              \<and> JInt (apol_version p) = pi_policy_version inp \<and> apol_state p = ''ACTIVE'') (approval_policies db) = None
        then (Inl (AppError NOT_FOUND), db)
        else case (uuid_of_text (pi_source_id inp), uuid_of_text (pi_requester_id inp)) of
           (Inr source, Inr requester) \<Rightarrow>
             (let row = \<lparr>aq_id = env_uuid env 0, aq_tenant = t, aq_source_type = pi_source_type inp,
                        aq_source_id = source, aq_policy_id = policy,
                        aq_policy_version = js_int (pi_policy_version inp),
                        aq_requested_by = requester, aq_state = ''PENDING'',
                        aq_context = (case pi_context inp of None \<Rightarrow> JObj [] | Some JNull \<Rightarrow> JObj [] | Some c \<Rightarrow> c),
                        aq_version = 1\<rparr>
              in case insert_row approval_clash row (approval_requests db) of
                   None \<Rightarrow> (Inl (SqlError ''23505''), db)
                 | Some rs \<Rightarrow> (Inr (env_uuid env 0, ''PENDING'', 1, pi_source_type inp, pi_source_id inp),
                               db\<lparr>approval_requests := rs\<rparr>))
         | _ \<Rightarrow> (Inl (SqlError ''22P02''), db))"

record decision_input =
  dx_request_id :: string
  dx_expected_version :: js_number
  dx_actor_id :: string
  dx_decision :: string
  dx_reason :: string

abbreviation approval_key :: "string \<Rightarrow> string \<Rightarrow> approval_request \<Rightarrow> bool" where
  "approval_key t i r \<equiv> aq_tenant r = t \<and> aq_id r = i"

definition find_approval :: "string \<Rightarrow> string \<Rightarrow> approval_db \<Rightarrow> approval_request option" where
  "find_approval t i db = find_row (approval_key t i) (approval_requests db)"

definition decisions :: "string list" where
  "decisions = [''APPROVED'', ''REJECTED'', ''CHANGES_REQUESTED'']"

definition decideApproval ::
    "string \<Rightarrow> call_env \<Rightarrow> decision_input \<Rightarrow> (approval_db, string \<times> string \<times> int) call" where
  "decideApproval t env inp db =
    (if dx_decision inp \<notin> set decisions \<or> blank (dx_reason inp)
     then (Inl (AppError VALIDATION_ERROR), db)
     else case uuid_of_text (dx_request_id inp) of
       Inl e \<Rightarrow> (Inl e, db)
     | Inr rid \<Rightarrow>
     (case find_approval t rid db of
       None \<Rightarrow> (Inl (AppError NOT_FOUND), db)
     | Some request \<Rightarrow>
        (case assertVersion (aq_version request) (dx_expected_version inp) of
           Inl e \<Rightarrow> (Inl e, db)
         | Inr _ \<Rightarrow>
            if aq_requested_by request = dx_actor_id inp then (Inl (AppError BUSINESS_RULE_VIOLATION), db)
            else if aq_state request \<noteq> ''PENDING'' then (Inl (AppError BUSINESS_RULE_VIOLATION), db)
            else
              let version = js_int (dx_expected_version inp) + 1;
                  db1 = db\<lparr>approval_requests := update_rows (approval_key t rid)
                          (\<lambda>r. r\<lparr>aq_state := dx_decision inp, aq_version := version\<rparr>) (approval_requests db)\<rparr>
              in (case uuid_of_text (dx_actor_id inp) of
                    Inl e \<Rightarrow> (Inl e, db1)
                  | Inr actor \<Rightarrow>
                 (case insert_row (\<lambda>x y. ad_id x = ad_id y)
                    \<lparr>ad_id = env_uuid env 0, ad_tenant = t, ad_request_id = rid,
                     ad_actor_id = actor, ad_decision = dx_decision inp,
                     ad_reason = dx_reason inp\<rparr> (approval_decisions db1) of
                    None \<Rightarrow> (Inl (SqlError ''23505''), db1)
                  | Some ds \<Rightarrow> (Inr (dx_request_id inp, dx_decision inp, version),
                                db1\<lparr>approval_decisions := ds\<rparr>))))))"

text \<open>The table the code's tests amount to.\<close>

definition approval_table :: "(string \<times> string list) list" where
  "approval_table = [(''PENDING'', decisions), (''APPROVED'', []), (''REJECTED'', []), (''CHANGES_REQUESTED'', [])]"

definition approval_states :: "string list" where
  "approval_states = map fst approval_table"

definition approval_command ::
    "string \<Rightarrow> string \<Rightarrow> call_env \<times> decision_input \<Rightarrow> (approval_db, string \<times> string \<times> int) call" where
  "approval_command t rid i = decideApproval t (fst i) ((snd i)\<lparr>dx_request_id := rid\<rparr>)"

lemma decideApproval_Inr:
  assumes "decideApproval t env inp db = (Inr r, db')"
  obtains rid request ds where "rid = js_lower (dx_request_id inp)" and "find_approval t rid db = Some request"
    and "dx_expected_version inp = JInt (aq_version request)" and "dx_decision inp \<in> set decisions"
    and "aq_requested_by request \<noteq> dx_actor_id inp" and "aq_state request = ''PENDING''"
    and "db' = db\<lparr>approval_requests := update_rows (approval_key t rid)
            (\<lambda>r. r\<lparr>aq_state := dx_decision inp, aq_version := aq_version request + 1\<rparr>) (approval_requests db),
          approval_decisions := ds\<rparr>"
    and "ds = approval_decisions db @ [\<lparr>ad_id = env_uuid env 0, ad_tenant = t, ad_request_id = rid,
                     ad_actor_id = js_lower (dx_actor_id inp), ad_decision = dx_decision inp, ad_reason = dx_reason inp\<rparr>]"
  using assms
  by (auto simp: decideApproval_def Let_def assertVersion_Inr insert_row_Some_iff uuid_of_text_Inr
      split: if_splits option.splits sum.splits)

lemma createApproval_Inr:
  assumes "createApproval t env inp db = (Inr r, db')"
  obtains row where "insert_row approval_clash row (approval_requests db) = Some (approval_requests db')"
    and "approval_decisions db' = approval_decisions db" and "aq_state row = ''PENDING''"
  using assms by (auto simp: createApproval_def Let_def split: if_splits option.splits sum.splits)

interpretation approval_machine: keyed_machine
  "table_targets approval_table" approval_states t "approval_command t rid"
  "\<lambda>i. dx_expected_version (snd i)" "find_approval t (js_lower rid)" aq_version aq_state
  for t rid
proof unfold_locales
  have "table_closed approval_table" by (simp add: table_closed_def approval_table_def decisions_def)
  then show "y \<in> set (table_targets approval_table x) \<Longrightarrow> y \<in> set approval_states" for x y
    using table_closedD by (simp add: approval_states_def)
next
  fix i s a s'
  assume "approval_command t rid i s = (Inr a, s')"
  then show "\<exists>r r'. find_approval t (js_lower rid) s = Some r \<and> find_approval t (js_lower rid) s' = Some r'
      \<and> dx_expected_version (snd i) = JInt (aq_version r) \<and> aq_version r' = aq_version r + 1
      \<and> (aq_state r' = aq_state r \<or> aq_state r' \<in> set (table_targets approval_table (aq_state r)))"
    unfolding approval_command_def
    by (elim decideApproval_Inr) (simp add: find_approval_def find_row_update_same approval_table_def)
qed

text \<open>
  What the tables promise: the decisions on record were taken by someone other than the requester,
  and a decided request has its decision on record.
\<close>

definition decided_by_others :: "approval_db \<Rightarrow> bool" where
  "decided_by_others db \<longleftrightarrow> (\<forall>d\<in>set (approval_decisions db). \<forall>r\<in>set (approval_requests db).
     aq_tenant r = ad_tenant d \<and> aq_id r = ad_request_id d \<longrightarrow> aq_requested_by r \<noteq> ad_actor_id d)"

definition decisions_backed :: "approval_db \<Rightarrow> bool" where
  "decisions_backed db \<longleftrightarrow> (\<forall>r\<in>set (approval_requests db). aq_state r \<in> set decisions \<longrightarrow>
     (\<exists>d\<in>set (approval_decisions db). ad_tenant d = aq_tenant r \<and> ad_request_id d = aq_id r
        \<and> ad_decision d = aq_state r))"

definition approval_inv :: "approval_db \<Rightarrow> bool" where
  "approval_inv db \<longleftrightarrow> unique_rows (\<lambda>x y. aq_id x = aq_id y) (approval_requests db)
     \<and> ad_request_id ` set (approval_decisions db) \<subseteq> aq_id ` set (approval_requests db)
     \<and> decided_by_others db \<and> decisions_backed db"

lemma approval_inv_create:
  assumes inv: "approval_inv db" and ok: "createApproval t env inp db = (Inr r, db')"
  shows "approval_inv db'"
proof -
  from ok obtain row where ins: "insert_row approval_clash row (approval_requests db) = Some (approval_requests db')"
    and same: "approval_decisions db' = approval_decisions db" and st: "aq_state row = ''PENDING''"
    by (rule createApproval_Inr)
  have rows: "approval_requests db' = approval_requests db @ [row]"
    and fresh: "\<forall>x\<in>set (approval_requests db). aq_id x \<noteq> aq_id row"
    using ins by (auto simp: insert_row_Some_iff approval_clash_def)
  have "unique_rows (\<lambda>x y. aq_id x = aq_id y) (approval_requests db')"
    using inv fresh by (auto simp: approval_inv_def unique_rows_def rows sorted_wrt_append)
  moreover have "decided_by_others db'"
    using inv fresh by (fastforce simp: approval_inv_def decided_by_others_def rows same)
  moreover have "decisions_backed db'"
    using inv st by (auto simp: approval_inv_def decisions_backed_def rows same decisions_def)
  ultimately show ?thesis using inv by (auto simp: approval_inv_def rows same)
qed

lemma approval_inv_decide:
  assumes inv: "approval_inv db" and lower: "js_lower (dx_actor_id inp) = dx_actor_id inp" and ok: "decideApproval t env inp db = (Inr r, db')"
  shows "approval_inv db'"
  using ok
proof (cases rule: decideApproval_Inr)
  case (1 rid request ds)
  let ?p = "approval_key t rid"
  let ?f = "\<lambda>r. r\<lparr>aq_state := dx_decision inp, aq_version := aq_version request + 1\<rparr>"
  have rq: "request \<in> set (approval_requests db)" "?p request"
    using 1(2) by (auto simp: find_approval_def dest: find_row_SomeD)
  have u: "unique_rows (\<lambda>x y. aq_id x = aq_id y) (approval_requests db)"
    using inv by (simp add: approval_inv_def)
  have only: "x = request" if "x \<in> set (approval_requests db)" "aq_id x = rid" for x
    using unique_rows_keyD [OF u that(1) rq(1)] that(2) rq(2) by simp
  have "aq_id ` set (approval_requests db') = aq_id ` set (approval_requests db)"
    unfolding 1(7) by (simp add: image_update_rows)
  moreover have "rid \<in> aq_id ` set (approval_requests db)"
    using rq by (metis imageI)
  ultimately have "ad_request_id ` set (approval_decisions db') \<subseteq> aq_id ` set (approval_requests db')"
    using inv by (simp add: approval_inv_def 1(7)) (simp add: 1(8))
  moreover have "unique_rows (\<lambda>x y. aq_id x = aq_id y) (update_rows ?p ?f (approval_requests db))"
    by (rule unique_rows_update [OF u]) (auto split: if_splits)
  moreover have "decided_by_others db'"
    unfolding decided_by_others_def
  proof (intro ballI impI)
    fix d r
    assume d: "d \<in> set (approval_decisions db')" and "r \<in> set (approval_requests db')"
      and k: "aq_tenant r = ad_tenant d \<and> aq_id r = ad_request_id d"
    then obtain r0 where r0: "r0 \<in> set (approval_requests db)" "r = (if ?p r0 then ?f r0 else r0)"
      by (auto simp: 1(7) set_update_rows)
    have same: "aq_id r = aq_id r0" "aq_tenant r = aq_tenant r0" "aq_requested_by r = aq_requested_by r0"
      using r0(2) by simp_all
    from d consider "d \<in> set (approval_decisions db)"
      | "ad_request_id d = rid" "ad_actor_id d = dx_actor_id inp"
      by (auto simp: 1(7) 1(8) lower)
    then show "aq_requested_by r \<noteq> ad_actor_id d"
    proof cases
      case 1
      with inv r0(1) k show ?thesis by (simp add: approval_inv_def decided_by_others_def same)
    next
      case 2
      then have "r0 = request" using only [OF r0(1)] k by (simp add: same)
      with 2 \<open>aq_requested_by request \<noteq> dx_actor_id inp\<close> show ?thesis by (simp add: same)
    qed
  qed
  moreover have "decisions_backed db'"
    unfolding decisions_backed_def
  proof (intro ballI impI)
    fix r
    assume "r \<in> set (approval_requests db')" and st: "aq_state r \<in> set decisions"
    then obtain r0 where r0: "r0 \<in> set (approval_requests db)" "r = (if ?p r0 then ?f r0 else r0)"
      by (auto simp: 1(7) set_update_rows)
    show "\<exists>d\<in>set (approval_decisions db'). ad_tenant d = aq_tenant r \<and> ad_request_id d = aq_id r
        \<and> ad_decision d = aq_state r"
    proof (cases "?p r0")
      case True
      with r0 show ?thesis by (simp add: 1(7) 1(8))
    next
      case False
      with r0 inv st show ?thesis by (auto simp: approval_inv_def decisions_backed_def 1(7) 1(8))
    qed
  qed
  ultimately show ?thesis by (simp add: approval_inv_def 1)
qed

text \<open>The routes decide on behalf of their principal, whose id a UUID column gave.\<close>

definition by_principal :: "decision_input \<Rightarrow> decision_input" where
  "by_principal inp = inp\<lparr>dx_actor_id := js_lower (dx_actor_id inp)\<rparr>"

lemma lower_principal: "js_lower (dx_actor_id (by_principal inp)) = dx_actor_id (by_principal inp)"
  by (simp add: by_principal_def)

section \<open>Service levels\<close>

definition sla_allowed :: "(string \<times> string list) list" where
  "sla_allowed =
    [(''RUNNING'', [''PAUSED'', ''WARNING'', ''CRITICAL'', ''BREACHED'', ''MET'', ''CANCELLED'']),
     (''PAUSED'', [''RUNNING'', ''CANCELLED'']),
     (''WARNING'', [''PAUSED'', ''CRITICAL'', ''BREACHED'', ''MET'', ''CANCELLED'']),
     (''CRITICAL'', [''PAUSED'', ''BREACHED'', ''MET'', ''CANCELLED'']),
     (''BREACHED'', []),
     (''MET'', []),
     (''CANCELLED'', [])]"

record sla_policy =
  sp_pid :: string
  sp_ptenant :: string
  sp_pversion :: int

record sla_target =
  sg_id :: string
  sg_tenant :: string
  sg_policy_id :: string
  sg_duration_minutes :: int
  sg_purpose :: string

record sla_instance =
  sl_id :: string
  sl_tenant :: string
  sl_object_type :: string
  sl_object_id :: string
  sl_target_id :: string
  sl_policy_version :: int
  sl_state :: string
  sl_started_at :: int
  sl_due_at :: int
  sl_completed_at :: "int option"
  sl_version :: int

record sla_event =
  sv_id :: string
  sv_tenant :: string
  sv_instance :: string
  sv_type :: string
  sv_from :: "string option"
  sv_to :: string
  sv_reason :: string

record sla_db =
  sla_policies :: "sla_policy list"
  sla_targets :: "sla_target list"
  sla_instances :: "sla_instance list"
  sla_events :: "sla_event list"

definition sla_clash :: "sla_instance \<Rightarrow> sla_instance \<Rightarrow> bool" where
  "sla_clash x y \<longleftrightarrow> sl_id x = sl_id y \<or>
     (sl_tenant x = sl_tenant y \<and> sl_object_type x = sl_object_type y \<and> sl_object_id x = sl_object_id y
      \<and> sl_target_id x = sl_target_id y)"

record sla_start =
  ss_object_type :: string
  ss_object_id :: string
  ss_target_id :: string
  ss_now :: "int option"

definition startSla :: "string \<Rightarrow> call_env \<Rightarrow> sla_start \<Rightarrow> (sla_db, sla_instance \<times> string) call" where
  "startSla t env inp db =
    (case first_row [(g, p). g \<leftarrow> sla_targets db, sg_tenant g = t \<and> sg_id g = ss_target_id inp,
                             p \<leftarrow> sla_policies db, sp_ptenant p = sg_tenant g \<and> sp_pid p = sg_policy_id g] of
       None \<Rightarrow> (Inl (AppError NOT_FOUND), db)
     | Some (g, p) \<Rightarrow>
        (case ss_now inp of
           None \<Rightarrow> (Inl (JsError ''Invalid time value''), db)
         | Some started \<Rightarrow>
            let row = \<lparr>sl_id = env_uuid env 0, sl_tenant = t, sl_object_type = ss_object_type inp,
                       sl_object_id = ss_object_id inp, sl_target_id = ss_target_id inp,
                       sl_policy_version = sp_pversion p, sl_state = ''RUNNING'', sl_started_at = started,
                       sl_due_at = started + sg_duration_minutes g * 60000, sl_completed_at = None,
                       sl_version = 1\<rparr>
            in (case insert_row sla_clash row (sla_instances db) of
                  None \<Rightarrow> (Inl (SqlError ''23505''), db)
                | Some is \<Rightarrow>
                   (case insert_row (\<lambda>x y. sv_id x = sv_id y)
                      \<lparr>sv_id = env_uuid env 1, sv_tenant = t, sv_instance = env_uuid env 0,
                       sv_type = ''START'', sv_from = None, sv_to = ''RUNNING'', sv_reason = ''SLA started''\<rparr>
                      (sla_events db) of
                      None \<Rightarrow> (Inl (SqlError ''23505''), db\<lparr>sla_instances := is\<rparr>)
                    | Some es \<Rightarrow> (Inr (row, sg_purpose g), db\<lparr>sla_instances := is, sla_events := es\<rparr>)))))"

record sla_move =
  sm_instance :: string
  sm_expected_version :: js_number
  sm_target :: string
  sm_reason :: string

abbreviation sla_key :: "string \<Rightarrow> string \<Rightarrow> sla_instance \<Rightarrow> bool" where
  "sla_key t i r \<equiv> sl_tenant r = t \<and> sl_id r = i"

definition find_sla :: "string \<Rightarrow> string \<Rightarrow> sla_db \<Rightarrow> sla_instance option" where
  "find_sla t i db = find_row (sla_key t i) (sla_instances db)"

definition move_sla :: "string \<Rightarrow> int \<Rightarrow> int \<Rightarrow> sla_instance \<Rightarrow> sla_instance" where
  "move_sla target version now r =
     r\<lparr>sl_state := target, sl_version := version,
       sl_completed_at := (if target \<in> set [''MET'', ''BREACHED'', ''CANCELLED''] then Some now else sl_completed_at r)\<rparr>"

definition transitionSla ::
    "string \<Rightarrow> call_env \<Rightarrow> sla_move \<Rightarrow> (sla_db, string \<times> string \<times> int) call" where
  "transitionSla t env inp db =
    (case find_sla t (sm_instance inp) db of
       None \<Rightarrow> (Inl (AppError NOT_FOUND), db)
     | Some item \<Rightarrow>
        (case assertVersion (sl_version item) (sm_expected_version inp) of
           Inl e \<Rightarrow> (Inl e, db)
         | Inr _ \<Rightarrow>
            if blank (sm_reason inp) \<or> sm_target inp \<notin> set (table_targets sla_allowed (sl_state item))
            then (Inl (AppError BUSINESS_RULE_VIOLATION), db)
            else
              let version = js_int (sm_expected_version inp) + 1;
                  db1 = db\<lparr>sla_instances := update_rows (sla_key t (sm_instance inp))
                          (move_sla (sm_target inp) version (env_now env)) (sla_instances db)\<rparr>
              in (case insert_row (\<lambda>x y. sv_id x = sv_id y)
                    \<lparr>sv_id = env_uuid env 0, sv_tenant = t, sv_instance = sm_instance inp,
                     sv_type = ''STATE_CHANGED'', sv_from = Some (sl_state item), sv_to = sm_target inp,
                     sv_reason = sm_reason inp\<rparr> (sla_events db1) of
                    None \<Rightarrow> (Inl (SqlError ''23505''), db1)
                  | Some es \<Rightarrow> (Inr (sl_state item, sm_target inp, version), db1\<lparr>sla_events := es\<rparr>))))"

definition sla_states :: "string list" where
  "sla_states = map fst sla_allowed"

definition sla_command ::
    "string \<Rightarrow> string \<Rightarrow> call_env \<times> sla_move \<Rightarrow> (sla_db, string \<times> string \<times> int) call" where
  "sla_command t sid i = transitionSla t (fst i) ((snd i)\<lparr>sm_instance := sid\<rparr>)"

lemma move_sla_sel [simp]:
  "sl_id (move_sla x v n r) = sl_id r" "sl_tenant (move_sla x v n r) = sl_tenant r"
  "sl_state (move_sla x v n r) = x" "sl_version (move_sla x v n r) = v"
  "sl_due_at (move_sla x v n r) = sl_due_at r" "sl_started_at (move_sla x v n r) = sl_started_at r"
  by (simp_all add: move_sla_def)

lemma transitionSla_Inr:
  assumes "transitionSla t env inp db = (Inr r, db')"
  obtains item es where "find_sla t (sm_instance inp) db = Some item"
    and "sm_expected_version inp = JInt (sl_version item)"
    and "sm_target inp \<in> set (table_targets sla_allowed (sl_state item))" and "\<not> blank (sm_reason inp)"
    and "db' = db\<lparr>sla_instances := update_rows (sla_key t (sm_instance inp))
            (move_sla (sm_target inp) (sl_version item + 1) (env_now env)) (sla_instances db), sla_events := es\<rparr>"
  using assms
  by (auto simp: transitionSla_def Let_def assertVersion_Inr split: if_splits option.splits sum.splits)

interpretation sla_machine: keyed_machine
  "table_targets sla_allowed" sla_states t "sla_command t sid"
  "\<lambda>i. sm_expected_version (snd i)" "find_sla t sid" sl_version sl_state
  for t sid
proof unfold_locales
  have "table_closed sla_allowed" by (simp add: table_closed_def sla_allowed_def)
  then show "y \<in> set (table_targets sla_allowed x) \<Longrightarrow> y \<in> set sla_states" for x y
    using table_closedD by (simp add: sla_states_def)
next
  fix i s a s'
  assume "sla_command t sid i s = (Inr a, s')"
  then show "\<exists>r r'. find_sla t sid s = Some r \<and> find_sla t sid s' = Some r'
      \<and> sm_expected_version (snd i) = JInt (sl_version r) \<and> sl_version r' = sl_version r + 1
      \<and> (sl_state r' = sl_state r \<or> sl_state r' \<in> set (table_targets sla_allowed (sl_state r)))"
    unfolding sla_command_def by (elim transitionSla_Inr) (simp add: find_sla_def find_row_update_same)
qed

section \<open>Properties\<close>

datatype approval_call = CreateApproval approval_input | DecideApproval decision_input

fun approval_step :: "string \<Rightarrow> call_env \<times> approval_call \<Rightarrow> (approval_db, unit) call" where
  "approval_step t (env, CreateApproval i) db = forget (createApproval t env i db)"
| "approval_step t (env, DecideApproval i) db = forget (decideApproval t env (by_principal i) db)"

fun approval_run :: "string \<Rightarrow> (call_env \<times> approval_call) list \<Rightarrow> approval_db \<Rightarrow> approval_db" where
  "approval_run t [] db = db"
| "approval_run t (c # cs) db = approval_run t cs (snd (uow t (approval_step t c) db))"

lemma approval_run_calls: "approval_run t cs db = pg.run_calls t (map (approval_step t) cs) db"
  by (induction cs arbitrary: db) simp_all

lemma approval_inv_step:
  assumes "approval_inv db" and "approval_step t c db = (Inr a, db')"
  shows "approval_inv db'"
  using assms by (cases c; cases "snd c") (auto simp: forget_Inr dest: approval_inv_create approval_inv_decide [OF _ lower_principal])

lemma approval_inv_run: "approval_inv db \<Longrightarrow> approval_inv (approval_run t cs db)"
  unfolding approval_run_calls by (rule pg.run_calls_invariant [of approval_inv]) (auto intro: approval_inv_step)

text \<open>C12: Four eyes: after any requests and decisions, a request that is approved, rejected or sent back
  carries a recorded decision of that kind, and no recorded decision on a request was taken by its requester.
  The decisions are those of the routes, where the actor's id is spelled as the database gives it back.\<close>

theorem approval_four_eyes:
  assumes "approval_inv db" and "r \<in> set (approval_requests (approval_run t cs db))"
  shows "(aq_state r \<in> set decisions \<longrightarrow>
      (\<exists>d\<in>set (approval_decisions (approval_run t cs db)). ad_tenant d = aq_tenant r
         \<and> ad_request_id d = aq_id r \<and> ad_decision d = aq_state r))
    \<and> (\<forall>d\<in>set (approval_decisions (approval_run t cs db)).
         ad_tenant d = aq_tenant r \<and> ad_request_id d = aq_id r \<longrightarrow> ad_actor_id d \<noteq> aq_requested_by r)"
proof -
  have "approval_inv (approval_run t cs db)" using assms(1) by (rule approval_inv_run)
  with assms(2) show ?thesis
    by (fastforce simp: approval_inv_def decisions_backed_def decided_by_others_def)
qed

definition hex_id :: "char \<Rightarrow> string" where
  "hex_id c = replicate 8 c @ ''-'' @ replicate 4 c @ ''-'' @ replicate 4 c @ ''-'' @ replicate 4 c @ ''-'' @ replicate 12 c"

definition control_env :: "nat \<Rightarrow> call_env" where
  "control_env k = \<lparr>env_now = 1000, env_iso = [], env_uuid = (\<lambda>n. hex_id (char_of (48 + k))),
     env_valid_event = (\<lambda>_. True)\<rparr>"

definition policy_db :: approval_db where
  "policy_db = \<lparr>approval_policies = [\<lparr>apol_id = hex_id CHR ''a'', apol_tenant = ''t'', apol_version = 1, apol_state = ''ACTIVE''\<rparr>],
     approval_requests = [], approval_decisions = []\<rparr>"

definition approval_calls :: "(call_env \<times> approval_call) list" where
  "approval_calls = [(control_env 1, CreateApproval \<lparr>pi_source_type = ''PO'', pi_source_id = hex_id CHR ''f'', pi_policy_id = hex_id CHR ''A'',
       pi_policy_version = JInt 1, pi_requester_id = hex_id CHR ''B'', pi_context = None\<rparr>),
     (control_env 2, DecideApproval \<lparr>dx_request_id = hex_id CHR ''1'', dx_expected_version = JInt 1, dx_actor_id = hex_id CHR ''b'',
       dx_decision = ''APPROVED'', dx_reason = ''mine''\<rparr>),
     (control_env 3, DecideApproval \<lparr>dx_request_id = hex_id CHR ''1'', dx_expected_version = JInt 1, dx_actor_id = hex_id CHR ''c'',
       dx_decision = ''APPROVED'', dx_reason = ''ok''\<rparr>)]"

theorem approval_four_eyes_witness:
  "\<exists>d\<in>set (approval_decisions (approval_run ''t'' approval_calls policy_db)).
     ad_decision d = ''APPROVED'' \<and> ad_actor_id d \<noteq> hex_id CHR ''b''"
proof -
  let ?r = "hd (approval_requests (approval_run ''t'' approval_calls policy_db))"
  have inv: "approval_inv policy_db" by code_simp
  have mem: "?r \<in> set (approval_requests (approval_run ''t'' approval_calls policy_db))" by code_simp
  have s: "aq_state ?r = ''APPROVED''" and b: "aq_requested_by ?r = hex_id CHR ''b''" by code_simp+
  have "aq_state ?r \<in> set decisions" by (simp add: s decisions_def)
  with approval_four_eyes [OF inv mem] show ?thesis unfolding s b by blast
qed

text \<open>A decided request is final and is decided once: of two decisions on the same version the second
  fails, and no decision changes a request that is no longer pending.\<close>

theorem approval_decided_once:
  assumes "decideApproval t env i db = (Inr r, db')" and "dx_request_id j = dx_request_id i"
  shows "\<exists>e. decideApproval t env' j db' = (Inl e, db')"
proof -
  from assms(1) obtain x where x: "find_approval t (js_lower (dx_request_id i)) db' = Some x" "aq_state x \<in> set decisions"
    by (elim decideApproval_Inr) (auto simp: find_approval_def find_row_update_same)
  then have "aq_state x \<noteq> ''PENDING''" by (auto simp: decisions_def)
  with x assms(2) show ?thesis
    by (auto simp: decideApproval_def uuid_of_text_Inr split: sum.splits)
qed

definition pending_db :: approval_db where
  "pending_db = approval_run ''t'' (take 1 approval_calls) policy_db"

definition by_bob :: "string \<Rightarrow> int \<Rightarrow> decision_input" where
  "by_bob x v = \<lparr>dx_request_id = hex_id CHR ''1'', dx_expected_version = JInt v, dx_actor_id = hex_id CHR ''c'',
     dx_decision = x, dx_reason = ''ok''\<rparr>"

theorem approval_decided_once_witness:
  "\<exists>e. fst (decideApproval ''t'' (control_env 4) (by_bob ''REJECTED'' 2)
     (snd (decideApproval ''t'' (control_env 3) (by_bob ''APPROVED'' 1) pending_db))) = Inl e"
proof -
  have "decideApproval ''t'' (control_env 3) (by_bob ''APPROVED'' 1) pending_db =
     (Inr (hex_id CHR ''1'', ''APPROVED'', 2), snd (decideApproval ''t'' (control_env 3) (by_bob ''APPROVED'' 1) pending_db))"
    by code_simp
  then have "\<exists>e. decideApproval ''t'' (control_env 4) (by_bob ''REJECTED'' 2)
     (snd (decideApproval ''t'' (control_env 3) (by_bob ''APPROVED'' 1) pending_db)) =
       (Inl e, snd (decideApproval ''t'' (control_env 3) (by_bob ''APPROVED'' 1) pending_db))"
    by (rule approval_decided_once) (simp add: by_bob_def)
  then show ?thesis by (elim exE) simp
qed

lemma sla_after_due:
  assumes "find_sla t sid db = Some x"
  shows "\<exists>x'. find_sla t sid (sla_machine.after_tx t sid i db) = Some x' \<and> sl_due_at x' = sl_due_at x"
proof (cases "sla_machine.after_tx t sid i db = db")
  case True
  with assms show ?thesis by simp
next
  case False
  then obtain a where "transitionSla t (fst i) ((snd i)\<lparr>sm_instance := sid\<rparr>) db = (Inr a, sla_machine.after_tx t sid i db)"
    using pg.rolls_back [of t "sla_command t sid i" db] pg.commits [of t "sla_command t sid i" db]
    unfolding sla_machine.after_tx_def sla_command_def by (metis prod.collapse sum.exhaust)
  with assms show ?thesis by (elim transitionSla_Inr) (auto simp: find_sla_def find_row_update_same)
qed

text \<open>The due time of an SLA instance is fixed when it starts: no sequence of transitions moves it, a
  pause included, and an instance that is breached, met or cancelled stays so.\<close>

theorem sla_due_fixed:
  assumes "find_sla t sid db = Some x"
  shows "\<exists>x'. find_sla t sid (sla_machine.paths.after_all t sid cs db) = Some x' \<and> sl_due_at x' = sl_due_at x
     \<and> (sl_state x \<in> {''BREACHED'', ''MET'', ''CANCELLED''} \<longrightarrow> sl_state x' = sl_state x)"
proof -
  have "\<exists>x'. find_sla t sid (sla_machine.paths.after_all t sid cs db) = Some x' \<and> sl_due_at x' = sl_due_at x"
    using assms
  proof (induction cs arbitrary: db x)
    case (Cons c cs)
    from sla_after_due [OF Cons.prems, of c] obtain y where
      y: "find_sla t sid (sla_machine.after_tx t sid c db) = Some y" "sl_due_at y = sl_due_at x" by blast
    from Cons.IH [OF y(1)] y(2) show ?case by simp
  qed simp
  moreover have "map_option sl_state (find_sla t sid (sla_machine.paths.after_all t sid cs db)) = Some (sl_state x)"
    if "sl_state x \<in> {''BREACHED'', ''MET'', ''CANCELLED''}"
    by (rule sla_machine.paths.terminal_absorbing) (use assms that in \<open>auto simp: sla_allowed_def\<close>)
  ultimately show ?thesis by auto
qed

definition sla_sample :: sla_db where
  "sla_sample = \<lparr>sla_policies = [], sla_targets = [], sla_instances = [\<lparr>sl_id = ''i'', sl_tenant = ''t'',
     sl_object_type = ''TICKET'', sl_object_id = ''1'', sl_target_id = ''g'', sl_policy_version = 1,
     sl_state = ''RUNNING'', sl_started_at = 0, sl_due_at = 60000, sl_completed_at = None, sl_version = 1\<rparr>],
     sla_events = []\<rparr>"

theorem sla_due_fixed_witness:
  "\<exists>x'. find_sla ''t'' ''i'' (sla_machine.paths.after_all ''t'' ''i''
     [(control_env 1, \<lparr>sm_instance = ''i'', sm_expected_version = JInt 1, sm_target = ''PAUSED'', sm_reason = ''r''\<rparr>)]
     sla_sample) = Some x' \<and> sl_due_at x' = 60000"
proof -
  have "find_sla ''t'' ''i'' sla_sample = Some (hd (sla_instances sla_sample))" by code_simp
  moreover have "sl_due_at (hd (sla_instances sla_sample)) = 60000" by (simp add: sla_sample_def)
  ultimately show ?thesis using sla_due_fixed by metis
qed

end
