(* ===== verification/Commands.thy ===== *)
theory Commands
  imports Persistence Json_Text
begin

text \<open>
  Command bodies as sequences of steps. A handler of the sources reads, tests, throws and writes in
  turn; \<open>given\<close> continues with a value or throws its error, \<open>fail_if\<close> is a guard that throws,
  \<open>load\<close> reads the state, \<open>store\<close> runs a statement that succeeds and \<open>insert_into\<close> one that can
  meet a unique index. A call that throws leaves the state reached so far; its transaction undoes it.
\<close>

named_theorems call_simps "success of the steps of a command"

definition done_with :: "'a \<Rightarrow> ('s, 'a) call" where
  "done_with a s = (Inr a, s)"

definition throw :: "exn \<Rightarrow> ('s, 'a) call" where
  "throw e s = (Inl e, s)"

definition given :: "exn + 'a \<Rightarrow> ('a \<Rightarrow> ('s, 'b) call) \<Rightarrow> ('s, 'b) call" where
  "given x k s = (case x of Inl e \<Rightarrow> (Inl e, s) | Inr a \<Rightarrow> k a s)"

definition fail_if :: "bool \<Rightarrow> error_code \<Rightarrow> ('s, 'b) call \<Rightarrow> ('s, 'b) call" where
  "fail_if c code k s = (if c then (Inl (AppError code), s) else k s)"

definition load :: "('s \<Rightarrow> 'a) \<Rightarrow> ('a \<Rightarrow> ('s, 'b) call) \<Rightarrow> ('s, 'b) call" where
  "load q k s = k (q s) s"

definition store :: "('s \<Rightarrow> 's) \<Rightarrow> ('s, 'b) call \<Rightarrow> ('s, 'b) call" where
  "store f k s = k (f s)"

text \<open>An INSERT: \<open>w\<close> writes the table back once the row is in.\<close>

definition insert_into ::
    "('r \<Rightarrow> 'r \<Rightarrow> bool) \<Rightarrow> ('s \<Rightarrow> 'r list) \<Rightarrow> ('r list \<Rightarrow> 's \<Rightarrow> 's) \<Rightarrow> 'r \<Rightarrow> ('s, 'b) call \<Rightarrow> ('s, 'b) call" where
  "insert_into clash tab w r k s =
     (case insert_row clash r (tab s) of None \<Rightarrow> (Inl (SqlError ''23505''), s) | Some t \<Rightarrow> k (w t s))"

text \<open>The row a query must find.\<close>

definition needed :: "error_code \<Rightarrow> 'a option \<Rightarrow> exn + 'a" where
  "needed code x = (case x of None \<Rightarrow> Inl (AppError code) | Some a \<Rightarrow> Inr a)"

text \<open>A value the database cannot read as its column's type, or that breaks a CHECK.\<close>

definition column :: "string \<Rightarrow> 'a option \<Rightarrow> exn + 'a" where
  "column code x = (case x of None \<Rightarrow> Inl (SqlError code) | Some a \<Rightarrow> Inr a)"

definition sql_check :: "string \<Rightarrow> bool \<Rightarrow> exn + unit" where
  "sql_check code ok = (if ok then Inr () else Inl (SqlError code))"

lemma done_with_Inr [call_simps]: "done_with a s = (Inr b, s') \<longleftrightarrow> b = a \<and> s' = s"
  by (auto simp: done_with_def)

lemma throw_Inr [call_simps]: "\<not> throw e s = (Inr b, s')"
  by (simp add: throw_def)

lemma given_Inr [call_simps]: "given x k s = (Inr b, s') \<longleftrightarrow> (\<exists>a. x = Inr a \<and> k a s = (Inr b, s'))"
  by (cases x) (auto simp: given_def)

lemma fail_if_Inr [call_simps]: "fail_if c code k s = (Inr b, s') \<longleftrightarrow> \<not> c \<and> k s = (Inr b, s')"
  by (simp add: fail_if_def)

lemma load_Inr [call_simps]: "load q k s = (Inr b, s') \<longleftrightarrow> k (q s) s = (Inr b, s')"
  by (simp add: load_def)

lemma store_Inr [call_simps]: "store f k s = (Inr b, s') \<longleftrightarrow> k (f s) = (Inr b, s')"
  by (simp add: store_def)

lemma unique_rows_snoc:
  assumes "unique_rows clash t" and "\<forall>x\<in>set t. \<not> clash r x" and "\<And>x y. clash x y \<Longrightarrow> clash y x"
  shows "unique_rows clash (t @ [r])"
  using assms by (auto simp: unique_rows_def sorted_wrt_append)

lemma insert_into_Inr [call_simps]:
  "insert_into clash tab w r k s = (Inr b, s') \<longleftrightarrow>
     (\<forall>x\<in>set (tab s). \<not> clash r x) \<and> k (w (tab s @ [r]) s) = (Inr b, s')"
  by (auto simp: insert_into_def insert_row_def list_ex_iff)

lemma needed_Inr [call_simps]: "needed code x = Inr a \<longleftrightarrow> x = Some a"
  by (cases x) (auto simp: needed_def)

lemma column_Inr [call_simps]: "column code x = Inr a \<longleftrightarrow> x = Some a"
  by (cases x) (auto simp: column_def)

lemma sql_check_Inr [call_simps]: "sql_check code ok = Inr u \<longleftrightarrow> ok"
  by (simp add: sql_check_def)

declare assertVersion_Inr [call_simps]

text \<open>What a step does to the state when the whole command is given.\<close>

lemma call_unfold:
  "done_with a s = (Inr a, s)"
  "throw e s = (Inl e, s)"
  "given (Inr b) g s = g b s"
  "given (Inl e) g s = (Inl e, s)"
  "load q h s = h (q s) s"
  "store f c s = c (f s)"
  by (simp_all add: done_with_def throw_def given_def load_def store_def)

text \<open>Evaluation of a command on concrete input: the steps one by one, the continuations left alone.\<close>

lemma call_cong:
  "x = x' \<Longrightarrow> given x k s = given x' k s"
  "c = c' \<Longrightarrow> fail_if c code h s = fail_if c' code h s"
  by simp_all

lemma call_eval:
  "fail_if True code h s = (Inl (AppError code), s)" "fail_if False code h s = h s"
  by (simp_all add: fail_if_def)

section \<open>Members of request bodies\<close>

text \<open>\<open>toUpperCase\<close> on the letters whose capitals are in the range; the sharp s becomes SS.\<close>

definition js_upper :: "string \<Rightarrow> string" where
  "js_upper s = concat (map (\<lambda>c. let n = (of_char c :: nat) in
     if n = 223 then ''SS''
     else if (97 \<le> n \<and> n \<le> 122) \<or> (224 \<le> n \<and> n \<le> 254 \<and> n \<noteq> 247) then [char_of (n - 32)] else [c]) s)"

text \<open>The pattern \<open>^[A-Z]{3}$\<close> of currencies.\<close>

definition currency_code :: "string \<Rightarrow> bool" where
  "currency_code s \<longleftrightarrow> length s = 3 \<and> list_all (\<lambda>c. CHR ''A'' \<le> c \<and> c \<le> CHR ''Z'') s"

text \<open>\<open>v == null\<close> and the default \<open>v ?? d\<close>.\<close>

definition nullish :: "json option \<Rightarrow> bool" where
  "nullish v \<longleftrightarrow> v = None \<or> v = Some JNull"

definition or_else :: "json option \<Rightarrow> json \<Rightarrow> json" where
  "or_else v d = (if nullish v then d else the v)"

text \<open>Truth of a JSON value in a condition.\<close>

fun js_true :: "json \<Rightarrow> bool" where
  "js_true JNull = False"
| "js_true (JBool b) = b"
| "js_true (JNum n) = (n \<noteq> JInt 0 \<and> n \<noteq> JNaN)"
| "js_true (JStr s) = (s \<noteq> [])"
| "js_true _ = True"

text \<open>
  \<open>String(v)\<close>: \<open>None\<close> is the TypeError of an object whose own \<open>toString\<close> hides the inherited one.
\<close>

fun number_text :: "(rat \<Rightarrow> string) \<Rightarrow> js_number \<Rightarrow> string" where
  "number_text fr JNaN = ''NaN''"
| "number_text fr (JInfinity pos) = (if pos then ''Infinity'' else ''-Infinity'')"
| "number_text fr n = the (num_text fr n)"

fun js_string :: "(rat \<Rightarrow> string) \<Rightarrow> json \<Rightarrow> string option" where
  "js_string fr JNull = Some ''null''"
| "js_string fr (JBool b) = Some (if b then ''true'' else ''false'')"
| "js_string fr (JNum n) = Some (number_text fr n)"
| "js_string fr (JStr s) = Some s"
| "js_string fr (JArr vs) =
     map_option (join '','') (those (map (\<lambda>v. if v = JNull then Some [] else js_string fr v) vs))"
| "js_string fr (JObj kvs) = (if ''toString'' \<in> set (map fst kvs) then None else Some ''[object Object]'')"

text \<open>Assigning a member: in place when the object has it, else at the end.\<close>

fun put :: "string \<Rightarrow> json \<Rightarrow> (string \<times> json) list \<Rightarrow> (string \<times> json) list" where
  "put k v [] = [(k, v)]"
| "put k v ((k', v') # kvs) = (if k' = k then (k, v) # kvs else (k', v') # put k v kvs)"

lemma map_of_put: "map_of (put k v kvs) = (map_of kvs)(k \<mapsto> v)"
  by (induction kvs) (auto simp: fun_eq_iff)

section \<open>Canonical text of any value\<close>

text \<open>
  The canonical JSON of the contract and procurement modules: as the one behind request hashes, but a
  number that is not finite is written \<open>null\<close> instead of being refused.
\<close>

fun canonical_text :: "(rat \<Rightarrow> string) \<Rightarrow> json \<Rightarrow> string" where
  "canonical_text fr (JArr vs) = ''['' @ join '','' (map (canonical_text fr) vs) @ '']''"
| "canonical_text fr (JObj kvs) =
     ''{'' @ join '','' (map (\<lambda>(k, t). quote_text k @ '':'' @ t)
       (sort_key fst (map (\<lambda>(k, v). (k, canonical_text fr v)) kvs))) @ ''}''"
| "canonical_text fr (JNum n) = (case num_text fr n of None \<Rightarrow> ''null'' | Some t \<Rightarrow> t)"
| "canonical_text fr (JStr s) = quote_text s"
| "canonical_text fr (JBool b) = (if b then ''true'' else ''false'')"
| "canonical_text fr JNull = ''null''"

lemma canonical_text_same_json: "same_json v w \<Longrightarrow> canonical_text fr v = canonical_text fr w"
proof (induction rule: same_json.induct)
  case (same_arr vs ws)
  then have "map (canonical_text fr) vs = map (canonical_text fr) ws"
    by (induction rule: list_all2_induct) auto
  then show ?case by simp
next
  case (same_obj kvs lws kws)
  let ?g = "\<lambda>(k, v). (k, canonical_text fr v)"
  from same_obj.IH have eq: "map ?g kvs = map ?g lws" and keys: "map fst kvs = map fst lws"
    by (induction rule: list_all2_induct) (auto simp: split_beta)
  from same_obj.hyps keys have "distinct (map fst (map ?g lws))" by (simp add: split_beta comp_def)
  moreover have "mset (map ?g lws) = mset (map ?g kws)" using same_obj.hyps by simp
  ultimately have "sort_key fst (map ?g lws) = sort_key fst (map ?g kws)" by (intro sort_key_perm_distinct)
  with eq show ?case by simp
qed simp

section \<open>Rows and their keys\<close>

lemma unique_rows_distinct: "unique_rows clash t \<Longrightarrow> (\<And>x. clash x x) \<Longrightarrow> distinct t"
  by (induction t) (auto simp: unique_rows_def)

lemma find_row_narrower:
  "find_row p t = Some r \<Longrightarrow> q r \<Longrightarrow> (\<And>x. q x \<Longrightarrow> p x) \<Longrightarrow> find_row q t = Some r"
  by (induction t) (auto simp: table_simps split: if_splits)

lemma updated_row_cases:
  assumes "x \<in> set (update_rows p f t)" and "r \<in> set t" and "p r"
    and "\<And>y. y \<in> set t \<Longrightarrow> k y = k r \<Longrightarrow> y = r" and "\<And>y. p y \<Longrightarrow> k y = k r"
  shows "x = f r \<or> (x \<in> set t \<and> k x \<noteq> k r)"
proof -
  from assms(1) obtain y where "y \<in> set t" "x = (if p y then f y else y)" by (auto simp: set_update_rows)
  then show ?thesis using assms(3) assms(4) [of y] assms(5) [of y] by (metis (full_types))
qed

text \<open>The database's \<open>btrim\<close> takes spaces off both ends; many columns bound the length of what is left.\<close>

definition btrim :: "string \<Rightarrow> string" where
  "btrim s = rev (dropWhile (\<lambda>c. c = CHR '' '') (rev (dropWhile (\<lambda>c. c = CHR '' '') s)))"

definition sized :: "nat \<Rightarrow> string \<Rightarrow> bool" where
  "sized most s \<longleftrightarrow> 1 \<le> length (btrim s) \<and> length (btrim s) \<le> most"

end
