(* ===== verification/Contracts.thy ===== *)
theory Contracts
  imports Control_Plane Commands Calendar
begin

text \<open>
  \<open>modules/contract\<close>: the lifecycle table (\<open>domain/lifecycle.ts\<close>) and the contract and renewal
  commands (\<open>application/contracts.ts\<close>) over \<open>database/migrations/contract\<close>. A command is
  \<open>executeContractCommand\<close>; its branches are separate definitions, dispatched as the code does.

  The environment holds what the command is handed or calls: the clock, fresh identifiers, \<open>Date.parse\<close>, the instant
  and the UUID the database reads from a text, the number printer and SHA-256, the text a non-string value becomes as a
  statement parameter, and the three optional ports (supplier eligibility, approvals of a source, final documents).
  Instants are milliseconds; \<open>created_at\<close>, \<open>updated_at\<close> and the identifiers of history rows are left out.
\<close>

section \<open>Tables\<close>

datatype contract_command =
    CONTRACT_CREATE | CONTRACT_UPDATE_DRAFT | CONTRACT_SUBMIT_FOR_SIGNATURE | CONTRACT_RECALL_SIGNATURE
  | CONTRACT_RECORD_EXECUTION | CONTRACT_ACTIVATE | CONTRACT_HOLD | CONTRACT_RESUME | CONTRACT_AMEND
  | CONTRACT_EXPIRE | CONTRACT_TERMINATE | CONTRACT_CANCEL
  | RENEWAL_OPEN | RENEWAL_UPDATE_PROPOSAL | RENEWAL_COMPLETE | RENEWAL_MARK_NOT_RENEWED | RENEWAL_CANCEL

definition contractStates :: "string list" where
  "contractStates = [''DRAFT'', ''PENDING_SIGNATURE'', ''EXECUTED'', ''ACTIVE'', ''EXPIRED'', ''TERMINATED'', ''CANCELLED'']"

text \<open>The states a command may start from; a command that is not listed may start from none.\<close>

fun contract_sources :: "contract_command \<Rightarrow> string list" where
  "contract_sources CONTRACT_UPDATE_DRAFT = [''DRAFT'']"
| "contract_sources CONTRACT_SUBMIT_FOR_SIGNATURE = [''DRAFT'']"
| "contract_sources CONTRACT_RECALL_SIGNATURE = [''PENDING_SIGNATURE'']"
| "contract_sources CONTRACT_RECORD_EXECUTION = [''PENDING_SIGNATURE'']"
| "contract_sources CONTRACT_ACTIVATE = [''EXECUTED'']"
| "contract_sources CONTRACT_TERMINATE = [''EXECUTED'', ''ACTIVE'']"
| "contract_sources CONTRACT_EXPIRE = [''ACTIVE'']"
| "contract_sources CONTRACT_CANCEL = [''DRAFT'', ''PENDING_SIGNATURE'']"
| "contract_sources CONTRACT_AMEND = [''EXECUTED'', ''ACTIVE'']"
| "contract_sources _ = []"

definition mayTransition :: "string \<Rightarrow> contract_command \<Rightarrow> bool" where
  "mayTransition s c \<longleftrightarrow> s \<in> set (contract_sources c)"

record contract =
  ct_id :: string
  ct_tenant :: string
  ct_code :: string
  ct_supplier_id :: string
  ct_supplier_name :: string
  ct_state :: string
  ct_usage :: string
  ct_effective :: int
  ct_end :: int
  ct_current_id :: string
  ct_current_number :: int
  ct_submitted_id :: "string option"
  ct_renewed_from :: "string option"
  ct_auto_renew :: "json option"
  ct_version :: int
  ct_created_by :: string
  ct_correlation_id :: string

record contract_version =
  cv_id :: string
  cv_tenant :: string
  cv_contract_id :: string
  cv_number :: int
  cv_snapshot :: json
  cv_fingerprint :: string
  cv_source :: string
  cv_reason :: "string option"
  cv_created_by :: string
  cv_evidence :: "(string \<times> string) option"

record execution_evidence =
  ex_id :: string
  ex_tenant :: string
  ex_contract_id :: string
  ex_version_id :: string
  ex_document :: "(string \<times> string) option"
  ex_external_reference :: "string option"
  ex_recorded_by :: string

record renewal_case =
  rc_id :: string
  rc_tenant :: string
  rc_predecessor :: string
  rc_successor :: string
  rc_state :: string
  rc_proposal :: json
  rc_fingerprint :: string
  rc_version :: int
  rc_created_by :: string
  rc_reason :: "string option"
  rc_correlation_id :: string

text \<open>
  What a command returns and the histories record: a contract row, with what some commands add to it,
  the three members a renewal reports of its successor, or a renewal case.
\<close>

datatype contract_data =
    RowData contract
  | FingerprintData contract string
  | TerminationData contract string
  | DraftData string int
  | RenewalData renewal_case
  | ProposalData renewal_case string int int

text \<open>What the histories record of the row before the command.\<close>

datatype contract_before = ContractBefore string string int int | StateBefore string int

record contract_entry =
  ch_tenant :: string
  ch_subject :: string
  ch_event :: string
  ch_before :: "contract_before option"
  ch_after :: contract_data
  ch_actor :: string
  ch_reason :: "string option"
  ch_correlation :: string

record amendment_change =
  am_tenant :: string
  am_contract_id :: string
  am_base_version :: int
  am_amended_version :: int
  am_changed_fields :: "string list"
  am_fingerprint :: string
  am_reason :: "string option"
  am_created_by :: string

record contract_db =
  contracts :: "contract list"
  contract_versions :: "contract_version list"
  evidences :: "execution_evidence list"
  renewals :: "renewal_case list"
  contract_log :: "contract_entry list"
  renewal_log :: "contract_entry list"
  amendments :: "amendment_change list"

definition contract_clash :: "contract \<Rightarrow> contract \<Rightarrow> bool" where
  "contract_clash x y \<longleftrightarrow> ct_id x = ct_id y \<or> (ct_tenant x = ct_tenant y \<and> ct_code x = ct_code y)"

definition version_clash :: "contract_version \<Rightarrow> contract_version \<Rightarrow> bool" where
  "version_clash x y \<longleftrightarrow> cv_id x = cv_id y \<or>
     (cv_tenant x = cv_tenant y \<and> cv_contract_id x = cv_contract_id y \<and> cv_number x = cv_number y)"

definition evidence_clash :: "execution_evidence \<Rightarrow> execution_evidence \<Rightarrow> bool" where
  "evidence_clash x y \<longleftrightarrow> ex_id x = ex_id y"

text \<open>Primary key, one case per successor, and one open case per predecessor.\<close>

definition renewal_clash :: "renewal_case \<Rightarrow> renewal_case \<Rightarrow> bool" where
  "renewal_clash x y \<longleftrightarrow> rc_id x = rc_id y \<or>
     (rc_tenant x = rc_tenant y \<and>
       (rc_successor x = rc_successor y
        \<or> rc_predecessor x = rc_predecessor y \<and> rc_state x = ''OPEN'' \<and> rc_state y = ''OPEN''))"

abbreviation contract_key :: "string \<Rightarrow> string \<Rightarrow> contract \<Rightarrow> bool" where
  "contract_key t i r \<equiv> ct_tenant r = t \<and> ct_id r = i"

definition contractRow :: "string \<Rightarrow> string \<Rightarrow> contract_db \<Rightarrow> exn + contract" where
  "contractRow t i db = needed NOT_FOUND (find_row (contract_key t i) (contracts db))"

abbreviation renewal_key :: "string \<Rightarrow> string \<Rightarrow> renewal_case \<Rightarrow> bool" where
  "renewal_key t i r \<equiv> rc_tenant r = t \<and> rc_id r = i"

definition find_renewal :: "string \<Rightarrow> string \<Rightarrow> contract_db \<Rightarrow> renewal_case option" where
  "find_renewal t i db = find_row (renewal_key t i) (renewals db)"

section \<open>Environment and helpers\<close>

record contract_env =
  ce_now :: int
  ce_uuid :: "nat \<Rightarrow> string"
  ce_parse :: "string \<Rightarrow> int option"
  ce_pg_time :: "string \<Rightarrow> int option"
  ce_pg_uuid :: "string \<Rightarrow> string option"
  ce_fr :: "rat \<Rightarrow> string"
  ce_sha :: "string \<Rightarrow> string"
  ce_pg_param :: "json \<Rightarrow> string"
  ce_eligibility :: "(string \<Rightarrow> exn + string) option"
  ce_approvals :: "(string \<Rightarrow> string \<Rightarrow> approval_request list) option"
  ce_final_document :: "(string \<Rightarrow> string \<Rightarrow> string \<Rightarrow> bool) option"

record contract_input =
  xi_id :: "string option"
  xi_expected_version :: js_number
  xi_body :: "(string \<times> json) list"
  xi_actor_id :: string
  xi_correlation_id :: string

record contract_event =
  ev_type :: string
  ev_aggregate :: string
  ev_aggregate_id :: string
  ev_version :: int
  ev_before :: "contract_before option"
  ev_after :: contract_data

record contract_result =
  xr_data :: contract_data
  xr_status :: int
  xr_events :: "contract_event list"

text \<open>The required texts, objects and instants of a body.\<close>

definition text_of :: "nat \<Rightarrow> json option \<Rightarrow> exn + string" where
  "text_of limit v =
     (case v of
        Some (JStr s) \<Rightarrow>
          if js_trim s = [] \<or> limit < length (js_trim s) then Inl (AppError VALIDATION_ERROR) else Inr (js_trim s)
      | _ \<Rightarrow> Inl (AppError VALIDATION_ERROR))"

fun obj_of :: "json option \<Rightarrow> exn + (string \<times> json) list" where
  "obj_of (Some (JObj kvs)) = Inr kvs"
| "obj_of _ = Inl (AppError VALIDATION_ERROR)"

fun instant_of :: "contract_env \<Rightarrow> json option \<Rightarrow> exn + int" where
  "instant_of env (Some (JStr s)) = needed VALIDATION_ERROR (ce_parse env s)"
| "instant_of env _ = Inl (AppError VALIDATION_ERROR)"

definition string_of :: "contract_env \<Rightarrow> json \<Rightarrow> exn + string" where
  "string_of env v = (case js_string (ce_fr env) v of None \<Rightarrow> Inl (JsError ''TypeError'') | Some s \<Rightarrow> Inr s)"

definition snapshot_hash :: "contract_env \<Rightarrow> json \<Rightarrow> string" where
  "snapshot_hash env v = ce_sha env (canonical_text (ce_fr env) v)"

definition pg_time :: "contract_env \<Rightarrow> int \<Rightarrow> exn + int" where
  "pg_time env ms = column ''22007'' (ce_pg_time env (iso_time ms))"

text \<open>What every approval linked to a source must satisfy; without a port or a request nothing is asked.\<close>

definition approvals_ok :: "contract_env \<Rightarrow> string \<Rightarrow> string \<Rightarrow> (json \<Rightarrow> bool) \<Rightarrow> bool" where
  "approvals_ok env source_type source_id bound =
     (case ce_approvals env of
        None \<Rightarrow> True
      | Some f \<Rightarrow> list_all (\<lambda>a. aq_state a = ''APPROVED'' \<and> bound (aq_context a)) (f source_type source_id))"

definition eligible :: "contract_env \<Rightarrow> string \<Rightarrow> exn + bool" where
  "eligible env supplier =
     (case ce_eligibility env of
        None \<Rightarrow> Inr True
      | Some f \<Rightarrow> map_sum (\<lambda>e. e) (\<lambda>state. state \<in> set [''APPROVED'', ''PREFERRED'']) (f supplier))"

definition final_document :: "contract_env \<Rightarrow> string \<Rightarrow> string \<Rightarrow> string \<Rightarrow> bool" where
  "final_document env d v c = (case ce_final_document env of None \<Rightarrow> False | Some f \<Rightarrow> f d v c)"

definition log_contract ::
    "string \<Rightarrow> contract_input \<Rightarrow> string option \<Rightarrow> string \<Rightarrow> string \<Rightarrow> contract_before option \<Rightarrow> contract_data
       \<Rightarrow> contract_db \<Rightarrow> contract_db" where
  "log_contract t inp reason cid event before after db =
     db\<lparr>contract_log := contract_log db @
        [\<lparr>ch_tenant = t, ch_subject = cid, ch_event = event, ch_before = before, ch_after = after,
          ch_actor = xi_actor_id inp, ch_reason = reason, ch_correlation = xi_correlation_id inp\<rparr>]\<rparr>"

definition log_renewal ::
    "string \<Rightarrow> contract_input \<Rightarrow> string option \<Rightarrow> string \<Rightarrow> string \<Rightarrow> contract_before option \<Rightarrow> contract_data
       \<Rightarrow> contract_db \<Rightarrow> contract_db" where
  "log_renewal t inp reason rid event before after db =
     db\<lparr>renewal_log := renewal_log db @
        [\<lparr>ch_tenant = t, ch_subject = rid, ch_event = event, ch_before = before, ch_after = after,
          ch_actor = xi_actor_id inp, ch_reason = reason, ch_correlation = xi_correlation_id inp\<rparr>]\<rparr>"

text \<open>The next version of a contract's content.\<close>

definition next_content ::
    "contract_env \<Rightarrow> string \<Rightarrow> contract_input \<Rightarrow> contract \<Rightarrow> (string \<times> json) list \<Rightarrow> string \<Rightarrow> string option
       \<Rightarrow> (string \<times> string) option \<Rightarrow> contract_version" where
  "next_content env t inp row snapshot source reason doc =
     \<lparr>cv_id = ce_uuid env 0, cv_tenant = t, cv_contract_id = ct_id row, cv_number = ct_current_number row + 1,
      cv_snapshot = JObj snapshot, cv_fingerprint = snapshot_hash env (JObj snapshot), cv_source = source,
      cv_reason = reason, cv_created_by = xi_actor_id inp, cv_evidence = doc\<rparr>"

abbreviation insert_contract :: "contract \<Rightarrow> (contract_db, 'a) call \<Rightarrow> (contract_db, 'a) call" where
  "insert_contract \<equiv> insert_into contract_clash contracts (\<lambda>xs. contracts_update (\<lambda>_. xs))"

abbreviation insert_version :: "contract_version \<Rightarrow> (contract_db, 'a) call \<Rightarrow> (contract_db, 'a) call" where
  "insert_version \<equiv> insert_into version_clash contract_versions (\<lambda>xs. contract_versions_update (\<lambda>_. xs))"

abbreviation insert_evidence :: "execution_evidence \<Rightarrow> (contract_db, 'a) call \<Rightarrow> (contract_db, 'a) call" where
  "insert_evidence \<equiv> insert_into evidence_clash evidences (\<lambda>xs. evidences_update (\<lambda>_. xs))"

abbreviation insert_renewal :: "renewal_case \<Rightarrow> (contract_db, 'a) call \<Rightarrow> (contract_db, 'a) call" where
  "insert_renewal \<equiv> insert_into renewal_clash renewals (\<lambda>xs. renewals_update (\<lambda>_. xs))"

text \<open>UPDATE of one contract, or of one renewal case, at the version that was read.\<close>

definition set_contract :: "string \<Rightarrow> contract \<Rightarrow> (contract \<Rightarrow> contract) \<Rightarrow> contract_db \<Rightarrow> contract_db" where
  "set_contract t row f db =
     db\<lparr>contracts := update_rows (\<lambda>r. contract_key t (ct_id row) r \<and> ct_version r = ct_version row) f (contracts db)\<rparr>"

definition set_renewal :: "string \<Rightarrow> renewal_case \<Rightarrow> (renewal_case \<Rightarrow> renewal_case) \<Rightarrow> contract_db \<Rightarrow> contract_db" where
  "set_renewal t row f db =
     db\<lparr>renewals := update_rows (\<lambda>r. renewal_key t (rc_id row) r \<and> rc_version r = rc_version row) f (renewals db)\<rparr>"

section \<open>Contract commands\<close>

text \<open>\<open>CONTRACT.CREATE\<close>.\<close>

definition create_contract ::
    "contract_env \<Rightarrow> string \<Rightarrow> contract_input \<Rightarrow> string option \<Rightarrow> (contract_db, contract_result) call" where
  "create_contract env t inp reason =
    (let body = map_of (xi_body inp) in
     given (text_of 2000 (body ''supplier_id'')) (\<lambda>supplier_id.
     given (text_of 80 (body ''contract_code'')) (\<lambda>code.
     given (text_of 240 (body ''supplier_display_snapshot'')) (\<lambda>supplier_name.
     given (eligible env supplier_id) (\<lambda>_.
     given (instant_of env (body ''effective_at'')) (\<lambda>effective.
     given (instant_of env (body ''end_at'')) (\<lambda>end_at.
     fail_if (iso_time end_at \<le> iso_time effective) BUSINESS_RULE_VIOLATION (
     given (obj_of (Some (or_else (body ''commercial_snapshot'') (JObj [])))) (\<lambda>snapshot.
     given (column ''22P02'' (ce_pg_uuid env supplier_id)) (\<lambda>supplier.
     given (pg_time env effective) (\<lambda>starts.
     given (pg_time env end_at) (\<lambda>ends.
     given (sql_check ''23514'' (starts < ends)) (\<lambda>_.
     let clause = body ''auto_renew_clause'';
         row = \<lparr>ct_id = ce_uuid env 0, ct_tenant = t, ct_code = code, ct_supplier_id = supplier,
                ct_supplier_name = supplier_name, ct_state = ''DRAFT'', ct_usage = ''ENABLED'', ct_effective = starts,
                ct_end = ends, ct_current_id = ce_uuid env 1, ct_current_number = 1, ct_submitted_id = None,
                ct_renewed_from = None,
                ct_auto_renew = (case clause of None \<Rightarrow> None | Some c \<Rightarrow> if js_true c then Some c else None),
                ct_version = 1, ct_created_by = xi_actor_id inp, ct_correlation_id = xi_correlation_id inp\<rparr>;
         snap = put ''auto_renew_clause'' (or_else clause JNull)
               (put ''end_at'' (JStr (iso_time end_at)) (put ''effective_at'' (JStr (iso_time effective))
               (put ''supplier_display_snapshot'' (JStr supplier_name) (put ''supplier_id'' (JStr supplier_id) snapshot))));
         version = \<lparr>cv_id = ce_uuid env 1, cv_tenant = t, cv_contract_id = ce_uuid env 0, cv_number = 1,
                cv_snapshot = JObj snap, cv_fingerprint = snapshot_hash env (JObj snap), cv_source = ''CREATE'',
                cv_reason = None, cv_created_by = xi_actor_id inp, cv_evidence = None\<rparr>
     in insert_contract row (insert_version version (
        store (log_contract t inp reason (ct_id row) ''CONTRACT.CREATED'' None (RowData row)) (
        done_with \<lparr>xr_data = RowData row, xr_status = 201,
          xr_events = [\<lparr>ev_type = ''CONTRACT.CREATED'', ev_aggregate = ''CONTRACT'', ev_aggregate_id = ct_id row,
            ev_version = 1, ev_before = None, ev_after = RowData row\<rparr>]\<rparr>))))))))))))))))"

text \<open>The end every other contract command shares: history and one event.\<close>

definition contract_done ::
    "string \<Rightarrow> contract_input \<Rightarrow> string option \<Rightarrow> contract \<Rightarrow> string \<Rightarrow> contract \<Rightarrow> contract_data
       \<Rightarrow> (contract_db, contract_result) call" where
  "contract_done t inp reason row event row' data =
     (let before = Some (ContractBefore (ct_state row) (ct_usage row) (ct_version row) (ct_current_number row)) in
      store (log_contract t inp reason (ct_id row) event before data)
        (done_with \<lparr>xr_data = data, xr_status = 200,
           xr_events = [\<lparr>ev_type = event, ev_aggregate = ''CONTRACT'', ev_aggregate_id = ct_id row,
             ev_version = ct_version row', ev_before = before, ev_after = data\<rparr>]\<rparr>))"

text \<open>
  \<open>CONTRACT.UPDATE_DRAFT\<close> and \<open>CONTRACT.AMEND\<close>. \<open>String(row.end_at)\<close> prints a Date without its
  milliseconds, so the term test of an amendment compares whole seconds of the row.
\<close>

definition same_term :: "contract_env \<Rightarrow> json option \<Rightarrow> int \<Rightarrow> exn + bool" where
  "same_term env v ms =
     (case v of
        None \<Rightarrow> Inr True
      | Some x \<Rightarrow> map_sum (\<lambda>e. e) (\<lambda>s. ce_parse env s = Some (1000 * (ms div 1000))) (string_of env x))"

definition amendment_document ::
    "contract_env \<Rightarrow> contract_input \<Rightarrow> contract \<Rightarrow> exn + string \<times> string" where
  "amendment_document env inp row =
     (case text_of 2000 (map_of (xi_body inp) ''evidence_document_id'') of
        Inl e \<Rightarrow> Inl e
      | Inr d \<Rightarrow>
         (case text_of 2000 (map_of (xi_body inp) ''evidence_document_version_id'') of
            Inl e \<Rightarrow> Inl e
          | Inr v \<Rightarrow> if final_document env d v (ct_id row) then Inr (d, v)
                    else Inl (AppError BUSINESS_RULE_VIOLATION)))"

definition changed_fields :: "contract_env \<Rightarrow> (string \<times> json) list \<Rightarrow> (string \<times> json) list \<Rightarrow> string list" where
  "changed_fields env old new =
     (let text = (\<lambda>kvs f. case map_of kvs f of None \<Rightarrow> ''null'' | Some v \<Rightarrow> canonical_text (ce_fr env) v) in
      sort (filter (\<lambda>f. text old f \<noteq> text new f) (remdups (map fst old @ map fst new))))"

definition snapshot_of :: "string \<Rightarrow> string \<Rightarrow> contract_db \<Rightarrow> (string \<times> json) list" where
  "snapshot_of t vid db =
     (case find_row (\<lambda>v. cv_tenant v = t \<and> cv_id v = vid) (contract_versions db) of
        Some v \<Rightarrow> (case cv_snapshot v of JObj kvs \<Rightarrow> kvs | _ \<Rightarrow> [])
      | None \<Rightarrow> [])"

definition log_amendment :: "bool \<Rightarrow> amendment_change \<Rightarrow> contract_db \<Rightarrow> contract_db" where
  "log_amendment amend change db = (if amend then db\<lparr>amendments := amendments db @ [change]\<rparr> else db)"

definition revise_contract ::
    "contract_env \<Rightarrow> string \<Rightarrow> contract_input \<Rightarrow> string option \<Rightarrow> contract_command \<Rightarrow> contract
       \<Rightarrow> (contract_db, contract_result) call" where
  "revise_contract env t inp reason c row =
    (let amend = (c = CONTRACT_AMEND) in
     fail_if (\<not> mayTransition (ct_state row) c) BUSINESS_RULE_VIOLATION (
     fail_if (amend \<and> reason = None) BUSINESS_RULE_VIOLATION (
     given (if amend then map_sum (\<lambda>e. e) Some (amendment_document env inp row) else Inr None) (\<lambda>doc.
     given (obj_of (map_of (xi_body inp) ''commercial_snapshot'')) (\<lambda>snapshot.
     let member = map_of snapshot in
     given (case member ''supplier_id'' of None \<Rightarrow> Inr (ct_supplier_id row) | Some v \<Rightarrow> string_of env v) (\<lambda>named.
     fail_if (named \<noteq> ct_supplier_id row) BUSINESS_RULE_VIOLATION (
     given (if amend then same_term env (member ''end_at'') (ct_end row) else Inr True) (\<lambda>same_end.
     fail_if (\<not> same_end) BUSINESS_RULE_VIOLATION (
     given (if amend then same_term env (member ''effective_at'') (ct_effective row) else Inr True) (\<lambda>same_start.
     fail_if (\<not> same_start) BUSINESS_RULE_VIOLATION (
     let supplier = (if \<not> amend then named else ct_supplier_id row) in
     given (if \<not> amend \<and> member ''supplier_display_snapshot'' \<noteq> None
            then text_of 240 (member ''supplier_display_snapshot'') else Inr (ct_supplier_name row)) (\<lambda>name.
     given (if \<not> amend \<and> member ''effective_at'' \<noteq> None
            then instant_of env (member ''effective_at'') else Inr (ct_effective row)) (\<lambda>effective.
     given (if \<not> amend \<and> member ''end_at'' \<noteq> None
            then instant_of env (member ''end_at'') else Inr (ct_end row)) (\<lambda>end_at.
     fail_if (iso_time end_at \<le> iso_time effective) BUSINESS_RULE_VIOLATION (
     given (if \<not> amend then eligible env supplier else Inr True) (\<lambda>_.
     fail_if (amend \<and> \<not> approvals_ok env ''CONTRACT_AMENDMENT'' (ct_id row) (\<lambda>ctx.
            field ''base_version'' ctx = Some (JNum (JInt (ct_current_number row)))
            \<and> field ''proposal_fingerprint'' ctx = Some (JStr (snapshot_hash env (JObj snapshot)))))
       CONTRACT_APPROVAL_STALE (
     load (snapshot_of t (ct_current_id row)) (\<lambda>prior.
     let clause = (case member ''auto_renew_clause'' of
            Some v \<Rightarrow> v
          | None \<Rightarrow> or_else (map_of prior ''auto_renew_clause'') (or_else (ct_auto_renew row) JNull));
         snap = put ''auto_renew_clause'' clause
               (put ''end_at'' (JStr (iso_time end_at)) (put ''effective_at'' (JStr (iso_time effective))
               (put ''supplier_display_snapshot'' (JStr name) (put ''supplier_id'' (JStr supplier) snapshot))));
         version = next_content env t inp row snap (if amend then ''AMENDMENT'' else ''DRAFT_UPDATE'') reason doc
     in insert_version version (
     given (pg_time env effective) (\<lambda>starts.
     given (pg_time env end_at) (\<lambda>ends.
     given (sql_check ''23514'' (starts < ends)) (\<lambda>_.
     let f = (\<lambda>r. r\<lparr>ct_current_id := cv_id version, ct_current_number := cv_number version, ct_supplier_id := supplier,
                   ct_supplier_name := name, ct_effective := starts, ct_end := ends,
                   ct_auto_renew := (if clause = JNull then None else Some clause), ct_version := ct_version r + 1\<rparr>)
     in store (set_contract t row f) (
        store (log_amendment amend \<lparr>am_tenant = t, am_contract_id = ct_id row, am_base_version = ct_current_number row,
            am_amended_version = cv_number version, am_changed_fields = changed_fields env prior snap,
            am_fingerprint = cv_fingerprint version, am_reason = reason, am_created_by = xi_actor_id inp\<rparr>) (
        contract_done t inp reason row (if amend then ''CONTRACT.AMENDED'' else ''CONTRACT.UPDATED'') (f row)
          (FingerprintData (f row) (cv_fingerprint version))))))))))))))))))))))))))"

text \<open>\<open>CONTRACT.HOLD\<close> and \<open>CONTRACT.RESUME\<close>.\<close>

definition hold_contract ::
    "string \<Rightarrow> contract_input \<Rightarrow> string option \<Rightarrow> contract_command \<Rightarrow> contract \<Rightarrow> (contract_db, contract_result) call" where
  "hold_contract t inp reason c row =
    (let hold = (c = CONTRACT_HOLD);
         f = (\<lambda>r. r\<lparr>ct_usage := (if hold then ''ON_HOLD'' else ''ENABLED''), ct_version := ct_version r + 1\<rparr>) in
     fail_if (hold \<and> reason = None) BUSINESS_RULE_VIOLATION (
     fail_if (ct_state row \<notin> set [''EXECUTED'', ''ACTIVE'']) BUSINESS_RULE_VIOLATION (
     fail_if (ct_usage row \<noteq> (if hold then ''ENABLED'' else ''ON_HOLD'')) BUSINESS_RULE_VIOLATION (
     store (set_contract t row f) (
     contract_done t inp reason row (if hold then ''CONTRACT.HELD'' else ''CONTRACT.RESUMED'') (f row) (RowData (f row)))))))"

text \<open>The commands that move the lifecycle state.\<close>

definition move_contract ::
    "string \<Rightarrow> contract_input \<Rightarrow> string option \<Rightarrow> contract \<Rightarrow> string \<Rightarrow> string \<Rightarrow> (contract \<Rightarrow> string option)
       \<Rightarrow> (contract \<Rightarrow> contract_data) \<Rightarrow> (contract_db, contract_result) call" where
  "move_contract t inp reason row state event submitted data =
    (let f = (\<lambda>r. r\<lparr>ct_state := state, ct_submitted_id := submitted r, ct_version := ct_version r + 1\<rparr>)
     in store (set_contract t row f) (contract_done t inp reason row event (f row) (data (f row))))"

abbreviation contract_evidence :: "string \<Rightarrow> string \<Rightarrow> execution_evidence \<Rightarrow> bool" where
  "contract_evidence t i e \<equiv> ex_tenant e = t \<and> ex_contract_id e = i"

definition recall_contract ::
    "string \<Rightarrow> contract_input \<Rightarrow> string option \<Rightarrow> contract \<Rightarrow> (contract_db, contract_result) call" where
  "recall_contract t inp reason row =
     load (\<lambda>db. find_row (contract_evidence t (ct_id row)) (evidences db)) (\<lambda>found.
     fail_if (found \<noteq> None) BUSINESS_RULE_VIOLATION (
     move_contract t inp reason row ''DRAFT'' ''CONTRACT.SIGNATURE_RECALLED'' (\<lambda>_. None) RowData))"

definition record_execution ::
    "contract_env \<Rightarrow> string \<Rightarrow> contract_input \<Rightarrow> string option \<Rightarrow> contract \<Rightarrow> (contract_db, contract_result) call" where
  "record_execution env t inp reason row =
    (let body = map_of (xi_body inp);
         bound = (case ct_submitted_id row of None \<Rightarrow> ''null'' | Some v \<Rightarrow> v);
         given_member = (\<lambda>k. case body k of None \<Rightarrow> False | Some v \<Rightarrow> js_true v) in
     given (eligible env (ct_supplier_id row)) (\<lambda>ok.
     fail_if (\<not> ok) BUSINESS_RULE_VIOLATION (
     fail_if (\<not> approvals_ok env ''CONTRACT_EXECUTION'' (ct_id row)
               (\<lambda>ctx. field ''contract_version_id'' ctx = Some (JStr bound))) CONTRACT_APPROVAL_STALE (
     given (if nullish (body ''external_reference'') then Inr None
            else map_sum (\<lambda>e. e) Some (text_of 512 (body ''external_reference''))) (\<lambda>external.
     let with_document = (given_member ''document_id'' \<or> given_member ''document_version_id'') in
     given (if with_document then text_of 2000 (body ''document_id'') else Inr []) (\<lambda>document_id.
     given (if with_document then text_of 2000 (body ''document_version_id'') else Inr []) (\<lambda>version_id.
     fail_if (with_document \<and> \<not> final_document env document_id version_id (ct_id row)) BUSINESS_RULE_VIOLATION (
     fail_if (\<not> with_document \<and> external = None) BUSINESS_RULE_VIOLATION (
     given (column ''23502'' (ct_submitted_id row)) (\<lambda>submitted.
     insert_evidence \<lparr>ex_id = ce_uuid env 0, ex_tenant = t, ex_contract_id = ct_id row, ex_version_id = submitted,
          ex_document = (if with_document then Some (document_id, version_id) else None),
          ex_external_reference = (if with_document then None else external), ex_recorded_by = xi_actor_id inp\<rparr> (
     move_contract t inp reason row ''EXECUTED'' ''CONTRACT.EXECUTED'' ct_submitted_id RowData)))))))))))"

definition activate_contract ::
    "contract_env \<Rightarrow> string \<Rightarrow> contract_input \<Rightarrow> string option \<Rightarrow> contract \<Rightarrow> (contract_db, contract_result) call" where
  "activate_contract env t inp reason row =
     fail_if (ce_now env < ct_effective row \<or> ct_end row \<le> ce_now env) BUSINESS_RULE_VIOLATION (
     load (\<lambda>db. find_row (\<lambda>e. contract_evidence t (ct_id row) e \<and> ct_submitted_id row = Some (ex_version_id e))
                  (evidences db)) (\<lambda>found.
     fail_if (found = None) BUSINESS_RULE_VIOLATION (
     given (eligible env (ct_supplier_id row)) (\<lambda>ok.
     fail_if (\<not> ok) BUSINESS_RULE_VIOLATION (
     move_contract t inp reason row ''ACTIVE'' ''CONTRACT.ACTIVATED'' ct_submitted_id RowData)))))"

definition terminate_contract ::
    "contract_env \<Rightarrow> string \<Rightarrow> contract_input \<Rightarrow> string option \<Rightarrow> contract \<Rightarrow> (contract_db, contract_result) call" where
  "terminate_contract env t inp reason row =
     fail_if (reason = None) BUSINESS_RULE_VIOLATION (
     given (instant_of env (map_of (xi_body inp) ''effective_at'')) (\<lambda>effective.
     move_contract t inp reason row ''TERMINATED'' ''CONTRACT.TERMINATED'' ct_submitted_id
       (\<lambda>r. TerminationData r (iso_time effective))))"

definition expire_contract ::
    "contract_env \<Rightarrow> string \<Rightarrow> contract_input \<Rightarrow> string option \<Rightarrow> contract \<Rightarrow> (contract_db, contract_result) call" where
  "expire_contract env t inp reason row =
     fail_if (ce_now env < ct_end row) BUSINESS_RULE_VIOLATION (
     move_contract t inp reason row ''EXPIRED'' ''CONTRACT.EXPIRED'' ct_submitted_id RowData)"

definition move_command ::
    "contract_env \<Rightarrow> string \<Rightarrow> contract_input \<Rightarrow> string option \<Rightarrow> contract_command \<Rightarrow> contract
       \<Rightarrow> (contract_db, contract_result) call" where
  "move_command env t inp reason c row =
     fail_if (\<not> mayTransition (ct_state row) c) BUSINESS_RULE_VIOLATION (
       case c of
         CONTRACT_SUBMIT_FOR_SIGNATURE \<Rightarrow>
           move_contract t inp reason row ''PENDING_SIGNATURE'' ''CONTRACT.SUBMITTED_FOR_SIGNATURE''
             (\<lambda>r. Some (ct_current_id r)) RowData
       | CONTRACT_RECALL_SIGNATURE \<Rightarrow> recall_contract t inp reason row
       | CONTRACT_RECORD_EXECUTION \<Rightarrow> record_execution env t inp reason row
       | CONTRACT_ACTIVATE \<Rightarrow> activate_contract env t inp reason row
       | CONTRACT_TERMINATE \<Rightarrow> terminate_contract env t inp reason row
       | CONTRACT_EXPIRE \<Rightarrow> expire_contract env t inp reason row
       | _ \<Rightarrow> fail_if (reason = None) BUSINESS_RULE_VIOLATION
                (move_contract t inp reason row ''CANCELLED'' ''CONTRACT.CANCELLED'' ct_submitted_id RowData))"

definition existing_contract ::
    "contract_env \<Rightarrow> string \<Rightarrow> contract_input \<Rightarrow> string option \<Rightarrow> contract_command \<Rightarrow> (contract_db, contract_result) call" where
  "existing_contract env t inp reason c =
     given (needed VALIDATION_ERROR (xi_id inp)) (\<lambda>i.
     fail_if (i = []) VALIDATION_ERROR (
     load (contractRow t i) (\<lambda>found. given found (\<lambda>row.
     given (assertVersion (ct_version row) (xi_expected_version inp)) (\<lambda>_.
       if c = CONTRACT_EXPIRE \<and> ct_state row = ''EXPIRED''
       then done_with \<lparr>xr_data = RowData row, xr_status = 200, xr_events = []\<rparr>
       else if c \<in> set [CONTRACT_UPDATE_DRAFT, CONTRACT_AMEND] then revise_contract env t inp reason c row
       else if c \<in> set [CONTRACT_HOLD, CONTRACT_RESUME] then hold_contract t inp reason c row
       else move_command env t inp reason c row)))))"

section \<open>Renewal commands\<close>

text \<open>The term of a successor: readable, in order, and not before the predecessor's end.\<close>

definition renewal_event :: "string \<Rightarrow> string \<Rightarrow> int \<Rightarrow> contract_before option \<Rightarrow> contract_data \<Rightarrow> contract_event" where
  "renewal_event event rid version before data =
     \<lparr>ev_type = event, ev_aggregate = ''RENEWAL_CASE'', ev_aggregate_id = rid, ev_version = version,
      ev_before = before, ev_after = data\<rparr>"

definition successor_event :: "string \<Rightarrow> string \<Rightarrow> int \<Rightarrow> int \<Rightarrow> contract_event" where
  "successor_event event cid version number =
     \<lparr>ev_type = event, ev_aggregate = ''CONTRACT'', ev_aggregate_id = cid, ev_version = version,
      ev_before = None, ev_after = DraftData cid number\<rparr>"

definition open_renewal ::
    "contract_env \<Rightarrow> string \<Rightarrow> contract_input \<Rightarrow> string option \<Rightarrow> string \<Rightarrow> (contract_db, contract_result) call" where
  "open_renewal env t inp reason i =
     load (contractRow t i) (\<lambda>found. given found (\<lambda>pred.
     given (assertVersion (ct_version pred) (xi_expected_version inp)) (\<lambda>_.
     load (\<lambda>db. find_row (\<lambda>r. rc_tenant r = t \<and> rc_predecessor r = ct_id pred \<and> rc_state r = ''OPEN'') (renewals db)) (\<lambda>opened.
     fail_if (opened \<noteq> None) RENEWAL_ALREADY_OPEN (
     fail_if (ct_state pred \<notin> set [''EXECUTED'', ''ACTIVE'', ''EXPIRED'']) BUSINESS_RULE_VIOLATION (
     given (obj_of (map_of (xi_body inp) ''successor_snapshot'')) (\<lambda>proposal.
     let member = map_of proposal in
     given (instant_of env (member ''effective_at'')) (\<lambda>effective.
     given (instant_of env (member ''end_at'')) (\<lambda>end_at.
     fail_if (iso_time end_at \<le> iso_time effective \<or> effective < ct_end pred) BUSINESS_RULE_VIOLATION (
     given (string_of env (or_else (member ''supplier_id'') (JStr (ct_supplier_id pred)))) (\<lambda>supplier.
     fail_if (supplier \<noteq> ct_supplier_id pred) BUSINESS_RULE_VIOLATION (
     given (eligible env supplier) (\<lambda>ok.
     fail_if (\<not> ok) BUSINESS_RULE_VIOLATION (
     given (text_of 80 (member ''contract_code'')) (\<lambda>code.
     given (text_of 240 (Some (or_else (member ''supplier_display_snapshot'') (JStr (ct_supplier_name pred))))) (\<lambda>display.
     given (pg_time env effective) (\<lambda>starts.
     given (pg_time env end_at) (\<lambda>ends.
     given (sql_check ''23514'' (starts < ends)) (\<lambda>_.
     let row = \<lparr>ct_id = ce_uuid env 1, ct_tenant = t, ct_code = code, ct_supplier_id = supplier,
                ct_supplier_name = display, ct_state = ''DRAFT'', ct_usage = ''ENABLED'', ct_effective = starts,
                ct_end = ends, ct_current_id = ce_uuid env 2, ct_current_number = 1, ct_submitted_id = None,
                ct_renewed_from = Some (ct_id pred), ct_auto_renew = None, ct_version = 1,
                ct_created_by = xi_actor_id inp, ct_correlation_id = xi_correlation_id inp\<rparr>;
         snap = put ''auto_renew_clause'' (or_else (member ''auto_renew_clause'') JNull)
               (put ''end_at'' (JStr (iso_time end_at)) (put ''effective_at'' (JStr (iso_time effective))
               (put ''supplier_display_snapshot'' (JStr display) (put ''supplier_id'' (JStr supplier) proposal))));
         fp = snapshot_hash env (JObj snap);
         version = \<lparr>cv_id = ce_uuid env 2, cv_tenant = t, cv_contract_id = ce_uuid env 1, cv_number = 1,
                cv_snapshot = JObj snap, cv_fingerprint = fp, cv_source = ''RENEWAL'',
                cv_reason = None, cv_created_by = xi_actor_id inp, cv_evidence = None\<rparr>;
         case_row = \<lparr>rc_id = ce_uuid env 0, rc_tenant = t, rc_predecessor = ct_id pred, rc_successor = ce_uuid env 1,
                rc_state = ''OPEN'', rc_proposal = JObj snap, rc_fingerprint = fp, rc_version = 1,
                rc_created_by = xi_actor_id inp, rc_reason = reason, rc_correlation_id = xi_correlation_id inp\<rparr>
     in insert_contract row (insert_version version (insert_renewal case_row (
        store (log_contract t inp reason (ct_id row) ''CONTRACT.CREATED'' None (DraftData (ct_id row) 1)) (
        store (log_renewal t inp reason (rc_id case_row) ''CONTRACT.RENEWAL_OPENED'' None (RenewalData case_row)) (
        done_with \<lparr>xr_data = RenewalData case_row, xr_status = 201,
          xr_events = [successor_event ''CONTRACT.CREATED'' (ct_id row) 1 1,
            renewal_event ''CONTRACT.RENEWAL_OPENED'' (rc_id case_row) 1 None (RenewalData case_row)]\<rparr>))))))))))))))))))))))))"

definition renewal_done ::
    "string \<Rightarrow> contract_input \<Rightarrow> string option \<Rightarrow> renewal_case \<Rightarrow> string \<Rightarrow> contract_event list \<Rightarrow> contract_data
       \<Rightarrow> (contract_db, contract_result) call" where
  "renewal_done t inp reason renewal event others data =
    (let before = Some (StateBefore (rc_state renewal) (rc_version renewal)) in
     store (log_renewal t inp reason (rc_id renewal) event before data) (
     done_with \<lparr>xr_data = data, xr_status = 200,
       xr_events = others @ [renewal_event event (rc_id renewal) (rc_version renewal + 1) before data]\<rparr>))"

text \<open>\<open>RENEWAL.UPDATE_PROPOSAL\<close>; the display name is stored as it is given.\<close>

fun column_text :: "contract_env \<Rightarrow> json \<Rightarrow> string" where
  "column_text env (JStr s) = s"
| "column_text env v = ce_pg_param env v"

definition update_proposal ::
    "contract_env \<Rightarrow> string \<Rightarrow> contract_input \<Rightarrow> string option \<Rightarrow> renewal_case \<Rightarrow> (contract_db, contract_result) call" where
  "update_proposal env t inp reason renewal =
     fail_if (reason = None) BUSINESS_RULE_VIOLATION (
     given (obj_of (map_of (xi_body inp) ''proposal_snapshot'')) (\<lambda>proposal.
     let member = map_of proposal in
     load (contractRow t (rc_successor renewal)) (\<lambda>found. given found (\<lambda>succ.
     fail_if (ct_state succ \<noteq> ''DRAFT'') BUSINESS_RULE_VIOLATION (
     given (instant_of env (member ''effective_at'')) (\<lambda>effective.
     given (instant_of env (member ''end_at'')) (\<lambda>end_at.
     fail_if (iso_time end_at \<le> iso_time effective) BUSINESS_RULE_VIOLATION (
     load (contractRow t (rc_predecessor renewal)) (\<lambda>found'. given found' (\<lambda>pred.
     fail_if (effective < ct_end pred) BUSINESS_RULE_VIOLATION (
     given (string_of env (or_else (member ''supplier_id'') (JStr (ct_supplier_id succ)))) (\<lambda>supplier.
     fail_if (supplier \<noteq> ct_supplier_id succ) BUSINESS_RULE_VIOLATION (
     let display = or_else (member ''supplier_display_snapshot'') (JStr (ct_supplier_name succ));
         snap = put ''end_at'' (JStr (iso_time end_at)) (put ''effective_at'' (JStr (iso_time effective))
               (put ''supplier_display_snapshot'' display (put ''supplier_id'' (JStr supplier) proposal)));
         version = next_content env t inp succ snap ''RENEWAL'' reason None;
         fp = cv_fingerprint version
     in insert_version version (
     given (pg_time env effective) (\<lambda>starts.
     given (pg_time env end_at) (\<lambda>ends.
     given (sql_check ''23514'' (starts < ends)) (\<lambda>_.
     store (set_contract t succ (\<lambda>r. r\<lparr>ct_current_id := cv_id version, ct_current_number := cv_number version,
              ct_effective := starts, ct_end := ends, ct_supplier_name := column_text env display,
              ct_version := ct_version r + 1\<rparr>)) (
     store (log_contract t inp reason (ct_id succ) ''CONTRACT.UPDATED''
              (Some (StateBefore ''DRAFT'' (ct_version succ))) (DraftData (ct_id succ) (cv_number version))) (
     let f = (\<lambda>r. r\<lparr>rc_proposal := JObj snap, rc_fingerprint := fp, rc_version := rc_version r + 1\<rparr>) in
     store (set_renewal t renewal f) (
     renewal_done t inp reason renewal ''CONTRACT.RENEWAL_UPDATED''
       [successor_event ''CONTRACT.UPDATED'' (ct_id succ) (ct_version succ + 1) (cv_number version)]
       (ProposalData (f renewal) (ct_id succ) (ct_version succ + 1) (cv_number version))))))))))))))))))))))"

definition complete_renewal ::
    "contract_env \<Rightarrow> string \<Rightarrow> contract_input \<Rightarrow> string option \<Rightarrow> renewal_case \<Rightarrow> (contract_db, contract_result) call" where
  "complete_renewal env t inp reason renewal =
     load (contractRow t (rc_successor renewal)) (\<lambda>found. given found (\<lambda>succ.
     fail_if (ct_state succ \<notin> set [''EXECUTED'', ''ACTIVE'']) BUSINESS_RULE_VIOLATION (
     fail_if (\<not> approvals_ok env ''CONTRACT_RENEWAL'' (rc_id renewal)
               (\<lambda>ctx. field ''proposal_fingerprint'' ctx = Some (JStr (rc_fingerprint renewal)))) CONTRACT_APPROVAL_STALE (
     let f = (\<lambda>r. r\<lparr>rc_state := ''COMPLETED'', rc_version := rc_version r + 1\<rparr>) in
     store (set_renewal t renewal f) (
     renewal_done t inp reason renewal ''CONTRACT.RENEWAL_COMPLETED'' [] (RenewalData (f renewal)))))))"

definition close_renewal ::
    "string \<Rightarrow> contract_input \<Rightarrow> string option \<Rightarrow> contract_command \<Rightarrow> renewal_case \<Rightarrow> (contract_db, contract_result) call" where
  "close_renewal t inp reason c renewal =
    (let state = (if c = RENEWAL_CANCEL then ''CANCELLED'' else ''NOT_RENEWED'');
         f = (\<lambda>r. r\<lparr>rc_state := state, rc_version := rc_version r + 1\<rparr>) in
     fail_if (reason = None) BUSINESS_RULE_VIOLATION (
     store (set_renewal t renewal (\<lambda>r. (f r)\<lparr>rc_reason := reason\<rparr>)) (
     renewal_done t inp reason renewal
       (if state = ''CANCELLED'' then ''CONTRACT.RENEWAL_CANCELLED'' else ''CONTRACT.RENEWAL_NOT_RENEWED'') []
       (RenewalData (f renewal)))))"

definition renewal_command ::
    "contract_env \<Rightarrow> string \<Rightarrow> contract_input \<Rightarrow> string option \<Rightarrow> contract_command \<Rightarrow> (contract_db, contract_result) call" where
  "renewal_command env t inp reason c =
     given (needed VALIDATION_ERROR (xi_id inp)) (\<lambda>i.
     fail_if (i = []) VALIDATION_ERROR (
     if c = RENEWAL_OPEN then open_renewal env t inp reason i
     else
       load (find_renewal t i) (\<lambda>found. given (needed NOT_FOUND found) (\<lambda>renewal.
       given (assertVersion (rc_version renewal) (xi_expected_version inp)) (\<lambda>_.
       fail_if (rc_state renewal \<noteq> ''OPEN'') BUSINESS_RULE_VIOLATION (
         if c = RENEWAL_UPDATE_PROPOSAL then update_proposal env t inp reason renewal
         else if c = RENEWAL_COMPLETE then complete_renewal env t inp reason renewal
         else close_renewal t inp reason c renewal))))))"

definition is_renewal :: "contract_command \<Rightarrow> bool" where
  "is_renewal c \<longleftrightarrow> c \<in> set [RENEWAL_OPEN, RENEWAL_UPDATE_PROPOSAL, RENEWAL_COMPLETE, RENEWAL_MARK_NOT_RENEWED, RENEWAL_CANCEL]"

definition executeContractCommand ::
    "contract_env \<Rightarrow> string \<Rightarrow> contract_command \<Rightarrow> contract_input \<Rightarrow> (contract_db, contract_result) call" where
  "executeContractCommand env t c inp =
    (let r = map_of (xi_body inp) ''reason'' in
     given (if nullish r then Inr None else map_sum (\<lambda>e. e) Some (text_of 2000 r)) (\<lambda>reason.
       if c = CONTRACT_CREATE then create_contract env t inp reason
       else if is_renewal c then renewal_command env t inp reason c
       else existing_contract env t inp reason c))"

definition listContractVersions :: "string \<Rightarrow> string \<Rightarrow> contract_db \<Rightarrow> exn + contract_version list" where
  "listContractVersions t i db =
     map_sum (\<lambda>e. e) (\<lambda>_. sort_key cv_number (select_rows (\<lambda>v. cv_tenant v = t \<and> cv_contract_id v = i) (contract_versions db)))
       (contractRow t i db)"

definition readRenewalCase :: "string \<Rightarrow> string \<Rightarrow> contract_db \<Rightarrow> exn + renewal_case" where
  "readRenewalCase t i db = needed NOT_FOUND (find_renewal t i db)"

section \<open>What the commands may do to a contract\<close>

text \<open>
  The lifecycle a contract promises, one rule per kind of move: \<open>row_step\<close> relates the row and the
  execution evidence before and after.
\<close>

abbreviation evidence_for :: "contract \<Rightarrow> execution_evidence \<Rightarrow> bool" where
  "evidence_for x e \<equiv> contract_evidence (ct_tenant x) (ct_id x) e"

inductive row_step :: "execution_evidence list \<Rightarrow> contract \<Rightarrow> execution_evidence list \<Rightarrow> contract \<Rightarrow> bool" where
  hold: "ct_state x \<in> {''EXECUTED'', ''ACTIVE''} \<Longrightarrow> u \<in> {''ENABLED'', ''ON_HOLD''} \<Longrightarrow>
    row_step es x es (x\<lparr>ct_usage := u, ct_version := ct_version x + 1\<rparr>)"
| submit: "ct_state x = ''DRAFT'' \<Longrightarrow>
    row_step es x es (x\<lparr>ct_state := ''PENDING_SIGNATURE'', ct_submitted_id := Some (ct_current_id x), ct_version := ct_version x + 1\<rparr>)"
| recall: "ct_state x = ''PENDING_SIGNATURE'' \<Longrightarrow> \<forall>e\<in>set es. \<not> evidence_for x e \<Longrightarrow>
    row_step es x es (x\<lparr>ct_state := ''DRAFT'', ct_submitted_id := None, ct_version := ct_version x + 1\<rparr>)"
| execute: "ct_state x = ''PENDING_SIGNATURE'' \<Longrightarrow> evidence_for x e \<Longrightarrow> ct_submitted_id x = Some (ex_version_id e) \<Longrightarrow>
    row_step es x (es @ [e]) (x\<lparr>ct_state := ''EXECUTED'', ct_version := ct_version x + 1\<rparr>)"
| activate: "ct_state x = ''EXECUTED'' \<Longrightarrow> row_step es x es (x\<lparr>ct_state := ''ACTIVE'', ct_version := ct_version x + 1\<rparr>)"
| finish: "ct_state x \<in> {''EXECUTED'', ''ACTIVE''} \<Longrightarrow> s \<in> {''TERMINATED'', ''EXPIRED''} \<Longrightarrow>
    row_step es x es (x\<lparr>ct_state := s, ct_version := ct_version x + 1\<rparr>)"
| cancel: "ct_state x \<in> {''DRAFT'', ''PENDING_SIGNATURE''} \<Longrightarrow>
    row_step es x es (x\<lparr>ct_state := ''CANCELLED'', ct_version := ct_version x + 1\<rparr>)"

text \<open>A revision writes the next version and keeps who, what and in which state the contract is; once the
  contract has left the draft its term is written back as it was read.\<close>

definition revision :: "contract_env \<Rightarrow> contract \<Rightarrow> contract_version \<Rightarrow> contract \<Rightarrow> bool" where
  "revision env x v y \<longleftrightarrow> ct_state x \<in> {''DRAFT'', ''EXECUTED'', ''ACTIVE''}
     \<and> cv_tenant v = ct_tenant x \<and> cv_contract_id v = ct_id x \<and> cv_number v = ct_current_number x + 1
     \<and> ct_current_id y = cv_id v \<and> ct_current_number y = cv_number v
     \<and> (ct_tenant y, ct_id y, ct_code y, ct_supplier_id y, ct_state y, ct_submitted_id y, ct_usage y)
       = (ct_tenant x, ct_id x, ct_code x, ct_supplier_id x, ct_state x, ct_submitted_id x, ct_usage x)
     \<and> ct_effective y < ct_end y \<and> ct_version y = ct_version x + 1
     \<and> (ct_state x = ''DRAFT'' \<or>
         pg_time env (ct_effective x) = Inr (ct_effective y) \<and> pg_time env (ct_end x) = Inr (ct_end y))"

definition first_version :: "contract_db \<Rightarrow> contract \<Rightarrow> contract_version \<Rightarrow> bool" where
  "first_version db x v \<longleftrightarrow> ct_state x = ''DRAFT'' \<and> ct_usage x = ''ENABLED'' \<and> ct_version x = 1
     \<and> ct_submitted_id x = None \<and> ct_effective x < ct_end x \<and> ct_current_number x = 1 \<and> ct_current_id x = cv_id v
     \<and> cv_tenant v = ct_tenant x \<and> cv_contract_id v = ct_id x \<and> cv_number v = 1
     \<and> (\<forall>y\<in>set (contracts db). \<not> contract_clash x y)"

abbreviation row_at :: "contract \<Rightarrow> contract \<Rightarrow> bool" where
  "row_at x r \<equiv> contract_key (ct_tenant x) (ct_id x) r \<and> ct_version r = ct_version x"

inductive contract_effect :: "contract_env \<Rightarrow> contract_db \<Rightarrow> contract_db \<Rightarrow> bool" for env where
  kept: "contracts db' = contracts db \<Longrightarrow> contract_versions db' = contract_versions db \<Longrightarrow> evidences db' = evidences db \<Longrightarrow>
    contract_effect env db db'"
| created: "first_version db x v \<Longrightarrow> \<forall>w\<in>set (contract_versions db). \<not> version_clash v w \<Longrightarrow>
    contracts db' = contracts db @ [x] \<Longrightarrow> contract_versions db' = contract_versions db @ [v] \<Longrightarrow> evidences db' = evidences db \<Longrightarrow>
    contract_effect env db db'"
| revised: "x \<in> set (contracts db) \<Longrightarrow> revision env x v (f x) \<Longrightarrow> \<forall>w\<in>set (contract_versions db). \<not> version_clash v w \<Longrightarrow>
    contracts db' = update_rows (row_at x) f (contracts db) \<Longrightarrow> contract_versions db' = contract_versions db @ [v] \<Longrightarrow>
    evidences db' = evidences db \<Longrightarrow> contract_effect env db db'"
| moved: "x \<in> set (contracts db) \<Longrightarrow> row_step (evidences db) x (evidences db') (f x) \<Longrightarrow>
    contracts db' = update_rows (row_at x) f (contracts db) \<Longrightarrow> contract_versions db' = contract_versions db \<Longrightarrow>
    contract_effect env db db'"

section \<open>Every command keeps the promise\<close>

lemma contractRow_Inr [call_simps]:
  "contractRow t i db = Inr x \<longleftrightarrow> find_row (contract_key t i) (contracts db) = Some x"
  by (simp add: contractRow_def call_simps)

lemma contract_tables [simp]:
  "contracts (log_contract t inp r i e b a db) = contracts db"
  "contract_versions (log_contract t inp r i e b a db) = contract_versions db"
  "evidences (log_contract t inp r i e b a db) = evidences db"
  "renewals (log_contract t inp r i e b a db) = renewals db"
  "contracts (log_renewal t inp r i e b a db) = contracts db"
  "contract_versions (log_renewal t inp r i e b a db) = contract_versions db"
  "evidences (log_renewal t inp r i e b a db) = evidences db"
  "renewals (log_renewal t inp r i e b a db) = renewals db"
  "contract_versions (set_contract t x f db) = contract_versions db"
  "evidences (set_contract t x f db) = evidences db"
  "renewals (set_contract t x f db) = renewals db"
  "contracts (log_amendment am ch db) = contracts db"
  "contract_versions (log_amendment am ch db) = contract_versions db"
  "evidences (log_amendment am ch db) = evidences db"
  "renewals (log_amendment am ch db) = renewals db"
  "contracts (set_renewal t y g db) = contracts db"
  "contract_versions (set_renewal t y g db) = contract_versions db"
  "evidences (set_renewal t y g db) = evidences db"
  by (simp_all add: log_amendment_def log_contract_def log_renewal_def set_contract_def set_renewal_def)

lemma contracts_set_contract:
  "contracts (set_contract t x f db) =
     update_rows (\<lambda>r. contract_key t (ct_id x) r \<and> ct_version r = ct_version x) f (contracts db)"
  by (simp add: set_contract_def)

lemma contract_done_Inr:
  "contract_done t inp reason x ev y d db = (Inr r, db') \<Longrightarrow>
     contracts db' = contracts db \<and> contract_versions db' = contract_versions db \<and> evidences db' = evidences db
       \<and> renewals db' = renewals db"
  by (auto simp: contract_done_def Let_def call_simps)

lemma move_contract_Inr:
  assumes "move_contract t inp reason x s ev sub d db = (Inr r, db')" and "ct_tenant x = t"
  shows "contracts db' = update_rows (row_at x) (\<lambda>y. y\<lparr>ct_state := s, ct_submitted_id := sub y, ct_version := ct_version y + 1\<rparr>) (contracts db)
    \<and> contract_versions db' = contract_versions db \<and> evidences db' = evidences db \<and> renewals db' = renewals db"
proof -
  from assms(1) have "contract_done t inp reason x ev (x\<lparr>ct_state := s, ct_submitted_id := sub x, ct_version := ct_version x + 1\<rparr>)
      (d (x\<lparr>ct_state := s, ct_submitted_id := sub x, ct_version := ct_version x + 1\<rparr>))
      (set_contract t x (\<lambda>y. y\<lparr>ct_state := s, ct_submitted_id := sub y, ct_version := ct_version y + 1\<rparr>) db) = (Inr r, db')"
    by (simp add: move_contract_def Let_def call_simps)
  from contract_done_Inr [OF this] show ?thesis using assms(2) by (simp add: contracts_set_contract)
qed

lemma move_effect:
  assumes "move_contract t inp reason x s ev sub d db = (Inr r, db')" and "ct_tenant x = t" and "x \<in> set (contracts db0)"
    and "contracts db = contracts db0" and "contract_versions db = contract_versions db0"
    and "row_step (evidences db0) x (evidences db) (x\<lparr>ct_state := s, ct_submitted_id := sub x, ct_version := ct_version x + 1\<rparr>)"
  shows "contract_effect env db0 db'"
  using move_contract_Inr [OF assms(1,2)] assms(3-6)
  by (intro contract_effect.moved [where f = "\<lambda>y. y\<lparr>ct_state := s, ct_submitted_id := sub y, ct_version := ct_version y + 1\<rparr>"]) auto

lemma keep_submitted: "x\<lparr>ct_state := s, ct_submitted_id := ct_submitted_id x, ct_version := v\<rparr> = x\<lparr>ct_state := s, ct_version := v\<rparr>"
  by (cases x) simp

lemmas plain_move = move_effect [where sub = ct_submitted_id, unfolded keep_submitted]

lemma move_command_effect:
  assumes "move_command env t inp reason c x db = (Inr r, db')" and "ct_tenant x = t" and "x \<in> set (contracts db)"
    and "c \<in> {CONTRACT_SUBMIT_FOR_SIGNATURE, CONTRACT_RECALL_SIGNATURE, CONTRACT_RECORD_EXECUTION, CONTRACT_ACTIVATE,
              CONTRACT_TERMINATE, CONTRACT_EXPIRE, CONTRACT_CANCEL}"
  shows "contract_effect env db db'"
proof -
  have from_state: "ct_state x \<in> set (contract_sources c)"
    using assms(1) by (simp add: move_command_def call_simps mayTransition_def)
  note m = assms(1) [unfolded move_command_def fail_if_Inr, THEN conjunct2]
  show ?thesis
  proof (cases c)
    case CONTRACT_SUBMIT_FOR_SIGNATURE
    with m from_state assms(2,3) show ?thesis by (auto intro!: row_step.submit elim!: move_effect)
  next
    case CONTRACT_RECALL_SIGNATURE
    with m have rec: "move_contract t inp reason x ''DRAFT'' ''CONTRACT.SIGNATURE_RECALLED'' (\<lambda>_. None) RowData db = (Inr r, db')"
      and none: "\<forall>e\<in>set (evidences db). \<not> contract_evidence t (ct_id x) e"
      by (auto simp: recall_contract_def call_simps find_row_None_iff)
    show ?thesis
      by (rule move_effect [OF rec assms(2,3)]) (use CONTRACT_RECALL_SIGNATURE from_state none assms(2) in \<open>auto intro!: row_step.recall\<close>)
  next
    case CONTRACT_RECORD_EXECUTION
    with m have "record_execution env t inp reason x db = (Inr r, db')" by simp
    then obtain e where mv: "move_contract t inp reason x ''EXECUTED'' ''CONTRACT.EXECUTED'' ct_submitted_id RowData
        (evidences_update (\<lambda>_. evidences db @ [e]) db) = (Inr r, db')"
      and e: "ex_tenant e = t" "ex_contract_id e = ct_id x" "ct_submitted_id x = Some (ex_version_id e)"
      unfolding record_execution_def Let_def given_Inr fail_if_Inr insert_into_Inr column_Inr
      by (elim exE conjE) (erule that, simp_all)
    show ?thesis
      by (rule plain_move [OF mv assms(2,3)]) (use CONTRACT_RECORD_EXECUTION from_state e assms(2) in \<open>auto intro!: row_step.execute\<close>)
  next
    case CONTRACT_ACTIVATE
    with m from_state assms(2,3) show ?thesis
      by (auto simp: activate_contract_def call_simps intro!: row_step.activate elim!: plain_move)
  next
    case CONTRACT_TERMINATE
    with m from_state assms(2,3) show ?thesis
      by (auto simp: terminate_contract_def call_simps intro!: row_step.finish elim!: plain_move)
  next
    case CONTRACT_EXPIRE
    with m from_state assms(2,3) show ?thesis
      by (auto simp: expire_contract_def call_simps intro!: row_step.finish elim!: plain_move)
  next
    case CONTRACT_CANCEL
    with m from_state assms(2,3) show ?thesis by (auto simp: call_simps intro!: row_step.cancel elim!: plain_move)
  qed (use assms(4) in auto)
qed

lemma hold_effect:
  assumes "hold_contract t inp reason c x db = (Inr r, db')" and "ct_tenant x = t" and "x \<in> set (contracts db)"
  shows "contract_effect env db db'"
proof -
  let ?f = "\<lambda>y. y\<lparr>ct_usage := (if c = CONTRACT_HOLD then ''ON_HOLD'' else ''ENABLED''), ct_version := ct_version y + 1\<rparr>"
  have "ct_state x \<in> {''EXECUTED'', ''ACTIVE''}"
    using assms(1) unfolding hold_contract_def Let_def fail_if_Inr by simp
  moreover have "\<exists>ev d. contract_done t inp reason x ev (?f x) d (set_contract t x ?f db) = (Inr r, db')"
    using assms(1) unfolding hold_contract_def Let_def fail_if_Inr store_Inr by blast
  ultimately show ?thesis using assms(2,3)
    by (intro contract_effect.moved [where f = ?f]) (auto simp: contracts_set_contract intro: row_step.hold dest!: contract_done_Inr)
qed

lemma created_rule:
  assumes "\<forall>y\<in>set (contracts db). \<not> contract_clash x y" and "\<forall>w\<in>set vs. \<not> version_clash v w"
    and "vs = contract_versions db" and "contracts db' = contracts db @ [x]" and "contract_versions db' = vs @ [v]"
    and "evidences db' = evidences db"
    and "ct_state x = ''DRAFT''" and "ct_usage x = ''ENABLED''" and "ct_version x = 1" and "ct_submitted_id x = None" and "ct_effective x < ct_end x" and "ct_current_number x = 1"
    and "ct_current_id x = cv_id v" and "cv_tenant v = ct_tenant x" and "cv_contract_id v = ct_id x" and "cv_number v = 1"
  shows "contract_effect env db db'"
  using assms by (intro contract_effect.created [of db x v]) (auto simp: first_version_def)

lemma create_effect:
  assumes "create_contract env t inp reason db = (Inr r, db')"
  shows "contract_effect env db db'"
  using assms unfolding create_contract_def Let_def given_Inr fail_if_Inr insert_into_Inr store_Inr done_with_Inr sql_check_Inr
  by (elim exE conjE) (erule created_rule, assumption, simp_all)

lemma open_effect:
  assumes "open_renewal env t inp reason i db = (Inr r, db')"
  shows "contract_effect env db db'"
  using assms unfolding open_renewal_def Let_def load_Inr given_Inr fail_if_Inr insert_into_Inr store_Inr done_with_Inr sql_check_Inr
  by (elim exE conjE) (erule created_rule, assumption, simp_all)

lemma revise_rule:
  assumes "contract_done t inp reason x ev y d (log_amendment am ch (set_contract t x f db1)) = (Inr r, db')"
    and "\<forall>w\<in>set vs. \<not> version_clash v w" and "vs = contract_versions db" and "contracts db1 = contracts db"
    and "contract_versions db1 = vs @ [v]" and "evidences db1 = evidences db"
    and "ct_tenant x = t" and "x \<in> set (contracts db)" and "revision env x v (f x)"
  shows "contract_effect env db db'"
  using contract_done_Inr [OF assms(1)] assms(2-)
  by (intro contract_effect.revised [of x db env v f]) (auto simp: contracts_set_contract)

lemma revise_effect:
  assumes "revise_contract env t inp reason c x db = (Inr r, db')" and "ct_tenant x = t" and "x \<in> set (contracts db)"
    and "c \<in> {CONTRACT_UPDATE_DRAFT, CONTRACT_AMEND}"
  shows "contract_effect env db db'"
proof -
  have st: "(c = CONTRACT_UPDATE_DRAFT \<and> ct_state x = ''DRAFT'') \<or> (c = CONTRACT_AMEND \<and> ct_state x \<in> {''EXECUTED'', ''ACTIVE''})"
    using assms(1,4) by (auto simp: revise_contract_def Let_def fail_if_Inr mayTransition_def)
  from st show ?thesis
  proof (elim disjE conjE)
    assume c: "c = CONTRACT_UPDATE_DRAFT" "ct_state x = ''DRAFT''"
    from assms(1) show ?thesis
      unfolding revise_contract_def Let_def load_Inr given_Inr fail_if_Inr insert_into_Inr store_Inr sql_check_Inr
      by (elim exE conjE) (erule revise_rule, assumption, use assms(2,3) c in \<open>simp_all add: revision_def next_content_def\<close>)
  next
    assume c: "c = CONTRACT_AMEND" "ct_state x \<in> {''EXECUTED'', ''ACTIVE''}"
    from assms(1) show ?thesis
      unfolding revise_contract_def Let_def load_Inr given_Inr fail_if_Inr insert_into_Inr store_Inr sql_check_Inr
      by (elim exE conjE) (erule revise_rule, assumption, use assms(2,3) c in \<open>simp_all add: revision_def next_content_def\<close>)
  qed
qed

lemma renewal_done_Inr:
  "renewal_done t inp reason n ev es d db = (Inr r, db') \<Longrightarrow>
     contracts db' = contracts db \<and> contract_versions db' = contract_versions db \<and> evidences db' = evidences db
       \<and> renewals db' = renewals db"
  by (auto simp: renewal_done_def Let_def call_simps)

lemma proposal_rule:
  assumes "renewal_done t inp reason n ev es d (set_renewal t n g (log_contract t inp reason i e b a (set_contract t x f db1))) = (Inr r, db')"
    and "\<forall>w\<in>set vs. \<not> version_clash v w" and "vs = contract_versions db" and "contracts db1 = contracts db"
    and "contract_versions db1 = vs @ [v]" and "evidences db1 = evidences db"
    and "find_row (contract_key t j) (contracts db) = Some x" and "ct_tenant x = t \<Longrightarrow> revision env x v (f x)"
  shows "contract_effect env db db'"
  using renewal_done_Inr [OF assms(1)] find_row_SomeD [OF assms(7)] assms(2-)
  by (intro contract_effect.revised [of x db env v f]) (auto simp: contracts_set_contract)

lemma proposal_effect:
  assumes "update_proposal env t inp reason n db = (Inr r, db')"
  shows "contract_effect env db db'"
  using assms
  unfolding update_proposal_def Let_def load_Inr given_Inr fail_if_Inr insert_into_Inr store_Inr sql_check_Inr contractRow_Inr
  by (elim exE conjE) (erule proposal_rule, assumption, simp_all add: revision_def next_content_def)

lemma closing_effect:
  "complete_renewal env t inp reason n db = (Inr r, db') \<Longrightarrow> contract_effect env db db'"
  "close_renewal t inp reason c n db = (Inr r, db') \<Longrightarrow> contract_effect env db db'"
  by (auto simp: complete_renewal_def close_renewal_def Let_def call_simps intro!: contract_effect.kept dest!: renewal_done_Inr)

theorem contract_command_effect:
  assumes "executeContractCommand env t c inp db = (Inr r, db')"
  shows "contract_effect env db db'"
proof -
  from assms obtain reason where
    run: "(if c = CONTRACT_CREATE then create_contract env t inp reason
       else if is_renewal c then renewal_command env t inp reason c
       else existing_contract env t inp reason c) db = (Inr r, db')"
    unfolding executeContractCommand_def Let_def given_Inr by blast
  show ?thesis
  proof (cases "c = CONTRACT_CREATE")
    case True
    with run show ?thesis by (auto intro: create_effect)
  next
    case False
    show ?thesis
    proof (cases "is_renewal c")
      case True
      with run False show ?thesis
        by (auto simp: renewal_command_def call_simps split: if_splits intro: open_effect proposal_effect closing_effect)
    next
      case other: False
      with run False have "existing_contract env t inp reason c db = (Inr r, db')" by simp
      then obtain i x where x: "find_row (contract_key t i) (contracts db) = Some x"
        and body: "(if c = CONTRACT_EXPIRE \<and> ct_state x = ''EXPIRED''
           then done_with \<lparr>xr_data = RowData x, xr_status = 200, xr_events = []\<rparr>
           else if c \<in> set [CONTRACT_UPDATE_DRAFT, CONTRACT_AMEND] then revise_contract env t inp reason c x
           else if c \<in> set [CONTRACT_HOLD, CONTRACT_RESUME] then hold_contract t inp reason c x
           else move_command env t inp reason c x) db = (Inr r, db')"
        unfolding existing_contract_def given_Inr fail_if_Inr load_Inr contractRow_Inr
        by (elim exE conjE) (rule that, assumption+)
      from find_row_SomeD [OF x] have m: "ct_tenant x = t" "x \<in> set (contracts db)" by simp_all
      from body consider "db' = db" | "c \<in> {CONTRACT_UPDATE_DRAFT, CONTRACT_AMEND}" "revise_contract env t inp reason c x db = (Inr r, db')"
        | "hold_contract t inp reason c x db = (Inr r, db')"
        | "c \<notin> {CONTRACT_UPDATE_DRAFT, CONTRACT_AMEND, CONTRACT_HOLD, CONTRACT_RESUME}" "move_command env t inp reason c x db = (Inr r, db')"
        by (auto simp: done_with_Inr split: if_splits)
      then show ?thesis
      proof cases
        case 1
        then show ?thesis by (auto intro: contract_effect.kept)
      next
        case 2
        with m show ?thesis by (blast intro: revise_effect)
      next
        case 3
        with m show ?thesis by (blast intro: hold_effect)
      next
        case 4
        with False other have "c \<in> {CONTRACT_SUBMIT_FOR_SIGNATURE, CONTRACT_RECALL_SIGNATURE, CONTRACT_RECORD_EXECUTION,
            CONTRACT_ACTIVATE, CONTRACT_TERMINATE, CONTRACT_EXPIRE, CONTRACT_CANCEL}"
          by (cases c) (auto simp: is_renewal_def)
        with 4(2) m show ?thesis by (intro move_command_effect)
      qed
    qed
  qed
qed

section \<open>Invariant\<close>

definition versions_of :: "contract_db \<Rightarrow> contract \<Rightarrow> contract_version list" where
  "versions_of db x = filter (\<lambda>v. cv_tenant v = ct_tenant x \<and> cv_contract_id v = ct_id x) (contract_versions db)"

definition bound_states :: "string set" where
  "bound_states = {''EXECUTED'', ''ACTIVE'', ''TERMINATED'', ''EXPIRED''}"

text \<open>
  A contract's versions are numbered from 1 without gaps and the last is the current one; its evidence is about
  the submitted version, and there is some once it is executed.
\<close>

definition versions_ok :: "contract_db \<Rightarrow> contract \<Rightarrow> bool" where
  "versions_ok db x \<longleftrightarrow> map cv_number (versions_of db x) = [1..ct_current_number x]
     \<and> versions_of db x \<noteq> [] \<and> cv_id (last (versions_of db x)) = ct_current_id x
     \<and> (\<forall>i. ct_submitted_id x = Some i \<longrightarrow> i \<in> cv_id ` set (versions_of db x))"

definition evidence_ok :: "execution_evidence list \<Rightarrow> contract \<Rightarrow> bool" where
  "evidence_ok es x \<longleftrightarrow> (ct_state x = ''DRAFT'' \<longrightarrow> ct_submitted_id x = None)
     \<and> (\<forall>e\<in>set es. evidence_for x e \<longrightarrow> ct_submitted_id x = Some (ex_version_id e))
     \<and> (ct_state x \<in> bound_states \<longrightarrow> (\<exists>e\<in>set es. evidence_for x e))"

definition contract_inv :: "contract_db \<Rightarrow> bool" where
  "contract_inv db \<longleftrightarrow> distinct (map ct_id (contracts db))
     \<and> (\<forall>x\<in>set (contracts db). versions_ok db x \<and> evidence_ok (evidences db) x \<and> ct_effective x < ct_end x)
     \<and> (\<forall>v\<in>set (contract_versions db). \<exists>x\<in>set (contracts db). cv_tenant v = ct_tenant x \<and> cv_contract_id v = ct_id x)
     \<and> (\<forall>e\<in>set (evidences db). \<exists>x\<in>set (contracts db). evidence_for x e)"

lemma update_at_cases:
  assumes "distinct (map ct_id cs)" and "x \<in> set cs" and "y \<in> set (update_rows (row_at x) f cs)"
  obtains "y = f x" | "y \<in> set cs" and "ct_id y \<noteq> ct_id x"
  using assms by (auto simp: set_update_rows distinct_map inj_on_def split: if_splits)

lemma update_at_mem: "x \<in> set cs \<Longrightarrow> f x \<in> set (update_rows (row_at x) f cs)"
  by (force simp: set_update_rows)

lemma update_at_other: "r \<in> set cs \<Longrightarrow> ct_id r \<noteq> ct_id x \<Longrightarrow> r \<in> set (update_rows (row_at x) f cs)"
  by (force simp: set_update_rows)

lemma update_at_ids:
  assumes "distinct (map ct_id cs)" and "x \<in> set cs" and "ct_id (f x) = ct_id x"
  shows "map ct_id (update_rows (row_at x) f cs) = map ct_id cs"
proof -
  have "r = x" if "r \<in> set cs" "ct_id r = ct_id x" for r
    using assms(1,2) that by (auto simp: distinct_map inj_on_def)
  with assms(3) show ?thesis by (auto simp: update_rows_def)
qed

lemma update_at_owner:
  assumes "\<exists>r\<in>set cs. P (ct_tenant r) (ct_id r)" and "x \<in> set cs" and "distinct (map ct_id cs)"
    and "ct_tenant (f x) = ct_tenant x" and "ct_id (f x) = ct_id x"
  shows "\<exists>r\<in>set (update_rows (row_at x) f cs). P (ct_tenant r) (ct_id r)"
proof -
  from assms(1) obtain r where r: "r \<in> set cs" "P (ct_tenant r) (ct_id r)" by blast
  show ?thesis
  proof (cases "ct_id r = ct_id x")
    case True
    with assms(2,3) r have "r = x" by (auto simp: distinct_map inj_on_def)
    with r assms(4,5) have "P (ct_tenant (f x)) (ct_id (f x))" by simp
    then show ?thesis using update_at_mem [OF assms(2), of f] by blast
  next
    case False
    with r update_at_other show ?thesis by blast
  qed
qed

lemma row_step_keeps:
  assumes "row_step es x es' y"
  shows "ct_id y = ct_id x" "ct_tenant y = ct_tenant x" "ct_current_id y = ct_current_id x"
    "ct_current_number y = ct_current_number x" "ct_effective y = ct_effective x" "ct_end y = ct_end x"
    "ct_supplier_id y = ct_supplier_id x" "ct_version y = ct_version x + 1" "ct_code y = ct_code x"
    "ct_renewed_from y = ct_renewed_from x"
  using assms by (cases rule: row_step.cases; simp)+

lemma row_step_submitted:
  assumes "row_step es x es' y"
  shows "ct_submitted_id y \<in> {None, Some (ct_current_id x), ct_submitted_id x}"
  using assms by cases auto

lemma row_step_evidence:
  assumes "row_step es x es' y"
  shows "es' = es \<or> (\<exists>e. es' = es @ [e] \<and> evidence_for x e)"
  using assms by cases auto

lemma row_step_evidence_ok:
  assumes "row_step es x es' y" and "evidence_ok es x"
  shows "evidence_ok es' y"
  using assms by cases (auto simp: evidence_ok_def bound_states_def)

lemma row_step_evidence_other:
  assumes "row_step es x es' y" and "evidence_ok es r" and "ct_id r \<noteq> ct_id x"
  shows "evidence_ok es' r"
  using assms(2,3) row_step_evidence [OF assms(1)] by (auto simp: evidence_ok_def)

lemma upto_snoc: "0 \<le> n \<Longrightarrow> [1..n] @ [n + 1] = [1..n + (1::int)]"
  using upto_rec2 [of 1 "n + 1"] by simp

lemma versions_ok_number: "versions_ok db x \<Longrightarrow> 1 \<le> ct_current_number x"
  by (rule ccontr) (auto simp: versions_ok_def)

lemma contract_inv_step:
  assumes "contract_effect env db db'" and "contract_inv db"
  shows "contract_inv db'"
  using assms(1)
proof cases
  case kept
  with assms(2) show ?thesis by (simp add: contract_inv_def versions_ok_def versions_of_def)
next
  case (created x v)
  have fresh: "ct_id y \<noteq> ct_id x" if "y \<in> set (contracts db)" for y
    using created(1) that by (auto simp: first_version_def contract_clash_def)
  have old: "versions_ok db' y" if "y \<in> set (contracts db)" for y
    using assms(2) that fresh [OF that] created(1,4)
    by (auto simp: contract_inv_def versions_ok_def versions_of_def first_version_def)
  have "versions_of db x = []" "\<forall>e\<in>set (evidences db). \<not> evidence_for x e"
    using assms(2) fresh by (auto simp: contract_inv_def versions_of_def filter_empty_conv)
  with created have "versions_ok db' x \<and> evidence_ok (evidences db') x"
    by (auto simp: versions_ok_def versions_of_def first_version_def evidence_ok_def bound_states_def)
  moreover have "ct_id x \<notin> ct_id ` set (contracts db)" using fresh by force
  ultimately show ?thesis using assms(2) created old
    by (auto simp: contract_inv_def first_version_def)
next
  case (revised x v f)
  note r = revised(2) [unfolded revision_def]
  have d: "distinct (map ct_id (contracts db))" using assms(2) by (simp add: contract_inv_def)
  have x: "versions_ok db x" "evidence_ok (evidences db) x" using assms(2) revised(1) by (auto simp: contract_inv_def)
  have "versions_of db' (f x) = versions_of db x @ [v]" using r revised(5) by (simp add: versions_of_def)
  with x(1) r versions_ok_number [OF x(1)] have "versions_ok db' (f x)"
    by (auto simp: versions_ok_def upto_snoc)
  moreover have "evidence_ok (evidences db') (f x)" using x(2) r revised(6) by (auto simp: evidence_ok_def)
  moreover have "versions_ok db' y" if "y \<in> set (contracts db)" "ct_id y \<noteq> ct_id x" for y
    using assms(2) that r revised(5) by (auto simp: contract_inv_def versions_ok_def versions_of_def)
  ultimately have rows: "versions_ok db' y \<and> evidence_ok (evidences db') y \<and> ct_effective y < ct_end y"
    if "y \<in> set (contracts db')" for y
    using update_at_cases [OF d revised(1) that [unfolded revised(4)]] assms(2) r revised(6)
    by (metis contract_inv_def)
  have own: "\<exists>z\<in>set (contracts db'). P (ct_tenant z) (ct_id z)" if "\<exists>z\<in>set (contracts db). P (ct_tenant z) (ct_id z)" for P
    unfolding revised(4) using that revised(1) d r by (intro update_at_owner) auto
  have "f x \<in> set (contracts db')" unfolding revised(4) by (rule update_at_mem [OF revised(1)])
  then have "\<exists>z\<in>set (contracts db'). cv_tenant v = ct_tenant z \<and> cv_contract_id v = ct_id z"
    using r by (intro bexI [of _ "f x"]) simp_all
  moreover have "\<exists>z\<in>set (contracts db'). cv_tenant w = ct_tenant z \<and> cv_contract_id w = ct_id z"
    if "w \<in> set (contract_versions db)" for w
    using that assms(2) by (intro own) (simp add: contract_inv_def)
  moreover have "\<exists>z\<in>set (contracts db'). evidence_for z e" if "e \<in> set (evidences db)" for e
    using that assms(2) by (intro own [of "\<lambda>a b. ex_tenant e = a \<and> ex_contract_id e = b"]) (simp add: contract_inv_def)
  moreover have "distinct (map ct_id (contracts db'))"
    unfolding revised(4) using update_at_ids [OF d revised(1), of f] r d by simp
  ultimately show ?thesis using rows by (auto simp: contract_inv_def revised(5,6))
next
  case (moved x f)
  note k = row_step_keeps [OF moved(2)]
  have d: "distinct (map ct_id (contracts db))" using assms(2) by (simp add: contract_inv_def)
  have x: "versions_ok db x" "evidence_ok (evidences db) x" "ct_effective x < ct_end x"
    using assms(2) moved(1) by (auto simp: contract_inv_def)
  have "ct_current_id x \<in> cv_id ` set (versions_of db x)"
    using x(1) unfolding versions_ok_def by (metis imageI last_in_set)
  moreover have "versions_of db' (f x) = versions_of db x" using k moved(4) by (simp add: versions_of_def)
  ultimately have "versions_ok db' (f x)"
    using x(1) k row_step_submitted [OF moved(2)] unfolding versions_ok_def by (elim insertE emptyE; simp)
  moreover have "evidence_ok (evidences db') (f x)" by (rule row_step_evidence_ok [OF moved(2) x(2)])
  moreover have "versions_ok db' y \<and> evidence_ok (evidences db') y" if "y \<in> set (contracts db)" "ct_id y \<noteq> ct_id x" for y
    using assms(2) that moved(4) row_step_evidence_other [OF moved(2)]
    by (auto simp: contract_inv_def versions_ok_def versions_of_def)
  ultimately have rows: "versions_ok db' y \<and> evidence_ok (evidences db') y \<and> ct_effective y < ct_end y"
    if "y \<in> set (contracts db')" for y
    using update_at_cases [OF d moved(1) that [unfolded moved(3)]] assms(2) k x(3)
    by (metis contract_inv_def)
  have own: "\<exists>z\<in>set (contracts db'). P (ct_tenant z) (ct_id z)" if "\<exists>z\<in>set (contracts db). P (ct_tenant z) (ct_id z)" for P
    unfolding moved(3) using that moved(1) d k by (intro update_at_owner) auto
  have "\<exists>z\<in>set (contracts db'). ex_tenant e = ct_tenant z \<and> ex_contract_id e = ct_id z" if "e \<in> set (evidences db')" for e
    using row_step_evidence [OF moved(2)] that assms(2) moved(1)
    by (intro own) (auto simp: contract_inv_def)
  moreover have "\<exists>z\<in>set (contracts db'). cv_tenant w = ct_tenant z \<and> cv_contract_id w = ct_id z"
    if "w \<in> set (contract_versions db)" for w
    using that assms(2) by (intro own) (simp add: contract_inv_def)
  moreover have "distinct (map ct_id (contracts db'))"
    unfolding moved(3) using update_at_ids [OF d moved(1), of f] k d by simp
  ultimately show ?thesis using rows by (auto simp: contract_inv_def moved(4))
qed

lemma contract_find_unique:
  assumes "contract_inv db"
  shows "find_row (contract_key t i) (contracts db) = Some x \<longleftrightarrow> x \<in> set (contracts db) \<and> ct_tenant x = t \<and> ct_id x = i"
proof
  assume x: "x \<in> set (contracts db) \<and> ct_tenant x = t \<and> ct_id x = i"
  then obtain y where y: "find_row (contract_key t i) (contracts db) = Some y"
    by (cases "find_row (contract_key t i) (contracts db)") (auto simp: find_row_None_iff)
  with x assms show "find_row (contract_key t i) (contracts db) = Some x"
    by (auto simp: contract_inv_def distinct_map inj_on_def dest!: find_row_SomeD)
qed (auto dest: find_row_SomeD)

lemma contract_inv_distinct: "contract_inv db \<Longrightarrow> distinct (map ct_id (contracts db))"
  by (simp add: contract_inv_def)

text \<open>How one row of the table develops.\<close>

lemma effect_on_row:
  assumes "contract_effect env db db'" and "contract_inv db" and "r \<in> set (contracts db)"
  obtains "r \<in> set (contracts db')"
  | v y where "revision env r v y" and "y \<in> set (contracts db')"
  | y where "row_step (evidences db) r (evidences db') y" and "y \<in> set (contracts db')"
  using assms(1)
proof cases
  case kept
  with assms(3) that(1) show thesis by simp
next
  case (created x v)
  with assms(3) that(1) show thesis by simp
next
  case (revised x v f)
  show thesis
  proof (cases "ct_id r = ct_id x")
    case True
    with assms(2,3) revised(1) have "r = x" by (auto simp: contract_inv_def distinct_map inj_on_def)
    moreover have "f x \<in> set (contracts db')" unfolding revised(4) by (rule update_at_mem [OF revised(1)])
    ultimately show thesis using that(2) [of v "f x"] revised(2) by simp
  next
    case False
    have "r \<in> set (contracts db')" unfolding revised(4) by (rule update_at_other [OF assms(3) False])
    then show thesis by (rule that(1))
  qed
next
  case (moved x f)
  show thesis
  proof (cases "ct_id r = ct_id x")
    case True
    with assms(2,3) moved(1) have "r = x" by (auto simp: contract_inv_def distinct_map inj_on_def)
    moreover have "f x \<in> set (contracts db')" unfolding moved(3) by (rule update_at_mem [OF moved(1)])
    ultimately show thesis using that(3) [of "f x"] moved(2) by simp
  next
    case False
    have "r \<in> set (contracts db')" unfolding moved(3) by (rule update_at_other [OF assms(3) False])
    then show thesis by (rule that(1))
  qed
qed

text \<open>And where the rows of the table after a command come from.\<close>

lemma effect_row_origin:
  assumes "contract_effect env db db'" and "contract_inv db" and "y \<in> set (contracts db')"
  obtains "y \<in> set (contracts db)"
  | v where "first_version db y v"
  | v x where "x \<in> set (contracts db)" and "revision env x v y"
  | x where "x \<in> set (contracts db)" and "row_step (evidences db) x (evidences db') y"
  using assms(1)
proof cases
  case kept
  with assms(3) that(1) show thesis by simp
next
  case (created x v)
  with assms(3) that(1,2) show thesis by auto
next
  case (revised x v f)
  from update_at_cases [OF contract_inv_distinct [OF assms(2)] revised(1) assms(3) [unfolded revised(4)]] show thesis
    using that(1) that(3) [OF revised(1), of v] revised(2) by cases simp_all
next
  case (moved x f)
  from update_at_cases [OF contract_inv_distinct [OF assms(2)] moved(1) assms(3) [unfolded moved(3)]] show thesis
    using that(1) that(4) [OF moved(1)] moved(2) by cases simp_all
qed

section \<open>Histories of commands\<close>

type_synonym contract_call = "contract_env \<times> contract_command \<times> contract_input"

definition contract_step :: "string \<Rightarrow> contract_call \<Rightarrow> (contract_db, contract_result) call" where
  "contract_step t c = executeContractCommand (fst c) t (fst (snd c)) (snd (snd c))"

fun contract_run :: "string \<Rightarrow> contract_call list \<Rightarrow> contract_db \<Rightarrow> contract_db" where
  "contract_run t [] db = db"
| "contract_run t (c # cs) db = contract_run t cs (snd (uow t (contract_step t c) db))"

lemma contract_run_calls: "contract_run t cs db = pg.run_calls t (map (contract_step t) cs) db"
  by (induction cs arbitrary: db) simp_all

text \<open>What holds of every effect of the run's environments within the invariant holds of the run.\<close>

lemma contract_run_keeps:
  assumes "contract_inv db" and "Q db"
    and "\<And>env c i s s'. (env, c, i) \<in> set cs \<Longrightarrow> contract_inv s \<Longrightarrow> Q s \<Longrightarrow> contract_effect env s s' \<Longrightarrow> Q s'"
  shows "contract_inv (contract_run t cs db) \<and> Q (contract_run t cs db)"
  unfolding contract_run_calls
proof (rule pg.run_calls_invariant)
  show "contract_inv db \<and> Q db" using assms(1,2) by simp
  fix f s a s'
  assume f: "f \<in> set (map (contract_step t) cs)" and I: "contract_inv s \<and> Q s" and ok: "f s = (Inr a, s')"
  then obtain env c i where c: "(env, c, i) \<in> set cs" "f = contract_step t (env, c, i)" by force
  with ok have e: "contract_effect env s s'" by (auto simp: contract_step_def intro: contract_command_effect)
  with I c(1) assms(3) show "contract_inv s' \<and> Q s'" by (blast intro: contract_inv_step)
qed

lemma contract_run_inv: "contract_inv db \<Longrightarrow> contract_inv (contract_run t cs db)"
  using contract_run_keeps [of db "\<lambda>_. True"] by blast

lemma effect_versions: "contract_effect env db db' \<Longrightarrow> \<exists>vs. contract_versions db' = contract_versions db @ vs"
  by (cases rule: contract_effect.cases) auto

text \<open>The values the CHECK constraints of the table allow.\<close>

definition typed_contract :: "contract \<Rightarrow> bool" where
  "typed_contract x \<longleftrightarrow> ct_state x \<in> set contractStates \<and> ct_usage x \<in> {''ENABLED'', ''ON_HOLD''}
     \<and> (ct_usage x = ''ON_HOLD'' \<longrightarrow> ct_state x \<in> bound_states) \<and> 1 \<le> ct_version x"

lemma typed_effect:
  assumes "contract_effect env db db'" and "contract_inv db" and "\<forall>x\<in>set (contracts db). typed_contract x"
    and "y \<in> set (contracts db')"
  shows "typed_contract y"
  using effect_row_origin [OF assms(1,2,4)]
proof cases
  case 1
  with assms(3) show ?thesis by simp
next
  case (2 v)
  then show ?thesis by (simp add: first_version_def typed_contract_def contractStates_def)
next
  case (3 v x)
  with assms(3) show ?thesis by (auto simp: revision_def typed_contract_def)
next
  case (4 x)
  from assms(3) 4(1) have "typed_contract x" by simp
  with 4(2) show ?thesis by cases (auto simp: typed_contract_def contractStates_def bound_states_def)
qed

lemma closed_effect:
  assumes "contract_effect env db db'" and "contract_inv db" and "x \<in> set (contracts db)"
    and "ct_state x \<in> {''EXPIRED'', ''TERMINATED'', ''CANCELLED''}"
  shows "x \<in> set (contracts db')"
  using effect_on_row [OF assms(1-3)]
proof cases
  case (2 v y)
  with assms(4) show ?thesis by (auto simp: revision_def)
next
  case (3 y)
  from 3(1) assms(4) show ?thesis by cases auto
qed

text \<open>The parties and the term of a contract, and the content it was executed with.\<close>

definition terms :: "contract \<Rightarrow> string \<times> string \<times> string \<times> string \<times> int \<times> int \<times> string option" where
  "terms x = (ct_tenant x, ct_id x, ct_code x, ct_supplier_id x, ct_effective x, ct_end x, ct_submitted_id x)"

lemma bound_effect:
  assumes "contract_effect env db db'" and "contract_inv db" and "x \<in> set (contracts db)" and "ct_state x \<in> bound_states"
    and "ce_pg_time env (iso_time (ct_effective x)) = Some (ct_effective x)"
    and "ce_pg_time env (iso_time (ct_end x)) = Some (ct_end x)"
  shows "\<exists>y\<in>set (contracts db'). terms y = terms x \<and> ct_state y \<in> bound_states"
  using effect_on_row [OF assms(1-3)]
proof cases
  case 1
  with assms(4) show ?thesis by blast
next
  case (2 v y)
  with assms(4-6) have "terms y = terms x" "ct_state y \<in> bound_states"
    by (auto simp: revision_def terms_def bound_states_def pg_time_def call_simps)
  with 2(2) show ?thesis by blast
next
  case (3 y)
  from 3(1) assms(4) have "terms y = terms x" "ct_state y \<in> bound_states"
    by (cases; auto simp: terms_def bound_states_def)+
  with 3(2) show ?thesis by blast
qed

lemma amend_rule:
  assumes "contract_done t inp reason x ev y d (log_amendment True ch (set_contract t x f db1)) = (Inr r, db')"
    and "\<forall>w\<in>set vs. \<not> version_clash v w" and "vs = contract_versions db" and "contracts db1 = contracts db"
    and "contract_versions db1 = vs @ [v]" and "amendments db1 = amendments db"
    and "ct_tenant x = t" and "x \<in> set (contracts db)"
  shows "f x \<in> set (contracts db') \<and> contract_versions db' = contract_versions db @ [v]
    \<and> amendments db' = amendments db @ [ch]"
proof -
  have "amendments db' = amendments db @ [ch]"
    using assms(1,6) by (auto simp: contract_done_def Let_def call_simps log_contract_def log_amendment_def set_contract_def)
  moreover have "contracts db' = update_rows (row_at x) f (contracts db)"
    using contract_done_Inr [OF assms(1)] assms(4,7) by (simp add: contracts_set_contract)
  ultimately show ?thesis
    using contract_done_Inr [OF assms(1)] assms(3,5) update_at_mem [OF assms(8), of f] by simp
qed

lemma amendment_document_Inr:
  assumes "map_sum (\<lambda>e. e) Some (amendment_document env inp x) = Inr doc"
  shows "\<exists>d w. doc = Some (d, w) \<and> final_document env d w (ct_id x)"
proof (cases "amendment_document env inp x")
  case (Inr dw)
  with assms show ?thesis
    by (cases dw) (auto simp: amendment_document_def split: sum.splits if_splits)
qed (use assms in simp)

lemma amend_Inr:
  assumes "revise_contract env t inp reason CONTRACT_AMEND x db = (Inr r, db')" and "ct_tenant x = t" and "x \<in> set (contracts db)"
  shows "\<exists>y v ch d w snapshot. y \<in> set (contracts db') \<and> revision env x v y \<and> ct_state x \<in> {''EXECUTED'', ''ACTIVE''}
     \<and> contract_versions db' = contract_versions db @ [v] \<and> amendments db' = amendments db @ [ch]
     \<and> cv_source v = ''AMENDMENT'' \<and> reason \<noteq> None \<and> cv_reason v = reason \<and> cv_fingerprint v = snapshot_hash env (cv_snapshot v)
     \<and> cv_evidence v = Some (d, w) \<and> final_document env d w (ct_id x)
     \<and> map_of (xi_body inp) ''commercial_snapshot'' = Some (JObj snapshot)
     \<and> approvals_ok env ''CONTRACT_AMENDMENT'' (ct_id x) (\<lambda>ctx.
            field ''base_version'' ctx = Some (JNum (JInt (ct_current_number x)))
            \<and> field ''proposal_fingerprint'' ctx = Some (JStr (snapshot_hash env (JObj snapshot))))
     \<and> am_base_version ch = ct_current_number x \<and> am_amended_version ch = ct_current_number y"
proof -
  have st: "ct_state x \<in> {''EXECUTED'', ''ACTIVE''}"
    using assms(1) by (auto simp: revise_contract_def Let_def fail_if_Inr mayTransition_def)
  have obj: "obj_of o' = Inr kvs \<longleftrightarrow> o' = Some (JObj kvs)" for o' kvs
    by (cases "(o', kvs)" rule: prod.exhaust, cases o') (auto elim!: obj_of.elims)
  from assms(1) show ?thesis
    unfolding revise_contract_def Let_def load_Inr given_Inr fail_if_Inr insert_into_Inr store_Inr sql_check_Inr obj
      simp_thms if_True
    apply (elim exE conjE)
    apply (drule amendment_document_Inr)
    apply (elim exE conjE)
    apply (drule amend_rule, assumption, rule refl, simp, simp, simp, rule assms(2), rule assms(3))
    apply (intro exI conjI, erule conjunct1)
    using assms(2) st by (simp_all add: revision_def next_content_def)+
qed

section \<open>Properties\<close>

text \<open>C16: A contract that is executed, active, expired or terminated has execution evidence, and the evidence is
  about the very version that was submitted for signature; whatever contract and renewal commands run.\<close>

theorem executed_contract_evidenced:
  assumes "contract_inv db" and "x \<in> set (contracts (contract_run t cs db))"
    and "ct_state x \<in> {''EXECUTED'', ''ACTIVE'', ''EXPIRED'', ''TERMINATED''}"
  shows "\<exists>e\<in>set (evidences (contract_run t cs db)). \<exists>v\<in>set (contract_versions (contract_run t cs db)).
    evidence_for x e \<and> ex_version_id e = cv_id v \<and> cv_contract_id v = ct_id x \<and> cv_tenant v = ct_tenant x
    \<and> ct_submitted_id x = Some (cv_id v)"
proof -
  let ?s = "contract_run t cs db"
  from contract_run_inv [OF assms(1)] assms(2) have ok: "versions_ok ?s x" "evidence_ok (evidences ?s) x"
    by (auto simp: contract_inv_def)
  with assms(3) obtain e where e: "e \<in> set (evidences ?s)" "evidence_for x e" "ct_submitted_id x = Some (ex_version_id e)"
    by (auto simp: evidence_ok_def bound_states_def)
  with ok(1) show ?thesis by (fastforce simp: versions_ok_def versions_of_def)
qed

text \<open>A sample world: two instants are known by name, and the database reads what the code prints of them.\<close>

definition sample_env :: "nat \<Rightarrow> contract_env" where
  "sample_env k = \<lparr>ce_now = 50000, ce_uuid = (\<lambda>n. replicate k (CHR ''c'') @ replicate n (CHR ''0'')),
     ce_parse = (\<lambda>s. if s = ''start'' then Some 0 else if s = ''end'' then Some 100000 else if s = ''early'' then Some (- 60000) else None),
     ce_pg_time = (\<lambda>s. find_row (\<lambda>m. iso_time m = s) [0, 100000, - 60000]), ce_pg_uuid = Some, ce_fr = (\<lambda>_. []),
     ce_sha = (\<lambda>_. ''h''), ce_pg_param = (\<lambda>_. []), ce_eligibility = Some (\<lambda>_. Inr ''APPROVED''),
     ce_approvals = Some (\<lambda>_ _. []), ce_final_document = Some (\<lambda>_ _ _. True)\<rparr>"

definition sample_input :: "string \<Rightarrow> int \<Rightarrow> (string \<times> json) list \<Rightarrow> contract_input" where
  "sample_input i v body = \<lparr>xi_id = Some i, xi_expected_version = JInt v, xi_body = body, xi_actor_id = ''ann'',
     xi_correlation_id = []\<rparr>"

definition signed_row :: contract where
  "signed_row = \<lparr>ct_id = ''c'', ct_tenant = ''t'', ct_code = ''C1'', ct_supplier_id = ''s'', ct_supplier_name = ''Acme'',
     ct_state = ''EXECUTED'', ct_usage = ''ENABLED'', ct_effective = 0, ct_end = 100000, ct_current_id = ''v'',
     ct_current_number = 1, ct_submitted_id = Some ''v'', ct_renewed_from = None, ct_auto_renew = None, ct_version = 3,
     ct_created_by = ''ann'', ct_correlation_id = []\<rparr>"

definition signed_db :: contract_db where
  "signed_db = \<lparr>contracts = [signed_row],
     contract_versions = [\<lparr>cv_id = ''v'', cv_tenant = ''t'', cv_contract_id = ''c'', cv_number = 1, cv_snapshot = JObj [],
       cv_fingerprint = ''h'', cv_source = ''CREATE'', cv_reason = None, cv_created_by = ''ann'', cv_evidence = None\<rparr>],
     evidences = [\<lparr>ex_id = ''e'', ex_tenant = ''t'', ex_contract_id = ''c'', ex_version_id = ''v'', ex_document = None,
       ex_external_reference = Some ''paper'', ex_recorded_by = ''ann''\<rparr>],
     renewals = [], contract_log = [], renewal_log = [], amendments = []\<rparr>"

lemma signed_db_inv: "contract_inv signed_db"
  by (simp add: contract_inv_def signed_db_def signed_row_def versions_ok_def versions_of_def evidence_ok_def)

definition activation :: "contract_call list" where
  "activation = [(sample_env 1, CONTRACT_ACTIVATE, sample_input ''c'' 3 [])]"

lemma activated: "contracts (contract_run ''t'' activation signed_db) = [signed_row\<lparr>ct_state := ''ACTIVE'', ct_version := 4\<rparr>]"
  by code_simp

theorem executed_contract_evidenced_witness:
  "\<exists>e\<in>set (evidences (contract_run ''t'' activation signed_db)). ex_contract_id e = ''c'' \<and> ex_version_id e = ''v''"
proof -
  let ?x = "signed_row\<lparr>ct_state := ''ACTIVE'', ct_version := 4\<rparr>"
  have "?x \<in> set (contracts (contract_run ''t'' activation signed_db))"
    "ct_state ?x \<in> {''EXECUTED'', ''ACTIVE'', ''EXPIRED'', ''TERMINATED''}"
    unfolding activated by simp_all
  from executed_contract_evidenced [OF signed_db_inv this] show ?thesis by (auto simp: signed_row_def)
qed

text \<open>The content history of a contract is append-only and complete: versions already written stay as they are,
  and those of each contract are numbered from 1 to its current number without a gap.\<close>

theorem contract_versions_numbered:
  assumes "contract_inv db" and "x \<in> set (contracts (contract_run t cs db))"
  shows "(\<exists>vs. contract_versions (contract_run t cs db) = contract_versions db @ vs)
    \<and> map cv_number (versions_of (contract_run t cs db) x) = [1..ct_current_number x]
    \<and> cv_id (last (versions_of (contract_run t cs db) x)) = ct_current_id x"
proof -
  have "contract_inv (contract_run t cs db) \<and> (\<exists>vs. contract_versions (contract_run t cs db) = contract_versions db @ vs)"
    using assms(1) by (rule contract_run_keeps) (auto dest!: effect_versions)
  with assms(2) show ?thesis by (auto simp: contract_inv_def versions_ok_def)
qed

theorem contract_versions_numbered_witness:
  "cv_id (last (versions_of (contract_run ''t'' activation signed_db) (signed_row\<lparr>ct_state := ''ACTIVE'', ct_version := 4\<rparr>))) = ''v''"
  using contract_versions_numbered [OF signed_db_inv, of "signed_row\<lparr>ct_state := ''ACTIVE'', ct_version := 4\<rparr>" "''t''" activation]
  by (simp add: activated signed_row_def)

text \<open>An expired, terminated or cancelled contract is closed for good: no command changes anything in its row.\<close>

theorem closed_contract_final:
  assumes "contract_inv db" and "x \<in> set (contracts db)" and "ct_state x \<in> {''EXPIRED'', ''TERMINATED'', ''CANCELLED''}"
  shows "x \<in> set (contracts (contract_run t cs db))"
  using contract_run_keeps [of db "\<lambda>s. x \<in> set (contracts s)" cs t] assms closed_effect by blast

definition closed_row :: contract where
  "closed_row = signed_row\<lparr>ct_state := ''EXPIRED''\<rparr>"

lemma closed_db_inv: "contract_inv (signed_db\<lparr>contracts := [closed_row]\<rparr>)"
  by (simp add: contract_inv_def signed_db_def signed_row_def closed_row_def versions_ok_def versions_of_def evidence_ok_def)

theorem closed_contract_final_witness:
  "closed_row \<in> set (contracts (contract_run ''t'' activation (signed_db\<lparr>contracts := [closed_row]\<rparr>)))"
  by (rule closed_contract_final [OF closed_db_inv]) (simp_all add: closed_row_def)

text \<open>C17: Once a contract is executed its parties, its code, its term and the version it was signed as are fixed:
  amendments, holds, renewals and the end of its life leave them (the database reads the term's texts
  as the instants they were printed from).\<close>

theorem signed_terms_fixed:
  assumes "contract_inv db" and "x \<in> set (contracts db)" and "ct_state x \<in> {''EXECUTED'', ''ACTIVE'', ''EXPIRED'', ''TERMINATED''}"
    and "\<forall>(env, c, i)\<in>set cs. \<forall>m\<in>{ct_effective x, ct_end x}. ce_pg_time env (iso_time m) = Some m"
  shows "\<exists>y\<in>set (contracts (contract_run t cs db)). terms y = terms x"
proof -
  let ?Q = "\<lambda>s. \<exists>y\<in>set (contracts s). terms y = terms x \<and> ct_state y \<in> bound_states"
  have "contract_inv (contract_run t cs db) \<and> ?Q (contract_run t cs db)"
  proof (rule contract_run_keeps [OF assms(1)])
    show "?Q db" using assms(2,3) by (auto simp: bound_states_def)
    fix env c i s s'
    assume e: "(env, c, i) \<in> set cs" and "contract_inv s" and "?Q s" and "contract_effect env s s'"
    then obtain y where y: "y \<in> set (contracts s)" "terms y = terms x" "ct_state y \<in> bound_states" by blast
    with assms(4) e have "ce_pg_time env (iso_time (ct_effective y)) = Some (ct_effective y)"
      "ce_pg_time env (iso_time (ct_end y)) = Some (ct_end y)" by (auto simp: terms_def)
    with bound_effect [OF \<open>contract_effect env s s'\<close> \<open>contract_inv s\<close> y(1,3)] y(2) show "?Q s'" by auto
  qed
  then show ?thesis by blast
qed

lemma sample_reads: "ce_pg_time (sample_env k) (iso_time 0) = Some 0" "ce_pg_time (sample_env k) (iso_time 100000) = Some 100000"
proof -
  have "iso_time 0 = ''1970-01-01T00:00:00.000Z''" "iso_time 100000 = ''1970-01-01T00:01:40.000Z''" by code_simp+
  then show "ce_pg_time (sample_env k) (iso_time 0) = Some 0" "ce_pg_time (sample_env k) (iso_time 100000) = Some 100000"
    by (simp_all add: sample_env_def table_simps)
qed

theorem signed_terms_fixed_witness:
  "\<exists>y\<in>set (contracts (contract_run ''t'' activation signed_db)). terms y = terms signed_row"
proof (rule signed_terms_fixed [OF signed_db_inv])
  show "signed_row \<in> set (contracts signed_db)" by (simp add: signed_db_def)
  show "ct_state signed_row \<in> {''EXECUTED'', ''ACTIVE'', ''EXPIRED'', ''TERMINATED''}" by (simp add: signed_row_def)
  show "\<forall>(env, c, i)\<in>set activation. \<forall>m\<in>{ct_effective signed_row, ct_end signed_row}. ce_pg_time env (iso_time m) = Some m"
    by (simp add: activation_def signed_row_def sample_reads)
qed

text \<open>C34: The columns of a contract stay within their CHECK constraints: a known lifecycle state and usage status, a
  term in order, a positive version; and only an executed contract is ever on hold.\<close>

theorem contract_columns_typed:
  assumes "contract_inv db" and "\<forall>x\<in>set (contracts db). typed_contract x"
    and "y \<in> set (contracts (contract_run t cs db))"
  shows "typed_contract y \<and> ct_effective y < ct_end y \<and> 1 \<le> ct_current_number y"
proof -
  have "contract_inv (contract_run t cs db) \<and> (\<forall>x\<in>set (contracts (contract_run t cs db)). typed_contract x)"
    using contract_run_keeps [of db "\<lambda>s. \<forall>x\<in>set (contracts s). typed_contract x" cs t] assms(1,2) typed_effect by blast
  with assms(3) versions_ok_number show ?thesis by (auto simp: contract_inv_def)
qed

theorem contract_columns_typed_witness:
  "typed_contract (signed_row\<lparr>ct_state := ''ACTIVE'', ct_version := 4\<rparr>)"
  using contract_columns_typed [OF signed_db_inv, of "signed_row\<lparr>ct_state := ''ACTIVE'', ct_version := 4\<rparr>" "''t''" activation]
  by (simp add: activated) (simp add: signed_db_def signed_row_def typed_contract_def contractStates_def bound_states_def)

text \<open>What a successful amendment has done: the contract was executed or active and keeps its state, its content has a
  next version with a reason and a final document of this contract as evidence, every approval linked to
  the amendment was granted for the version amended and the content proposed, and the change is logged.\<close>

theorem amendment_recorded:
  assumes "executeContractCommand env t CONTRACT_AMEND inp db = (Inr r, db')"
  shows "\<exists>x y v ch d w snapshot. x \<in> set (contracts db) \<and> y \<in> set (contracts db') \<and> revision env x v y
     \<and> xi_id inp = Some (ct_id x) \<and> ct_tenant x = t \<and> ct_state x \<in> {''EXECUTED'', ''ACTIVE''}
     \<and> contract_versions db' = contract_versions db @ [v] \<and> amendments db' = amendments db @ [ch]
     \<and> cv_source v = ''AMENDMENT'' \<and> cv_reason v \<noteq> None \<and> cv_fingerprint v = snapshot_hash env (cv_snapshot v)
     \<and> cv_evidence v = Some (d, w) \<and> final_document env d w (ct_id x)
     \<and> map_of (xi_body inp) ''commercial_snapshot'' = Some (JObj snapshot)
     \<and> approvals_ok env ''CONTRACT_AMENDMENT'' (ct_id x) (\<lambda>ctx.
            field ''base_version'' ctx = Some (JNum (JInt (ct_current_number x)))
            \<and> field ''proposal_fingerprint'' ctx = Some (JStr (snapshot_hash env (JObj snapshot))))
     \<and> am_base_version ch = ct_current_number x \<and> am_amended_version ch = ct_current_number y"
proof -
  from assms obtain reason where "existing_contract env t inp reason CONTRACT_AMEND db = (Inr r, db')"
    by (auto simp: executeContractCommand_def Let_def given_Inr is_renewal_def)
  then obtain i x where i: "xi_id inp = Some i" and x: "find_row (contract_key t i) (contracts db) = Some x"
    and rev: "revise_contract env t inp reason CONTRACT_AMEND x db = (Inr r, db')"
    by (auto simp: existing_contract_def call_simps)
  from find_row_SomeD [OF x] have m: "x \<in> set (contracts db)" "ct_tenant x = t" "ct_id x = i" by simp_all
  from amend_Inr [OF rev m(2,1)] m i show ?thesis by (simp only:) blast
qed

definition amendment_input :: contract_input where
  "amendment_input = sample_input ''c'' 3 [(''reason'', JStr ''price''), (''evidence_document_id'', JStr ''d''),
     (''evidence_document_version_id'', JStr ''w''), (''commercial_snapshot'', JObj [(''price'', JNum (JInt 5))])]"

lemma sample_ports: "ce_final_document (sample_env k) = Some (\<lambda>_ _ _. True)" "ce_approvals (sample_env k) = Some (\<lambda>_ _. [])"
    "ce_eligibility (sample_env k) = Some (\<lambda>_. Inr ''APPROVED'')" "ce_pg_uuid (sample_env k) = Some"
    "ce_uuid (sample_env k) n = replicate k (CHR ''c'') @ replicate n (CHR ''0'')"
    "ce_parse (sample_env k) ''start'' = Some 0" "ce_parse (sample_env k) ''end'' = Some 100000"
    "ce_parse (sample_env k) ''early'' = Some (- 60000)"
  by (simp_all add: sample_env_def)

lemma amendment_succeeds:
  "\<exists>r db'. executeContractCommand (sample_env 1) ''t'' CONTRACT_AMEND amendment_input signed_db = (Inr r, db')"
proof -
  have t: "\<not> iso_time 100000 \<le> iso_time 0" by code_simp
  show ?thesis
    by (simp add: executeContractCommand_def existing_contract_def revise_contract_def Let_def call_simps is_renewal_def
        amendment_input_def sample_input_def nullish_def text_of_def js_trim_def js_space_def signed_db_def signed_row_def table_simps
        max_safe_def amendment_document_def final_document_def mayTransition_def same_term_def eligible_def approvals_ok_def
        pg_time_def sample_reads t version_clash_def next_content_def contract_done_def
        sample_ports) (rule exI, rule TrueI)
qed

theorem amendment_recorded_witness:
  "\<exists>r db' v. executeContractCommand (sample_env 1) ''t'' CONTRACT_AMEND amendment_input signed_db = (Inr r, db')
     \<and> contract_versions db' = contract_versions signed_db @ [v] \<and> cv_source v = ''AMENDMENT''"
proof -
  from amendment_succeeds obtain r db' where
    *: "executeContractCommand (sample_env 1) ''t'' CONTRACT_AMEND amendment_input signed_db = (Inr r, db')" by blast
  from amendment_recorded [OF this] * show ?thesis by blast
qed

lemma update_done:
  assumes "contract_done t inp reason x ev y d (log_amendment am ch (set_contract t x f db1)) = (Inr r, db')"
    and "ct_tenant x = t" and "x \<in> set (contracts db1)"
  shows "f x \<in> set (contracts db') \<and> renewals db' = renewals db1"
  using contract_done_Inr [OF assms(1)] update_at_mem [OF assms(3), of f] assms(2) by (simp add: contracts_set_contract)

text \<open>A request whose snapshot gives a term from the time text \<open>s\<close> on, and the guard of the renewal commands: the
  term must not start before the predecessor ends.\<close>

definition starts_at :: "string \<Rightarrow> string \<Rightarrow> contract_input \<Rightarrow> bool" where
  "starts_at k s inp \<longleftrightarrow>
     (\<exists>m. map_of (xi_body inp) k = Some (JObj m) \<and> map_of m ''effective_at'' = Some (JStr s))"

lemma renewal_open_in_time:
  assumes "executeContractCommand env t RENEWAL_OPEN inp db = (Inr r, db')"
    and "xi_id inp = Some (ct_id p)" and "find_row (contract_key t (ct_id p)) (contracts db) = Some p"
    and "starts_at ''successor_snapshot'' s inp"
  shows "\<exists>a. ce_parse env s = Some a \<and> ct_end p \<le> a"
  using assms
  by (auto simp: executeContractCommand_def Let_def is_renewal_def renewal_command_def open_renewal_def starts_at_def
      call_simps contractRow_Inr not_less)

lemma renewal_proposal_in_time:
  assumes "executeContractCommand env t RENEWAL_UPDATE_PROPOSAL inp db = (Inr r, db')"
    and "xi_id inp = Some (rc_id n)" and "find_renewal t (rc_id n) db = Some n"
    and "find_row (contract_key t (rc_predecessor n)) (contracts db) = Some p"
    and "starts_at ''proposal_snapshot'' s inp"
  shows "\<exists>a. ce_parse env s = Some a \<and> ct_end p \<le> a"
  using assms
  by (auto simp: executeContractCommand_def Let_def is_renewal_def renewal_command_def update_proposal_def starts_at_def
      call_simps contractRow_Inr not_less)

text \<open>C38: The draft successor of an open renewal can still be updated as any draft: \<open>CONTRACT.UPDATE_DRAFT\<close> gives it a term
  that starts before the predecessor ends, and the renewal case keeps the proposal and the fingerprint that its
  approvals are bound to. A \<open>RENEWAL.OPEN\<close> of that predecessor, on any database that holds it, and a
  \<open>RENEWAL.UPDATE_PROPOSAL\<close> of that renewal never succeed with a term that starts then.\<close>

theorem draft_update_bypasses_renewal:
  assumes "find_row (contract_key t i) (contracts db) = Some x" and "ct_state x = ''DRAFT''" and "i \<noteq> []"
    and "find_renewal t (rc_id n) db = Some n" and "rc_state n = ''OPEN''" and "rc_successor n = i"
    and "find_row (contract_key t (ct_id p)) (contracts db) = Some p" and "rc_predecessor n = ct_id p" and "a < ct_end p"
    and "ce_parse env s = Some a" and "ce_parse env e = Some b" and "\<not> iso_time b \<le> iso_time a" and "a < b"
    and "ce_pg_time env (iso_time a) = Some a" and "ce_pg_time env (iso_time b) = Some b"
    and "\<forall>v\<in>set (contract_versions db). cv_id v \<noteq> ce_uuid env 0 \<and> (cv_contract_id v = i \<longrightarrow> cv_number v \<le> ct_current_number x)"
    and "eligible env (ct_supplier_id x) = Inr ok" and "\<bar>ct_version x\<bar> \<le> max_safe"
  shows "(\<exists>r db' y. executeContractCommand env t CONTRACT_UPDATE_DRAFT
      \<lparr>xi_id = Some i, xi_expected_version = JInt (ct_version x),
       xi_body = [(''commercial_snapshot'', JObj [(''effective_at'', JStr s), (''end_at'', JStr e)])],
       xi_actor_id = actor, xi_correlation_id = c\<rparr> db = (Inr r, db')
    \<and> y \<in> set (contracts db') \<and> ct_id y = rc_successor n \<and> ct_effective y < ct_end p \<and> renewals db' = renewals db)
    \<and> (\<forall>inp db2 r db3. find_row (contract_key t (ct_id p)) (contracts db2) = Some p \<and> xi_id inp = Some (ct_id p)
         \<and> starts_at ''successor_snapshot'' s inp \<longrightarrow> executeContractCommand env t RENEWAL_OPEN inp db2 \<noteq> (Inr r, db3))
    \<and> (\<forall>inp r db2. xi_id inp = Some (rc_id n) \<and> starts_at ''proposal_snapshot'' s inp
         \<longrightarrow> executeContractCommand env t RENEWAL_UPDATE_PROPOSAL inp db \<noteq> (Inr r, db2))"
proof -
  from find_row_SomeD [OF assms(1)] have m: "x \<in> set (contracts db)" "ct_tenant x = t" "ct_id x = i" by simp_all
  let ?inp = "\<lparr>xi_id = Some i, xi_expected_version = JInt (ct_version x),
       xi_body = [(''commercial_snapshot'', JObj [(''effective_at'', JStr s), (''end_at'', JStr e)])],
       xi_actor_id = actor, xi_correlation_id = c\<rparr>"
  have clash: "\<forall>v\<in>set (contract_versions db). \<not> version_clash (next_content env t ?inp x kvs src rs d) v" for kvs src rs d
    using assms(16) m by (fastforce simp: version_clash_def next_content_def)
  have "\<exists>r db'. revise_contract env t ?inp None CONTRACT_UPDATE_DRAFT x db = (Inr r, db')"
    by (simp add: revise_contract_def Let_def call_simps mayTransition_def assms(2,10-15,17) clash pg_time_def contract_done_def)
      (rule exI, rule TrueI)
  moreover have "executeContractCommand env t CONTRACT_UPDATE_DRAFT ?inp db = revise_contract env t ?inp None CONTRACT_UPDATE_DRAFT x db"
    using assms(1,3,18)
    by (simp add: executeContractCommand_def existing_contract_def call_unfold is_renewal_def nullish_def contractRow_def needed_def
        assertVersion_def fail_if_def)
  ultimately obtain r db' where run: "executeContractCommand env t CONTRACT_UPDATE_DRAFT ?inp db = (Inr r, db')"
    and "revise_contract env t ?inp None CONTRACT_UPDATE_DRAFT x db = (Inr r, db')" by auto
  then have "\<exists>y\<in>set (contracts db'). ct_id y = i \<and> ct_effective y = a \<and> renewals db' = renewals db"
    using m assms(10,11,14,15)
    unfolding revise_contract_def Let_def load_Inr given_Inr fail_if_Inr insert_into_Inr store_Inr
    apply (elim exE conjE)
    apply (drule update_done)
    apply (simp add: m)
    apply (simp add: m)
    apply (clarsimp simp: pg_time_def call_simps)
    apply (erule bexI [rotated])
    apply simp
    done
  then obtain y where "y \<in> set (contracts db')" "ct_id y = i" "ct_effective y = a" "renewals db' = renewals db" by blast
  then have "\<exists>r db' y. executeContractCommand env t CONTRACT_UPDATE_DRAFT ?inp db = (Inr r, db')
    \<and> y \<in> set (contracts db') \<and> ct_id y = rc_successor n \<and> ct_effective y < ct_end p \<and> renewals db' = renewals db"
    using run assms(6,9) by (intro exI [of _ r] exI [of _ db'] exI [of _ y]) simp
  moreover have "executeContractCommand env t RENEWAL_OPEN inp db2 \<noteq> (Inr r, db3)"
    if "find_row (contract_key t (ct_id p)) (contracts db2) = Some p" "xi_id inp = Some (ct_id p)"
      "starts_at ''successor_snapshot'' s inp" for inp db2 r db3
    using renewal_open_in_time [OF _ that(2,1,3), of env r db3] assms(9,10) by auto
  moreover have "executeContractCommand env t RENEWAL_UPDATE_PROPOSAL inp db \<noteq> (Inr r, db2)"
    if "xi_id inp = Some (rc_id n)" "starts_at ''proposal_snapshot'' s inp" for inp r db2
    using renewal_proposal_in_time [OF _ that(1) assms(4) _ that(2), of env r db2 p] assms(7-10) by auto
  ultimately show ?thesis by blast
qed

definition renewing_db :: contract_db where
  "renewing_db = signed_db\<lparr>contracts := [signed_row,
       signed_row\<lparr>ct_id := ''n'', ct_code := ''C2'', ct_state := ''DRAFT'', ct_effective := 100000, ct_end := 200000,
         ct_submitted_id := None, ct_renewed_from := Some ''c'', ct_version := 1\<rparr>],
     renewals := [\<lparr>rc_id = ''r'', rc_tenant = ''t'', rc_predecessor = ''c'', rc_successor = ''n'', rc_state = ''OPEN'',
       rc_proposal = JObj [], rc_fingerprint = ''h'', rc_version = 1, rc_created_by = ''ann'', rc_reason = None,
       rc_correlation_id = []\<rparr>]\<rparr>"

definition early_proposal :: contract_input where
  "early_proposal = \<lparr>xi_id = Some ''r'', xi_expected_version = JInt 1,
     xi_body = [(''reason'', JStr ''terms''), (''proposal_snapshot'', JObj [(''effective_at'', JStr ''early''), (''end_at'', JStr ''start'')])],
     xi_actor_id = ''bob'', xi_correlation_id = []\<rparr>"

theorem draft_update_bypasses_renewal_witness:
  "(\<exists>r db' y. executeContractCommand (sample_env 1) ''t'' CONTRACT_UPDATE_DRAFT
      \<lparr>xi_id = Some ''n'', xi_expected_version = JInt 1,
       xi_body = [(''commercial_snapshot'', JObj [(''effective_at'', JStr ''early''), (''end_at'', JStr ''start'')])],
       xi_actor_id = ''bob'', xi_correlation_id = []\<rparr> renewing_db = (Inr r, db')
    \<and> y \<in> set (contracts db') \<and> ct_effective y < ct_end signed_row)
   \<and> (\<forall>r db'. executeContractCommand (sample_env 1) ''t'' RENEWAL_UPDATE_PROPOSAL early_proposal renewing_db \<noteq> (Inr r, db'))"
proof -
  let ?x = "contracts renewing_db ! 1" and ?n = "hd (renewals renewing_db)"
  have t: "iso_time (- 60000) = ''1969-12-31T23:59:00.000Z''" "iso_time 0 = ''1970-01-01T00:00:00.000Z''"
    "iso_time 100000 = ''1970-01-01T00:01:40.000Z''" by code_simp+
  have l: "\<not> iso_time 0 \<le> iso_time (- 60000)" by code_simp
  have x: "?x = signed_row\<lparr>ct_id := ''n'', ct_code := ''C2'', ct_state := ''DRAFT'', ct_effective := 100000, ct_end := 200000,
         ct_submitted_id := None, ct_renewed_from := Some ''c'', ct_version := 1\<rparr>" by (simp add: renewing_db_def)
  have times: "ce_pg_time (sample_env 1) (iso_time (- 60000)) = Some (- 60000)" "ce_pg_time (sample_env 1) (iso_time 0) = Some 0"
    by (simp_all add: sample_env_def t find_row_Cons)
  have found: "find_row (contract_key ''t'' ''n'') (contracts renewing_db) = Some ?x"
    by (simp add: renewing_db_def signed_row_def table_simps)
  have renewal: "find_renewal ''t'' (rc_id ?n) renewing_db = Some ?n"
    by (simp add: renewing_db_def find_renewal_def table_simps)
  have pred: "find_row (contract_key ''t'' (ct_id signed_row)) (contracts renewing_db) = Some signed_row"
    by (simp add: renewing_db_def signed_row_def table_simps)
  have early: "starts_at ''proposal_snapshot'' ''early'' early_proposal" "xi_id early_proposal = Some (rc_id ?n)"
    by (simp_all add: starts_at_def early_proposal_def renewing_db_def)
  have ver: "ct_version ?x = 1" unfolding x by simp
  have all: "(\<exists>r db' y. executeContractCommand (sample_env 1) ''t'' CONTRACT_UPDATE_DRAFT
      \<lparr>xi_id = Some ''n'', xi_expected_version = JInt (ct_version ?x),
       xi_body = [(''commercial_snapshot'', JObj [(''effective_at'', JStr ''early''), (''end_at'', JStr ''start'')])],
       xi_actor_id = ''bob'', xi_correlation_id = []\<rparr> renewing_db = (Inr r, db')
    \<and> y \<in> set (contracts db') \<and> ct_id y = rc_successor ?n \<and> ct_effective y < ct_end signed_row \<and> renewals db' = renewals renewing_db)
    \<and> (\<forall>inp db2 r db3. find_row (contract_key ''t'' (ct_id signed_row)) (contracts db2) = Some signed_row \<and> xi_id inp = Some (ct_id signed_row)
         \<and> starts_at ''successor_snapshot'' ''early'' inp \<longrightarrow> executeContractCommand (sample_env 1) ''t'' RENEWAL_OPEN inp db2 \<noteq> (Inr r, db3))
    \<and> (\<forall>inp r db2. xi_id inp = Some (rc_id ?n) \<and> starts_at ''proposal_snapshot'' ''early'' inp
         \<longrightarrow> executeContractCommand (sample_env 1) ''t'' RENEWAL_UPDATE_PROPOSAL inp renewing_db \<noteq> (Inr r, db2))"
    by (rule draft_update_bypasses_renewal [OF found _ _ renewal _ _ pred, where a = "- 60000" and b = 0 and ok = True])
      (simp_all add: x sample_ports sample_reads l times times [unfolded One_nat_def] eligible_def max_safe_def,
       simp_all add: renewing_db_def signed_db_def signed_row_def)
  show ?thesis
  proof (rule conjI)
    from conjunct1 [OF all] show "\<exists>r db' y. executeContractCommand (sample_env 1) ''t'' CONTRACT_UPDATE_DRAFT
      \<lparr>xi_id = Some ''n'', xi_expected_version = JInt 1,
       xi_body = [(''commercial_snapshot'', JObj [(''effective_at'', JStr ''early''), (''end_at'', JStr ''start'')])],
       xi_actor_id = ''bob'', xi_correlation_id = []\<rparr> renewing_db = (Inr r, db')
      \<and> y \<in> set (contracts db') \<and> ct_effective y < ct_end signed_row" unfolding ver by blast
    from conjunct2 [OF conjunct2 [OF all]] early
    show "\<forall>r db'. executeContractCommand (sample_env 1) ''t'' RENEWAL_UPDATE_PROPOSAL early_proposal renewing_db \<noteq> (Inr r, db')"
      by blast
  qed
qed

end
