(* ===== verification/Contract_Alerts.thy ===== *)
theory Contract_Alerts
  imports Contracts
begin

text \<open>
  The alert configuration of a contract (\<open>modules/contract/application/alert-schedule.ts\<close>) and the scheduler that
  raises renewal alerts and expires contracts (\<open>apps/worker/src/contract-alerts.ts\<close>), which drives the contract
  commands of Contracts. Work items, outbox events and timeline entries are recorded as the lists of the calls made.
  \<open>date_text\<close> is \<open>String\<close> of a Date; \<open>json_hash\<close> is SHA-256 of \<open>JSON.stringify\<close>.
\<close>

section \<open>When an alert is due\<close>

datatype alert_configuration = Trigger "(string \<times> string) option" | Invalid string string

fun parseTimestamp :: "(string \<Rightarrow> int option) \<Rightarrow> json option \<Rightarrow> int option" where
  "parseTimestamp parse (Some (JStr s)) = (if blank s then None else parse s)"
| "parseTimestamp parse _ = None"

text \<open>
  \<open>end - period * 86400000\<close> is a double; the product is a multiple of 1024, so it is exact below \<open>2 ^ 63\<close>, and beyond
  that the result lies before every instant.
\<close>

definition resolveContractAlertConfiguration ::
    "(string \<Rightarrow> int option) \<Rightarrow> string \<Rightarrow> string \<Rightarrow> json option \<Rightarrow> json option \<Rightarrow> alert_configuration" where
  "resolveContractAlertConfiguration parse effective_at end_at notice_date notice_period =
    (case (parseTimestamp parse (Some (JStr effective_at)), parseTimestamp parse (Some (JStr end_at))) of
       (Some effective, Some ends) \<Rightarrow>
         if ends \<le> effective then Invalid ''INVALID_CONTRACT_TERM'' ''term''
         else
           let has_date = (\<not> nullish notice_date \<and> notice_date \<noteq> Some (JStr []));
               has_period = (\<not> nullish notice_period);
               period = (case notice_period of
                   Some (JNum n) \<Rightarrow> if is_safe_integer n \<and> 0 \<le> js_int n then Some (js_int n) else None
                 | _ \<Rightarrow> None)
           in if has_period \<and> period = None
              then Invalid ''INVALID_RENEWAL_NOTICE_PERIOD'' ''renewal_notice_period_days''
              else if has_date then
                (case parseTimestamp parse notice_date of
                   Some m \<Rightarrow>
                     if m < effective \<or> ends < m then Invalid ''INVALID_RENEWAL_NOTICE_DATE'' ''renewal_notice_date''
                     else Trigger (Some (iso_time m, ''EXPLICIT_DATE''))
                 | None \<Rightarrow> Invalid ''INVALID_RENEWAL_NOTICE_DATE'' ''renewal_notice_date'')
              else (case period of
                  None \<Rightarrow> Trigger None
                | Some d \<Rightarrow>
                    let derived = ends - d * day_ms in
                    if derived < effective \<or> ends < derived
                    then Invalid ''IMPOSSIBLE_RENEWAL_NOTICE_PERIOD'' ''renewal_notice_period_days''
                    else Trigger (Some (iso_time derived, ''NOTICE_PERIOD'')))
     | _ \<Rightarrow> Invalid ''INVALID_CONTRACT_TERM'' ''term'')"

section \<open>The scheduler\<close>

record alert_fact =
  af_tenant :: string
  af_contract :: string
  af_version :: string
  af_source :: string
  af_trigger_at :: string

record alert_exception =
  ax_tenant :: string
  ax_contract :: string
  ax_version :: string
  ax_fingerprint :: string
  ax_error_code :: string
  ax_field :: string

text \<open>An effect outside the contract tables: the work item and the event of an alert, or an event of an expiry.\<close>

datatype alert_effect =
    AlertWorkItem string string
  | AlertEvent string string
  | ExceptionWorkItem string
  | ExceptionEvent string string
  | ExpiryEvent string string

record alert_db =
  al_contracts :: contract_db
  alert_facts :: "alert_fact list"
  alert_exceptions :: "alert_exception list"
  alert_effects :: "alert_effect list"

text \<open>The unique keys that \<open>ON CONFLICT DO NOTHING\<close> relies on.\<close>

definition alert_clash :: "alert_fact \<Rightarrow> alert_fact \<Rightarrow> bool" where
  "alert_clash x y \<longleftrightarrow> af_tenant x = af_tenant y \<and> af_contract x = af_contract y \<and> af_version x = af_version y
     \<and> af_trigger_at x = af_trigger_at y"

definition exception_clash :: "alert_exception \<Rightarrow> alert_exception \<Rightarrow> bool" where
  "exception_clash x y \<longleftrightarrow> ax_tenant x = ax_tenant y \<and> ax_contract x = ax_contract y \<and> ax_version x = ax_version y
     \<and> ax_fingerprint x = ax_fingerprint y"

record alert_world =
  aw_now :: int
  aw_db_now :: int
  aw_date_text :: "int \<Rightarrow> string"
  aw_json_hash :: "json \<Rightarrow> string"
  aw_env :: contract_env

definition scheduleForContract :: "alert_world \<Rightarrow> string \<Rightarrow> contract \<Rightarrow> contract_version \<Rightarrow> alert_db \<Rightarrow> alert_db" where
  "scheduleForContract w t c v db =
    (let member = (\<lambda>k. field k (cv_snapshot v)) in
     case resolveContractAlertConfiguration (ce_parse (aw_env w)) (aw_date_text w (ct_effective c)) (aw_date_text w (ct_end c))
            (member ''renewal_notice_date'') (member ''renewal_notice_period_days'') of
       Invalid code fld \<Rightarrow>
         let fp = aw_json_hash w (JObj [(''version'', JStr (cv_id v)), (''snapshot'', cv_snapshot v), (''error'', JStr code)]) in
         (case insert_row exception_clash \<lparr>ax_tenant = t, ax_contract = ct_id c, ax_version = cv_id v, ax_fingerprint = fp,
                 ax_error_code = code, ax_field = fld\<rparr> (alert_exceptions db) of
            None \<Rightarrow> db
          | Some xs \<Rightarrow> db\<lparr>alert_exceptions := xs,
                alert_effects := alert_effects db @ [ExceptionWorkItem (ct_code c), ExceptionEvent (ct_id c) code]\<rparr>)
     | Trigger None \<Rightarrow> db
     | Trigger (Some (due, source)) \<Rightarrow>
         if (case ce_parse (aw_env w) due of None \<Rightarrow> False | Some m \<Rightarrow> aw_now w < m) then db
         else (case insert_row alert_clash \<lparr>af_tenant = t, af_contract = ct_id c, af_version = cv_id v, af_source = source,
                       af_trigger_at = due\<rparr> (alert_facts db) of
            None \<Rightarrow> db
          | Some xs \<Rightarrow> db\<lparr>alert_facts := xs,
                alert_effects := alert_effects db @ [AlertWorkItem (ct_code c) due, AlertEvent (ct_id c) due]\<rparr>))"

definition live_states :: "string list" where
  "live_states = [''EXECUTED'', ''ACTIVE'']"

definition current_version :: "contract_db \<Rightarrow> contract \<Rightarrow> contract_version option" where
  "current_version db c = find_row (\<lambda>v. cv_tenant v = ct_tenant c \<and> cv_id v = ct_current_id c) (contract_versions db)"

text \<open>One candidate of the alert query, in its own unit of work, which reads the row again.\<close>

definition alert_candidate :: "alert_world \<Rightarrow> string \<Rightarrow> string \<Rightarrow> (alert_db, unit) call" where
  "alert_candidate w t i db =
    (let cdb = al_contracts db in
     case find_row (\<lambda>c. contract_key t i c \<and> ct_state c \<in> set live_states) (contracts cdb) of
       None \<Rightarrow> (Inr (), db)
     | Some c \<Rightarrow>
        (case find_row (\<lambda>v. cv_tenant v = t \<and> cv_contract_id v = ct_id c \<and> cv_id v = ct_current_id c) (contract_versions cdb) of
           None \<Rightarrow> (Inr (), db)
         | Some v \<Rightarrow> (Inr (), scheduleForContract w t c v db)))"

definition scheduler_input :: "alert_world \<Rightarrow> contract \<Rightarrow> contract_input" where
  "scheduler_input w c = \<lparr>xi_id = Some (ct_id c), xi_expected_version = JInt (ct_version c), xi_body = [],
     xi_actor_id = ''contract-alert-scheduler'', xi_correlation_id = ce_uuid (aw_env w) 0\<rparr>"

text \<open>The command runs without any port.\<close>

definition scheduler_env :: "alert_world \<Rightarrow> contract_env" where
  "scheduler_env w = (aw_env w)\<lparr>ce_eligibility := None, ce_approvals := None, ce_final_document := None\<rparr>"

definition expire_candidate :: "alert_world \<Rightarrow> string \<Rightarrow> string \<Rightarrow> (alert_db, unit) call" where
  "expire_candidate w t i db =
    (case find_row (\<lambda>c. contract_key t i c \<and> ct_state c = ''ACTIVE'' \<and> ct_end c \<le> aw_db_now w) (contracts (al_contracts db)) of
       None \<Rightarrow> (Inr (), db)
     | Some c \<Rightarrow>
        (case executeContractCommand (scheduler_env w) t CONTRACT_EXPIRE (scheduler_input w c) (al_contracts db) of
           (Inl e, cdb) \<Rightarrow> (Inl e, db\<lparr>al_contracts := cdb\<rparr>)
         | (Inr r, cdb) \<Rightarrow> (Inr (), db\<lparr>al_contracts := cdb, alert_effects := alert_effects db @
               map (\<lambda>e. ExpiryEvent (ev_type e) (ev_aggregate_id e)) (xr_events r)\<rparr>)))"

definition max_batch :: nat where
  "max_batch = 50"

definition alert_queue :: "contract_db \<Rightarrow> contract list" where
  "alert_queue db = sort_key ct_end (sort_key ct_id
     (filter (\<lambda>c. ct_state c \<in> set live_states \<and> current_version db c \<noteq> None) (contracts db)))"

definition expiry_queue :: "int \<Rightarrow> contract_db \<Rightarrow> contract list" where
  "expiry_queue now db = sort_key ct_end (sort_key ct_id
     (filter (\<lambda>c. ct_state c = ''ACTIVE'' \<and> ct_end c \<le> now) (contracts db)))"

text \<open>A failing candidate is rolled back and reported; the batch goes on.\<close>

definition processContractAlertAndExpiryBatch :: "(nat \<Rightarrow> alert_world) \<Rightarrow> alert_db \<Rightarrow> alert_db" where
  "processContractAlertAndExpiryBatch world db =
    (let alerts = take max_batch (alert_queue (al_contracts db));
         db1 = fold (\<lambda>(k, c) s. snd (uow (ct_tenant c) (alert_candidate (world k) (ct_tenant c) (ct_id c)) s))
                 (enumerate 0 alerts) db;
         expired = take max_batch (expiry_queue (aw_db_now (world 0)) (al_contracts db1))
     in fold (\<lambda>(k, c) s. snd (uow (ct_tenant c) (expire_candidate (world k) (ct_tenant c) (ct_id c)) s))
          (enumerate max_batch expired) db1)"

section \<open>What a batch may do to the alerts\<close>

lemma trigger_cases:
  assumes "resolveContractAlertConfiguration parse e z d p = Trigger (Some (txt, source))"
  obtains a b m where "parse e = Some a" and "parse z = Some b" and "a \<le> m" and "m \<le> b" and "txt = iso_time m"
    and "source = ''EXPLICIT_DATE'' \<and> parseTimestamp parse d = Some m
       \<or> source = ''NOTICE_PERIOD'' \<and> (nullish d \<or> d = Some (JStr [])) \<and> (\<exists>k\<ge>0. p = Some (JNum (JInt k)) \<and> m = b - k * day_ms)"
proof -
  from assms obtain a b where ab: "parse e = Some a" "parse z = Some b"
    by (auto simp: resolveContractAlertConfiguration_def split: option.splits if_splits)
  show thesis
  proof (cases "\<not> nullish d \<and> d \<noteq> Some (JStr [])")
    case True
    with assms ab obtain m where "parseTimestamp parse d = Some m" "a \<le> m" "m \<le> b" "txt = iso_time m" "source = ''EXPLICIT_DATE''"
      by (auto simp: resolveContractAlertConfiguration_def Let_def split: option.splits if_splits)
    with ab that show thesis by blast
  next
    case False
    with assms ab obtain k where "p = Some (JNum (JInt k))" "0 \<le> k" "a \<le> b - k * day_ms" "b - k * day_ms \<le> b"
      "txt = iso_time (b - k * day_ms)" "source = ''NOTICE_PERIOD''"
      by (auto simp: resolveContractAlertConfiguration_def Let_def elim!: is_safe_integerE split: option.splits if_splits json.splits)
    with ab False that show thesis by blast
  qed
qed

text \<open>An alert is raised together with one work item and one event, or not at all.\<close>

definition raised :: "alert_effect list \<Rightarrow> (string \<times> string) list" where
  "raised es = concat (map (\<lambda>e. case e of AlertEvent c due \<Rightarrow> [(c, due)] | _ \<Rightarrow> []) es)"

definition alerts_ok :: "alert_db \<Rightarrow> bool" where
  "alerts_ok db \<longleftrightarrow> unique_rows alert_clash (alert_facts db) \<and> unique_rows exception_clash (alert_exceptions db)
     \<and> raised (alert_effects db) = map (\<lambda>f. (af_contract f, af_trigger_at f)) (alert_facts db)"

lemma raised_append [simp]: "raised (es @ fs) = raised es @ raised fs"
  by (simp add: raised_def)

lemma raised_expiries [simp]: "raised (map (\<lambda>e. ExpiryEvent (f e) (g e)) xs) = []"
  by (simp add: raised_def)

lemma alert_clashes_sym: "alert_clash x y \<Longrightarrow> alert_clash y x" "exception_clash a b \<Longrightarrow> exception_clash b a"
  by (auto simp: alert_clash_def exception_clash_def)

lemma schedule_ok: "alerts_ok db \<Longrightarrow> alerts_ok (scheduleForContract w t c v db)"
  unfolding scheduleForContract_def
  by (auto simp: Let_def alerts_ok_def raised_def insert_row_Some_iff
      split: alert_configuration.splits option.splits
      intro!: unique_rows_snoc intro: alert_clashes_sym)

lemma schedule_facts:
  assumes "f \<in> set (alert_facts (scheduleForContract w t c v db))" and "f \<notin> set (alert_facts db)"
  shows "af_contract f = ct_id c \<and> af_tenant f = t \<and> af_version f = cv_id v"
  using assms by (auto simp: scheduleForContract_def Let_def insert_row_Some_iff split: alert_configuration.splits option.splits if_splits)

lemma schedule_contracts [simp]: "al_contracts (scheduleForContract w t c v db) = al_contracts db"
  by (auto simp: scheduleForContract_def Let_def split: alert_configuration.splits option.splits)

lemma alert_candidate_Inr:
  assumes "alert_candidate w t i db = (Inr u, db')"
  shows "db' = db \<or> (\<exists>c v. ct_id c = i \<and> ct_tenant c = t \<and> db' = scheduleForContract w t c v db)"
  using assms by (auto simp: alert_candidate_def Let_def split: option.splits dest!: find_row_SomeD)

lemma expire_candidate_Inr:
  assumes "expire_candidate w t i db = (Inr u, db')"
  shows "alert_facts db' = alert_facts db \<and> alert_exceptions db' = alert_exceptions db
    \<and> raised (alert_effects db') = raised (alert_effects db)"
  using assms by (auto simp: expire_candidate_def split: option.splits prod.splits sum.splits)

lemma fold_keeps:
  assumes "Q s" and "\<And>x s. x \<in> set xs \<Longrightarrow> Q s \<Longrightarrow> Q (f x s)"
  shows "Q (fold f xs s)"
  using assms by (induction xs arbitrary: s) auto

text \<open>An invariant of the candidates' successes is one of the batch.\<close>

lemma batch_keeps:
  assumes "Q db"
    and "\<And>w c s u s'. Q s \<Longrightarrow> c \<in> set (take max_batch (alert_queue (al_contracts db)))
           \<Longrightarrow> alert_candidate w (ct_tenant c) (ct_id c) s = (Inr u, s') \<Longrightarrow> Q s'"
    and "\<And>w t i s u s'. Q s \<Longrightarrow> expire_candidate w t i s = (Inr u, s') \<Longrightarrow> Q s'"
  shows "Q (processContractAlertAndExpiryBatch world db)"
  unfolding processContractAlertAndExpiryBatch_def Let_def
proof (rule fold_keeps, rule fold_keeps)
  show "Q db" by (rule assms(1))
  show "Q ((\<lambda>(k, c) s. snd (uow (ct_tenant c) (alert_candidate (world k) (ct_tenant c) (ct_id c)) s)) kc s)"
    if "kc \<in> set (enumerate 0 (take max_batch (alert_queue (al_contracts db))))" "Q s" for kc s
  proof -
    obtain k c where kc: "kc = (k, c)" by (cases kc)
    with that(1) have "c \<in> set (take max_batch (alert_queue (al_contracts db)))"
      by (auto simp: enumerate_eq_zip dest: set_zip_rightD)
    from pg.run_invariant [where I = Q, OF that(2) assms(2) [OF that(2) this]] show ?thesis unfolding kc prod.case .
  qed
  show "Q ((\<lambda>(k, c) s. snd (uow (ct_tenant c) (expire_candidate (world k) (ct_tenant c) (ct_id c)) s)) kc s)" if "Q s" for kc s
  proof -
    obtain k c where kc: "kc = (k, c)" by (cases kc)
    show ?thesis unfolding kc prod.case by (rule pg.run_invariant [where I = Q, OF that assms(3) [OF that]])
  qed
qed

lemma batch_ok:
  assumes "alerts_ok db"
  shows "alerts_ok (processContractAlertAndExpiryBatch world db)"
proof (rule batch_keeps [where Q = alerts_ok, OF assms])
  fix w c s u s'
  assume "alerts_ok s" and "alert_candidate w (ct_tenant c) (ct_id c) s = (Inr u, s')"
  then show "alerts_ok s'" using schedule_ok by (blast dest: alert_candidate_Inr)
next
  fix w t i s u s'
  assume "alerts_ok s" and "expire_candidate w t i s = (Inr u, s')"
  then show "alerts_ok s'" by (simp add: alerts_ok_def expire_candidate_Inr)
qed

fun run_batches :: "(nat \<Rightarrow> alert_world) list \<Rightarrow> alert_db \<Rightarrow> alert_db" where
  "run_batches [] db = db"
| "run_batches (w # ws) db = run_batches ws (processContractAlertAndExpiryBatch w db)"

section \<open>What the batches leave of the alert queue\<close>

text \<open>What an expiry does to the contract tables: one active row is expired, the versions stay.\<close>

lemma expire_command_rows:
  assumes "executeContractCommand env t CONTRACT_EXPIRE inp db = (Inr r, db')" and "xi_id inp = Some i"
    and "find_row (contract_key t i) (contracts db) = Some x" and "ct_state x = ''ACTIVE''"
  shows "contract_versions db' = contract_versions db
    \<and> (\<exists>sub. contracts db' = update_rows (row_at x)
          (\<lambda>y. y\<lparr>ct_state := ''EXPIRED'', ct_submitted_id := sub y, ct_version := ct_version y + 1\<rparr>) (contracts db))"
proof -
  from assms obtain reason where "move_command env t inp reason CONTRACT_EXPIRE x db = (Inr r, db')"
    by (auto simp: executeContractCommand_def Let_def is_renewal_def existing_contract_def call_simps)
  then obtain ev d where "move_contract t inp reason x ''EXPIRED'' ev ct_submitted_id d db = (Inr r, db')"
    by (auto simp: move_command_def expire_contract_def call_simps)
  moreover have "ct_tenant x = t" using find_row_SomeD [OF assms(3)] by simp
  ultimately show ?thesis by (blast dest: move_contract_Inr)
qed

text \<open>Against the contracts at the start: the rows are live in the same order except for expired ones, and no
  executed row has left.\<close>

definition live_rows :: "contract_db \<Rightarrow> contract list" where
  "live_rows db = filter (\<lambda>c. ct_state c \<in> set live_states \<and> current_version db c \<noteq> None) (contracts db)"

definition waiting_kept :: "contract_db \<Rightarrow> contract_db \<Rightarrow> bool" where
  "waiting_kept start db \<longleftrightarrow> distinct (map ct_id (contracts db)) \<and> contract_versions db = contract_versions start
     \<and> (\<exists>K. (\<forall>x\<in>set (live_rows start). ct_state x = ''EXECUTED'' \<longrightarrow> K x) \<and> live_rows db = filter K (live_rows start))"

lemma waiting_kept_refl: "distinct (map ct_id (contracts db)) \<Longrightarrow> waiting_kept db db"
  by (auto simp: waiting_kept_def intro!: exI [of _ "\<lambda>_. True"])

lemma map_of_same_id: "distinct (map ct_id cs) \<Longrightarrow> x \<in> set cs \<Longrightarrow> y \<in> set cs \<Longrightarrow> ct_id x = ct_id y \<Longrightarrow> x = y"
  by (auto simp: distinct_map inj_on_def)

lemma filter_updated: "(\<And>y. \<not> L (f y)) \<Longrightarrow> filter L (update_rows k f xs) = filter (\<lambda>y. \<not> k y) (filter L xs)"
  by (induction xs) (auto simp: update_rows_def)

lemma waiting_kept_expire:
  assumes "waiting_kept start db" and "x \<in> set (contracts db)" and "ct_state x = ''ACTIVE''"
    and "contract_versions db' = contract_versions db"
    and "contracts db' = update_rows (row_at x) f (contracts db)"
    and "\<And>y. ct_state (f y) = ''EXPIRED'' \<and> ct_id (f y) = ct_id y"
  shows "waiting_kept start db'"
proof -
  from assms(1) obtain K where d: "distinct (map ct_id (contracts db))" and v: "contract_versions db = contract_versions start"
    and K: "\<forall>x\<in>set (live_rows start). ct_state x = ''EXECUTED'' \<longrightarrow> K x" "live_rows db = filter K (live_rows start)"
    by (auto simp: waiting_kept_def)
  have cv: "current_version db' c = current_version db c" for c by (simp add: current_version_def assms(4))
  have ids: "map ct_id (contracts db') = map ct_id (contracts db)"
    using assms(6) by (simp add: assms(5) update_rows_def comp_def)
  have "live_rows db' = filter (\<lambda>y. \<not> row_at x y) (live_rows db)"
    unfolding live_rows_def assms(5) cv by (rule filter_updated) (simp add: assms(6) live_states_def)
  then have rows: "live_rows db' = filter (\<lambda>y. \<not> row_at x y \<and> K y) (live_rows start)" by (simp add: K(2) conj_commute)
  have "\<not> row_at x y" if "y \<in> set (live_rows start)" "ct_state y = ''EXECUTED''" for y
  proof
    assume at: "row_at x y"
    have "y \<in> set (live_rows db)" using that K by simp
    then have "y \<in> set (contracts db)" by (simp add: live_rows_def)
    with at have "y = x" by (intro map_of_same_id [OF d _ assms(2)]) simp_all
    with that(2) assms(3) show False by simp
  qed
  with K(1) have "\<forall>y\<in>set (live_rows start). ct_state y = ''EXECUTED'' \<longrightarrow> \<not> row_at x y \<and> K y" by blast
  with d v rows show ?thesis by (auto simp: waiting_kept_def ids assms(4) intro!: exI [of _ "\<lambda>y. \<not> row_at x y \<and> K y"])
qed

text \<open>The queue keeps its head as long as that is all executed.\<close>

lemma take_filter_all: "(\<forall>x\<in>set (take n xs). P x) \<Longrightarrow> n \<le> length xs \<Longrightarrow> take n (filter P xs) = take n xs"
proof -
  assume P: "\<forall>x\<in>set (take n xs). P x" and n: "n \<le> length xs"
  have "filter P xs = filter P (take n xs) @ filter P (drop n xs)" by (metis append_take_drop_id filter_append)
  also have "filter P (take n xs) = take n xs" using P by (intro filter_True) blast
  finally show ?thesis using n by simp
qed

lemma waiting_kept_head:
  assumes "waiting_kept start db" and "\<forall>x\<in>set (take max_batch (alert_queue start)). ct_state x = ''EXECUTED''"
    and "max_batch \<le> length (alert_queue start)"
  shows "take max_batch (alert_queue db) = take max_batch (alert_queue start)"
proof -
  from assms(1) obtain K where K: "\<forall>x\<in>set (live_rows start). ct_state x = ''EXECUTED'' \<longrightarrow> K x"
    "live_rows db = filter K (live_rows start)" by (auto simp: waiting_kept_def)
  have q: "alert_queue s = sort_key ct_end (sort_key ct_id (live_rows s))" for s by (simp add: alert_queue_def live_rows_def)
  have "alert_queue db = filter K (alert_queue start)" unfolding q K(2) by (simp add: filter_sort)
  moreover have "K x" if "x \<in> set (take max_batch (alert_queue start))" for x
    using that assms(2) K(1) in_set_takeD [OF that] by (simp add: q)
  ultimately show ?thesis using assms(3) by (simp add: take_filter_all)
qed

lemma batch_waiting:
  assumes "waiting_kept start (al_contracts db)"
    and "\<forall>x\<in>set (take max_batch (alert_queue start)). ct_state x = ''EXECUTED''" and "max_batch \<le> length (alert_queue start)"
    and "\<forall>d\<in>set (take max_batch (alert_queue start)). ct_id d \<noteq> i"
    and "{f \<in> set (alert_facts db). af_contract f = i} \<subseteq> F"
  shows "waiting_kept start (al_contracts (processContractAlertAndExpiryBatch world db))
    \<and> {f \<in> set (alert_facts (processContractAlertAndExpiryBatch world db)). af_contract f = i} \<subseteq> F"
proof (rule batch_keeps [where Q = "\<lambda>s. waiting_kept start (al_contracts s) \<and> {f \<in> set (alert_facts s). af_contract f = i} \<subseteq> F"])
  show "waiting_kept start (al_contracts db) \<and> {f \<in> set (alert_facts db). af_contract f = i} \<subseteq> F" using assms by simp
next
  fix w d s u s'
  assume Q: "waiting_kept start (al_contracts s) \<and> {f \<in> set (alert_facts s). af_contract f = i} \<subseteq> F"
    and d: "d \<in> set (take max_batch (alert_queue (al_contracts db)))"
    and run: "alert_candidate w (ct_tenant d) (ct_id d) s = (Inr u, s')"
  from d have "ct_id d \<noteq> i" using assms(4) waiting_kept_head [OF assms(1-3)] by simp
  with Q run show "waiting_kept start (al_contracts s') \<and> {f \<in> set (alert_facts s'). af_contract f = i} \<subseteq> F"
    by (auto dest!: alert_candidate_Inr dest: schedule_facts)
next
  fix w t j s u s'
  assume Q: "waiting_kept start (al_contracts s) \<and> {f \<in> set (alert_facts s). af_contract f = i} \<subseteq> F"
    and run: "expire_candidate w t j s = (Inr u, s')"
  have "waiting_kept start (al_contracts s')"
  proof (cases "find_row (\<lambda>c. contract_key t j c \<and> ct_state c = ''ACTIVE'' \<and> ct_end c \<le> aw_db_now w) (contracts (al_contracts s))")
    case None
    with run Q show ?thesis by (simp add: expire_candidate_def)
  next
    case (Some c)
    from find_row_SomeD [OF Some] have c: "c \<in> set (contracts (al_contracts s))" "contract_key t j c" "ct_state c = ''ACTIVE''" by auto
    from run Some obtain r where r: "executeContractCommand (scheduler_env w) t CONTRACT_EXPIRE (scheduler_input w c) (al_contracts s)
        = (Inr r, al_contracts s')"
      by (auto simp: expire_candidate_def split: prod.splits sum.splits)
    have d: "distinct (map ct_id (contracts (al_contracts s)))" using Q by (simp add: waiting_kept_def)
    obtain y where y: "find_row (contract_key t (ct_id c)) (contracts (al_contracts s)) = Some y"
      using c by (cases "find_row (contract_key t (ct_id c)) (contracts (al_contracts s))") (auto simp: find_row_None_iff)
    from find_row_SomeD [OF y] c(1) have "y = c" by (intro map_of_same_id [OF d]) auto
    from expire_command_rows [OF r _ y] c \<open>y = c\<close> obtain sub where
      "contract_versions (al_contracts s') = contract_versions (al_contracts s)"
      "contracts (al_contracts s') = update_rows (row_at c)
        (\<lambda>y. y\<lparr>ct_state := ''EXPIRED'', ct_submitted_id := sub y, ct_version := ct_version y + 1\<rparr>) (contracts (al_contracts s))"
      by (auto simp: scheduler_input_def)
    then show ?thesis by (rule waiting_kept_expire [OF conjunct1 [OF Q] c(1,3)]) simp
  qed
  with Q run show "waiting_kept start (al_contracts s') \<and> {f \<in> set (alert_facts s'). af_contract f = i} \<subseteq> F"
    by (simp add: expire_candidate_Inr)
qed

section \<open>Properties\<close>

text \<open>A renewal alert is never due outside the contract's term: it falls on the explicit notice date, or, when there is
  none, the notice period before the end.\<close>

theorem alert_within_term:
  assumes "resolveContractAlertConfiguration parse effective_at end_at date period = Trigger (Some (txt, source))"
  shows "\<exists>a b m. parse effective_at = Some a \<and> parse end_at = Some b \<and> a \<le> m \<and> m \<le> b \<and> txt = iso_time m
    \<and> (source = ''EXPLICIT_DATE'' \<and> parseTimestamp parse date = Some m
       \<or> source = ''NOTICE_PERIOD'' \<and> (\<exists>k\<ge>0. period = Some (JNum (JInt k)) \<and> m = b - k * day_ms))"
  by (rule trigger_cases [OF assms]) blast

definition two_days :: "string \<Rightarrow> int option" where
  "two_days s = (if s = ''start'' then Some 0 else if s = ''end'' then Some (2 * day_ms) else None)"

theorem alert_within_term_witness:
  "\<exists>m. 0 \<le> m \<and> m \<le> 2 * day_ms \<and> resolveContractAlertConfiguration two_days ''start'' ''end'' None (Some (JNum (JInt 1)))
     = Trigger (Some (iso_time m, ''NOTICE_PERIOD''))"
proof -
  have *: "resolveContractAlertConfiguration two_days ''start'' ''end'' None (Some (JNum (JInt 1)))
     = Trigger (Some (iso_time day_ms, ''NOTICE_PERIOD''))"
    by (simp add: resolveContractAlertConfiguration_def two_days_def nullish_def blank_iff js_space_def day_ms_def max_safe_def)
  from alert_within_term [OF this] * show ?thesis by (auto simp: two_days_def)
qed

text \<open>C25: However often the scheduler runs, an alert of a contract version is raised at most once: the facts do not repeat,
  and there is exactly one alert event, in the same order, for each of them.\<close>

theorem alert_raised_once:
  assumes "unique_rows alert_clash (alert_facts db)" and "unique_rows exception_clash (alert_exceptions db)"
    and "raised (alert_effects db) = map (\<lambda>f. (af_contract f, af_trigger_at f)) (alert_facts db)"
  shows "unique_rows alert_clash (alert_facts (run_batches ws db))
    \<and> raised (alert_effects (run_batches ws db)) = map (\<lambda>f. (af_contract f, af_trigger_at f)) (alert_facts (run_batches ws db))"
proof -
  have "alerts_ok db" using assms by (simp add: alerts_ok_def)
  then have "alerts_ok (run_batches ws db)" by (induction ws arbitrary: db) (simp_all add: batch_ok)
  then show ?thesis by (simp add: alerts_ok_def)
qed

definition alert_day :: "nat \<Rightarrow> alert_world" where
  "alert_day k = \<lparr>aw_now = 60000, aw_db_now = 60000, aw_date_text = (\<lambda>m. if m = 0 then ''start'' else ''end''),
     aw_json_hash = (\<lambda>_. []), aw_env = sample_env 1\<rparr>"

text \<open>Executed contracts with an alert that is due, which each of them gets when it is alone.\<close>

definition notice_row :: "nat \<Rightarrow> contract" where
  "notice_row k = signed_row\<lparr>ct_id := replicate k (CHR ''c''), ct_current_id := replicate k (CHR ''v'')\<rparr>"

definition notice_version :: "nat \<Rightarrow> contract_version" where
  "notice_version k = (hd (contract_versions signed_db))\<lparr>cv_id := replicate k (CHR ''v''), cv_contract_id := replicate k (CHR ''c''),
     cv_snapshot := JObj [(''renewal_notice_date'', JStr ''start'')]\<rparr>"

definition notices :: "nat list \<Rightarrow> alert_db" where
  "notices ks = \<lparr>al_contracts = signed_db\<lparr>contracts := map notice_row ks, contract_versions := map notice_version ks\<rparr>,
     alert_facts = [], alert_exceptions = [], alert_effects = []\<rparr>"

lemma notice_current: "k \<in> set ks \<Longrightarrow> current_version (al_contracts (notices ks)) (notice_row k) \<noteq> None \<and> ct_state (notice_row k) = ''EXECUTED''"
  by (auto simp: current_version_def notices_def notice_row_def notice_version_def signed_db_def signed_row_def find_row_None_iff)

lemma notice_alone: "map af_contract (alert_facts (run_batches [alert_day] (notices [k]))) = [ct_id (notice_row k)]"
proof -
  have config: "resolveContractAlertConfiguration (ce_parse (sample_env 1)) ''start'' ''end'' (Some (JStr ''start'')) None
      = Trigger (Some (iso_time 0, ''EXPLICIT_DATE''))"
    by code_simp
  have due: "ce_parse (sample_env 1) (iso_time 0) = None" by code_simp
  have "alert_queue (al_contracts (notices [k])) = [notice_row k]"
    using notice_current [of k "[k]"] by (simp add: alert_queue_def live_states_def) (simp add: notices_def live_states_def)
  moreover have "expiry_queue m (al_contracts (notices [k])) = []" for m
    by (simp add: expiry_queue_def notices_def notice_row_def signed_row_def)
  moreover have "alert_candidate (alert_day 0) ''t'' (ct_id (notice_row k)) (notices [k]) =
      (Inr (), scheduleForContract (alert_day 0) ''t'' (notice_row k) (notice_version k) (notices [k]))"
    by (simp add: alert_candidate_def notices_def notice_row_def notice_version_def signed_row_def signed_db_def live_states_def
        find_row_Cons)
  moreover have "alert_facts (scheduleForContract (alert_day 0) ''t'' (notice_row k) (notice_version k) (notices [k])) =
      [\<lparr>af_tenant = ''t'', af_contract = ct_id (notice_row k), af_version = cv_id (notice_version k), af_source = ''EXPLICIT_DATE'',
        af_trigger_at = iso_time 0\<rparr>]"
    using config due
    by (simp add: scheduleForContract_def alert_day_def notice_row_def notice_version_def signed_row_def notices_def insert_row_def)
  moreover have "\<not> blank ''t''" "ct_tenant (notice_row k) = ''t''" by (code_simp, simp add: notice_row_def signed_row_def)
  ultimately show ?thesis
    by (simp add: processContractAlertAndExpiryBatch_def Let_def max_batch_def uow_def uow_run_def plain_work_def)
qed

theorem alert_raised_once_witness:
  "map fst (raised (alert_effects (run_batches [alert_day] (notices [2])))) = [ct_id (notice_row 2)]"
proof -
  have "raised (alert_effects (run_batches [alert_day] (notices [2]))) =
      map (\<lambda>f. (af_contract f, af_trigger_at f)) (alert_facts (run_batches [alert_day] (notices [2])))"
    using alert_raised_once [of "notices [2]" "[alert_day]"] by (simp add: notices_def raised_def)
  with notice_alone [of 2] show ?thesis by (simp add: comp_def)
qed

text \<open>C40: When the 50 live contracts that end first are all executed ones, a contract behind them in that order gets no
  alert from any number of batches, whatever the clock: a batch looks at the first 50 only and itself moves
  active contracts only, so they stay in front until another command moves them.\<close>

theorem alert_starved:
  assumes "distinct (map ct_id (contracts (al_contracts db)))" and "c \<in> set (drop max_batch (alert_queue (al_contracts db)))"
    and "\<forall>d\<in>set (take max_batch (alert_queue (al_contracts db))). ct_state d = ''EXECUTED''"
  shows "{f \<in> set (alert_facts (run_batches ws db)). af_contract f = ct_id c} \<subseteq> set (alert_facts db)"
proof -
  let ?start = "al_contracts db" and ?q = "alert_queue (al_contracts db)"
  have "distinct (map ct_id ?q)"
    using assms(1) by (auto simp: alert_queue_def distinct_map inj_on_def)
  then have "distinct (map ct_id (take max_batch ?q @ drop max_batch ?q))" by simp
  with assms(2) have other: "\<forall>d\<in>set (take max_batch ?q). ct_id d \<noteq> ct_id c"
    unfolding map_append distinct_append by (auto dest: imageI [of _ _ ct_id])
  have len: "max_batch \<le> length ?q"
    using assms(2) by (cases "max_batch \<le> length ?q") auto
  let ?ok = "\<lambda>s. waiting_kept ?start (al_contracts s) \<and> {f \<in> set (alert_facts s). af_contract f = ct_id c} \<subseteq> set (alert_facts db)"
  have step: "?ok (processContractAlertAndExpiryBatch w s)" if "?ok s" for w s
    by (rule batch_waiting [OF conjunct1 [OF that] assms(3) len other conjunct2 [OF that]])
  have "?ok s \<Longrightarrow> ?ok (run_batches ws s)" for s
  proof (induction ws arbitrary: s)
    case (Cons w ws)
    from Cons.IH [OF step [OF Cons.prems]] show ?case by simp
  qed simp
  moreover have "?ok db" using waiting_kept_refl [OF assms(1)] by auto
  ultimately show ?thesis by blast
qed

theorem alert_starved_witness:
  "\<exists>k\<in>set [0..<51]. (\<forall>f\<in>set (alert_facts (run_batches [alert_day, alert_day] (notices [0..<51]))). af_contract f \<noteq> ct_id (notice_row k))
     \<and> map af_contract (alert_facts (run_batches [alert_day] (notices [k]))) = [ct_id (notice_row k)]"
proof -
  let ?db = "notices [0..<51]"
  let ?q = "alert_queue (al_contracts ?db)"
  have rows: "contracts (al_contracts ?db) = map notice_row [0..<51]" by (simp add: notices_def)
  have "filter (\<lambda>c. ct_state c \<in> set live_states \<and> current_version (al_contracts ?db) c \<noteq> None) (map notice_row [0..<51])
      = map notice_row [0..<51]"
    by (rule filter_True) (use notice_current [of _ "[0..<51]"] in \<open>auto simp: live_states_def\<close>)
  then have q: "set ?q = notice_row ` {0..<51}" "length ?q = 51" by (simp_all add: alert_queue_def rows)
  have d: "distinct (map ct_id (contracts (al_contracts ?db)))"
    by (auto simp: rows notice_row_def distinct_map inj_on_def comp_def dest: arg_cong [where f = length])
  have executed: "\<forall>x\<in>set (take max_batch ?q). ct_state x = ''EXECUTED''"
    using q(1) notice_current [of _ "[0..<51]"] by (auto dest!: in_set_takeD)
  obtain c where c: "c \<in> set (drop max_batch ?q)" using q(2) by (cases "drop max_batch ?q") (auto simp: max_batch_def)
  then obtain k where k: "c = notice_row k" "k < 51" using q(1) by (auto dest!: in_set_dropD)
  from alert_starved [OF d c executed, of "[alert_day, alert_day]"] have
    "\<forall>f\<in>set (alert_facts (run_batches [alert_day, alert_day] ?db)). af_contract f \<noteq> ct_id (notice_row k)"
    by (auto simp: k(1) notices_def)
  with k(2) notice_alone [of k] show ?thesis by (intro bexI [of _ k]) simp_all
qed

end
