(* ===== verification/Unit_Of_Work.thy ===== *)
theory Unit_Of_Work
  imports Persistence
begin

text \<open>
  \<open>packages/persistence/src/index.ts\<close>: the unit of work seen statement by statement. A work sends
  statements and goes on with their results or their failures; the database refuses every statement after
  a failed one, and answers the COMMIT of such a transaction with a rollback.
\<close>

text \<open>A work: its outcome, or a statement and what it does with the answer. It may catch a failure.\<close>

datatype ('s, 'r, 'a) body =
    Done "exn + 'a"
  | Query "'s \<Rightarrow> exn + 'r \<times> 's" "exn + 'r \<Rightarrow> ('s, 'r, 'a) body"

primrec run_body :: "('s, 'r, 'a) body \<Rightarrow> 's \<Rightarrow> bool \<Rightarrow> (exn + 'a) \<times> 's \<times> bool" where
  "run_body (Done x) s aborted = (x, s, aborted)"
| "run_body (Query q k) s aborted =
     (if aborted then run_body (k (Inl (SqlError ''25P02''))) s True
      else case q s of
             Inl e \<Rightarrow> run_body (k (Inl e)) s True
           | Inr (r, s') \<Rightarrow> run_body (k (Inr r)) s' False)"

definition body_work :: "('s, 'r, 'a) body \<Rightarrow> ('s, 'a) work" where
  "body_work b s = run_body b s False"

section \<open>What a commit stands for\<close>





section \<open>Works that catch no failure\<close>

text \<open>The modules let a failed statement end their work: for these, \<open>uow\<close> on their outcome and state is the run.\<close>

primrec escapes :: "('s, 'r, 'a) body \<Rightarrow> bool" where
  "escapes (Done x) \<longleftrightarrow> True"
| "escapes (Query q k) \<longleftrightarrow> (\<forall>e. k (Inl e) = Done (Inl e)) \<and> (\<forall>r. escapes (k (Inr r)))"

definition body_call :: "('s, 'r, 'a) body \<Rightarrow> ('s, 'a) call" where
  "body_call b s = (case run_body b s False of (x, s', _) \<Rightarrow> (x, s'))"

lemma escaping_aborts: "escapes b \<Longrightarrow> run_body b s False = (x, s', True) \<Longrightarrow> \<exists>e. x = Inl e"
proof (induction b arbitrary: s)
  case (Query q k)
  show ?case
  proof (cases "q s")
    case (Inl e)
    with Query.prems show ?thesis by auto
  next
    case (Inr p)
    with Query.prems show ?thesis by (cases p) (auto intro: Query.IH [OF rangeI])
  qed
qed simp

lemma escaping_work_plain:
  assumes "escapes b"
  shows "uow t (body_call b) s = uow_run t (body_work b) s"
proof -
  obtain x s' ab where run: "run_body b s False = (x, s', ab)" by (cases "run_body b s False") auto
  with escaping_aborts [OF assms, of s x s'] show ?thesis
    by (cases ab; cases x) (auto simp: uow_def plain_work_def uow_run_def body_call_def body_work_def)
qed

section \<open>Properties\<close>





end
