(* ===== verification/Idempotency.thy ===== *)
theory Idempotency
  imports Messaging
begin

text \<open>
  \<open>PostgresIdempotencyStore\<close> of \<open>packages/messaging/src/idempotency.ts\<close> over
  \<open>platform.idempotency_records\<close>, with the table's unique index and its checks on the expiry
  and on the response status. The environment of an attempt is its clock, its fresh record id and
  whether the advisory lock was free. Responses are stored as \<open>jsonb\<close> and compared as JSON
  values. A work function sees the domain tables, not the idempotency table.
\<close>

section \<open>State and intents\<close>

record intent =
  principalId :: string
  in_operation :: string
  businessScope :: string
  in_key :: string
  semanticRequest :: json
  expiresAt :: int

record stored_response =
  sr_status :: int
  sr_body :: json

datatype idem_state = IN_PROGRESS | IDEM_SUCCEEDED | FAILED_RETRYABLE | FAILED_FINAL | EXPIRED

record idem_row =
  ir_id :: string
  ir_tenant :: string
  ir_principal :: string
  ir_operation :: string
  ir_scope :: string
  ir_key :: string
  ir_hash :: string
  ir_state :: idem_state
  ir_response :: "stored_response option"
  ir_expires_at :: int

record 'd idem_db =
  idem_rows :: "idem_row list"
  idomain :: 'd

record idem_env =
  ie_now :: int
  ie_id :: string
  ie_lock :: bool

definition scope_missing :: "intent \<Rightarrow> bool" where
  "scope_missing i \<longleftrightarrow>
     \<not> list_all (\<lambda>s. \<not> blank s) [principalId i, in_operation i, businessScope i, in_key i]"

definition in_scope :: "string \<Rightarrow> intent \<Rightarrow> idem_row \<Rightarrow> bool" where
  "in_scope t i r \<longleftrightarrow> ir_tenant r = t \<and> ir_principal r = principalId i \<and>
     ir_operation r = in_operation i \<and> ir_scope r = businessScope i \<and> ir_key r = in_key i"

text \<open>Primary key, and the unique index over the scope.\<close>

definition idem_clash :: "idem_row \<Rightarrow> idem_row \<Rightarrow> bool" where
  "idem_clash x y \<longleftrightarrow> ir_id x = ir_id y \<or>
     (ir_tenant x = ir_tenant y \<and> ir_principal x = ir_principal y \<and>
      ir_operation x = ir_operation y \<and> ir_scope x = ir_scope y \<and> ir_key x = ir_key y)"

definition null_response :: stored_response where
  "null_response = \<lparr>sr_status = 0, sr_body = JNull\<rparr>"

definition row_response :: "idem_row \<Rightarrow> stored_response" where
  "row_response r = (case ir_response r of None \<Rightarrow> null_response | Some resp \<Rightarrow> resp)"

section \<open>Operations\<close>

definition findPrevious ::
    "(rat \<Rightarrow> string) \<Rightarrow> (string \<Rightarrow> string) \<Rightarrow> string \<Rightarrow> idem_env \<Rightarrow> intent \<Rightarrow> 'd idem_db
       \<Rightarrow> exn + stored_response option" where
  "findPrevious fr sha t env i s =
     (if scope_missing i then Inl (AppError VALIDATION_ERROR)
      else case find_row (in_scope t i) (idem_rows s) of
        None \<Rightarrow> Inr None
      | Some r \<Rightarrow>
          if ir_expires_at r \<le> ie_now env then Inl (AppError IDEMPOTENCY_KEY_CONFLICT)
          else case requestHash fr sha (semanticRequest i) of
            Inl e \<Rightarrow> Inl e
          | Inr hash \<Rightarrow>
              if ir_hash r \<noteq> hash then Inl (AppError IDEMPOTENCY_KEY_CONFLICT)
              else if ir_state r \<noteq> IDEM_SUCCEEDED then Inl (AppError OPERATION_IN_PROGRESS)
              else Inr (Some (row_response r)))"

definition execute ::
    "(rat \<Rightarrow> string) \<Rightarrow> (string \<Rightarrow> string) \<Rightarrow> string \<Rightarrow> idem_env \<Rightarrow> intent
       \<Rightarrow> ('d, stored_response) call \<Rightarrow> ('d idem_db, stored_response) call" where
  "execute fr sha t env i work s =
     (if scope_missing i then (Inl (AppError VALIDATION_ERROR), s)
      else if \<not> ie_lock env then (Inl (AppError OPERATION_IN_PROGRESS), s)
      else case requestHash fr sha (semanticRequest i) of
        Inl e \<Rightarrow> (Inl e, s)
      | Inr hash \<Rightarrow>
         (case find_row (in_scope t i) (idem_rows s) of
            Some r \<Rightarrow>
              (if ir_expires_at r \<le> ie_now env then Inl (AppError IDEMPOTENCY_KEY_CONFLICT)
               else if ir_hash r \<noteq> hash then Inl (AppError IDEMPOTENCY_KEY_CONFLICT)
               else if ir_state r = IDEM_SUCCEEDED then Inr (row_response r)
               else Inl (AppError OPERATION_IN_PROGRESS), s)
          | None \<Rightarrow>
              if expiresAt i \<le> ie_now env then (Inl (SqlError ''23514''), s)
              else case insert_row idem_clash
                     \<lparr>ir_id = ie_id env, ir_tenant = t, ir_principal = principalId i,
                      ir_operation = in_operation i, ir_scope = businessScope i, ir_key = in_key i,
                      ir_hash = hash, ir_state = IN_PROGRESS, ir_response = None,
                      ir_expires_at = expiresAt i\<rparr> (idem_rows s) of
                None \<Rightarrow> (Inl (SqlError ''23505''), s)
              | Some rows \<Rightarrow>
                 (case work (idomain s) of
                    (Inl e, d) \<Rightarrow> (Inl e, s\<lparr>idem_rows := rows, idomain := d\<rparr>)
                  | (Inr resp, d) \<Rightarrow>
                      if sr_status resp < 100 \<or> sr_status resp > 599
                      then (Inl (SqlError ''23514''), s\<lparr>idem_rows := rows, idomain := d\<rparr>)
                      else (Inr resp, s\<lparr>
                        idem_rows := update_rows (\<lambda>r. ir_id r = ie_id env \<and> ir_tenant r = t)
                          (\<lambda>r. r\<lparr>ir_state := IDEM_SUCCEEDED, ir_response := Some resp\<rparr>) rows,
                        idomain := d\<rparr>))))"

section \<open>What a key settles\<close>

text \<open>The key of an intent is settled with a response: the record is there, succeeded and unexpired.\<close>

definition key_settled ::
    "(rat \<Rightarrow> string) \<Rightarrow> (string \<Rightarrow> string) \<Rightarrow> string \<Rightarrow> intent \<Rightarrow> stored_response \<Rightarrow> 'd idem_db \<Rightarrow> bool" where
  "key_settled fr sha t i resp s \<longleftrightarrow>
     (\<exists>r. find_row (in_scope t i) (idem_rows s) = Some r \<and>
        requestHash fr sha (semanticRequest i) = Inr (ir_hash r) \<and>
        ir_state r = IDEM_SUCCEEDED \<and> row_response r = resp)"

lemma execute_replay:
  assumes "execute fr sha t env i work s = (Inr resp, s')"
    and "find_row (in_scope t i) (idem_rows s) = Some r"
  shows "s' = s \<and> key_settled fr sha t i resp s"
  using assms by (auto simp: execute_def key_settled_def split: sum.splits if_splits)

lemma execute_fresh:
  assumes "execute fr sha t env i work s = (Inr resp, s')"
    and "find_row (in_scope t i) (idem_rows s) = None"
  shows "work (idomain s) = (Inr resp, idomain s') \<and> key_settled fr sha t i resp s'
    \<and> expiresAt i > ie_now env"
proof -
  from assms obtain hash rows where hash: "requestHash fr sha (semanticRequest i) = Inr hash"
    and ins: "insert_row idem_clash
       \<lparr>ir_id = ie_id env, ir_tenant = t, ir_principal = principalId i,
        ir_operation = in_operation i, ir_scope = businessScope i, ir_key = in_key i,
        ir_hash = hash, ir_state = IN_PROGRESS, ir_response = None,
        ir_expires_at = expiresAt i\<rparr> (idem_rows s) = Some rows"
    and w: "work (idomain s) = (Inr resp, idomain s')"
    and exp: "expiresAt i > ie_now env"
    and rows': "idem_rows s' = update_rows (\<lambda>r. ir_id r = ie_id env \<and> ir_tenant r = t)
       (\<lambda>r. r\<lparr>ir_state := IDEM_SUCCEEDED, ir_response := Some resp\<rparr>) rows"
    by (auto simp: execute_def split: sum.splits if_splits option.splits prod.splits)
  let ?row = "\<lparr>ir_id = ie_id env, ir_tenant = t, ir_principal = principalId i,
        ir_operation = in_operation i, ir_scope = businessScope i, ir_key = in_key i,
        ir_hash = hash, ir_state = IN_PROGRESS, ir_response = None,
        ir_expires_at = expiresAt i\<rparr>"
  from ins have rows: "rows = idem_rows s @ [?row]" by (simp add: insert_row_Some_iff)
  have "find_row (in_scope t i) (idem_rows s') =
     map_option (\<lambda>r. if ir_id r = ie_id env \<and> ir_tenant r = t
        then r\<lparr>ir_state := IDEM_SUCCEEDED, ir_response := Some resp\<rparr> else r)
       (find_row (in_scope t i) rows)"
    unfolding rows' by (rule find_row_update_keep) (simp add: in_scope_def)
  also have "find_row (in_scope t i) rows = Some ?row"
    unfolding rows using assms(2) by (simp add: table_simps in_scope_def)
  finally show ?thesis using w exp hash by (simp add: key_settled_def row_response_def)
qed

lemma execute_settles:
  assumes "execute fr sha t env i work s = (Inr resp, s')"
  shows "key_settled fr sha t i resp s'"
  using execute_replay [OF assms] execute_fresh [OF assms]
  by (cases "find_row (in_scope t i) (idem_rows s)") auto

lemma execute_settled:
  assumes "key_settled fr sha t i resp s"
  shows "snd (execute fr sha t env i work s) = s \<and>
    (\<forall>resp'. fst (execute fr sha t env i work s) = Inr resp' \<longrightarrow> resp' = resp)"
  using assms by (auto simp: execute_def key_settled_def split: if_splits)

text \<open>A key used with another request is refused, and nothing runs.\<close>

lemma execute_conflict:
  assumes "find_row (in_scope t i) (idem_rows s) = Some r" and "\<not> scope_missing i"
    and "ie_lock env" and "requestHash fr sha (semanticRequest i) = Inr hash" and "ir_hash r \<noteq> hash"
  shows "execute fr sha t env i work s = (Inl (AppError IDEMPOTENCY_KEY_CONFLICT), s)"
  using assms by (simp add: execute_def)

section \<open>The interface\<close>

text \<open>
  An idempotent executor: attempts at one intent in transactions. \<open>settled s r\<close> says that the
  intent has its response \<open>r\<close>. The client's fact is that any sequence of attempts changes the
  state at most once, and that all answers agree.
\<close>

locale idempotent_executor =
  fixes attempt :: "'e \<Rightarrow> ('s, 'r) call"
    and settled :: "'s \<Rightarrow> 'r \<Rightarrow> bool"
  assumes failed_attempt: "fst (attempt e s) = Inl x \<Longrightarrow> snd (attempt e s) = s"
    and settles: "attempt e s = (Inr r, s') \<Longrightarrow> settled s' r"
    and stays_settled:
      "settled s r \<Longrightarrow> snd (attempt e s) = s \<and> (\<forall>r'. fst (attempt e s) = Inr r' \<longrightarrow> r' = r)"
begin

fun attempts :: "'e list \<Rightarrow> 's \<Rightarrow> 's \<times> 'r list" where
  "attempts [] s = (s, [])"
| "attempts (e # es) s =
     (case attempt e s of (r, s1) \<Rightarrow>
        (case attempts es s1 of (s2, rs) \<Rightarrow>
           (s2, (case r of Inl x \<Rightarrow> rs | Inr a \<Rightarrow> a # rs))))"

lemma attempts_settled:
  assumes "settled s r"
  shows "fst (attempts es s) = s \<and> set (snd (attempts es s)) \<subseteq> {r}"
  using assms
proof (induction es)
  case Nil
  then show ?case by simp
next
  case (Cons e es)
  with stays_settled [of s r e] show ?case
    by (auto split: prod.splits sum.splits)
qed

lemma at_most_once:
  "fst (attempts es s) = s \<and> snd (attempts es s) = [] \<or>
   (\<exists>e\<in>set es. \<exists>r. fst (attempt e s) = Inr r \<and> fst (attempts es s) = snd (attempt e s)
      \<and> set (snd (attempts es s)) \<subseteq> {r})"
proof (induction es)
  case Nil
  then show ?case by simp
next
  case (Cons e es)
  obtain r s1 where a: "attempt e s = (r, s1)" by (cases "attempt e s")
  show ?case
  proof (cases r)
    case (Inl x)
    with a failed_attempt [of e s x] have "s1 = s" by simp
    with Cons a Inl show ?thesis by (auto split: prod.splits)
  next
    case (Inr b)
    with a have "settled s1 b" using settles by simp
    from attempts_settled [OF this, of es] a Inr show ?thesis
      by (auto split: prod.splits)
  qed
qed

end

interpretation idem: idempotent_executor
  "\<lambda>env. uow t (execute fr sha t env i work)" "\<lambda>s r. key_settled fr sha t i r s"
  for t fr sha i work
proof unfold_locales
  fix env x and s :: "'a idem_db"
  show "fst (uow t (execute fr sha t env i work) s) = Inl x \<Longrightarrow>
     snd (uow t (execute fr sha t env i work) s) = s"
    by (rule pg.rolls_back)
next
  fix env r and s s' :: "'a idem_db"
  assume "uow t (execute fr sha t env i work) s = (Inr r, s')"
  then show "key_settled fr sha t i r s'" by (auto simp: uow_Inr intro: execute_settles)
next
  fix env r and s :: "'a idem_db"
  assume k: "key_settled fr sha t i r s"
  let ?f = "execute fr sha t env i work"
  have "snd (uow t ?f s) = s"
    using pg.all_or_nothing [of t ?f s] execute_settled [OF k, of env work] by auto
  moreover have "r' = r" if ok: "fst (uow t ?f s) = Inr r'" for r'
  proof -
    from ok have "uow t ?f s = (Inr r', snd (uow t ?f s))" by (simp add: prod_eq_iff)
    then have "?f s = (Inr r', snd (uow t ?f s))" by (rule pg.commits)
    then have "fst (?f s) = Inr r'" by simp
    then show ?thesis using execute_settled [OF k, of env work] by blast
  qed
  ultimately show "snd (uow t ?f s) = s \<and> (\<forall>r'. fst (uow t ?f s) = Inr r' \<longrightarrow> r' = r)"
    by blast
qed

end
