(* ===== verification/Platform_Properties.thy ===== *)
theory Platform_Properties
  imports Idempotency Identity_Access
begin

text \<open>
  What the platform packages and the identity module promise the rest of the system: atomic
  transactions, at-most-once commands, exactly-once event effects, and authorization that rests on
  the tenant's own tables.
\<close>

section \<open>Operations\<close>

text \<open>A settled operation of the registry is final: no transition, however it is addressed or
  versioned, moves it out of SUCCEEDED, FAILED or CANCELLED.\<close>

theorem settled_operation_final:
  assumes "find_operation t oid ops = Some r" and "op_state r \<in> {SUCCEEDED, FAILED, CANCELLED}"
  shows "map_option op_state (find_operation t oid (op_lifecycle.after_all t oid cs ops)) = Some (op_state r)"
proof (rule op_lifecycle.terminal_absorbing)
  show "map_option op_state (find_operation t oid ops) = Some (op_state r)" using assms(1) by simp
  show "op_allowed (op_state r) = []" using assms(2) by auto
qed

definition done_operation :: operation where
  "done_operation = \<lparr>operation_id = ''o'', op_tenant = ''t'', op_type = ''X'', op_target_type = ''ASSET'',
     op_target_id = ''a'', op_state = SUCCEEDED, op_correlation_id = ''c'', op_created_at = 0,
     op_updated_at = 0, op_error_code = None, op_version = 3\<rparr>"

theorem settled_operation_final_witness:
  "map_option op_state (find_operation ''t'' ''o'' (op_lifecycle.after_all ''t'' ''o''
     [(1, \<lparr>tr_operation_id = ''o'', tr_expected_version = JInt 3, tr_from = SUCCEEDED, tr_to = RUNNING,
           tr_error_code = None\<rparr>)] [done_operation])) = Some SUCCEEDED"
proof -
  have "find_operation ''t'' ''o'' [done_operation] = Some done_operation" by code_simp
  moreover have "op_state done_operation = SUCCEEDED" by (simp add: done_operation_def)
  ultimately show ?thesis using settled_operation_final by fastforce
qed

section \<open>Idempotent commands\<close>

text \<open>C5: Any number of attempts at one keyed command, at any times and under any contention for its lock,
  change the database at most as one attempt does, and every answer they give is the same response.\<close>

theorem command_at_most_once:
  "fst (idem.attempts t fr sha i work es s) = s \<and> snd (idem.attempts t fr sha i work es s) = [] \<or>
   (\<exists>e\<in>set es. \<exists>r. fst (uow t (execute fr sha t e i work) s) = Inr r
      \<and> fst (idem.attempts t fr sha i work es s) = snd (uow t (execute fr sha t e i work) s)
      \<and> set (snd (idem.attempts t fr sha i work es s)) \<subseteq> {r})"
  by (rule idem.at_most_once)

text \<open>A key that has been used is bound to its request: the same key with a request of another hash is
  refused with IDEMPOTENCY_KEY_CONFLICT, the work does not run and nothing changes.\<close>

theorem key_bound_to_request:
  assumes "find_row (in_scope t i) (idem_rows s) = Some r" and "\<not> scope_missing i" and "ie_lock env"
    and "requestHash fr sha (semanticRequest i) = Inr hash" and "ir_hash r \<noteq> hash"
  shows "execute fr sha t env i work s = (Inl (AppError IDEMPOTENCY_KEY_CONFLICT), s)"
  using assms by (rule execute_conflict)

definition old_row :: idem_row where
  "old_row = \<lparr>ir_id = ''1'', ir_tenant = ''t'', ir_principal = ''p'', ir_operation = ''op'', ir_scope = ''s'',
     ir_key = ''k'', ir_hash = ''false'', ir_state = IDEM_SUCCEEDED,
     ir_response = Some \<lparr>sr_status = 200, sr_body = JNull\<rparr>, ir_expires_at = 100\<rparr>"

definition new_intent :: intent where
  "new_intent = \<lparr>principalId = ''p'', in_operation = ''op'', businessScope = ''s'', in_key = ''k'',
     semanticRequest = JBool True, expiresAt = 100\<rparr>"

theorem key_bound_to_request_witness:
  "execute (\<lambda>_. []) (\<lambda>x. x) ''t'' \<lparr>ie_now = 5, ie_id = ''2'', ie_lock = True\<rparr> new_intent
     (\<lambda>d. (Inr \<lparr>sr_status = 200, sr_body = JNull\<rparr>, d + 1)) \<lparr>idem_rows = [old_row], idomain = (0 :: int)\<rparr> =
   (Inl (AppError IDEMPOTENCY_KEY_CONFLICT), \<lparr>idem_rows = [old_row], idomain = 0\<rparr>)"
proof (rule key_bound_to_request)
  show "find_row (in_scope ''t'' new_intent) (idem_rows \<lparr>idem_rows = [old_row], idomain = (0 :: int)\<rparr>) = Some old_row"
    by (simp add: table_simps in_scope_def new_intent_def old_row_def)
  show "\<not> scope_missing new_intent" by code_simp
  show "requestHash (\<lambda>_. []) (\<lambda>x. x) (semanticRequest new_intent) = Inr ''true''"
    by (simp add: requestHash_def new_intent_def)
qed (simp_all add: old_row_def)

text \<open>C23: The hash of a request does not depend on the order of object members, at any depth.\<close>

theorem request_hash_member_order:
  assumes "same_json v w"
  shows "requestHash fr sha v = requestHash fr sha w"
  using assms by (rule requestHash_same_json)

theorem request_hash_member_order_witness:
  "requestHash (\<lambda>_. []) (\<lambda>x. x) (JObj [(''b'', JBool True), (''a'', JNull)]) =
   requestHash (\<lambda>_. []) (\<lambda>x. x) (JObj [(''a'', JNull), (''b'', JBool True)])"
proof (rule request_hash_member_order)
  show "same_json (JObj [(''b'', JBool True), (''a'', JNull)]) (JObj [(''a'', JNull), (''b'', JBool True)])"
    by (rule same_json.same_obj [where lws = "[(''b'', JBool True), (''a'', JNull)]"])
      (auto intro: same_json.same_refl simp: add_mset_commute)
qed

text \<open>Hashing a request fails exactly when some number in it is not finite, and then with
  VALIDATION_ERROR.\<close>

theorem request_hash_failure:
  "(\<exists>h. requestHash fr sha v = Inr h) = finite_json v \<and>
   (\<forall>e. requestHash fr sha v = Inl e \<longrightarrow> e = AppError VALIDATION_ERROR)"
proof
  have "(\<exists>h. requestHash fr sha v = Inr h) = is_ok (canonical fr v)"
    by (cases "canonical fr v") (auto simp: requestHash_def)
  then show "(\<exists>h. requestHash fr sha v = Inr h) = finite_json v" by (simp add: canonical_ok)
  show "\<forall>e. requestHash fr sha v = Inl e \<longrightarrow> e = AppError VALIDATION_ERROR"
    using canonical_error [of fr v] by (cases "canonical fr v") (auto simp: requestHash_def)
qed

theorem request_hash_failure_witness:
  "requestHash (\<lambda>_. []) (\<lambda>x. x) (JArr [JNum JNaN]) = Inl (AppError VALIDATION_ERROR)"
proof -
  have "\<not> (\<exists>h. requestHash (\<lambda>_. []) (\<lambda>x. x) (JArr [JNum JNaN]) = Inr h)"
    using request_hash_failure [of "\<lambda>_. []" "\<lambda>x. x" "JArr [JNum JNaN]"] by simp
  then obtain e where "requestHash (\<lambda>_. []) (\<lambda>x. x) (JArr [JNum JNaN]) = Inl e"
    by (cases "requestHash (\<lambda>_. []) (\<lambda>x. x) (JArr [JNum JNaN])") auto
  with request_hash_failure [of "\<lambda>_. []" "\<lambda>x. x" "JArr [JNum JNaN]"] show ?thesis by blast
qed

section \<open>Events\<close>

text \<open>C6: A consumer whose handler succeeds applies each event once, in the order of first delivery,
  however often events of its tenant are delivered.\<close>

theorem events_applied_once:
  assumes "\<forall>e. find_row (inbox_key c e) (inbox s) = None" and "\<not> blank t" and "\<not> blank c"
    and "\<forall>e\<in>set es. valid e \<and> ev_tenant e = t" and "\<And>e d. h e d = (Inr (), g e d)"
  shows "cdomain (consume_all valid now c h es s) = fold g (first_deliveries [] es) (cdomain s)"
  by (rule consume_all_first [OF _ assms(2-5)]) (use assms(1) in \<open>simp add: inbox_at_def\<close>)

definition sample_event :: "string \<Rightarrow> event" where
  "sample_event i = \<lparr>ev_id = i, ev_type = ''T'', ev_schema_version = 1, ev_occurred_at = [], ev_published_at = [],
     ev_producer = ([], []), ev_aggregate_type = [], ev_aggregate_id = [], ev_aggregate_version = 1,
     ev_actor_type = [], ev_actor_id = None, ev_correlation_id = [], ev_causation_id = [],
     ev_tenant = ''t'', ev_organization_id = ''t'', ev_idempotency_key = [], ev_payload = JNull\<rparr>"

theorem events_applied_once_witness:
  "cdomain (consume_all (\<lambda>_. True) 5 ''mailer'' (\<lambda>e d. (Inr (), d @ [ev_id e]))
     [sample_event ''1'', sample_event ''2'', sample_event ''1''] \<lparr>inbox = [], cdomain = []\<rparr>) = [''1'', ''2'']"
proof -
  have "cdomain (consume_all (\<lambda>_. True) 5 ''mailer'' (\<lambda>e d. (Inr (), d @ [ev_id e]))
     [sample_event ''1'', sample_event ''2'', sample_event ''1''] \<lparr>inbox = [], cdomain = []\<rparr>)
     = fold (\<lambda>e d. d @ [ev_id e])
         (first_deliveries [] [sample_event ''1'', sample_event ''2'', sample_event ''1'']) []"
    by (subst events_applied_once [where t = "''t''" and g = "\<lambda>e d. d @ [ev_id e]"])
      (simp_all add: table_simps sample_event_def blank_iff js_space_def)
  then show ?thesis by (simp add: sample_event_def)
qed

subsection \<open>Failed deliveries\<close>

text \<open>A delivery of an event that is not settled yet: claimed, handled, and marked or rolled back.\<close>

lemma consume_claimable:
  assumes "valid ev" and "\<not> blank (ev_tenant ev)" and "\<not> blank c"
    and "\<not> inbox_settled (ev_tenant ev) c (ev_id ev) (inbox s)"
  shows "consume valid now c h ev s =
    (case h ev (cdomain s) of
       (Inl e, d) \<Rightarrow> (Inl e, s\<lparr>inbox := snd (inbox_fail (ev_tenant ev) c (ev_id ev) (inbox s))\<rparr>)
     | (Inr u, d) \<Rightarrow> (Inr Processed, s\<lparr>inbox := snd (inbox_processed (ev_tenant ev) now c (ev_id ev)
           (snd (inbox_claim (ev_tenant ev) c (ev_id ev) (inbox s)))), cdomain := d\<rparr>))"
proof -
  let ?t = "ev_tenant ev" and ?i = "ev_id ev"
  have open_status: "st \<noteq> PROCESSED \<Longrightarrow> st = NOT_PROCESSED \<or> st = INBOX_FAILED" for st by (cases st) simp_all
  obtain ib where claim: "inbox_claim ?t c ?i (inbox s) = (Inr True, ib)"
    using assms(3,4) by (cases "find_row (inbox_key c ?i) (inbox s)")
      (auto simp: inbox_settled_def inbox_claim_def dest: open_status)
  obtain failed where fail: "inbox_fail ?t c ?i (inbox s) = (Inr (), failed)"
    by (cases "inbox_fail ?t c ?i (inbox s)") (auto simp: inbox_fail_def split: option.splits if_splits)
  show ?thesis
    using assms(1,2) claim fail
    by (cases "h ev (cdomain s)"; cases "fst (h ev (cdomain s))")
      (auto simp: consume_def assertEvent_def Let_def uow_def uow_run_def plain_work_def deliver_def on_inbox_def
        on_domain_def inbox_processed_def)
qed

lemma inbox_fail_rows:
  assumes "\<not> blank c" and "\<not> inbox_settled t c i ib"
  obtains r where "find_row (inbox_key c i) (snd (inbox_fail t c i ib)) = Some r" and "ib_status r = INBOX_FAILED"
    and "ib_tenant r = t" and "map_option ib_status (find_row (inbox_key c i) ib) \<noteq> Some INBOX_FAILED \<longrightarrow>
      ib_error_code r = Some ''CONSUMER_FAILED''"
proof (cases "find_row (inbox_key c i) ib")
  case None
  with that show thesis by (simp add: inbox_fail_def find_row_append find_row_Cons)
next
  case (Some r)
  with assms have r: "ib_status r \<noteq> PROCESSED" "ib_tenant r = t" by (auto simp: inbox_settled_def)
  show thesis
  proof (cases "ib_status r = NOT_PROCESSED")
    case True
    with Some r that show thesis by (simp add: inbox_fail_def find_row_update_same)
  next
    case False
    with r have "ib_status r = INBOX_FAILED" by (cases "ib_status r") simp_all
    with Some r that show thesis by (simp add: inbox_fail_def)
  qed
qed

lemma inbox_fail_others:
  assumes "\<not> (c' = c \<and> i' = i)"
  shows "find_row (inbox_key c' i') (snd (inbox_fail t c i ib)) = find_row (inbox_key c' i') ib"
proof (cases "find_row (inbox_key c i) ib")
  case None
  with assms show ?thesis by (auto simp: inbox_fail_def find_row_append find_row_Cons find_row_Nil split: option.split)
next
  case (Some r)
  have "find_row (inbox_key c' i') (update_rows (inbox_key c i)
      (\<lambda>r. r\<lparr>ib_status := INBOX_FAILED, ib_error_code := Some ''CONSUMER_FAILED''\<rparr>) ib) = find_row (inbox_key c' i') ib"
    using assms by (intro find_row_update_other) auto
  with Some show ?thesis by (simp add: inbox_fail_def)
qed

text \<open>C24: A delivery of an unsettled event that fails is rolled back and stays retryable: it fails with the error of the
  handler, the consumer's tables are as they were, the inbox records the failure of that event for that
  consumer and changes no other row, and a later delivery with a handler that succeeds on those tables is
  processed.\<close>

theorem failed_delivery_rolls_back:
  assumes "consume valid now c h ev s = (Inl e, s')" and "valid ev" and "\<not> blank (ev_tenant ev)" and "\<not> blank c"
    and "\<not> inbox_settled (ev_tenant ev) c (ev_id ev) (inbox s)"
  shows "fst (h ev (cdomain s)) = Inl e \<and> cdomain s' = cdomain s
    \<and> (\<exists>r. find_row (inbox_key c (ev_id ev)) (inbox s') = Some r \<and> ib_status r = INBOX_FAILED \<and> ib_tenant r = ev_tenant ev
         \<and> (map_option ib_status (find_row (inbox_key c (ev_id ev)) (inbox s)) \<noteq> Some INBOX_FAILED
              \<longrightarrow> ib_error_code r = Some ''CONSUMER_FAILED''))
    \<and> (\<forall>c' i. \<not> (c' = c \<and> i = ev_id ev) \<longrightarrow> find_row (inbox_key c' i) (inbox s') = find_row (inbox_key c' i) (inbox s))
    \<and> (\<forall>h' now' d. h' ev (cdomain s) = (Inr (), d) \<longrightarrow>
         fst (consume valid now' c h' ev s') = Inr Processed \<and> cdomain (snd (consume valid now' c h' ev s')) = d)"
proof -
  let ?ib = "snd (inbox_fail (ev_tenant ev) c (ev_id ev) (inbox s))"
  have s': "fst (h ev (cdomain s)) = Inl e" "s' = s\<lparr>inbox := ?ib\<rparr>"
    using assms(1) unfolding consume_claimable [of valid ev c s now h, OF assms(2-5)]
    by (auto split: prod.splits sum.splits)
  obtain r where r: "find_row (inbox_key c (ev_id ev)) ?ib = Some r" "ib_status r = INBOX_FAILED" "ib_tenant r = ev_tenant ev"
    "map_option ib_status (find_row (inbox_key c (ev_id ev)) (inbox s)) \<noteq> Some INBOX_FAILED \<longrightarrow> ib_error_code r = Some ''CONSUMER_FAILED''"
    by (rule inbox_fail_rows [OF assms(4,5)])
  then have "\<not> inbox_settled (ev_tenant ev) c (ev_id ev) (inbox s')" by (simp add: inbox_settled_def s')
  from consume_claimable [of valid ev c s', OF assms(2-4) this] r s' show ?thesis by (simp add: inbox_fail_others)
qed

theorem failed_delivery_rolls_back_witness:
  "\<exists>s'. consume (\<lambda>_. True) 5 ''mailer'' (\<lambda>e d. (Inl (JsError ''down''), d + 1)) (sample_event ''1'')
       \<lparr>inbox = [], cdomain = (0 :: int)\<rparr> = (Inl (JsError ''down''), s')
     \<and> map ib_error_code (inbox s') = [Some ''CONSUMER_FAILED'']
     \<and> fst (consume (\<lambda>_. True) 6 ''mailer'' (\<lambda>e d. (Inr (), d + 2)) (sample_event ''1'') s') = Inr Processed"
proof -
  let ?h = "\<lambda>e d. (Inl (JsError ''down''), d + 1)" and ?s = "\<lparr>inbox = [], cdomain = (0 :: int)\<rparr>"
  let ?s' = "snd (consume (\<lambda>_. True) 5 ''mailer'' ?h (sample_event ''1'') ?s)"
  have run: "consume (\<lambda>_. True) 5 ''mailer'' ?h (sample_event ''1'') ?s = (Inl (JsError ''down''), ?s')" by code_simp
  have codes: "map ib_error_code (inbox ?s') = [Some ''CONSUMER_FAILED'']" by code_simp
  have "\<not> blank (ev_tenant (sample_event ''1''))" "\<not> blank ''mailer''"
    "\<not> inbox_settled (ev_tenant (sample_event ''1'')) ''mailer'' (ev_id (sample_event ''1'')) (inbox ?s)" by code_simp+
  from failed_delivery_rolls_back [OF run _ this]
  have again: "fst (consume (\<lambda>_. True) 6 ''mailer'' (\<lambda>e d. (Inr (), d + 2)) (sample_event ''1'') ?s') = Inr Processed" by simp
  show ?thesis by (rule exI [of _ ?s'], intro conjI) (rule run, rule codes, rule again)
qed

section \<open>Authorization\<close>

text \<open>C7: The decision for a user is exactly the specification: allowed if and only if the request is for
  the transaction's tenant, the user is active there, some role binding or temporary grant in force
  gives the permission in a covering scope, and no binding of the permission is an explicit denial.\<close>

theorem user_decision_exact:
  assumes "ai_principal_type inp = ''USER''"
  shows "de_result (evaluateAuthorization t now inp db) = ALLOW \<longleftrightarrow>
    (let tm = (case ai_at inp of None \<Rightarrow> now | Some x \<Rightarrow> x) in
     ai_tenant inp = t \<and> (\<exists>g. user_grant db inp tm g \<and> user_covers inp g) \<and>
     (\<forall>g. user_grant db inp tm g \<longrightarrow> gr_source g \<noteq> ''EXPLICIT_DENY''))"
  using assms by (rule user_allowed_iff)

definition ask_input :: auth_input where
  "ask_input = \<lparr>ai_principal_id = ''ann'', ai_principal_type = ''USER'', ai_tenant = ''t'',
     ai_action = ''asset.read'', ai_resource_type = ''asset'', ai_scope = [], ai_at = None\<rparr>"

definition empty_identity :: identity_db where
  "empty_identity = \<lparr>users = [], roles = [], role_bindings = [], role_permissions = [], permissions = [],
     temporary_grants = [], system_principals = [], sessions = []\<rparr>"

theorem user_decision_exact_witness:
  "de_result (evaluateAuthorization ''t'' 5 ask_input empty_identity) \<noteq> ALLOW"
  using user_decision_exact [of ask_input "''t''" 5 empty_identity]
  by (simp add: ask_input_def user_grant_def empty_identity_def)

text \<open>C14: Through the guard and the database port a request is let through only in the tenant of its
  resource, and only for a principal that tenant's own tables hold as active.\<close>

theorem authorized_in_own_tenant:
  assumes "authorize (postgresAuthorization now db) rq = Inr u"
  shows "pr_tenant (rq_principal rq) = rq_resource_tenant rq \<and> tenant_backed db (rq_resource_tenant rq) rq"
  using assms pg_auth.authorized_granted [OF assms] by (simp add: authorize_Inr)

definition reporter_db :: identity_db where
  "reporter_db = empty_identity\<lparr>system_principals := [\<lparr>sp_type = ''SYSTEM_REPORTING'',
     sp_tenant = ''t'', sp_id = ''r'', sp_active = True, sp_capabilities = [''report.read'']\<rparr>]\<rparr>"

definition report_request :: auth_request where
  "report_request = \<lparr>rq_principal = \<lparr>pr_id = ''r'', pr_tenant = ''t'', pr_actor_type = ''SYSTEM_REPORTING'',
       pr_auth_time = None, pr_acr = None, pr_amr = None\<rparr>, rq_action = ''report.read'',
     rq_resource_type = ''report'', rq_resource_id = ''1'', rq_resource_tenant = ''t'', rq_scope = []\<rparr>"

theorem authorized_in_own_tenant_witness: "tenant_backed reporter_db ''t'' report_request"
proof -
  have "authorize (postgresAuthorization 5 reporter_db) report_request = Inr ()" by code_simp
  from authorized_in_own_tenant [OF this] show ?thesis by (simp add: report_request_def)
qed

text \<open>A session that has been revoked is refused from then on, at any time.\<close>

theorem revoked_session_refused:
  assumes "unique_sessions db" and "revokeSession t sid v now db = (Inr u, db')"
  shows "assertSessionActive t sid now' db' = Inl (AppError AUTHENTICATION_REQUIRED)"
  using assms by (rule revoked_session_dead)

definition session_db :: identity_db where
  "session_db = empty_identity\<lparr>users := [\<lparr>u_id = ''ann'', u_tenant = ''t'', u_status = ''ACTIVE'',
       u_archived_at = None\<rparr>],
     sessions := [\<lparr>se_id = ''s'', se_tenant = ''t'', se_user_id = ''ann'', se_auth_method = ''OIDC'',
       se_created_at = 0, se_last_activity = 0, se_idle_expires_at = 100, se_absolute_expires_at = 200,
       se_source_ip = None, se_revoked_at = None, se_version = 1\<rparr>]\<rparr>"

theorem revoked_session_refused_witness:
  "assertSessionActive ''t'' ''s'' 6 (snd (revokeSession ''t'' ''s'' (JInt 1) 5 session_db)) =
     Inl (AppError AUTHENTICATION_REQUIRED)"
proof -
  have "unique_sessions session_db" by code_simp
  moreover have "revokeSession ''t'' ''s'' (JInt 1) 5 session_db =
      (Inr (), snd (revokeSession ''t'' ''s'' (JInt 1) 5 session_db))" by code_simp
  ultimately show ?thesis by (rule revoked_session_refused)
qed

text \<open>C27: A session that has just been created is accepted for its user until the expiry its creator was
  told.\<close>

theorem created_session_accepted:
  assumes "createSession t sid inp db = (Inr (i, expires), db')" and "now < expires"
  shows "i = sid \<and> assertSessionActive t sid now db' = Inr (si_user_id inp, t, 1)"
  using assms by (rule created_session_active)

definition login :: session_input where
  "login = \<lparr>si_tenant = ''t'', si_user_id = ''ann'', si_auth_method = ''OIDC'', si_now = 10,
     si_idle_ms = JInt 50, si_absolute_ms = JInt 90, si_source_ip = None\<rparr>"

theorem created_session_accepted_witness:
  "assertSessionActive ''t'' ''n'' 59 (snd (createSession ''t'' ''n'' login session_db)) = Inr (''ann'', ''t'', 1)"
proof -
  have "createSession ''t'' ''n'' login session_db =
     (Inr (''n'', 60), snd (createSession ''t'' ''n'' login session_db))" by code_simp
  from created_session_accepted [OF this, of 59] show ?thesis by (simp add: login_def)
qed

text \<open>Step-up authentication is passed exactly by a principal of the required class that has used a
  second factor and whose authentication is a past instant within the allowed age.\<close>

theorem step_up_exact:
  "requireStepUpMfa p acr age now = Inr () \<longleftrightarrow>
     pr_acr p = Some acr \<and> (\<exists>ms. pr_amr p = Some ms \<and> ''mfa'' \<in> set ms) \<and>
     (\<exists>t. pr_auth_time p = Some (JInt t) \<and> \<bar>t\<bar> \<le> max_safe \<and> t \<le> now \<and> now \<le> t + age)"
  by (rule requireStepUpMfa_Inr)

text \<open>Every error the API answers with has a status from 400 to 503, is an ERROR exactly when the status is
  a server error, and an exception that is not an application error is answered as 500.\<close>

theorem error_response_status:
  "400 \<le> er_status (errorResponse e) \<and> er_status (errorResponse e) \<le> 503
   \<and> (er_severity (errorResponse e) = ''ERROR'' \<longleftrightarrow> 500 \<le> er_status (errorResponse e))
   \<and> (er_status (errorResponse (SqlError c)) = 500) \<and> (er_status (errorResponse (JsError c)) = 500)"
proof -
  have "400 \<le> fst (error_table x) \<and> fst (error_table x) \<le> 503" for x by (cases x) simp_all
  then show ?thesis by (simp add: errorResponse_def Let_def split: exn.splits)
qed

end
