(* ===== verification/Automation_Rules.thy ===== *)
theory Automation_Rules
  imports Json_Text
begin

text \<open>
  \<open>modules/automation/domain\<close>: the rule language of the automation module (\<open>rules.ts\<close>) and its
  catalogue of capabilities (\<open>capabilities.ts\<close>). Rules are tenant-authored JSON, so the
  validators and the evaluator work on JSON values, as the code does at run time.

  Parameters: \<open>re\<close> is the regular expression engine, \<open>re p = None\<close> when \<open>new RegExp(p, 'u')\<close>
  throws and otherwise its \<open>test\<close>; \<open>collate\<close> gives the collation key that \<open>localeCompare\<close>
  compares; \<open>fr\<close> is the text of a number that is not an integer.
\<close>

section \<open>Texts and values\<close>

definition isRecord :: "json \<Rightarrow> bool" where
  "isRecord v \<longleftrightarrow> (case v of JObj _ \<Rightarrow> True | _ \<Rightarrow> False)"

fun object_keys :: "json \<Rightarrow> string list" where
  "object_keys (JObj kvs) = keys kvs"
| "object_keys _ = []"

fun split_at :: "char \<Rightarrow> string \<Rightarrow> string list" where
  "split_at sep [] = [[]]"
| "split_at sep (c # s) =
     (if c = sep then [] # split_at sep s
      else case split_at sep s of [] \<Rightarrow> [[c]] | p # ps \<Rightarrow> (c # p) # ps)"

fun text_includes :: "string \<Rightarrow> string \<Rightarrow> bool" where
  "text_includes w [] = (w = [])"
| "text_includes w (c # s) = (take (length w) (c # s) = w \<or> text_includes w s)"

text \<open>
  The tests \<open>/password|secret|token|credential|private.?key|bank|tax/i\<close> on a name, and the longer
  one for action parameters. A word with a gap is two words with at most one character between
  them, which is not a line terminator.
\<close>

definition gap_word :: "string \<Rightarrow> string \<Rightarrow> string \<Rightarrow> bool" where
  "gap_word u w s =
     (case strip_word u s of
        None \<Rightarrow> False
      | Some r \<Rightarrow> strip_word w r \<noteq> None \<or>
          (case r of [] \<Rightarrow> False
           | c # r' \<Rightarrow> c \<noteq> CHR 0x0A \<and> c \<noteq> CHR 0x0D \<and> strip_word w r' \<noteq> None))"

definition sensitive_here :: "string list \<Rightarrow> string \<Rightarrow> bool" where
  "sensitive_here gapped s \<longleftrightarrow>
     list_ex (\<lambda>w. strip_word w s \<noteq> None)
       [''password'', ''secret'', ''token'', ''credential'', ''bank'', ''tax''] \<or>
     list_ex (\<lambda>u. gap_word u ''key'' s) gapped"

fun somewhere :: "(string \<Rightarrow> bool) \<Rightarrow> string \<Rightarrow> bool" where
  "somewhere p [] = p []"
| "somewhere p (c # s) = (p (c # s) \<or> somewhere p s)"

definition sensitive_name :: "string \<Rightarrow> bool" where
  "sensitive_name = somewhere (sensitive_here [''private''])"

definition sensitive_parameter :: "string \<Rightarrow> bool" where
  "sensitive_parameter = somewhere (sensitive_here [''private'', ''api'', ''license''])"

text \<open>\<open>JSON.stringify\<close>, whose length bounds attributes and parameters.\<close>

definition json_number :: "(rat \<Rightarrow> string) \<Rightarrow> js_number \<Rightarrow> string" where
  "json_number fr n = (case num_text fr n of None \<Rightarrow> ''null'' | Some t \<Rightarrow> t)"

fun stringify :: "(rat \<Rightarrow> string) \<Rightarrow> json \<Rightarrow> string" where
  "stringify fr (JArr vs) = ''['' @ join '','' (map (stringify fr) vs) @ '']''"
| "stringify fr (JObj kvs) =
     ''{'' @ join '','' (map (\<lambda>(k, v). quote_text k @ '':'' @ stringify fr v) kvs) @ ''}''"
| "stringify fr (JNum n) = json_number fr n"
| "stringify fr (JStr s) = quote_text s"
| "stringify fr (JBool b) = (if b then ''true'' else ''false'')"
| "stringify fr JNull = ''null''"

definition rule_invalid :: "string \<Rightarrow> exn" where
  "rule_invalid msg = JsError (''AUTOMATION_RULE_INVALID: '' @ msg)"

definition action_unsupported :: "string \<Rightarrow> exn" where
  "action_unsupported msg = JsError (''AUTOMATION_ACTION_UNSUPPORTED: '' @ msg)"

section \<open>Triggers\<close>

definition SAFETY_LEVELS :: "string list" where
  "SAFETY_LEVELS = [''SAFE'', ''LOW_RISK'', ''CONTROLLED'', ''HIGH_RISK'', ''PROHIBITED_AUTO'']"

definition is_upper :: "char \<Rightarrow> bool" where
  "is_upper c \<longleftrightarrow> CHR ''A'' \<le> c \<and> c \<le> CHR ''Z''"

definition is_digit_char :: "char \<Rightarrow> bool" where
  "is_digit_char c \<longleftrightarrow> CHR ''0'' \<le> c \<and> c \<le> CHR ''9''"

definition canonical_event_type :: "string \<Rightarrow> bool" where
  "canonical_event_type s \<longleftrightarrow>
     (case s of [] \<Rightarrow> False
      | c # r \<Rightarrow> is_upper c \<and> 1 \<le> length r \<and> length r \<le> 127
          \<and> list_all (\<lambda>d. is_upper d \<or> is_digit_char d \<or> d = CHR ''_'' \<or> d = CHR ''.'') r)"

definition validateTrigger :: "(rat \<Rightarrow> string) \<Rightarrow> json \<Rightarrow> exn + unit" where
  "validateTrigger fr v =
     (if \<not> isRecord v \<or> field ''type'' v \<noteq> Some (JStr ''EVENT'')
      then Inl (rule_invalid ''only canonical EVENT triggers are supported'')
      else case field ''event_type'' v of
        Some (JStr s) \<Rightarrow>
          if \<not> canonical_event_type s
          then Inl (rule_invalid ''only canonical EVENT triggers are supported'')
          else if take 11 s = ''AUTOMATION.''
          then Inl (rule_invalid ''Automation decision events cannot trigger Automation rules'')
          else if list_ex (\<lambda>k. k \<notin> set [''type'', ''event_type'', ''attributes'']) (object_keys v)
          then Inl (rule_invalid ''unsupported trigger semantics'')
          else (case field ''attributes'' v of
                  None \<Rightarrow> Inr ()
                | Some a \<Rightarrow>
                   if \<not> isRecord a then Inl (rule_invalid ''trigger attributes must be an object'')
                   else if length (stringify fr a) > 4096
                   then Inl (rule_invalid ''trigger attributes exceed size limit'')
                   else if list_ex sensitive_name (object_keys a)
                   then Inl (rule_invalid ''sensitive trigger attributes are not allowed'')
                   else Inr ())
      | _ \<Rightarrow> Inl (rule_invalid ''only canonical EVENT triggers are supported''))"

section \<open>Conditions\<close>

definition ALLOWED_OPERATORS :: "string list" where
  "ALLOWED_OPERATORS = [''equals'', ''not_equals'', ''contains'', ''in'', ''not_in'', ''exists'',
     ''greater_than'', ''greater_than_or_equal'', ''less_than'', ''less_than_or_equal'', ''matches_regex'']"

definition numeric_operators :: "string list" where
  "numeric_operators = [''greater_than'', ''greater_than_or_equal'', ''less_than'', ''less_than_or_equal'']"

definition FORBIDDEN_KEYS :: "string list" where
  "FORBIDDEN_KEYS = [''__proto__'', ''prototype'', ''constructor'']"

definition path_char :: "char \<Rightarrow> bool" where
  "path_char c \<longleftrightarrow> is_upper c \<or> (CHR ''a'' \<le> c \<and> c \<le> CHR ''z'') \<or> is_digit_char c
     \<or> c = CHR ''_'' \<or> c = CHR ''-''"

text \<open>\<open>/^(event|context)(\.[A-Za-z0-9_-]{1,64})+$/\<close>.\<close>

definition path_shape :: "string \<Rightarrow> bool" where
  "path_shape s \<longleftrightarrow>
     (case split_at CHR ''.'' s of
        head # parts \<Rightarrow> head \<in> set [''event'', ''context''] \<and> parts \<noteq> []
          \<and> list_all (\<lambda>p. 1 \<le> length p \<and> length p \<le> 64 \<and> list_all path_char p) parts
      | [] \<Rightarrow> False)"

text \<open>
  \<open>value.match(/\*|\+|\{\d+(?:,\d*)?\}/g)\<close>: the number of quantifiers, scanned left to right
  without overlap.
\<close>

definition counted_quantifier :: "string \<Rightarrow> string option" where
  "counted_quantifier s =
     (case s of
        [] \<Rightarrow> None
      | c # r \<Rightarrow>
         if c \<noteq> CHR 0x7B \<or> takeWhile is_digit_char r = [] then None
         else let r1 = dropWhile is_digit_char r;
                  r2 = (case r1 of d # q \<Rightarrow> if d = CHR '','' then dropWhile is_digit_char q else r1 | [] \<Rightarrow> [])
              in (case r2 of d # q \<Rightarrow> if d = CHR 0x7D then Some q else None | [] \<Rightarrow> None))"

lemma counted_quantifier_shorter: "counted_quantifier s = Some r \<Longrightarrow> length r < length s"
proof -
  assume "counted_quantifier s = Some r"
  moreover have "length (dropWhile is_digit_char xs) \<le> length xs" for xs :: string
    by (rule length_dropWhile_le)
  ultimately show ?thesis
    unfolding counted_quantifier_def Let_def
    by (auto split: list.splits if_splits dest!: arg_cong [where f = length] intro: le_less_trans)
      (metis Suc_le_eq le_SucI length_Cons length_dropWhile_le less_Suc_eq_le order.trans)+
qed

function quantifiers :: "string \<Rightarrow> nat" where
  "quantifiers [] = 0"
| "quantifiers (c # s) =
     (if c = CHR ''*'' \<or> c = CHR ''+'' then Suc (quantifiers s)
      else case counted_quantifier (c # s) of
             Some r \<Rightarrow> Suc (quantifiers r)
           | None \<Rightarrow> quantifiers s)"
  by pat_completeness auto
termination
  by (relation "measure length") (auto dest: counted_quantifier_shorter)

definition isSafeRegex :: "string \<Rightarrow> bool" where
  "isSafeRegex s \<longleftrightarrow> list_all (\<lambda>c. c \<notin> set [CHR ''('', CHR '')'', CHR 0x7C, CHR 0x5C]) s \<and> quantifiers s \<le> 1"

definition validatePredicate :: "(string \<Rightarrow> (string \<Rightarrow> bool) option) \<Rightarrow> json \<Rightarrow> exn + unit" where
  "validatePredicate re v =
     (case field ''path'' v of
        Some (JStr path) \<Rightarrow>
          if length path > 256 \<or> \<not> path_shape path
             \<or> list_ex (\<lambda>p. p \<in> set FORBIDDEN_KEYS) (split_at CHR ''.'' path)
          then Inl (rule_invalid ''invalid condition path'')
          else if list_ex sensitive_name (split_at CHR ''.'' path)
          then Inl (rule_invalid ''sensitive event/context paths are not allowed'')
          else (case field ''op'' v of
            Some (JStr opr) \<Rightarrow>
              if opr \<notin> set ALLOWED_OPERATORS then Inl (rule_invalid ''unsupported condition operator'')
              else if list_ex (\<lambda>k. k \<notin> set [''path'', ''op'', ''value'']) (object_keys v)
              then Inl (rule_invalid ''condition contains unsupported fields'')
              else if opr \<noteq> ''exists'' \<and> field ''value'' v = None
              then Inl (rule_invalid ''predicate value is required'')
              else if opr = ''exists'' \<and> (case field ''value'' v of None \<Rightarrow> False | Some (JBool _) \<Rightarrow> False | _ \<Rightarrow> True)
              then Inl (rule_invalid ''exists requires a boolean value'')
              else if opr \<in> set numeric_operators
                 \<and> (case field ''value'' v of Some (JNum n) \<Rightarrow> \<not> is_finite n | _ \<Rightarrow> True)
              then Inl (rule_invalid ''numeric comparison requires a finite number'')
              else if opr \<in> set [''in'', ''not_in'']
                 \<and> (case field ''value'' v of Some (JArr vs) \<Rightarrow> length vs > 50 | _ \<Rightarrow> True)
              then Inl (rule_invalid ''set comparison requires a bounded array'')
              else if opr = ''matches_regex'' then
                (case field ''value'' v of
                   Some (JStr p) \<Rightarrow>
                     if length p > 128 \<or> \<not> isSafeRegex p
                     then Inl (rule_invalid ''regex is not in the bounded safe subset'')
                     else if re p = None then Inl (rule_invalid ''regex syntax is invalid'')
                     else Inr ()
                 | _ \<Rightarrow> Inl (rule_invalid ''regex is not in the bounded safe subset''))
              else Inr ()
          | _ \<Rightarrow> Inl (rule_invalid ''unsupported condition operator''))
      | _ \<Rightarrow> Inl (rule_invalid ''invalid condition path''))"

text \<open>The array of a compound condition: \<open>all\<close> before \<open>any\<close>.\<close>

definition compound :: "json \<Rightarrow> json option" where
  "compound v = (case field ''all'' v of Some c \<Rightarrow> Some c | None \<Rightarrow> field ''any'' v)"

lemma size_field: "field k v = Some c \<Longrightarrow> size c < size v"
proof (cases v)
  case (JObj kvs)
  assume "field k v = Some c"
  with JObj have "(k, c) \<in> set kvs" by (simp add: map_of_SomeD)
  then show ?thesis unfolding JObj by (induction kvs) auto
qed simp_all

lemma size_compound: "compound v = Some c \<Longrightarrow> size c < size v"
  by (auto simp: compound_def size_field split: option.splits)

text \<open>
  \<open>validateCondition\<close> threads the number of nodes seen so far, the \<open>state.count\<close> of the code;
  \<open>validate_all\<close> is its loop over the children.
\<close>

function validateCondition :: "(string \<Rightarrow> (string \<Rightarrow> bool) option) \<Rightarrow> json \<Rightarrow> nat \<Rightarrow> nat \<Rightarrow> exn + nat"
  and validate_all :: "(string \<Rightarrow> (string \<Rightarrow> bool) option) \<Rightarrow> json list \<Rightarrow> nat \<Rightarrow> nat \<Rightarrow> exn + nat" where
  "validateCondition re v depth n =
     (if Suc n > 100 \<or> depth > 8 \<or> \<not> isRecord v then Inl (rule_invalid ''condition exceeds safe bounds'')
      else case compound v of
        Some (JArr cs) \<Rightarrow>
          if cs = [] \<or> length cs > 32 \<or> length (object_keys v) \<noteq> 1
          then Inl (rule_invalid ''invalid compound condition'')
          else validate_all re cs (Suc depth) (Suc n)
      | Some _ \<Rightarrow> Inl (rule_invalid ''invalid compound condition'')
      | None \<Rightarrow>
         (case field ''not'' v of
            Some c \<Rightarrow>
              if length (object_keys v) \<noteq> 1 then Inl (rule_invalid ''invalid NOT condition'')
              else validateCondition re c (Suc depth) (Suc n)
          | None \<Rightarrow> (case validatePredicate re v of Inl e \<Rightarrow> Inl e | Inr _ \<Rightarrow> Inr (Suc n))))"
| "validate_all re [] depth n = Inr n"
| "validate_all re (c # cs) depth n =
     (case validateCondition re c depth n of
        Inl e \<Rightarrow> Inl e
      | Inr n' \<Rightarrow> validate_all re cs depth n')"
  by pat_completeness auto
termination
  by (relation "measure (\<lambda>x. case x of Inl (re, v, d, n) \<Rightarrow> 2 * size v
       | Inr (re, vs, d, n) \<Rightarrow> Suc (2 * size_list size vs))")
    (auto dest: size_compound size_field)

text \<open>\<open>countNodes\<close>, the second count of the code.\<close>

function countNodes :: "json \<Rightarrow> nat" where
  "countNodes v =
     (if \<not> isRecord v then 1
      else case field ''all'' v of
        Some (JArr cs) \<Rightarrow> Suc (sum_list (map countNodes cs))
      | _ \<Rightarrow>
         (case field ''any'' v of
            Some (JArr cs) \<Rightarrow> Suc (sum_list (map countNodes cs))
          | _ \<Rightarrow> (case field ''not'' v of Some c \<Rightarrow> Suc (countNodes c) | None \<Rightarrow> 1)))"
  by pat_completeness auto
termination
proof -
  have "size c < size v" if "field k v = Some (JArr cs)" "c \<in> set cs" for k v c cs
  proof -
    have "size c < size (JArr cs)" using that(2) by (induction cs) auto
    with size_field [OF that(1)] show ?thesis by simp
  qed
  then show ?thesis by (relation "measure size") (auto dest: size_field)
qed

declare validateCondition.simps(1) [simp del] countNodes.simps [simp del]

section \<open>Actions\<close>

definition ALLOWED_ACTIONS :: "string list" where
  "ALLOWED_ACTIONS = [''UPDATE_FIELD'', ''CREATE_RECORD'', ''LINK_RECORD'', ''SEND_NOTIFICATION'',
     ''CREATE_TICKET'', ''CREATE_INCIDENT'', ''CREATE_APPROVAL'', ''ASSIGN_TEAM'', ''START_WORKFLOW'',
     ''PAUSE_WORKFLOW'', ''RESTART_AGENT'']"

definition action_fields :: "string list" where
  "action_fields = [''target_type'', ''target_id'', ''action_domain'', ''action_type'', ''parameters'',
     ''exclusivity_group'', ''desired_state'']"

definition reference_fields :: "string list" where
  "reference_fields = [''target_type'', ''target_id'', ''action_domain'', ''action_type'', ''exclusivity_group'']"

text \<open>The recursion over arrays and over the entries of objects.\<close>

fun validateSafeParameters :: "json \<Rightarrow> nat \<Rightarrow> exn + unit" where
  "validateSafeParameters (JArr vs) depth =
     (if depth > 6 then Inl (action_unsupported ''parameters exceed nesting limit'')
      else if length vs > 100 then Inl (action_unsupported ''parameter list exceeds size limit'')
      else map_sum id (\<lambda>_. ()) (collect (map (\<lambda>v. validateSafeParameters v (Suc depth)) vs)))"
| "validateSafeParameters (JObj kvs) depth =
     (if depth > 6 then Inl (action_unsupported ''parameters exceed nesting limit'')
      else map_sum id (\<lambda>_. ()) (collect (map (\<lambda>(k, v).
        if sensitive_parameter k
        then Inl (action_unsupported ''sensitive values cannot be embedded in action parameters'')
        else validateSafeParameters v (Suc depth)) kvs)))"
| "validateSafeParameters (JStr s) depth =
     (if depth > 6 then Inl (action_unsupported ''parameters exceed nesting limit'')
      else if length s > 2048 then Inl (action_unsupported ''string parameter exceeds size limit'')
      else Inr ())"
| "validateSafeParameters (JNum n) depth =
     (if depth > 6 then Inl (action_unsupported ''parameters exceed nesting limit'')
      else if \<not> is_finite n then Inl (action_unsupported ''numeric parameter must be finite'')
      else Inr ())"
| "validateSafeParameters v depth =
     (if depth > 6 then Inl (action_unsupported ''parameters exceed nesting limit'') else Inr ())"

definition reference_ok :: "json \<Rightarrow> string \<Rightarrow> bool" where
  "reference_ok v k \<longleftrightarrow> (case field k v of Some (JStr s) \<Rightarrow> \<not> blank s \<and> length s \<le> 128 | _ \<Rightarrow> False)"

definition validateAction :: "(rat \<Rightarrow> string) \<Rightarrow> json \<Rightarrow> exn + unit" where
  "validateAction fr v =
     (if \<not> isRecord v \<or> list_ex (\<lambda>k. k \<notin> set action_fields) (object_keys v)
      then Inl (action_unsupported ''invalid action descriptor'')
      else if \<not> list_all (reference_ok v) reference_fields
      then Inl (action_unsupported ''action reference is invalid'')
      else if list_all (\<lambda>a. field ''action_type'' v \<noteq> Some (JStr a)) ALLOWED_ACTIONS
      then Inl (action_unsupported ''action type is not allow-listed for TASK-090'')
      else case field ''parameters'' v of
        Some (JObj ps) \<Rightarrow>
          if length (stringify fr (JObj ps)) > 8192
          then Inl (action_unsupported ''parameters must be bounded JSON'')
          else (case validateSafeParameters (JObj ps) 0 of
            Inl e \<Rightarrow> Inl e
          | Inr _ \<Rightarrow>
             if field ''action_type'' v = Some (JStr ''RESTART_AGENT'') \<and>
                (field ''target_type'' v \<noteq> Some (JStr ''AGENT'') \<or> field ''action_domain'' v \<noteq> Some (JStr ''agent'')
                 \<or> field ''exclusivity_group'' v \<noteq> Some (JStr ''AGENT_SERVICE_CONTROL'') \<or> ps \<noteq> []
                 \<or> field ''desired_state'' v \<noteq> None)
             then Inl (action_unsupported ''RESTART_AGENT must use the registered AGENT capability schema'')
             else if (case field ''desired_state'' v of None \<Rightarrow> False | Some (JStr s) \<Rightarrow> length s > 128 | _ \<Rightarrow> True)
             then Inl (action_unsupported ''invalid desired state'')
             else if list_ex (\<lambda>a. field ''action_type'' v = Some (JStr a))
                       [''UPDATE_FIELD'', ''LINK_RECORD'', ''ASSIGN_TEAM'', ''PAUSE_WORKFLOW'']
                  \<and> (case field ''desired_state'' v of Some (JStr _) \<Rightarrow> False | _ \<Rightarrow> True)
             then Inl (action_unsupported ''mutating action requires declared desired_state'')
             else Inr ())
      | _ \<Rightarrow> Inl (action_unsupported ''parameters must be bounded JSON''))"

record rule_definition =
  rd_trigger :: json
  rd_condition :: json
  rd_action :: json
  rd_safety_level :: string

definition validateRuleDefinition ::
    "(rat \<Rightarrow> string) \<Rightarrow> (string \<Rightarrow> (string \<Rightarrow> bool) option) \<Rightarrow> rule_definition \<Rightarrow> exn + unit" where
  "validateRuleDefinition fr re r =
     (if rd_safety_level r \<notin> set SAFETY_LEVELS then Inl (rule_invalid ''unsupported safety level'')
      else case validateTrigger fr (rd_trigger r) of
        Inl e \<Rightarrow> Inl e
      | Inr _ \<Rightarrow>
         (case validateCondition re (rd_condition r) 0 0 of
            Inl e \<Rightarrow> Inl e
          | Inr _ \<Rightarrow>
             if countNodes (rd_condition r) > 100 then Inl (rule_invalid ''condition too large'')
             else validateAction fr (rd_action r)))"

section \<open>Evaluation\<close>

text \<open>
  What a path reads or a predicate compares with: the \<open>MISSING\<close> symbol, \<open>undefined\<close>, a function, or
  a JSON value. The test \<open>part in current\<close> also finds the members that every object inherits from
  \<open>Object.prototype\<close>; all of them but \<open>__proto__\<close> are functions.
\<close>

datatype js_value = MISSING | Undefined | Function | Val json

fun read_parts :: "string list \<Rightarrow> json \<Rightarrow> js_value" where
  "read_parts [] v = Val v"
| "read_parts (p # ps) v =
     (if p \<in> set FORBIDDEN_KEYS \<or> \<not> isRecord v then MISSING
      else case field p v of
        Some w \<Rightarrow> read_parts ps w
      | None \<Rightarrow> if p \<in> set inherited then (if ps = [] then Function else MISSING) else MISSING)"

definition readPath :: "string \<Rightarrow> json \<Rightarrow> json \<Rightarrow> js_value" where
  "readPath path event context =
     read_parts (split_at CHR ''.'' path) (JObj [(''event'', event), (''context'', context)])"

fun stable :: "(string \<Rightarrow> string) \<Rightarrow> (rat \<Rightarrow> string) \<Rightarrow> json \<Rightarrow> string" where
  "stable collate fr (JArr vs) = ''['' @ join '','' (map (stable collate fr) vs) @ '']''"
| "stable collate fr (JObj kvs) =
     ''{'' @ join '','' (map (\<lambda>(k, t). quote_text k @ '':'' @ t)
        (sort_key (collate \<circ> fst) (map (\<lambda>(k, v). (k, stable collate fr v)) kvs))) @ ''}''"
| "stable collate fr (JNum n) = json_number fr n"
| "stable collate fr (JStr s) = quote_text s"
| "stable collate fr (JBool b) = (if b then ''true'' else ''false'')"
| "stable collate fr JNull = ''null''"

text \<open>\<open>JSON.stringify\<close> of \<open>undefined\<close>, of a function and of a symbol is \<open>undefined\<close>.\<close>

fun stable_value :: "(string \<Rightarrow> string) \<Rightarrow> (rat \<Rightarrow> string) \<Rightarrow> js_value \<Rightarrow> string option" where
  "stable_value collate fr (Val v) = Some (stable collate fr v)"
| "stable_value collate fr _ = None"

definition deepEqual :: "(string \<Rightarrow> string) \<Rightarrow> (rat \<Rightarrow> string) \<Rightarrow> js_value \<Rightarrow> js_value \<Rightarrow> bool" where
  "deepEqual collate fr x y \<longleftrightarrow> stable_value collate fr x = stable_value collate fr y"

definition js_less :: "js_number \<Rightarrow> js_number \<Rightarrow> bool" where
  "js_less a b \<longleftrightarrow>
     (case (a, b) of
        (JNaN, _) \<Rightarrow> False
      | (_, JNaN) \<Rightarrow> False
      | (JInfinity p, JInfinity q) \<Rightarrow> \<not> p \<and> q
      | (JInfinity p, _) \<Rightarrow> \<not> p
      | (_, JInfinity q) \<Rightarrow> q
      | _ \<Rightarrow> js_rat a < js_rat b)"

definition js_le :: "js_number \<Rightarrow> js_number \<Rightarrow> bool" where
  "js_le a b \<longleftrightarrow> a \<noteq> JNaN \<and> b \<noteq> JNaN \<and> \<not> js_less b a"

definition compare_numbers :: "(js_number \<Rightarrow> js_number \<Rightarrow> bool) \<Rightarrow> js_value \<Rightarrow> js_value \<Rightarrow> bool" where
  "compare_numbers r actual expected \<longleftrightarrow>
     (case (actual, expected) of (Val (JNum a), Val (JNum e)) \<Rightarrow> is_finite a \<and> r a e | _ \<Rightarrow> False)"

text \<open>Only \<open>matches_regex\<close> can throw, when the pattern is not a regular expression.\<close>

definition compare ::
    "(string \<Rightarrow> string) \<Rightarrow> (rat \<Rightarrow> string) \<Rightarrow> (string \<Rightarrow> (string \<Rightarrow> bool) option)
       \<Rightarrow> js_value \<Rightarrow> string \<Rightarrow> js_value \<Rightarrow> exn + bool" where
  "compare collate fr re actual opr expected =
     (if opr = ''exists'' then
        Inr (if expected = Val (JBool False) then actual = MISSING else actual \<noteq> MISSING)
      else if opr = ''equals'' then Inr (actual \<noteq> MISSING \<and> deepEqual collate fr actual expected)
      else if opr = ''not_equals'' then Inr (actual = MISSING \<or> \<not> deepEqual collate fr actual expected)
      else if opr = ''contains'' then
        Inr (case (actual, expected) of
               (Val (JStr s), Val (JStr w)) \<Rightarrow> text_includes w s
             | (Val (JArr vs), _) \<Rightarrow> list_ex (\<lambda>v. deepEqual collate fr (Val v) expected) vs
             | _ \<Rightarrow> False)
      else if opr = ''in'' then
        Inr (actual \<noteq> MISSING \<and> (case expected of
               Val (JArr vs) \<Rightarrow> list_ex (\<lambda>v. deepEqual collate fr (Val v) actual) vs | _ \<Rightarrow> False))
      else if opr = ''not_in'' then
        Inr (actual \<noteq> MISSING \<and> (case expected of
               Val (JArr vs) \<Rightarrow> \<not> list_ex (\<lambda>v. deepEqual collate fr (Val v) actual) vs | _ \<Rightarrow> False))
      else if opr = ''greater_than'' then Inr (compare_numbers (\<lambda>a e. js_less e a) actual expected)
      else if opr = ''greater_than_or_equal'' then Inr (compare_numbers (\<lambda>a e. js_le e a) actual expected)
      else if opr = ''less_than'' then Inr (compare_numbers js_less actual expected)
      else if opr = ''less_than_or_equal'' then Inr (compare_numbers js_le actual expected)
      else if opr = ''matches_regex'' then
        (case (actual, expected) of
           (Val (JStr s), Val (JStr p)) \<Rightarrow>
             if length s > 1024 then Inr False
             else (case re p of None \<Rightarrow> Inl (JsError ''SyntaxError'') | Some test \<Rightarrow> Inr (test s))
         | _ \<Rightarrow> Inr False)
      else Inr False)"

definition safeEvidence :: "js_value \<Rightarrow> json" where
  "safeEvidence x =
     (case x of
        MISSING \<Rightarrow> JObj [(''missing'', JBool True)]
      | Undefined \<Rightarrow> JObj [(''value_type'', JStr ''undefined'')]
      | Function \<Rightarrow> JObj [(''value_type'', JStr ''function'')]
      | Val v \<Rightarrow>
         (case v of
            JStr s \<Rightarrow> JObj [(''value_type'', JStr ''string''), (''length'', JNum (JInt (int (length s))))]
          | JArr _ \<Rightarrow> JObj [(''value_type'', JStr ''array'')]
          | JObj _ \<Rightarrow> JObj [(''value_type'', JStr ''object'')]
          | _ \<Rightarrow> v))"

definition expected_of :: "json \<Rightarrow> js_value" where
  "expected_of node = (case field ''value'' node of None \<Rightarrow> Undefined | Some v \<Rightarrow> Val v)"

definition test_evidence :: "string \<Rightarrow> string \<Rightarrow> bool \<Rightarrow> js_value \<Rightarrow> js_value \<Rightarrow> json" where
  "test_evidence path opr m actual expected =
     JObj [(''path'', JStr path), (''operator'', JStr opr), (''matched'', JBool m),
           (''actual'', safeEvidence actual), (''expected'', safeEvidence expected)]"

definition group_evidence :: "string \<Rightarrow> bool \<Rightarrow> bool list \<Rightarrow> json" where
  "group_evidence opr m bs = JObj [(''operator'', JStr opr), (''matched'', JBool m), (''children'', JArr (map JBool bs))]"

definition not_evidence :: "bool \<Rightarrow> json" where
  "not_evidence b = JObj [(''operator'', JStr ''not''), (''matched'', JBool (\<not> b)), (''child'', JBool b)]"

text \<open>
  \<open>evaluateCondition\<close>: the verdict and the evidence pushed on the way, children before their node. A
  node that is not of the shape the code reads makes it throw a \<open>TypeError\<close>. \<open>evaluate_all\<close> is
  \<open>node.all.map(evaluate)\<close>.
\<close>

function evaluateCondition ::
    "(string \<Rightarrow> string) \<Rightarrow> (rat \<Rightarrow> string) \<Rightarrow> (string \<Rightarrow> (string \<Rightarrow> bool) option)
       \<Rightarrow> json \<Rightarrow> json \<Rightarrow> json \<Rightarrow> exn + bool \<times> json list"
  and evaluate_all ::
    "(string \<Rightarrow> string) \<Rightarrow> (rat \<Rightarrow> string) \<Rightarrow> (string \<Rightarrow> (string \<Rightarrow> bool) option)
       \<Rightarrow> json \<Rightarrow> json \<Rightarrow> json list \<Rightarrow> exn + bool list \<times> json list" where
  "evaluateCondition collate fr re event context node =
     (if \<not> isRecord node then Inl (JsError ''TypeError'')
      else case field ''all'' node of
        Some (JArr cs) \<Rightarrow>
          (case evaluate_all collate fr re event context cs of
             Inl e \<Rightarrow> Inl e
           | Inr (bs, evs) \<Rightarrow> Inr (list_all id bs, evs @ [group_evidence ''all'' (list_all id bs) bs]))
      | Some _ \<Rightarrow> Inl (JsError ''TypeError'')
      | None \<Rightarrow>
         (case field ''any'' node of
            Some (JArr cs) \<Rightarrow>
              (case evaluate_all collate fr re event context cs of
                 Inl e \<Rightarrow> Inl e
               | Inr (bs, evs) \<Rightarrow> Inr (list_ex id bs, evs @ [group_evidence ''any'' (list_ex id bs) bs]))
          | Some _ \<Rightarrow> Inl (JsError ''TypeError'')
          | None \<Rightarrow>
             (case field ''not'' node of
                Some c \<Rightarrow>
                  (case evaluateCondition collate fr re event context c of
                     Inl e \<Rightarrow> Inl e
                   | Inr (b, evs) \<Rightarrow> Inr (\<not> b, evs @ [not_evidence b]))
              | None \<Rightarrow>
                 (case (field ''path'' node, field ''op'' node) of
                    (Some (JStr path), Some (JStr opr)) \<Rightarrow>
                      (case compare collate fr re (readPath path event context) opr (expected_of node) of
                         Inl e \<Rightarrow> Inl e
                       | Inr m \<Rightarrow> Inr (m, [test_evidence path opr m (readPath path event context) (expected_of node)]))
                  | _ \<Rightarrow> Inl (JsError ''TypeError'')))))"
| "evaluate_all collate fr re event context [] = Inr ([], [])"
| "evaluate_all collate fr re event context (c # cs) =
     (case evaluateCondition collate fr re event context c of
        Inl e \<Rightarrow> Inl e
      | Inr (b, ev) \<Rightarrow>
         (case evaluate_all collate fr re event context cs of
            Inl e \<Rightarrow> Inl e
          | Inr (bs, evs) \<Rightarrow> Inr (b # bs, ev @ evs)))"
  by pat_completeness auto
termination
  by (relation "measure (\<lambda>x. case x of Inl (co, fr, re, ev, cx, v) \<Rightarrow> 2 * size v
       | Inr (co, fr, re, ev, cx, vs) \<Rightarrow> Suc (2 * size_list size vs))")
    (auto dest: size_field)

declare evaluateCondition.simps(1) [simp del]

section \<open>Capabilities\<close>

record capability =
  cp_action_type :: string
  cp_target_type :: string
  cp_required_permission :: string
  cp_safety_class :: string
  cp_automatic :: bool
  cp_approval_supported :: bool
  cp_approval_required :: bool
  cp_conflict_group :: string
  cp_parameter_schema :: json
  cp_executor_type :: string
  cp_version :: int

definition ACTION_CAPABILITY_CATALOG :: "capability list" where
  "ACTION_CAPABILITY_CATALOG =
     [\<lparr>cp_action_type = ''RESTART_AGENT'', cp_target_type = ''AGENT'', cp_required_permission = ''agent.restart'',
       cp_safety_class = ''SAFE_AUTOMATION'', cp_automatic = True, cp_approval_supported = True,
       cp_approval_required = False, cp_conflict_group = ''AGENT_SERVICE_CONTROL'',
       cp_parameter_schema = JObj [(''type'', JStr ''object''), (''additionalProperties'', JBool False),
         (''maxProperties'', JNum (JInt 0))],
       cp_executor_type = ''TASK091_AGENT_COMMAND'', cp_version = 1\<rparr>]"

definition validateCapabilityAction :: "json \<Rightarrow> capability \<Rightarrow> bool" where
  "validateCapabilityAction action c \<longleftrightarrow>
     field ''action_type'' action = Some (JStr (cp_action_type c)) \<and>
     field ''target_type'' action = Some (JStr (cp_target_type c)) \<and>
     field ''action_domain'' action = Some (JStr ''agent'') \<and>
     field ''exclusivity_group'' action = Some (JStr (cp_conflict_group c)) \<and>
     field ''parameters'' action = Some (JObj []) \<and>
     field ''desired_state'' action = None"

section \<open>The meaning of a condition\<close>

text \<open>
  The type \<open>Condition\<close> of the code, and what a condition means: the reference against which the
  evaluator is measured. \<open>represents v c\<close> says that the JSON value \<open>v\<close> is read as \<open>c\<close>.
\<close>

datatype condition =
    All "condition list"
  | Any "condition list"
  | Negation condition
  | Predicate string string js_value

fun nodes :: "condition \<Rightarrow> nat" where
  "nodes (All cs) = Suc (sum_list (map nodes cs))"
| "nodes (Any cs) = Suc (sum_list (map nodes cs))"
| "nodes (Negation c) = Suc (nodes c)"
| "nodes (Predicate _ _ _) = 1"

fun depth :: "condition \<Rightarrow> nat" where
  "depth (All cs) = Suc (foldr max (map depth cs) 0)"
| "depth (Any cs) = Suc (foldr max (map depth cs) 0)"
| "depth (Negation c) = Suc (depth c)"
| "depth (Predicate _ _ _) = 0"

fun holds ::
    "(string \<Rightarrow> string) \<Rightarrow> (rat \<Rightarrow> string) \<Rightarrow> (string \<Rightarrow> (string \<Rightarrow> bool) option)
       \<Rightarrow> json \<Rightarrow> json \<Rightarrow> condition \<Rightarrow> bool" where
  "holds collate fr re event context (All cs) = list_all (holds collate fr re event context) cs"
| "holds collate fr re event context (Any cs) = list_ex (holds collate fr re event context) cs"
| "holds collate fr re event context (Negation c) = (\<not> holds collate fr re event context c)"
| "holds collate fr re event context (Predicate path opr expected) =
     (compare collate fr re (readPath path event context) opr expected = Inr True)"

fun patterns_ok :: "(string \<Rightarrow> (string \<Rightarrow> bool) option) \<Rightarrow> condition \<Rightarrow> bool" where
  "patterns_ok re (All cs) = list_all (patterns_ok re) cs"
| "patterns_ok re (Any cs) = list_all (patterns_ok re) cs"
| "patterns_ok re (Negation c) = patterns_ok re c"
| "patterns_ok re (Predicate path opr expected) =
     (opr = ''matches_regex'' \<longrightarrow> (case expected of Val (JStr p) \<Rightarrow> re p \<noteq> None | _ \<Rightarrow> True))"

inductive represents :: "json \<Rightarrow> condition \<Rightarrow> bool" where
  rep_all: "field ''all'' v = Some (JArr vs) \<Longrightarrow> list_all2 represents vs cs \<Longrightarrow> represents v (All cs)"
| rep_any: "field ''all'' v = None \<Longrightarrow> field ''any'' v = Some (JArr vs) \<Longrightarrow> list_all2 represents vs cs
     \<Longrightarrow> represents v (Any cs)"
| rep_not: "field ''all'' v = None \<Longrightarrow> field ''any'' v = None \<Longrightarrow> field ''not'' v = Some w \<Longrightarrow> represents w c
     \<Longrightarrow> represents v (Negation c)"
| rep_test: "field ''all'' v = None \<Longrightarrow> field ''any'' v = None \<Longrightarrow> field ''not'' v = None \<Longrightarrow>
     field ''path'' v = Some (JStr path) \<Longrightarrow> field ''op'' v = Some (JStr opr)
     \<Longrightarrow> represents v (Predicate path opr (expected_of v))"

lemma field_isRecord: "field k v = Some w \<Longrightarrow> isRecord v"
  by (cases v) (auto simp: isRecord_def)

lemma compare_ok:
  assumes "patterns_ok re (Predicate path opr expected)"
  shows "\<exists>b. compare collate fr re actual opr expected = Inr b"
  using assms by (auto simp: compare_def split: js_value.splits json.splits option.splits)

lemma validatePredicate_Inr:
  assumes "validatePredicate re v = Inr u"
  obtains path opr where "field ''path'' v = Some (JStr path)" and "field ''op'' v = Some (JStr opr)"
    and "patterns_ok re (Predicate path opr (expected_of v))"
proof -
  from assms obtain path opr where p: "field ''path'' v = Some (JStr path)" and o: "field ''op'' v = Some (JStr opr)"
    by (auto simp: validatePredicate_def split: option.splits json.splits if_splits)
  with assms have "patterns_ok re (Predicate path opr (expected_of v))"
    by (auto simp: validatePredicate_def expected_of_def split: option.splits json.splits if_splits)
  with p o that show thesis by blast
qed

text \<open>A condition that evaluation reads is never stuck.\<close>

lemma evaluate_represents:
  assumes "represents v c" and "patterns_ok re c"
  shows "\<exists>evs. evaluateCondition collate fr re event context v = Inr (holds collate fr re event context c, evs)
     \<and> length evs = nodes c"
  using assms
proof (induction rule: represents.induct)
  case (rep_all v vs cs)
  let ?h = "holds collate fr re event context"
  from rep_all.IH rep_all.prems
  have "\<exists>evs. evaluate_all collate fr re event context vs = Inr (map ?h cs, evs) \<and> length evs = sum_list (map nodes cs)"
    by (induction rule: list_all2_induct) fastforce+
  with rep_all.hyps(1) show ?case
    by (auto simp: evaluateCondition.simps(1) field_isRecord list_all_iff)
next
  case (rep_any v vs cs)
  let ?h = "holds collate fr re event context"
  from rep_any.IH rep_any.prems
  have "\<exists>evs. evaluate_all collate fr re event context vs = Inr (map ?h cs, evs) \<and> length evs = sum_list (map nodes cs)"
    by (induction rule: list_all2_induct) fastforce+
  with rep_any.hyps(1,2) show ?case
    by (auto simp: evaluateCondition.simps(1) field_isRecord list_ex_iff)
next
  case (rep_not v w c)
  then obtain evs where "evaluateCondition collate fr re event context w = Inr (holds collate fr re event context c, evs)"
    "length evs = nodes c" by auto
  with rep_not.hyps show ?case
    by (simp add: evaluateCondition.simps(1) [of collate fr re event "context" v] field_isRecord)
next
  case (rep_test v path opr)
  from compare_ok [OF rep_test.prems, of collate fr "readPath path event context"]
  obtain b where "compare collate fr re (readPath path event context) opr (expected_of v) = Inr b" ..
  with rep_test.hyps show ?case by (simp add: evaluateCondition.simps(1) field_isRecord)
qed

lemma countNodes_represents: "represents v c \<Longrightarrow> countNodes v = nodes c"
proof (induction rule: represents.induct)
  case (rep_all v vs cs)
  from rep_all.IH have "map countNodes vs = map nodes cs" by (induction rule: list_all2_induct) auto
  with rep_all.hyps(1) show ?case by (simp add: countNodes.simps [of v] field_isRecord)
next
  case (rep_any v vs cs)
  from rep_any.IH have "map countNodes vs = map nodes cs" by (induction rule: list_all2_induct) auto
  with rep_any.hyps show ?case by (simp add: countNodes.simps [of v] field_isRecord)
qed (auto simp: countNodes.simps field_isRecord)

text \<open>What the validator accepts is a condition within the bounds, and its count is exact.\<close>

lemma depths_le:
  assumes "cs \<noteq> []" and "\<forall>c\<in>set cs. Suc d + depth c \<le> k"
  shows "d + Suc (foldr max (map depth cs) 0) \<le> k"
proof -
  have "foldr max (map depth cs) 0 \<le> k - Suc d" using assms(2) by (induction cs) fastforce+
  moreover from assms have "Suc d \<le> k" by (cases cs) auto
  ultimately show ?thesis by simp
qed

lemma validate_represents:
  shows "validateCondition re v d n = Inr m \<Longrightarrow>
      \<exists>c. represents v c \<and> patterns_ok re c \<and> m = n + nodes c \<and> m \<le> 100 \<and> d + depth c \<le> 8"
    and "validate_all re vs d n = Inr m \<Longrightarrow> n \<le> 100 \<Longrightarrow>
      \<exists>cs. list_all2 represents vs cs \<and> list_all (patterns_ok re) cs \<and> m = n + sum_list (map nodes cs) \<and> m \<le> 100
         \<and> (\<forall>c\<in>set cs. d + depth c \<le> 8)"
proof (induction re v d n and re vs d n arbitrary: m and m rule: validateCondition_validate_all.induct)
  case (1 re v d n)
  from "1.prems" have bounds: "\<not> (Suc n > 100 \<or> d > 8 \<or> \<not> isRecord v)"
    by (subst (asm) validateCondition.simps(1)) (auto split: if_splits)
  consider (group) cs where "compound v = Some (JArr cs)" "cs \<noteq> []" "validate_all re cs (Suc d) (Suc n) = Inr m"
      "\<not> (cs = [] \<or> length cs > 32 \<or> length (object_keys v) \<noteq> 1)"
    | (neg) c where "compound v = None" "field ''not'' v = Some c" "validateCondition re c (Suc d) (Suc n) = Inr m"
      "\<not> length (object_keys v) \<noteq> 1"
    | (test) u where "compound v = None" "field ''not'' v = None" "validatePredicate re v = Inr u" "m = Suc n"
    using "1.prems"
    by (subst (asm) validateCondition.simps(1)) (auto split: if_splits option.splits json.splits sum.splits)
  then show ?case
  proof cases
    case group
    from "1.IH"(2) [OF bounds group(1) HOL.refl group(4,3)] bounds obtain cs' where
      *: "list_all2 represents cs cs'" "list_all (patterns_ok re) cs'" "m = Suc n + sum_list (map nodes cs')"
      "m \<le> 100" "\<forall>c\<in>set cs'. Suc d + depth c \<le> 8" by auto
    from * group(2) have "cs' \<noteq> []" by auto
    with * have "d + Suc (foldr max (map depth cs') 0) \<le> 8" by (intro depths_le)
    moreover from group(1) * have "represents v (All cs') \<or> represents v (Any cs')"
      by (auto simp: compound_def split: option.splits intro: rep_all rep_any)
    ultimately show ?thesis using * by fastforce
  next
    case neg
    from "1.IH"(1) [OF bounds neg(1,2,4,3)] obtain c' where
      "represents c c'" "patterns_ok re c'" "m = Suc n + nodes c'" "m \<le> 100" "Suc d + depth c' \<le> 8" by blast
    moreover from neg(1,2) have "represents v (Negation c')" if "represents c c'" for c'
      using that by (auto simp: compound_def split: option.splits intro: rep_not)
    ultimately show ?thesis by (intro exI [of _ "Negation c'"]) auto
  next
    case test
    from test(3) obtain path opr where *: "field ''path'' v = Some (JStr path)" "field ''op'' v = Some (JStr opr)"
      "patterns_ok re (Predicate path opr (expected_of v))" by (rule validatePredicate_Inr)
    with test(1,2) have "represents v (Predicate path opr (expected_of v))"
      by (auto simp: compound_def split: option.splits intro: rep_test)
    with * test(4) bounds show ?thesis by (intro exI [of _ "Predicate path opr (expected_of v)"]) auto
  qed
next
  case (3 re c cs d n)
  from "3.prems"(1) obtain n' where n': "validateCondition re c d n = Inr n'" "validate_all re cs d n' = Inr m"
    by (auto split: sum.splits)
  from "3.IH"(1) [OF n'(1)] obtain c' where
    c: "represents c c'" "patterns_ok re c'" "n' = n + nodes c'" "n' \<le> 100" "d + depth c' \<le> 8" by blast
  from "3.IH"(2) [OF n' c(4)] obtain cs' where
    "list_all2 represents cs cs'" "list_all (patterns_ok re) cs'" "m = n' + sum_list (map nodes cs')" "m \<le> 100"
    "\<forall>c\<in>set cs'. d + depth c \<le> 8" by blast
  with c show ?case by (intro exI [of _ "c' # cs'"]) simp
qed simp_all

section \<open>Equality of values\<close>

text \<open>When no two names collate alike, equality does not depend on the order of members.\<close>

lemma stable_same_json:
  assumes "inj collate" and "same_json v w"
  shows "stable collate fr v = stable collate fr w"
  using assms(2)
proof (induction rule: same_json.induct)
  case (same_arr vs ws)
  then have "map (stable collate fr) vs = map (stable collate fr) ws"
    by (induction rule: list_all2_induct) auto
  then show ?case by simp
next
  case (same_obj kvs lws kws)
  let ?g = "\<lambda>(k, v). (k, stable collate fr v)"
  from same_obj.IH have eq: "map ?g kvs = map ?g lws"
    by (induction rule: list_all2_induct) (auto simp: split_beta)
  from same_obj.IH have "map fst kvs = map fst lws"
    by (induction rule: list_all2_induct) auto
  with same_obj.hyps have "distinct (map fst (map ?g lws))" by (simp add: split_beta comp_def)
  then have "inj_on fst (set (map ?g lws))" unfolding distinct_map by blast
  then have "inj_on (collate \<circ> fst) (set (map ?g lws))"
    by (rule comp_inj_on) (use assms(1) in \<open>auto intro: inj_on_subset\<close>)
  moreover have "mset (map ?g lws) = mset (map ?g kws)" using same_obj.hyps by simp
  ultimately have "sort_key (collate \<circ> fst) (map ?g lws) = sort_key (collate \<circ> fst) (map ?g kws)"
    by (intro sort_key_inj_key_eq) simp_all
  with eq show ?case by simp
qed simp

section \<open>Parameters\<close>

fun all_keys :: "json \<Rightarrow> string list" where
  "all_keys (JArr vs) = concat (map all_keys vs)"
| "all_keys (JObj kvs) = concat (map (\<lambda>(k, v). k # all_keys v) kvs)"
| "all_keys _ = []"

lemma collect_Inr: "collect xs = Inr ys \<Longrightarrow> x \<in> set xs \<Longrightarrow> \<exists>y. x = Inr y"
  by (induction xs arbitrary: ys rule: collect.induct) (auto split: sum.splits)

lemma safe_parameters_keys:
  "validateSafeParameters v d = Inr u \<Longrightarrow> k \<in> set (all_keys v) \<Longrightarrow> \<not> sensitive_parameter k"
proof (induction v d arbitrary: u k rule: validateSafeParameters.induct)
  case (1 vs d)
  from "1.prems"(2) obtain v where v: "v \<in> set vs" "k \<in> set (all_keys v)" by auto
  from "1.prems"(1) obtain ys where "\<not> d > 6" "\<not> length vs > 100"
    "collect (map (\<lambda>v. validateSafeParameters v (Suc d)) vs) = Inr ys"
    by (cases "collect (map (\<lambda>v. validateSafeParameters v (Suc d)) vs)") (auto split: if_splits)
  then show ?case using "1.IH" v by (force dest: collect_Inr)
next
  case (2 kvs d)
  let ?f = "\<lambda>(k, v). if sensitive_parameter k
        then Inl (action_unsupported ''sensitive values cannot be embedded in action parameters'')
        else validateSafeParameters v (Suc d)"
  from "2.prems"(2) obtain k' v where v: "(k', v) \<in> set kvs" "k = k' \<or> k \<in> set (all_keys v)" by auto
  from "2.prems"(1) obtain ys where d: "\<not> d > 6" and "collect (map ?f kvs) = Inr ys"
    by (cases "collect (map ?f kvs)") (auto split: if_splits)
  with v(1) obtain y where "?f (k', v) = Inr y" by (force dest: collect_Inr)
  then show ?case using "2.IH" [OF d v(1) HOL.refl] v(2) by (auto split: if_splits)
qed auto

section \<open>Capabilities and rules agree\<close>

lemma restart_action_iff:
  assumes "field ''action_type'' a = Some (JStr ''RESTART_AGENT'')"
  shows "validateAction fr a = Inr () \<longleftrightarrow>
    list_all (\<lambda>k. k \<in> set action_fields) (object_keys a) \<and> reference_ok a ''target_id''
      \<and> list_ex (validateCapabilityAction a) ACTION_CAPABILITY_CATALOG"
    (is "?valid \<longleftrightarrow> ?fields \<and> ?target \<and> ?covered")
proof
  have r: "isRecord a" using assms by (rule field_isRecord)
  assume ?valid
  then have ref: "list_all (reference_ok a) reference_fields" and ?fields
    using r by (auto simp: validateAction_def list_all_iff list_ex_iff split: if_splits)
  moreover have ?covered
    using \<open>?valid\<close> assms unfolding validateAction_def
    by (auto simp: validateCapabilityAction_def ACTION_CAPABILITY_CATALOG_def
        split: if_splits option.splits json.splits sum.splits)
  ultimately show "?fields \<and> ?target \<and> ?covered" by (simp add: reference_fields_def)
next
  have names: "\<not> blank ''AGENT''" "\<not> blank ''agent''" "\<not> blank ''AGENT_SERVICE_CONTROL''" "\<not> blank ''RESTART_AGENT''"
    by code_simp+
  assume "?fields \<and> ?target \<and> ?covered"
  then have cap: ?fields ?target "field ''target_type'' a = Some (JStr ''AGENT'')"
    "field ''action_domain'' a = Some (JStr ''agent'')"
    "field ''exclusivity_group'' a = Some (JStr ''AGENT_SERVICE_CONTROL'')"
    "field ''parameters'' a = Some (JObj [])" "field ''desired_state'' a = None"
    by (auto simp: validateCapabilityAction_def ACTION_CAPABILITY_CATALOG_def)
  have "list_all (reference_ok a) reference_fields"
    using cap(2-5) assms names by (simp add: reference_fields_def reference_ok_def)
  moreover have "\<not> list_all (\<lambda>n. field ''action_type'' a \<noteq> Some (JStr n)) ALLOWED_ACTIONS"
    using assms by (simp add: ALLOWED_ACTIONS_def)
  ultimately show ?valid
    using cap(1,3-7) assms field_isRecord [OF assms]
    by (auto simp: validateAction_def list_all_iff list_ex_iff)
qed

section \<open>Properties\<close>

text \<open>C28: A rule that passes validation is never stuck and means what it says: its condition is a tree of at
  most 100 nodes and depth at most 8, and on every event and context evaluation returns the truth
  value of that tree, with one piece of evidence per node.\<close>

theorem valid_rule_evaluates:
  assumes "validateRuleDefinition fr re r = Inr ()"
  shows "\<exists>c evs. represents (rd_condition r) c \<and> nodes c \<le> 100 \<and> depth c \<le> 8 \<and> length evs = nodes c \<and>
    evaluateCondition collate fr re event context (rd_condition r) = Inr (holds collate fr re event context c, evs)"
proof -
  from assms obtain m where "validateCondition re (rd_condition r) 0 0 = Inr m"
    by (auto simp: validateRuleDefinition_def split: if_splits sum.splits)
  from validate_represents(1) [OF this] obtain c where
    "represents (rd_condition r) c" "patterns_ok re c" "nodes c \<le> 100" "depth c \<le> 8" by auto
  with evaluate_represents show ?thesis by blast
qed

definition disk_rule :: rule_definition where
  "disk_rule = \<lparr>rd_trigger = JObj [(''type'', JStr ''EVENT''), (''event_type'', JStr ''MONITOR.DISK'')],
     rd_condition = JObj [(''all'', JArr [
        JObj [(''path'', JStr ''event.used''), (''op'', JStr ''greater_than''), (''value'', JNum (JInt 90))],
        JObj [(''not'', JObj [(''path'', JStr ''context.muted''), (''op'', JStr ''exists'')])]])],
     rd_action = JObj [(''target_type'', JStr ''AGENT''), (''target_id'', JStr ''a1''),
        (''action_domain'', JStr ''agent''), (''action_type'', JStr ''RESTART_AGENT''), (''parameters'', JObj []),
        (''exclusivity_group'', JStr ''AGENT_SERVICE_CONTROL'')],
     rd_safety_level = ''SAFE''\<rparr>"

theorem valid_rule_evaluates_witness:
  "(\<exists>evs. evaluateCondition id (\<lambda>_. []) (\<lambda>_. None) (JObj [(''used'', JNum (JInt 95))]) (JObj []) (rd_condition disk_rule)
      = Inr (True, evs)) \<and>
   (\<exists>c evs. evaluateCondition id (\<lambda>_. []) (\<lambda>_. None) JNull JNull (rd_condition disk_rule)
      = Inr (holds id (\<lambda>_. []) (\<lambda>_. None) JNull JNull c, evs) \<and> depth c \<le> 8)"
proof -
  have valid: "validateRuleDefinition (\<lambda>_. []) (\<lambda>_. None) disk_rule = Inr ()" by code_simp
  have "map_sum id fst (evaluateCondition id (\<lambda>_. []) (\<lambda>_. None) (JObj [(''used'', JNum (JInt 95))]) (JObj [])
     (rd_condition disk_rule)) = Inr True" by code_simp
  then have "\<exists>evs. evaluateCondition id (\<lambda>_. []) (\<lambda>_. None) (JObj [(''used'', JNum (JInt 95))]) (JObj []) (rd_condition disk_rule)
      = Inr (True, evs)"
    by (cases "evaluateCondition id (\<lambda>_. []) (\<lambda>_. None) (JObj [(''used'', JNum (JInt 95))]) (JObj []) (rd_condition disk_rule)")
      auto
  with valid_rule_evaluates [OF valid] show ?thesis by blast
qed

text \<open>The two node counts of rule validation agree: on a condition that \<open>validateCondition\<close> accepts, the
  number of nodes it has seen is \<open>countNodes\<close>, and it is at most 100, so the second check never
  rejects anything.\<close>

theorem node_counts_agree:
  assumes "validateCondition re v 0 0 = Inr m"
  shows "countNodes v = m \<and> m \<le> 100"
  using validate_represents(1) [OF assms] by (auto simp: countNodes_represents)

theorem node_counts_agree_witness:
  "countNodes (rd_condition disk_rule) = 4 \<and> (4 :: nat) \<le> 100"
proof -
  have "validateCondition (\<lambda>_. None) (rd_condition disk_rule) 0 0 = Inr 4" by code_simp
  then show ?thesis by (rule node_counts_agree)
qed

text \<open>An action that passes validation carries no parameter with a sensitive name, at any depth of its
  parameters.\<close>

theorem action_parameters_clean:
  assumes "validateAction fr a = Inr ()" and "field ''parameters'' a = Some ps" and "k \<in> set (all_keys ps)"
  shows "\<not> sensitive_parameter k"
proof -
  from assms(1,2) obtain u where "validateSafeParameters ps 0 = Inr u"
    by (auto simp: validateAction_def split: if_splits json.splits sum.splits)
  then show ?thesis using assms(3) by (rule safe_parameters_keys)
qed

definition assign_action :: json where
  "assign_action = JObj [(''target_type'', JStr ''TICKET''), (''target_id'', JStr ''t1''),
     (''action_domain'', JStr ''helpdesk''), (''action_type'', JStr ''ASSIGN_TEAM''),
     (''parameters'', JObj [(''teams'', JArr [JObj [(''name'', JStr ''network'')]])]),
     (''exclusivity_group'', JStr ''TICKET''), (''desired_state'', JStr ''ASSIGNED'')]"

theorem action_parameters_clean_witness:
  "\<not> sensitive_parameter ''name'' \<and> sensitive_parameter ''apiKey''"
proof -
  have "validateAction (\<lambda>_. []) assign_action = Inr ()" by code_simp
  moreover have "field ''parameters'' assign_action = Some (JObj [(''teams'', JArr [JObj [(''name'', JStr ''network'')]])])"
    by code_simp
  ultimately have "\<not> sensitive_parameter ''name''" by (rule action_parameters_clean) simp
  moreover have "sensitive_parameter ''apiKey''" by code_simp
  ultimately show ?thesis ..
qed

text \<open>The rule validator and the capability catalogue, written apart, agree on agent restarts: an action
  of type RESTART_AGENT is accepted by \<open>validateAction\<close> exactly when it has only the fields of an
  action and a usable target and some capability of the catalogue covers it.\<close>

theorem restart_checks_agree:
  assumes "field ''action_type'' a = Some (JStr ''RESTART_AGENT'')"
  shows "validateAction fr a = Inr () \<longleftrightarrow>
    list_all (\<lambda>k. k \<in> set action_fields) (object_keys a) \<and> reference_ok a ''target_id''
      \<and> list_ex (validateCapabilityAction a) ACTION_CAPABILITY_CATALOG"
  using assms by (rule restart_action_iff)

theorem restart_checks_agree_witness:
  "list_ex (validateCapabilityAction (rd_action disk_rule)) ACTION_CAPABILITY_CATALOG"
proof -
  have "field ''action_type'' (rd_action disk_rule) = Some (JStr ''RESTART_AGENT'')" by code_simp
  moreover have "validateAction (\<lambda>_. []) (rd_action disk_rule) = Inr ()" by code_simp
  ultimately show ?thesis using restart_checks_agree by blast
qed

text \<open>The paths of a condition read inherited members: the predicate \<open>event.toString exists\<close> passes
  validation and holds on every event object, also on one that has no such member.\<close>

theorem inherited_member_exists:
  assumes "map_of kvs ''toString'' = None"
  shows "validateCondition re (JObj [(''path'', JStr ''event.toString''), (''op'', JStr ''exists'')]) 0 0 = Inr 1 \<and>
    map_sum id fst (evaluateCondition collate fr re (JObj kvs) context
      (JObj [(''path'', JStr ''event.toString''), (''op'', JStr ''exists'')])) = Inr True"
proof
  let ?p = "JObj [(''path'', JStr ''event.toString''), (''op'', JStr ''exists'')]"
  have "validatePredicate re ?p = Inr ()"
    by (simp add: validatePredicate_def) code_simp
  then show "validateCondition re ?p 0 0 = Inr 1"
    by (simp add: validateCondition.simps(1) compound_def isRecord_def)
  have "split_at CHR ''.'' ''event.toString'' = [''event'', ''toString'']" by code_simp
  then have "readPath ''event.toString'' (JObj kvs) context = Function"
    using assms by (simp add: readPath_def FORBIDDEN_KEYS_def isRecord_def inherited_def)
  then show "map_sum id fst (evaluateCondition collate fr re (JObj kvs) context ?p) = Inr True"
    by (simp add: evaluateCondition.simps(1) isRecord_def compare_def expected_of_def)
qed

theorem inherited_member_exists_witness:
  "map_sum id fst (evaluateCondition id (\<lambda>_. []) (\<lambda>_. None) (JObj [(''used'', JNull)]) JNull
      (JObj [(''path'', JStr ''event.toString''), (''op'', JStr ''exists'')])) = Inr True"
  using inherited_member_exists [of "[(''used'', JNull)]"] by simp

end
