(* ===== verification/Automation_Policies.thy ===== *)
theory Automation_Policies
  imports Automation_Rules Messaging
begin

text \<open>
  \<open>modules/automation/application\<close>: the versioned action policies (\<open>policies.ts\<close>) and the guardrails and
  kill switch of the older rule registry (\<open>rules.ts\<close>), over \<open>database/migrations/automation\<close>.
  \<open>parse\<close> is \<open>Date.parse\<close>, \<open>None\<close> for NaN; \<open>sha\<close> is SHA-256 in hexadecimal.
\<close>

section \<open>Tables\<close>

record action_policy =
  ap_id :: string
  ap_tenant :: string
  ap_action_type :: string
  ap_target_type :: string
  ap_version :: int
  ap_state :: string
  ap_mode :: string
  ap_scope :: json
  ap_constraints :: json
  ap_approval_required :: bool
  ap_effective_from :: int
  ap_effective_to :: "int option"
  ap_content_hash :: string
  ap_created_by :: string
  ap_changed_by :: string
  ap_reason :: string
  ap_activated_at :: "int option"
  ap_deactivated_at :: "int option"
  ap_deactivated_by :: "string option"
  ap_deactivation_reason :: "string option"
  ap_entity_version :: int

record old_rule =
  or_id :: string
  or_tenant :: string
  or_code :: string
  or_version :: int
  or_owner :: string
  or_safety_level :: string
  or_requires_approval :: bool
  or_enabled :: bool
  or_kill_switched :: bool
  or_timeout :: int
  or_max_attempts :: int
  or_rollback_plan :: "string option"
  or_action_spec :: json

record policy_db =
  action_policies :: "action_policy list"
  old_rules :: "old_rule list"

abbreviation policy_key :: "string \<Rightarrow> string \<Rightarrow> action_policy \<Rightarrow> bool" where
  "policy_key t i p \<equiv> ap_tenant p = t \<and> ap_id p = i"

definition find_policy :: "string \<Rightarrow> string \<Rightarrow> policy_db \<Rightarrow> action_policy option" where
  "find_policy t i db = find_row (policy_key t i) (action_policies db)"

definition same_action :: "action_policy \<Rightarrow> action_policy \<Rightarrow> bool" where
  "same_action x y \<longleftrightarrow> ap_tenant x = ap_tenant y \<and> ap_action_type x = ap_action_type y
     \<and> ap_target_type x = ap_target_type y"

definition policies_of :: "string \<Rightarrow> string \<Rightarrow> string \<Rightarrow> policy_db \<Rightarrow> action_policy list" where
  "policies_of t a g db = select_rows (\<lambda>p. ap_tenant p = t \<and> ap_action_type p = a \<and> ap_target_type p = g)
     (action_policies db)"

text \<open>The keys of the table, and the partial index on active versions.\<close>

definition policy_clash :: "action_policy \<Rightarrow> action_policy \<Rightarrow> bool" where
  "policy_clash x y \<longleftrightarrow> ap_id x = ap_id y \<or> (same_action x y \<and> ap_version x = ap_version y)
     \<or> (same_action x y \<and> ap_state x = ''ACTIVE'' \<and> ap_state y = ''ACTIVE'')"

section \<open>Policy drafts\<close>

record policy_draft =
  pd_mode :: string
  pd_scope :: "(string \<times> json) list"
  pd_constraints :: "(string \<times> json) list"
  pd_approval_required :: json
  pd_effective_from :: string
  pd_effective_to :: "string option"
  pd_reason :: string

definition contentHash :: "(string \<Rightarrow> string) \<Rightarrow> (rat \<Rightarrow> string) \<Rightarrow> (string \<Rightarrow> string) \<Rightarrow> policy_draft \<Rightarrow> string" where
  "contentHash collate fr sha d = sha (stable collate fr (JObj
     [(''mode'', JStr (pd_mode d)), (''resourceScope'', JObj (pd_scope d)),
      (''parameterConstraints'', JObj (pd_constraints d)), (''approvalRequired'', pd_approval_required d),
      (''effectiveFrom'', JStr (pd_effective_from d)),
      (''effectiveTo'', case pd_effective_to d of None \<Rightarrow> JNull | Some s \<Rightarrow> JStr s),
      (''reason'', JStr (pd_reason d))]))"

text \<open>The interval of a draft: an absent or empty end is open.\<close>

definition effective_interval :: "(string \<Rightarrow> int option) \<Rightarrow> policy_draft \<Rightarrow> (int \<times> int option) option" where
  "effective_interval parse d =
     (case parse (pd_effective_from d) of
        None \<Rightarrow> None
      | Some from \<Rightarrow>
         (case pd_effective_to d of
            None \<Rightarrow> Some (from, None)
          | Some s \<Rightarrow>
             if s = [] then Some (from, None)
             else (case parse s of None \<Rightarrow> None | Some to \<Rightarrow> if to \<le> from then None else Some (from, Some to))))"

definition validate :: "(string \<Rightarrow> int option) \<Rightarrow> policy_draft \<Rightarrow> string \<Rightarrow> string \<Rightarrow> exn + unit" where
  "validate parse d actionType targetType =
     (if \<not> list_ex (\<lambda>c. cp_action_type c = actionType \<and> cp_target_type c = targetType) ACTION_CAPABILITY_CATALOG
      then Inl (AppError AUTOMATION_ACTION_UNSUPPORTED)
      else if pd_mode d \<notin> set [''DENY'', ''ALLOW'', ''REQUIRE_APPROVAL''] \<or> blank (pd_reason d)
         \<or> length (pd_reason d) > 2000 \<or> (case pd_approval_required d of JBool _ \<Rightarrow> False | _ \<Rightarrow> True)
      then Inl (AppError VALIDATION_ERROR)
      else if list_ex (\<lambda>(k, v). k \<notin> set [''site'', ''location'']
                \<or> (case v of JStr s \<Rightarrow> blank s | _ \<Rightarrow> True)) (pd_scope d)
      then Inl (AppError VALIDATION_ERROR)
      else if list_ex (\<lambda>k. k \<notin> set [''equals'', ''required_keys'']) (keys (pd_constraints d))
      then Inl (AppError VALIDATION_ERROR)
      else if (case map_of (pd_constraints d) ''equals'' of None \<Rightarrow> False | Some v \<Rightarrow> \<not> isRecord v)
      then Inl (AppError VALIDATION_ERROR)
      else if (case map_of (pd_constraints d) ''required_keys'' of
                 None \<Rightarrow> False
               | Some (JArr vs) \<Rightarrow> list_ex (\<lambda>v. case v of JStr _ \<Rightarrow> False | _ \<Rightarrow> True) vs
               | Some _ \<Rightarrow> True)
      then Inl (AppError VALIDATION_ERROR)
      else if effective_interval parse d = None then Inl (AppError VALIDATION_ERROR)
      else Inr ())"

text \<open>The columns a draft fills; an empty end date reaches the database as an invalid timestamp.\<close>

record content_columns =
  cc_mode :: string
  cc_scope :: json
  cc_constraints :: json
  cc_approval_required :: bool
  cc_from :: int
  cc_to :: "int option"
  cc_hash :: string

definition columns_of ::
    "(string \<Rightarrow> string) \<Rightarrow> (rat \<Rightarrow> string) \<Rightarrow> (string \<Rightarrow> string) \<Rightarrow> (string \<Rightarrow> int option) \<Rightarrow> policy_draft
       \<Rightarrow> exn + content_columns" where
  "columns_of collate fr sha parse d =
     (if pd_effective_to d = Some [] then Inl (SqlError ''22007'')
      else case effective_interval parse d of
        None \<Rightarrow> Inl (SqlError ''22007'')
      | Some (from, to) \<Rightarrow> Inr \<lparr>cc_mode = pd_mode d, cc_scope = JObj (pd_scope d),
          cc_constraints = JObj (pd_constraints d), cc_approval_required = (pd_approval_required d = JBool True),
          cc_from = from, cc_to = to, cc_hash = contentHash collate fr sha d\<rparr>)"

record policy_result =
  pr_id :: string
  pr_version :: int
  pr_state :: string
  pr_entity_version :: int

definition next_version :: "action_policy list \<Rightarrow> int" where
  "next_version ps = (case ps of [] \<Rightarrow> 1 | _ \<Rightarrow> Max (ap_version ` set ps) + 1)"

definition createActionPolicyDraft ::
    "(string \<Rightarrow> string) \<Rightarrow> (rat \<Rightarrow> string) \<Rightarrow> (string \<Rightarrow> string) \<Rightarrow> (string \<Rightarrow> int option) \<Rightarrow> string \<Rightarrow> call_env
       \<Rightarrow> string \<Rightarrow> string \<Rightarrow> string \<Rightarrow> policy_draft \<Rightarrow> (policy_db, policy_result) call" where
  "createActionPolicyDraft collate fr sha parse t env actionType targetType actor d db =
    (case validate parse d actionType targetType of
       Inl e \<Rightarrow> (Inl e, db)
     | Inr _ \<Rightarrow>
        if find_row (\<lambda>p. ap_state p = ''DRAFT'') (policies_of t actionType targetType db) \<noteq> None
        then (Inl (AppError BUSINESS_RULE_VIOLATION), db)
        else
          let version = next_version (policies_of t actionType targetType db) in
          (case columns_of collate fr sha parse d of
             Inl e \<Rightarrow> (Inl e, db)
           | Inr c \<Rightarrow>
              (case insert_row policy_clash
                 \<lparr>ap_id = env_uuid env 0, ap_tenant = t, ap_action_type = actionType,
                  ap_target_type = targetType, ap_version = version, ap_state = ''DRAFT'', ap_mode = cc_mode c,
                  ap_scope = cc_scope c, ap_constraints = cc_constraints c,
                  ap_approval_required = cc_approval_required c, ap_effective_from = cc_from c,
                  ap_effective_to = cc_to c, ap_content_hash = cc_hash c, ap_created_by = actor,
                  ap_changed_by = actor, ap_reason = pd_reason d, ap_activated_at = None,
                  ap_deactivated_at = None, ap_deactivated_by = None, ap_deactivation_reason = None,
                  ap_entity_version = 1\<rparr> (action_policies db) of
                 None \<Rightarrow> (Inl (SqlError ''23505''), db)
               | Some ps \<Rightarrow> (Inr \<lparr>pr_id = env_uuid env 0, pr_version = version, pr_state = ''DRAFT'',
                                  pr_entity_version = 1\<rparr>, db\<lparr>action_policies := ps\<rparr>))))"

text \<open>The SET clauses of the three UPDATE statements.\<close>

definition fill_draft :: "content_columns \<Rightarrow> string \<Rightarrow> string \<Rightarrow> action_policy \<Rightarrow> action_policy" where
  "fill_draft c actor reason p =
     p\<lparr>ap_mode := cc_mode c, ap_scope := cc_scope c, ap_constraints := cc_constraints c,
       ap_approval_required := cc_approval_required c, ap_effective_from := cc_from c,
       ap_effective_to := cc_to c, ap_content_hash := cc_hash c, ap_changed_by := actor,
       ap_reason := reason, ap_entity_version := ap_entity_version p + 1\<rparr>"

definition mark_active :: "int \<Rightarrow> action_policy \<Rightarrow> action_policy" where
  "mark_active now p =
     p\<lparr>ap_state := ''ACTIVE'', ap_activated_at := Some now, ap_entity_version := ap_entity_version p + 1\<rparr>"

definition mark_inactive :: "int \<Rightarrow> string \<Rightarrow> string \<Rightarrow> action_policy \<Rightarrow> action_policy" where
  "mark_inactive now actor reason p =
     p\<lparr>ap_state := ''INACTIVE'', ap_deactivated_at := Some now, ap_deactivated_by := Some actor,
       ap_deactivation_reason := Some reason, ap_entity_version := ap_entity_version p + 1\<rparr>"

definition updateActionPolicyDraft ::
    "(string \<Rightarrow> string) \<Rightarrow> (rat \<Rightarrow> string) \<Rightarrow> (string \<Rightarrow> string) \<Rightarrow> (string \<Rightarrow> int option) \<Rightarrow> string
       \<Rightarrow> string \<Rightarrow> js_number \<Rightarrow> string \<Rightarrow> policy_draft \<Rightarrow> (policy_db, policy_result) call" where
  "updateActionPolicyDraft collate fr sha parse t policyId expected actor d db =
    (case find_policy t policyId db of
       None \<Rightarrow> (Inl (AppError NOT_FOUND), db)
     | Some current \<Rightarrow>
        if JInt (ap_entity_version current) \<noteq> expected then (Inl (AppError VERSION_CONFLICT), db)
        else if ap_state current \<noteq> ''DRAFT'' then (Inl (AppError BUSINESS_RULE_VIOLATION), db)
        else case validate parse d (ap_action_type current) (ap_target_type current) of
          Inl e \<Rightarrow> (Inl e, db)
        | Inr _ \<Rightarrow>
           (case columns_of collate fr sha parse d of
              Inl e \<Rightarrow> (Inl e, db)
            | Inr c \<Rightarrow>
               (Inr \<lparr>pr_id = policyId, pr_version = ap_version current, pr_state = ''DRAFT'',
                     pr_entity_version = js_int expected + 1\<rparr>,
                db\<lparr>action_policies := update_rows (policy_key t policyId)
                   (fill_draft c actor (pd_reason d)) (action_policies db)\<rparr>)))"

record policy_change =
  pc_policy_id :: string
  pc_expected_version :: js_number
  pc_actor :: string
  pc_reason :: string

definition activateActionPolicy ::
    "string \<Rightarrow> call_env \<Rightarrow> policy_change \<Rightarrow> (policy_db, policy_result) call" where
  "activateActionPolicy t env inp db =
    (if blank (pc_reason inp) then (Inl (AppError VALIDATION_ERROR), db)
     else case find_policy t (pc_policy_id inp) db of
       None \<Rightarrow> (Inl (AppError NOT_FOUND), db)
     | Some policy \<Rightarrow>
        if JInt (ap_entity_version policy) \<noteq> pc_expected_version inp then (Inl (AppError VERSION_CONFLICT), db)
        else if ap_state policy \<noteq> ''DRAFT'' then (Inl (AppError BUSINESS_RULE_VIOLATION), db)
        else if find_row (\<lambda>p. ap_state p = ''ACTIVE'')
                  (policies_of t (ap_action_type policy) (ap_target_type policy) db) \<noteq> None
        then (Inl (AppError BUSINESS_RULE_VIOLATION), db)
        else
          (Inr \<lparr>pr_id = pc_policy_id inp, pr_version = ap_version policy, pr_state = ''ACTIVE'',
                pr_entity_version = ap_entity_version policy + 1\<rparr>,
           db\<lparr>action_policies := update_rows
               (\<lambda>p. policy_key t (pc_policy_id inp) p \<and> ap_state p = ''DRAFT''
                  \<and> JInt (ap_entity_version p) = pc_expected_version inp)
               (mark_active (env_now env)) (action_policies db)\<rparr>))"

definition deactivateActionPolicy ::
    "string \<Rightarrow> call_env \<Rightarrow> policy_change \<Rightarrow> (policy_db, policy_result) call" where
  "deactivateActionPolicy t env inp db =
    (if blank (pc_reason inp) then (Inl (AppError VALIDATION_ERROR), db)
     else case find_policy t (pc_policy_id inp) db of
       None \<Rightarrow> (Inl (AppError NOT_FOUND), db)
     | Some policy \<Rightarrow>
        if JInt (ap_entity_version policy) \<noteq> pc_expected_version inp then (Inl (AppError VERSION_CONFLICT), db)
        else if ap_state policy \<noteq> ''ACTIVE'' then (Inl (AppError BUSINESS_RULE_VIOLATION), db)
        else
          (Inr \<lparr>pr_id = pc_policy_id inp, pr_version = ap_version policy, pr_state = ''INACTIVE'',
                pr_entity_version = ap_entity_version policy + 1\<rparr>,
           db\<lparr>action_policies := update_rows
               (\<lambda>p. policy_key t (pc_policy_id inp) p \<and> JInt (ap_entity_version p) = pc_expected_version inp)
               (mark_inactive (env_now env) (pc_actor inp) (js_trim (pc_reason inp))) (action_policies db)\<rparr>))"

section \<open>The rule registry\<close>

record old_rule_input =
  oi_code :: string
  oi_owner :: string
  oi_safety_level :: string
  oi_requires_approval :: bool
  oi_timeout :: int
  oi_max_attempts :: int
  oi_rollback_plan :: "string option"
  oi_action_spec :: json

definition registerRule :: "string \<Rightarrow> call_env \<Rightarrow> old_rule_input \<Rightarrow> (policy_db, old_rule) call" where
  "registerRule t env inp db =
    (if blank (oi_code inp) \<or> blank (oi_owner inp)
        \<or> oi_safety_level inp \<notin> set [''LOW'', ''MEDIUM'', ''HIGH'', ''CRITICAL'']
        \<or> oi_timeout inp \<le> 0 \<or> oi_max_attempts inp < 1 \<or> oi_max_attempts inp > 10
     then (Inl (AppError VALIDATION_ERROR), db)
     else
       let row = \<lparr>or_id = env_uuid env 0, or_tenant = t, or_code = oi_code inp, or_version = 1,
                  or_owner = oi_owner inp, or_safety_level = oi_safety_level inp,
                  or_requires_approval = (oi_safety_level inp = ''HIGH'' \<or> oi_safety_level inp = ''CRITICAL''
                     \<or> oi_requires_approval inp),
                  or_enabled = False, or_kill_switched = False, or_timeout = oi_timeout inp,
                  or_max_attempts = oi_max_attempts inp, or_rollback_plan = oi_rollback_plan inp,
                  or_action_spec = oi_action_spec inp\<rparr>
       in case insert_row (\<lambda>x y. or_id x = or_id y \<or> (or_tenant x = or_tenant y \<and> or_code x = or_code y
                             \<and> or_version x = or_version y)) row (old_rules db) of
            None \<Rightarrow> (Inl (SqlError ''23505''), db)
          | Some rs \<Rightarrow> (Inr row, db\<lparr>old_rules := rs\<rparr>))"

definition setKillSwitch :: "string \<Rightarrow> string \<Rightarrow> bool \<Rightarrow> (policy_db, old_rule) call" where
  "setKillSwitch t ruleId on db =
    (let rs = update_rows (\<lambda>r. or_tenant r = t \<and> or_id r = ruleId)
           (\<lambda>r. r\<lparr>or_kill_switched := on, or_enabled := (if on then False else or_enabled r)\<rparr>) (old_rules db)
     in case find_row (\<lambda>r. or_tenant r = t \<and> or_id r = ruleId) rs of
          None \<Rightarrow> (Inl (AppError NOT_FOUND), db)
        | Some r \<Rightarrow> (Inr r, db\<lparr>old_rules := rs\<rparr>))"

section \<open>The version machine\<close>

datatype policy_edit =
    UpdateDraft string policy_draft
  | ActivatePolicy call_env policy_change
  | DeactivatePolicy call_env policy_change

datatype policy_call =
    CreateDraft call_env string string string policy_draft
  | EditPolicy string js_number policy_edit
  | RegisterRule call_env old_rule_input
  | KillRule string bool

fun policy_edit_step ::
    "(string \<Rightarrow> string) \<Rightarrow> (rat \<Rightarrow> string) \<Rightarrow> (string \<Rightarrow> string) \<Rightarrow> (string \<Rightarrow> int option) \<Rightarrow> string
       \<Rightarrow> string \<Rightarrow> js_number \<times> policy_edit \<Rightarrow> (policy_db, policy_result) call" where
  "policy_edit_step collate fr sha parse t i (v, UpdateDraft actor d) =
     updateActionPolicyDraft collate fr sha parse t i v actor d"
| "policy_edit_step collate fr sha parse t i (v, ActivatePolicy env c) =
     activateActionPolicy t env (c\<lparr>pc_policy_id := i, pc_expected_version := v\<rparr>)"
| "policy_edit_step collate fr sha parse t i (v, DeactivatePolicy env c) =
     deactivateActionPolicy t env (c\<lparr>pc_policy_id := i, pc_expected_version := v\<rparr>)"

fun policy_step ::
    "(string \<Rightarrow> string) \<Rightarrow> (rat \<Rightarrow> string) \<Rightarrow> (string \<Rightarrow> string) \<Rightarrow> (string \<Rightarrow> int option) \<Rightarrow> string
       \<Rightarrow> policy_call \<Rightarrow> (policy_db, unit) call" where
  "policy_step collate fr sha parse t (CreateDraft env a g actor d) db =
     forget (createActionPolicyDraft collate fr sha parse t env a g actor d db)"
| "policy_step collate fr sha parse t (EditPolicy i v e) db =
     forget (policy_edit_step collate fr sha parse t i (v, e) db)"
| "policy_step collate fr sha parse t (RegisterRule env inp) db = forget (registerRule t env inp db)"
| "policy_step collate fr sha parse t (KillRule i on) db = forget (setKillSwitch t i on db)"

definition policy_table :: "(string \<times> string list) list" where
  "policy_table = [(''DRAFT'', [''ACTIVE'']), (''ACTIVE'', [''INACTIVE'']), (''INACTIVE'', [])]"

definition policy_states :: "string list" where
  "policy_states = map fst policy_table"

text \<open>The content that publication freezes.\<close>

definition policy_content :: "action_policy \<Rightarrow> string \<times> json \<times> json \<times> bool \<times> int \<times> int option \<times> string \<times> string" where
  "policy_content p = (ap_mode p, ap_scope p, ap_constraints p, ap_approval_required p, ap_effective_from p,
     ap_effective_to p, ap_content_hash p, ap_reason p)"

lemma policy_columns_sel [simp]:
  "ap_id (fill_draft c a r p) = ap_id p" "ap_tenant (fill_draft c a r p) = ap_tenant p"
  "ap_action_type (fill_draft c a r p) = ap_action_type p" "ap_target_type (fill_draft c a r p) = ap_target_type p"
  "ap_version (fill_draft c a r p) = ap_version p" "ap_state (fill_draft c a r p) = ap_state p"
  "ap_entity_version (fill_draft c a r p) = ap_entity_version p + 1"
  "ap_id (mark_active now p) = ap_id p" "ap_tenant (mark_active now p) = ap_tenant p"
  "ap_action_type (mark_active now p) = ap_action_type p" "ap_target_type (mark_active now p) = ap_target_type p"
  "ap_version (mark_active now p) = ap_version p" "ap_state (mark_active now p) = ''ACTIVE''"
  "ap_entity_version (mark_active now p) = ap_entity_version p + 1"
  "policy_content (mark_active now p) = policy_content p"
  "ap_id (mark_inactive now a r p) = ap_id p" "ap_tenant (mark_inactive now a r p) = ap_tenant p"
  "ap_action_type (mark_inactive now a r p) = ap_action_type p"
  "ap_target_type (mark_inactive now a r p) = ap_target_type p"
  "ap_version (mark_inactive now a r p) = ap_version p" "ap_state (mark_inactive now a r p) = ''INACTIVE''"
  "ap_entity_version (mark_inactive now a r p) = ap_entity_version p + 1"
  "policy_content (mark_inactive now a r p) = policy_content p"
  by (simp_all add: fill_draft_def mark_active_def mark_inactive_def policy_content_def)

text \<open>What a successful edit has done, one case per statement.\<close>

lemma policy_edit_Inr:
  assumes "policy_edit_step collate fr sha parse t i (v, e) db = (Inr r, db')"
  obtains
    (edit) p c actor reason where "find_policy t i db = Some p" "v = JInt (ap_entity_version p)"
      "ap_state p = ''DRAFT''"
      "db' = db\<lparr>action_policies := update_rows (policy_key t i) (fill_draft c actor reason) (action_policies db)\<rparr>"
  | (activate) p now where "find_policy t i db = Some p" "v = JInt (ap_entity_version p)" "ap_state p = ''DRAFT''"
      "\<And>x. x \<in> set (action_policies db) \<Longrightarrow> same_action x p \<Longrightarrow> ap_state x \<noteq> ''ACTIVE''"
      "db' = db\<lparr>action_policies := update_rows (\<lambda>x. policy_key t i x \<and> ap_state x = ''DRAFT''
          \<and> JInt (ap_entity_version x) = v) (mark_active now) (action_policies db)\<rparr>"
  | (deactivate) p now actor reason where "find_policy t i db = Some p" "v = JInt (ap_entity_version p)"
      "ap_state p = ''ACTIVE''"
      "db' = db\<lparr>action_policies := update_rows (\<lambda>x. policy_key t i x \<and> JInt (ap_entity_version x) = v)
          (mark_inactive now actor reason) (action_policies db)\<rparr>"
proof (cases e)
  case (UpdateDraft actor d)
  with assms show ?thesis
    by (auto simp: updateActionPolicyDraft_def split: option.splits if_splits sum.splits intro: edit)
next
  case (ActivatePolicy env c)
  with assms obtain p where p: "find_policy t i db = Some p" "v = JInt (ap_entity_version p)" "ap_state p = ''DRAFT''"
    "find_row (\<lambda>p. ap_state p = ''ACTIVE'') (policies_of t (ap_action_type p) (ap_target_type p) db) = None"
    "db' = db\<lparr>action_policies := update_rows (\<lambda>x. policy_key t i x \<and> ap_state x = ''DRAFT''
          \<and> JInt (ap_entity_version x) = v) (mark_active (env_now env)) (action_policies db)\<rparr>"
    by (auto simp: activateActionPolicy_def split: option.splits if_splits)
  from p(1) have "ap_tenant p = t" by (auto simp: find_policy_def dest!: find_row_SomeD)
  with p(4) have "ap_state x \<noteq> ''ACTIVE''" if "x \<in> set (action_policies db)" "same_action x p" for x
    using that by (auto simp: policies_of_def select_rows_def same_action_def find_row_None_iff)
  with p show ?thesis by (intro activate)
next
  case (DeactivatePolicy env c)
  with assms show ?thesis
    by (auto simp: deactivateActionPolicy_def split: option.splits if_splits intro: deactivate)
qed

text \<open>The addressed row afterwards.\<close>

lemma policy_edit_row:
  assumes "policy_edit_step collate fr sha parse t i e db = (Inr r, db')"
  shows "\<exists>p p'. find_policy t i db = Some p \<and> find_policy t i db' = Some p' \<and> fst e = JInt (ap_entity_version p)
      \<and> ap_entity_version p' = ap_entity_version p + 1
      \<and> (ap_state p = ''DRAFT'' \<and> ap_state p' = ''DRAFT''
         \<or> policy_content p' = policy_content p \<and> ap_state p' \<in> set (table_targets policy_table (ap_state p)))"
proof -
  obtain v e' where e: "e = (v, e')" by (cases e)
  note keep = find_row_update_hit [where k = "policy_key t i"]
  from assms [unfolded e] show ?thesis
  proof (elim policy_edit_Inr)
    fix p c actor reason
    assume "find_policy t i db = Some p" "v = JInt (ap_entity_version p)" "ap_state p = ''DRAFT''"
      "db' = db\<lparr>action_policies := update_rows (policy_key t i) (fill_draft c actor reason) (action_policies db)\<rparr>"
    moreover from this have "find_policy t i db' = Some (fill_draft c actor reason p)"
      by (auto simp: find_policy_def dest: find_row_SomeD intro!: keep)
    ultimately show ?thesis by (simp add: e)
  next
    fix p now
    assume "find_policy t i db = Some p" "v = JInt (ap_entity_version p)" "ap_state p = ''DRAFT''"
      "db' = db\<lparr>action_policies := update_rows (\<lambda>x. policy_key t i x \<and> ap_state x = ''DRAFT''
          \<and> JInt (ap_entity_version x) = v) (mark_active now) (action_policies db)\<rparr>"
    moreover from this have "find_policy t i db' = Some (mark_active now p)"
      by (auto simp: find_policy_def dest: find_row_SomeD intro!: keep)
    ultimately show ?thesis by (simp add: e policy_table_def)
  next
    fix p now actor reason
    assume "find_policy t i db = Some p" "v = JInt (ap_entity_version p)" "ap_state p = ''ACTIVE''"
      "db' = db\<lparr>action_policies := update_rows (\<lambda>x. policy_key t i x \<and> JInt (ap_entity_version x) = v)
          (mark_inactive now actor reason) (action_policies db)\<rparr>"
    moreover from this have "find_policy t i db' = Some (mark_inactive now actor reason p)"
      by (auto simp: find_policy_def dest: find_row_SomeD intro!: keep)
    ultimately show ?thesis by (simp add: e policy_table_def)
  qed
qed

interpretation policy_machine: keyed_machine
  "table_targets policy_table" policy_states t "policy_edit_step collate fr sha parse t i" fst
  "find_policy t i" ap_entity_version ap_state
  for t collate fr sha parse i
proof unfold_locales
  have "table_closed policy_table" by (simp add: table_closed_def policy_table_def)
  then show "y \<in> set (table_targets policy_table x) \<Longrightarrow> y \<in> set policy_states" for x y
    using table_closedD by (simp add: policy_states_def)
next
  fix e s a s'
  assume "policy_edit_step collate fr sha parse t i e s = (Inr a, s')"
  from policy_edit_row [OF this] show "\<exists>r r'. find_policy t i s = Some r \<and> find_policy t i s' = Some r'
      \<and> fst e = JInt (ap_entity_version r) \<and> ap_entity_version r' = ap_entity_version r + 1
      \<and> (ap_state r' = ap_state r \<or> ap_state r' \<in> set (table_targets policy_table (ap_state r)))"
    by auto
qed

section \<open>Invariant\<close>

text \<open>
  No two versions of a policy share a key or are both active, and an action has at most one draft.
\<close>

definition draft_clash :: "action_policy \<Rightarrow> action_policy \<Rightarrow> bool" where
  "draft_clash x y \<longleftrightarrow> same_action x y \<and> ap_state x = ''DRAFT'' \<and> ap_state y = ''DRAFT''"

definition policy_inv :: "policy_db \<Rightarrow> bool" where
  "policy_inv db \<longleftrightarrow> unique_rows policy_clash (action_policies db) \<and> unique_rows draft_clash (action_policies db)"

lemma policy_clash_sym: "policy_clash x y \<Longrightarrow> policy_clash y x"
  by (auto simp: policy_clash_def same_action_def)

lemma draft_clash_sym: "draft_clash x y \<Longrightarrow> draft_clash y x"
  by (auto simp: draft_clash_def same_action_def)

lemma createActionPolicyDraft_Inr:
  assumes "createActionPolicyDraft collate fr sha parse t env a g actor d db = (Inr r, db')"
  obtains p where "insert_row policy_clash p (action_policies db) = Some (action_policies db')"
    and "\<forall>x\<in>set (action_policies db). \<not> draft_clash p x" and "ap_state p = ''DRAFT''" and "old_rules db' = old_rules db"
proof -
  from assms obtain p where "insert_row policy_clash p (action_policies db) = Some (action_policies db')"
    "ap_state p = ''DRAFT''" "old_rules db' = old_rules db" "ap_tenant p = t" "ap_action_type p = a" "ap_target_type p = g"
    "find_row (\<lambda>p. ap_state p = ''DRAFT'') (policies_of t a g db) = None"
    by (auto simp: createActionPolicyDraft_def Let_def split: sum.splits if_splits option.splits)
  moreover from this have "\<forall>x\<in>set (action_policies db). \<not> draft_clash p x"
    by (auto simp: draft_clash_def same_action_def policies_of_def select_rows_def find_row_None_iff)
  ultimately show thesis by (intro that)
qed

lemma policy_inv_create:
  assumes "policy_inv db" and "createActionPolicyDraft collate fr sha parse t env a g actor d db = (Inr r, db')"
  shows "policy_inv db'"
  using assms(2)
proof (rule createActionPolicyDraft_Inr)
  fix p
  assume ins: "insert_row policy_clash p (action_policies db) = Some (action_policies db')"
    and draft: "\<forall>x\<in>set (action_policies db). \<not> draft_clash p x"
  from draft ins have "insert_row draft_clash p (action_policies db) = Some (action_policies db')"
    by (simp add: insert_row_Some_iff)
  with ins assms(1) show ?thesis
    unfolding policy_inv_def by (blast intro: unique_rows_insert policy_clash_sym draft_clash_sym)
qed

lemma policy_ids_distinct:
  assumes "unique_rows policy_clash t"
  shows "distinct t"
  using assms by (induction t) (auto simp: unique_rows_def policy_clash_def)

lemma policy_inv_edit:
  assumes "policy_inv db" and "policy_edit_step collate fr sha parse t i e db = (Inr r, db')"
  shows "policy_inv db'"
proof -
  let ?ps = "action_policies db"
  obtain v e' where e: "e = (v, e')" by (cases e)
  from assms(1) have u: "unique_rows policy_clash ?ps" "unique_rows draft_clash ?ps" by (simp_all add: policy_inv_def)
  then have d: "distinct ?ps" by (intro policy_ids_distinct)
  have only: "x = p" if "find_policy t i db = Some p" "x \<in> set ?ps" "policy_key t i x" for x p
    using that find_row_SomeD [of "policy_key t i" ?ps p]
    by (intro unique_rows_clashD [OF u(1)]) (auto simp: find_policy_def policy_clash_def)
  from assms(2) [unfolded e] show ?thesis
  proof (elim policy_edit_Inr)
    fix p c actor reason
    assume p: "find_policy t i db = Some p" and "ap_state p = ''DRAFT''"
      and db': "db' = db\<lparr>action_policies := update_rows (policy_key t i) (fill_draft c actor reason) ?ps\<rparr>"
    show ?thesis
      unfolding policy_inv_def db'
      by (auto intro!: unique_update_at [OF u(1) d, of _ p] unique_update_at [OF u(2) d, of _ p] only [OF p]
          simp: policy_clash_def draft_clash_def same_action_def)
  next
    fix p now
    assume p: "find_policy t i db = Some p"
      and none: "\<And>x. x \<in> set ?ps \<Longrightarrow> same_action x p \<Longrightarrow> ap_state x \<noteq> ''ACTIVE''"
      and db': "db' = db\<lparr>action_policies := update_rows (\<lambda>x. policy_key t i x \<and> ap_state x = ''DRAFT''
          \<and> JInt (ap_entity_version x) = v) (mark_active now) ?ps\<rparr>"
    have "\<not> policy_clash x (mark_active now p) \<and> \<not> policy_clash (mark_active now p) x"
      if "x \<in> set ?ps" "\<not> policy_clash x p" for x
      using that none [OF that(1)] by (auto simp: policy_clash_def same_action_def)
    then show ?thesis
      unfolding policy_inv_def db'
      by (auto intro!: unique_update_at [OF u(1) d, of _ p] unique_update_at [OF u(2) d, of _ p] only [OF p]
          simp: draft_clash_def)
  next
    fix p now actor reason
    assume p: "find_policy t i db = Some p"
      and db': "db' = db\<lparr>action_policies := update_rows (\<lambda>x. policy_key t i x \<and> JInt (ap_entity_version x) = v)
          (mark_inactive now actor reason) ?ps\<rparr>"
    show ?thesis
      unfolding policy_inv_def db'
      by (auto intro!: unique_update_at [OF u(1) d, of _ p] unique_update_at [OF u(2) d, of _ p] only [OF p]
          simp: policy_clash_def draft_clash_def same_action_def)
  qed
qed

lemma rules_keep_policies:
  "registerRule t env inp db = (Inr a, db') \<Longrightarrow> action_policies db' = action_policies db"
  "setKillSwitch t k on db = (Inr a, db') \<Longrightarrow> action_policies db' = action_policies db"
  by (auto simp: registerRule_def setKillSwitch_def Let_def split: if_splits option.splits)

lemma policy_inv_step:
  assumes "policy_inv db" and "policy_step collate fr sha parse t c db = (Inr a, db')"
  shows "policy_inv db'"
proof (cases c)
  case (CreateDraft env a g actor d)
  with assms show ?thesis by (auto simp: forget_Inr intro: policy_inv_create)
next
  case (EditPolicy i v e)
  with assms show ?thesis by (auto simp: forget_Inr intro: policy_inv_edit)
next
  case (RegisterRule env inp)
  with assms rules_keep_policies(1) show ?thesis by (auto simp: forget_Inr policy_inv_def)
next
  case (KillRule i on)
  with assms rules_keep_policies(2) show ?thesis by (auto simp: forget_Inr policy_inv_def)
qed

section \<open>Histories\<close>

fun policy_run ::
    "(string \<Rightarrow> string) \<Rightarrow> (rat \<Rightarrow> string) \<Rightarrow> (string \<Rightarrow> string) \<Rightarrow> (string \<Rightarrow> int option) \<Rightarrow> string
       \<Rightarrow> policy_call list \<Rightarrow> policy_db \<Rightarrow> policy_db" where
  "policy_run collate fr sha parse t [] db = db"
| "policy_run collate fr sha parse t (c # cs) db =
     policy_run collate fr sha parse t cs (snd (uow t (policy_step collate fr sha parse t c) db))"

lemma policy_run_calls:
  "policy_run collate fr sha parse t cs db = pg.run_calls t (map (policy_step collate fr sha parse t) cs) db"
  by (induction cs arbitrary: db) simp_all

lemma policy_inv_run: "policy_inv db \<Longrightarrow> policy_inv (policy_run collate fr sha parse t cs db)"
  unfolding policy_run_calls by (rule pg.run_calls_invariant [of policy_inv]) (auto intro: policy_inv_step)

text \<open>A published version keeps its content; it can only be switched off.\<close>

definition publication_kept :: "policy_db \<Rightarrow> policy_db \<Rightarrow> bool" where
  "publication_kept db db' \<longleftrightarrow> (\<forall>t i p. find_policy t i db = Some p \<and> ap_state p \<noteq> ''DRAFT'' \<longrightarrow>
     (\<exists>p'. find_policy t i db' = Some p' \<and> policy_content p' = policy_content p
        \<and> (ap_state p' = ap_state p \<or> ap_state p = ''ACTIVE'' \<and> ap_state p' = ''INACTIVE'')))"

lemma publication_kept_refl: "reflp publication_kept"
  by (auto simp: reflp_def publication_kept_def)

lemma publication_kept_trans: "transp publication_kept"
proof (rule transpI)
  fix x y z
  assume xy: "publication_kept x y" and yz: "publication_kept y z"
  show "publication_kept x z"
    unfolding publication_kept_def
  proof (intro allI impI, elim conjE)
    fix t i p
    assume "find_policy t i x = Some p" "ap_state p \<noteq> ''DRAFT''"
    with xy obtain p' where p': "find_policy t i y = Some p'" "policy_content p' = policy_content p"
      "ap_state p' = ap_state p \<or> ap_state p = ''ACTIVE'' \<and> ap_state p' = ''INACTIVE''"
      unfolding publication_kept_def by blast
    with \<open>ap_state p \<noteq> ''DRAFT''\<close> have "ap_state p' \<noteq> ''DRAFT''" by auto
    with yz p'(1) obtain p'' where "find_policy t i z = Some p''" "policy_content p'' = policy_content p'"
      "ap_state p'' = ap_state p' \<or> ap_state p' = ''ACTIVE'' \<and> ap_state p'' = ''INACTIVE''"
      unfolding publication_kept_def by blast
    with p' show "\<exists>p'. find_policy t i z = Some p' \<and> policy_content p' = policy_content p
        \<and> (ap_state p' = ap_state p \<or> ap_state p = ''ACTIVE'' \<and> ap_state p' = ''INACTIVE'')"
      by auto
  qed
qed

lemma edit_other_rows:
  assumes "policy_edit_step collate fr sha parse t i e db = (Inr r, db')" and "\<not> (t' = t \<and> i' = i)"
  shows "find_policy t' i' db' = find_policy t' i' db"
proof -
  obtain v e' where e: "e = (v, e')" by (cases e)
  from assms(1) [unfolded e] assms(2) show ?thesis
    by (elim policy_edit_Inr) (auto simp: find_policy_def intro!: find_row_update_other)
qed

lemma publication_kept_edit:
  assumes "policy_edit_step collate fr sha parse t i e db = (Inr r, db')"
  shows "publication_kept db db'"
  unfolding publication_kept_def
proof (intro allI impI, elim conjE)
  fix t' i' p
  assume p: "find_policy t' i' db = Some p" "ap_state p \<noteq> ''DRAFT''"
  show "\<exists>p'. find_policy t' i' db' = Some p' \<and> policy_content p' = policy_content p
      \<and> (ap_state p' = ap_state p \<or> ap_state p = ''ACTIVE'' \<and> ap_state p' = ''INACTIVE'')"
  proof (cases "t' = t \<and> i' = i")
    case True
    with policy_edit_row [OF assms] p show ?thesis
      by (auto simp: policy_table_def split: if_splits)
  next
    case False
    with edit_other_rows [OF assms] p show ?thesis by simp
  qed
qed

lemma publication_kept_create:
  assumes "createActionPolicyDraft collate fr sha parse t env a g actor d db = (Inr r, db')"
  shows "publication_kept db db'"
  using assms
  by (rule createActionPolicyDraft_Inr)
    (auto simp: publication_kept_def find_policy_def insert_row_Some_iff find_row_append)

lemma publication_kept_step:
  assumes "policy_step collate fr sha parse t c db = (Inr a, db')"
  shows "publication_kept db db'"
proof (cases c)
  case (CreateDraft env a g actor d)
  with assms show ?thesis by (auto simp: forget_Inr intro: publication_kept_create)
next
  case (EditPolicy i v e)
  with assms show ?thesis by (auto simp: forget_Inr intro: publication_kept_edit)
next
  case (RegisterRule env inp)
  with assms rules_keep_policies(1) show ?thesis by (auto simp: forget_Inr publication_kept_def find_policy_def)
next
  case (KillRule i on)
  with assms rules_keep_policies(2) show ?thesis by (auto simp: forget_Inr publication_kept_def find_policy_def)
qed

lemma publication_kept_run: "publication_kept db (policy_run collate fr sha parse t cs db)"
  unfolding policy_run_calls
  by (rule pg.run_calls_related [OF publication_kept_refl publication_kept_trans])
    (auto intro: publication_kept_step)

section \<open>Properties\<close>

text \<open>C29: Whatever policy and rule commands run, each in its transaction, an action has at most one active
  policy version and at most one draft, so the policy that decides an automatic action is never
  ambiguous.\<close>

theorem one_policy_in_force:
  assumes "policy_inv db"
    and "x \<in> set (action_policies (policy_run collate fr sha parse t cs db))"
    and "y \<in> set (action_policies (policy_run collate fr sha parse t cs db))"
    and "same_action x y" and "ap_state x = ap_state y" and "ap_state x \<in> {''ACTIVE'', ''DRAFT''}"
  shows "x = y"
proof -
  let ?ps = "action_policies (policy_run collate fr sha parse t cs db)"
  have "unique_rows policy_clash ?ps" "unique_rows draft_clash ?ps"
    using policy_inv_run [OF assms(1)] by (simp_all add: policy_inv_def)
  moreover have "policy_clash x y \<or> draft_clash x y"
    using assms(4-6) by (auto simp: policy_clash_def draft_clash_def)
  ultimately show ?thesis by (elim disjE) (rule unique_rows_clashD [OF _ assms(2,3)]; assumption)+
qed

definition sample_draft :: policy_draft where
  "sample_draft = \<lparr>pd_mode = ''ALLOW'', pd_scope = [(''site'', JStr ''hq'')], pd_constraints = [],
     pd_approval_required = JBool False, pd_effective_from = ''1'', pd_effective_to = None, pd_reason = ''pilot''\<rparr>"

definition policy_env :: "nat \<Rightarrow> call_env" where
  "policy_env k = \<lparr>env_now = 1000, env_iso = [], env_uuid = (\<lambda>n. ''p'' @ replicate k (CHR ''0'')),
     env_valid_event = (\<lambda>_. True)\<rparr>"

definition change :: policy_change where
  "change = \<lparr>pc_policy_id = [], pc_expected_version = JNaN, pc_actor = ''ann'', pc_reason = ''go''\<rparr>"

definition policy_calls :: "policy_call list" where
  "policy_calls =
     [CreateDraft (policy_env 1) ''RESTART_AGENT'' ''AGENT'' ''ann'' sample_draft,
      EditPolicy ''p0'' (JInt 1) (ActivatePolicy (policy_env 0) change),
      CreateDraft (policy_env 2) ''RESTART_AGENT'' ''AGENT'' ''ann'' sample_draft,
      EditPolicy ''p00'' (JInt 1) (ActivatePolicy (policy_env 0) change)]"

definition no_policies :: policy_db where
  "no_policies = \<lparr>action_policies = [], old_rules = []\<rparr>"

definition one_day :: "string \<Rightarrow> int option" where
  "one_day s = (if s = [] then None else Some 0)"

definition sample_policies :: "action_policy list" where
  "sample_policies = action_policies (policy_run id (\<lambda>_. []) id one_day ''t'' policy_calls no_policies)"

theorem one_policy_in_force_witness:
  "map ap_state sample_policies = [''ACTIVE'', ''DRAFT''] \<and>
   hd (filter (\<lambda>p. ap_state p = ''ACTIVE'') sample_policies) = hd sample_policies"
proof
  let ?x = "hd (filter (\<lambda>p. ap_state p = ''ACTIVE'') sample_policies)"
  show "map ap_state sample_policies = [''ACTIVE'', ''DRAFT'']" by code_simp
  have "?x \<in> set sample_policies \<and> hd sample_policies \<in> set sample_policies \<and> same_action ?x (hd sample_policies)
    \<and> ap_state ?x = ap_state (hd sample_policies) \<and> ap_state ?x = ''ACTIVE''" by code_simp
  moreover have "policy_inv no_policies" by (simp add: policy_inv_def no_policies_def)
  ultimately show "?x = hd sample_policies"
    using one_policy_in_force unfolding sample_policies_def by (metis insertI1)
qed

text \<open>C30: Published policy content is frozen: whatever commands follow, a policy version that is no longer a
  draft keeps its mode, scope, constraints, approval flag, interval, hash and reason; an active version
  can only become inactive and an inactive one stays so.\<close>

theorem published_policy_frozen:
  assumes "find_policy u i db = Some p" and "ap_state p \<noteq> ''DRAFT''"
  shows "\<exists>p'. find_policy u i (policy_run collate fr sha parse t cs db) = Some p'
     \<and> policy_content p' = policy_content p
     \<and> (ap_state p' = ap_state p \<or> ap_state p = ''ACTIVE'' \<and> ap_state p' = ''INACTIVE'')"
  using publication_kept_run [of db collate fr sha parse t cs] assms unfolding publication_kept_def by blast

definition active_policies :: policy_db where
  "active_policies = policy_run id (\<lambda>_. []) id one_day ''t'' (take 2 policy_calls) no_policies"

theorem published_policy_frozen_witness:
  "\<exists>p'. find_policy ''t'' ''p0'' (policy_run id (\<lambda>_. []) id one_day ''t''
       [EditPolicy ''p0'' (JInt 2) (UpdateDraft ''bob'' (sample_draft\<lparr>pd_mode := ''DENY''\<rparr>)),
        EditPolicy ''p0'' (JInt 2) (DeactivatePolicy (policy_env 0) change)] active_policies) = Some p'
     \<and> ap_mode p' = ''ALLOW''"
proof -
  let ?p = "hd (action_policies active_policies)"
  have f: "find_policy ''t'' ''p0'' active_policies = Some ?p"
    by code_simp
  moreover have s: "ap_state ?p \<noteq> ''DRAFT''" and m: "ap_mode ?p = ''ALLOW''"
    by code_simp+
  ultimately show ?thesis
    using published_policy_frozen [OF f s] by (fastforce simp: policy_content_def)
qed

end
