(* ===== verification/Doubles.thy ===== *)
theory Doubles
  imports Prelude "HOL-Library.Log_Nat"
begin

text \<open>
  Rounding to a double (IEEE 754 binary64), for the places where the sources test the result of an
  arithmetic operation on a number that need not be an integer: an operation gives the double
  nearest to its exact result, ties to the even significand. Between the rational numbers, \<open>rounded\<close>
  is that double and its distance from the exact result is bounded.
\<close>

definition round_half_even :: "rat \<Rightarrow> int" where
  "round_half_even x =
     (let f = \<lfloor>x\<rfloor>; r = x - of_int f in
      if r < 1/2 then f else if 1/2 < r then f + 1 else if even f then f else f + 1)"

definition two_power :: "int \<Rightarrow> rat" where
  "two_power e = (if 0 \<le> e then 2 ^ nat e else 1 / 2 ^ nat (- e))"

text \<open>The exponent of the leading bit of a positive number.\<close>

definition exponent_of :: "rat \<Rightarrow> int" where
  "exponent_of x =
     (let (p, q) = quotient_of x; k = bitlen p - bitlen q
      in if two_power k \<le> x then k else k - 1)"

text \<open>The distance of the doubles around a number, and the double nearest to it.\<close>

definition double_ulp :: "rat \<Rightarrow> rat" where
  "double_ulp x = two_power (max (exponent_of \<bar>x\<bar>) (- 1022) - 52)"

definition rounded :: "rat \<Rightarrow> rat" where
  "rounded x = (if x = 0 then 0 else of_int (round_half_even (x / double_ulp x)) * double_ulp x)"

definition to_double :: "rat \<Rightarrow> js_number" where
  "to_double x =
     (let y = rounded x in
      if 2 ^ 1024 \<le> \<bar>y\<bar> then JInfinity (0 < x)
      else if y = of_int \<lfloor>y\<rfloor> then JInt \<lfloor>y\<rfloor> else JFrac y)"

text \<open>The product of two numbers, finite ones exactly rounded.\<close>

fun js_times :: "js_number \<Rightarrow> js_number \<Rightarrow> js_number" where
  "js_times JNaN _ = JNaN"
| "js_times _ JNaN = JNaN"
| "js_times (JInfinity s) n = (case n of JInfinity s' \<Rightarrow> JInfinity (s = s')
     | _ \<Rightarrow> if js_rat n = 0 then JNaN else JInfinity (s = (0 < js_rat n)))"
| "js_times n (JInfinity s) = (if js_rat n = 0 then JNaN else JInfinity (s = (0 < js_rat n)))"
| "js_times m n = to_double (js_rat m * js_rat n)"

text \<open>\<open>Math.round\<close>: the nearest integer, ties upwards.\<close>

fun js_round :: "js_number \<Rightarrow> js_number" where
  "js_round (JFrac q) = JInt \<lfloor>q + 1/2\<rfloor>"
| "js_round n = n"

section \<open>What one rounding changes\<close>

text \<open>The rounded number is the exact one up to half a unit in the 53rd bit, keeps the order and keeps whole
  numbers below 2^53.\<close>

lemma round_half_even_of_int [simp]: "round_half_even (of_int n) = n"
  by (simp add: round_half_even_def)

lemma round_half_even_error: "\<bar>of_int (round_half_even x) - x\<bar> \<le> 1 / 2"
proof -
  have "of_int \<lfloor>x\<rfloor> \<le> x" "x < of_int \<lfloor>x\<rfloor> + 1" by linarith+
  then show ?thesis by (auto simp: round_half_even_def Let_def abs_le_iff)
qed

lemma round_half_even_mono:
  assumes "x \<le> y"
  shows "round_half_even x \<le> round_half_even y"
proof (cases "\<lfloor>x\<rfloor> = \<lfloor>y\<rfloor>")
  case True
  with assms show ?thesis by (auto simp: round_half_even_def Let_def)
next
  case False
  with floor_mono [OF assms] have "\<lfloor>x\<rfloor> + 1 \<le> \<lfloor>y\<rfloor>" by simp
  then show ?thesis by (auto simp: round_half_even_def Let_def)
qed

lemma two_power_powi: "two_power e = 2 powi e"
proof (cases "0 \<le> e")
  case False
  then show ?thesis by (simp add: two_power_def power_int_def power_one_over)
qed (simp add: two_power_def power_int_def)

lemma two_power_pos [simp]: "0 < two_power e"
  by (simp add: two_power_def)

lemma two_power_add: "two_power (a + b) = two_power a * two_power b"
  by (simp add: two_power_powi power_int_add)

lemma two_power_mono: "a \<le> b \<Longrightarrow> two_power a \<le> two_power b"
  by (simp add: two_power_powi power_int_increasing)

lemma two_power_less_iff: "two_power a < two_power b \<longleftrightarrow> a < b"
proof
  assume "two_power a < two_power b"
  then show "a < b" using two_power_mono [of b a] by (meson linorder_not_le)
next
  assume "a < b"
  then show "two_power a < two_power b"
    unfolding two_power_powi by (intro power_int_strict_increasing) simp_all
qed

lemma bitlen_two_power:
  assumes "0 < n"
  shows "two_power (bitlen n - 1) \<le> of_int n" and "of_int n < two_power (bitlen n)"
proof -
  have "0 \<le> bitlen n - 1" "0 \<le> bitlen n" using assms bitlen_ge_iff_power [of 1 n] by simp_all
  then have p: "two_power (bitlen n - 1) = of_int (2 ^ nat (bitlen n - 1))"
    "two_power (bitlen n) = of_int (2 ^ nat (bitlen n))"
    unfolding two_power_def by simp_all
  show "two_power (bitlen n - 1) \<le> of_int n" "of_int n < two_power (bitlen n)"
    unfolding p of_int_le_iff of_int_less_iff using bitlen_bounds [OF assms] by blast+
qed

lemma exponent_of_bounds:
  assumes "0 < x"
  shows "two_power (exponent_of x) \<le> x \<and> x < two_power (exponent_of x + 1)"
proof -
  obtain p q where pq: "quotient_of x = (p, q)" by (cases "quotient_of x")
  have q: "0 < q" and x: "x = of_int p / of_int q"
    using quotient_of_denom_pos [OF pq] quotient_of_div [OF pq] by auto
  with assms have p: "0 < p" by (simp add: zero_less_divide_iff)
  note tp = bitlen_two_power
  let ?k = "bitlen p - bitlen q"
  have "two_power (?k - 1) \<le> x"
  proof -
    have "two_power (?k - 1) * of_int q \<le> two_power (?k - 1) * two_power (bitlen q)"
      using tp(2) [OF q] by (intro mult_left_mono) (simp_all add: less_imp_le)
    also have "\<dots> = two_power (bitlen p - 1)" by (simp flip: two_power_add)
    finally have "two_power (?k - 1) * of_int q \<le> of_int p" using tp(1) [OF p] by simp
    with q show ?thesis by (simp add: x le_divide_eq)
  qed
  moreover have "x < two_power (?k + 1)"
  proof -
    have "of_int p < two_power (bitlen p)" by (rule tp(2) [OF p])
    also have "\<dots> = two_power (?k + 1) * two_power (bitlen q - 1)" by (simp flip: two_power_add)
    also have "\<dots> \<le> two_power (?k + 1) * of_int q" using tp(1) [OF q] by (intro mult_left_mono) (simp_all add: less_imp_le)
    finally show ?thesis using q by (simp add: x divide_less_eq)
  qed
  ultimately show ?thesis by (simp add: exponent_of_def pq Let_def)
qed

lemma exponent_of_unique: "two_power e \<le> x \<Longrightarrow> x < two_power (e + 1) \<Longrightarrow> exponent_of x = e"
proof -
  assume e: "two_power e \<le> x" "x < two_power (e + 1)"
  have "0 < x" using e(1) two_power_pos [of e] by linarith
  note b = exponent_of_bounds [OF this]
  have "e < exponent_of x + 1" using e(1) b by (meson two_power_less_iff le_less_trans)
  moreover have "exponent_of x < e + 1" using e(2) b by (meson two_power_less_iff le_less_trans)
  ultimately show ?thesis by simp
qed

lemma double_ulp_pos [simp]: "0 < double_ulp x"
  by (simp add: double_ulp_def)

lemma double_ulp_nonzero [simp]: "double_ulp x \<noteq> 0" "0 \<le> double_ulp x"
  using double_ulp_pos [of x] by linarith+

lemma rounded_zero [simp]: "rounded 0 = 0"
  by (simp add: rounded_def)

lemma rounded_error_ulp: "\<bar>rounded x - x\<bar> \<le> double_ulp x / 2"
proof (cases "x = 0")
  case True
  then show ?thesis using double_ulp_pos [of x] by (simp add: less_imp_le)
next
  case False
  let ?u = "double_ulp x"
  have "rounded x - x = (of_int (round_half_even (x / ?u)) - x / ?u) * ?u"
    using False double_ulp_pos [of x] by (simp add: rounded_def algebra_simps)
  then have "\<bar>rounded x - x\<bar> = \<bar>of_int (round_half_even (x / ?u)) - x / ?u\<bar> * ?u"
    using double_ulp_pos [of x] by (simp add: abs_mult)
  also have "\<dots> \<le> 1 / 2 * ?u" using double_ulp_pos [of x] by (intro mult_right_mono round_half_even_error) simp
  finally show ?thesis by simp
qed

text \<open>The error of one rounding: half a unit in the last place of 53 bits.\<close>

lemma rounded_error: "\<bar>rounded x - x\<bar> \<le> max \<bar>x\<bar> 1 / 2 ^ 53"
proof (cases "x = 0")
  case False
  then have "two_power (exponent_of \<bar>x\<bar>) \<le> \<bar>x\<bar>" by (simp add: exponent_of_bounds)
  moreover have "two_power (- 1022) \<le> 1" by (simp add: two_power_def)
  ultimately have m: "two_power (max (exponent_of \<bar>x\<bar>) (- 1022)) \<le> max \<bar>x\<bar> 1" by (simp add: max_def)
  have "double_ulp x = two_power (max (exponent_of \<bar>x\<bar>) (- 1022)) * two_power (- 52)"
    by (simp add: double_ulp_def flip: two_power_add)
  also have "two_power (- 52) = 1 / 2 ^ 52" by (simp add: two_power_def)
  finally have "double_ulp x / 2 \<le> max \<bar>x\<bar> 1 / 2 ^ 53" using m by simp
  with rounded_error_ulp [of x] show ?thesis by linarith
qed simp

lemma rounded_near:
  assumes "max \<bar>x\<bar> 1 \<le> c"
  shows "x - c / 2 ^ 53 \<le> rounded x" and "rounded x \<le> x + c / 2 ^ 53"
proof -
  have "max \<bar>x\<bar> 1 / 2 ^ 53 \<le> c / 2 ^ 53" using assms by (rule divide_right_mono) simp
  with rounded_error [of x] show "x - c / 2 ^ 53 \<le> rounded x" "rounded x \<le> x + c / 2 ^ 53"
    unfolding abs_le_iff by linarith+
qed

lemma rounded_relative_error:
  assumes "1 / 2 ^ 1022 \<le> \<bar>x\<bar>"
  shows "\<bar>rounded x - x\<bar> \<le> \<bar>x\<bar> / 2 ^ 53"
proof -
  have "0 < \<bar>x\<bar>" using assms by (rule less_le_trans [rotated]) simp
  note b = exponent_of_bounds [OF this]
  have "two_power (- 1022) \<le> \<bar>x\<bar>" using assms by (simp add: two_power_def)
  with b have "two_power (max (exponent_of \<bar>x\<bar>) (- 1022)) \<le> \<bar>x\<bar>" by (simp add: max_def)
  moreover have "double_ulp x = two_power (max (exponent_of \<bar>x\<bar>) (- 1022)) * two_power (- 52)"
    by (simp add: double_ulp_def flip: two_power_add)
  moreover have "two_power (- 52) = 1 / 2 ^ 52" by (simp add: two_power_def)
  ultimately have "double_ulp x / 2 \<le> \<bar>x\<bar> / 2 ^ 53" by simp
  with rounded_error_ulp [of x] show ?thesis by linarith
qed

lemma rounded_exact_multiple: "x = of_int n * double_ulp x \<Longrightarrow> rounded x = x"
proof (cases "x = 0")
  case False
  assume x: "x = of_int n * double_ulp x"
  have "x / double_ulp x = of_int n" by (subst x) (use double_ulp_pos [of x] in simp)
  with False x show ?thesis unfolding rounded_def by simp
qed simp

lemma rounded_of_int:
  assumes "\<bar>n\<bar> < 2 ^ 53"
  shows "rounded (of_int n) = of_int n"
proof (cases "n = 0")
  case False
  let ?e = "exponent_of (of_int \<bar>n\<bar>)"
  have "(0 :: rat) < of_int \<bar>n\<bar>" using False by simp
  note b = exponent_of_bounds [OF this]
  have "two_power ?e < two_power 53"
  proof -
    have "(of_int \<bar>n\<bar> :: rat) < two_power 53" using assms by (simp add: two_power_def del: of_int_abs)
    with b show ?thesis by linarith
  qed
  then have "?e < 53" by (simp add: two_power_less_iff)
  have "two_power 0 \<le> of_int \<bar>n\<bar>" using False by (simp add: two_power_def del: of_int_abs)
  with b have "two_power 0 < two_power (?e + 1)" by linarith
  then have "0 \<le> ?e" by (simp add: two_power_less_iff)
  have u: "double_ulp (of_int n) * 2 ^ nat (52 - ?e) = 1"
    using \<open>0 \<le> ?e\<close> \<open>?e < 53\<close> by (simp add: double_ulp_def two_power_def)
  have "of_int n = of_int (n * 2 ^ nat (52 - ?e)) * double_ulp (of_int n)"
    using u by (simp add: mult.assoc mult.commute)
  then show ?thesis by (rule rounded_exact_multiple)
qed simp

lemma rounded_nonneg: "0 \<le> x \<Longrightarrow> 0 \<le> rounded x"
  using round_half_even_mono [of 0 "x / double_ulp x"] round_half_even_of_int [of 0]
  by (auto simp: rounded_def)

lemma rounded_mono:
  assumes "0 \<le> x" and "x \<le> y"
  shows "rounded x \<le> rounded y"
proof (cases "x = 0")
  case True
  with assms show ?thesis by (simp add: rounded_nonneg)
next
  case False
  with assms have pos: "0 < x" "0 < y" by auto
  let ?E = "\<lambda>z. max (exponent_of z) (- 1022)"
  have ulp: "double_ulp z = two_power (?E z) * two_power (- 52)" if "0 < z" for z
    using that by (simp add: double_ulp_def flip: two_power_add)
  have E: "?E x \<le> ?E y"
  proof -
    have "two_power (exponent_of x) < two_power (exponent_of y + 1)"
      using exponent_of_bounds [OF pos(1)] exponent_of_bounds [OF pos(2)] assms(2) by linarith
    then show ?thesis by (simp add: two_power_less_iff)
  qed
  show ?thesis
  proof (cases "?E x = ?E y")
    case True
    then have u: "double_ulp x = double_ulp y" using pos by (simp add: double_ulp_def)
    have "x / double_ulp x \<le> y / double_ulp x" using assms(2) double_ulp_pos [of x] by (simp add: divide_right_mono less_imp_le)
    from round_half_even_mono [OF this] show ?thesis
      using pos double_ulp_pos [of x] by (simp add: rounded_def u mult_right_mono)
  next
    case False
    with E have less: "?E x + 1 \<le> ?E y" by simp
    have ey: "?E y = exponent_of y" using less by (simp add: max_def split: if_splits)
    have "x < two_power (?E x + 1)"
      using exponent_of_bounds [OF pos(1)] two_power_mono [of "exponent_of x + 1" "?E x + 1"] by simp
    then have "x / double_ulp x \<le> of_int (2 ^ 53)"
      using double_ulp_pos [of x] by (simp add: divide_le_eq ulp pos two_power_add) (simp add: two_power_def)
    from round_half_even_mono [OF this] have "round_half_even (x / double_ulp x) \<le> 2 ^ 53"
      unfolding round_half_even_of_int .
    then have "(of_int (round_half_even (x / double_ulp x)) :: rat) \<le> 2 ^ 53"
      by (metis of_int_le_iff of_int_numeral of_int_power)
    then have "rounded x \<le> 2 ^ 53 * double_ulp x" using pos double_ulp_pos [of x] by (simp add: rounded_def)
    also have "\<dots> = two_power (?E x + 1)" by (simp add: ulp pos two_power_add) (simp add: two_power_def)
    also have "\<dots> \<le> two_power (?E y)" using less by (rule two_power_mono)
    also have "\<dots> = of_int (2 ^ 52) * double_ulp y" by (simp add: ulp pos) (simp add: two_power_def)
    also have "\<dots> \<le> rounded y"
    proof -
      have "two_power (?E y) \<le> y" using exponent_of_bounds [OF pos(2)] by (simp add: ey)
      then have "of_int (2 ^ 52) \<le> y / double_ulp y"
        using double_ulp_pos [of y] by (simp add: le_divide_eq ulp pos) (simp add: two_power_def)
      from round_half_even_mono [OF this] have "2 ^ 52 \<le> round_half_even (y / double_ulp y)"
        unfolding round_half_even_of_int .
      then have "(2 ^ 52 :: rat) \<le> of_int (round_half_even (y / double_ulp y))"
        by (metis of_int_le_iff of_int_numeral of_int_power)
      then show ?thesis using pos double_ulp_pos [of y] by (simp add: rounded_def mult_right_mono)
    qed
    finally show ?thesis .
  qed
qed

lemma rounded_ge_of_int: "0 \<le> n \<Longrightarrow> n < 2 ^ 53 \<Longrightarrow> of_int n \<le> x \<Longrightarrow> of_int n \<le> rounded x"
  using rounded_mono [of "of_int n" x] rounded_of_int [of n] by simp

lemma rounded_le_of_int: "0 \<le> x \<Longrightarrow> n < 2 ^ 53 \<Longrightarrow> x \<le> of_int n \<Longrightarrow> rounded x \<le> of_int n"
proof -
  assume x: "0 \<le> x" "n < 2 ^ 53" "x \<le> of_int n"
  then have "0 \<le> n" by (metis of_int_0_le_iff order_trans)
  with x rounded_mono [of x "of_int n"] rounded_of_int [of n] show ?thesis by simp
qed

end
