(* ===== verification/Edge_Policy.thy ===== *)
theory Edge_Policy
  imports Calendar Doubles "HOL-Library.AList" "HOL-Library.While_Combinator"
begin

text \<open>
  \<open>apps/api/src/edge-policy.ts\<close>: the check every API request passes before its route, a pair of token
  buckets per client address and a bound on the declared body size. A JavaScript \<open>Map\<close> is an
  association list in insertion order. Token counts are doubles: every sum, product and
  quotient of the source is rounded (finite results; a policy whose numbers overflow is outside). Clock
  readings are the integers of \<open>Date.now()\<close>, whose differences are exact.
\<close>

section \<open>Token buckets\<close>

record bucket_policy =
  rate :: rat
  windowSeconds :: rat
  burst :: rat

definition GENERAL_RATE_LIMIT :: bucket_policy where
  "GENERAL_RATE_LIMIT = \<lparr>rate = 300, windowSeconds = 60, burst = 100\<rparr>"

definition MUTATION_RATE_LIMIT :: bucket_policy where
  "MUTATION_RATE_LIMIT = \<lparr>rate = 60, windowSeconds = 60, burst = 20\<rparr>"

definition API_BODY_LIMIT_BYTES :: rat where
  "API_BODY_LIMIT_BYTES = 2 * 1024 * 1024"

record bucket =
  tokens :: rat
  updatedAt :: int
  touchedAt :: int

type_synonym buckets = "(string \<times> bucket) list"

datatype rate_decision = Allowed | Refused int

definition capacity :: "bucket_policy \<Rightarrow> rat" where
  "capacity pol = rounded (rate pol + burst pol)"

definition refillPerMs :: "bucket_policy \<Rightarrow> rat" where
  "refillPerMs pol = rounded (rate pol / rounded (windowSeconds pol * 1000))"

definition idleMs :: "bucket_policy \<Rightarrow> rat" where
  "idleMs pol = rounded (windowSeconds pol * 2000)"

definition prune :: "int \<Rightarrow> rat \<Rightarrow> buckets \<Rightarrow> buckets" where
  "prune now idle bs = filter (\<lambda>(k, b). \<not> idle \<le> of_int (now - touchedAt b)) bs"

text \<open>The loop that drops the oldest insertions; it also stops when there is nothing to drop.\<close>

definition bound :: "int \<Rightarrow> buckets \<Rightarrow> buckets option" where
  "bound maxEntries = while_option (\<lambda>bs. maxEntries < int (length bs) \<and> bs \<noteq> []) tl"

definition refilled :: "int \<Rightarrow> bucket_policy \<Rightarrow> bucket \<Rightarrow> bucket" where
  "refilled now pol b =
     \<lparr>tokens = min (capacity pol)
        (rounded (tokens b + rounded (of_int (max 0 (now - updatedAt b)) * refillPerMs pol))),
      updatedAt = now, touchedAt = now\<rparr>"

definition retryAfter :: "bucket_policy \<Rightarrow> bucket \<Rightarrow> int" where
  "retryAfter pol b = max 1 \<lceil>rounded (rounded (1 - tokens b) / rounded (refillPerMs pol * 1000))\<rceil>"

text \<open>\<open>None\<close> would be a call that does not return.\<close>

definition limiter_consume ::
    "int \<Rightarrow> int \<Rightarrow> string \<Rightarrow> bucket_policy \<Rightarrow> buckets \<Rightarrow> (rate_decision \<times> buckets) option" where
  "limiter_consume maxEntries now key pol bs =
     (let live = prune now (idleMs pol) bs;
          found = (case map_of live key of
                     Some b \<Rightarrow> b
                   | None \<Rightarrow> \<lparr>tokens = capacity pol, updatedAt = now, touchedAt = now\<rparr>);
          b = refilled now pol found in
      if tokens b < 1 then Some (Refused (retryAfter pol b), AList.update key b live)
      else map_option (Pair Allowed)
             (bound maxEntries (AList.update key (b\<lparr>tokens := rounded (tokens b - 1)\<rparr>) live)))"

section \<open>Client addresses\<close>

fun split_on :: "char \<Rightarrow> string \<Rightarrow> string list" where
  "split_on c [] = [[]]"
| "split_on c (x # xs) =
     (if x = c then [] # split_on c xs
      else case split_on c xs of [] \<Rightarrow> [[x]] | w # ws \<Rightarrow> (x # w) # ws)"

definition starts :: "string \<Rightarrow> string \<Rightarrow> bool" where
  "starts p s \<longleftrightarrow> take (length p) s = p"

text \<open>\<open>isIP\<close> of \<open>node:net\<close>: dotted quads without leading zeros, and the eight groups of an IPv6
  address with at most one \<open>::\<close>, an embedded quad at the end and a zone.\<close>

definition octet :: "string \<Rightarrow> bool" where
  "octet s \<longleftrightarrow> s \<noteq> [] \<and> length s \<le> 3 \<and> list_all digit_char s \<and> digits_value s \<le> 255
     \<and> (length s = 1 \<or> hd s \<noteq> CHR ''0'')"

definition is_v4 :: "string \<Rightarrow> bool" where
  "is_v4 s \<longleftrightarrow> length (split_on CHR ''.'' s) = 4 \<and> list_all octet (split_on CHR ''.'' s)"

definition hex_group :: "string \<Rightarrow> bool" where
  "hex_group s \<longleftrightarrow> s \<noteq> [] \<and> length s \<le> 4 \<and> list_all is_hex s"

fun groups :: "string list \<Rightarrow> nat option" where
  "groups [] = Some 0"
| "groups [p] = (if hex_group p then Some 1 else if is_v4 p then Some 2 else None)"
| "groups (p # ps) = (if hex_group p then map_option Suc (groups ps) else None)"

fun double_colon :: "string \<Rightarrow> (string \<times> string) option" where
  "double_colon (x # y # s) =
     (if x = CHR '':'' \<and> y = CHR '':'' then Some ([], s)
      else map_option (\<lambda>(h, r). (x # h, r)) (double_colon (y # s)))"
| "double_colon _ = None"

definition colon_parts :: "string \<Rightarrow> string list" where
  "colon_parts s = (if s = [] then [] else split_on CHR '':'' s)"

definition v6_address :: "string \<Rightarrow> bool" where
  "v6_address s =
     (case double_colon s of
        None \<Rightarrow> groups (colon_parts s) = Some 8
      | Some (h, r) \<Rightarrow> list_all hex_group (colon_parts h)
          \<and> (case groups (colon_parts r) of None \<Rightarrow> False | Some n \<Rightarrow> length (colon_parts h) + n \<le> 7))"

definition zone_char :: "char \<Rightarrow> bool" where
  "zone_char c \<longleftrightarrow> digit_char c \<or> (CHR ''a'' \<le> c \<and> c \<le> CHR ''z'') \<or> (CHR ''A'' \<le> c \<and> c \<le> CHR ''Z'')
     \<or> c \<in> set ''-.:''"

definition is_v6 :: "string \<Rightarrow> bool" where
  "is_v6 s \<longleftrightarrow> v6_address (takeWhile (\<lambda>c. c \<noteq> CHR ''%'') s)
     \<and> (case dropWhile (\<lambda>c. c \<noteq> CHR ''%'') s of [] \<Rightarrow> True | _ # z \<Rightarrow> z \<noteq> [] \<and> list_all zone_char z)"

definition isIP :: "string \<Rightarrow> nat" where
  "isIP s = (if is_v4 s then 4 else if is_v6 s then 6 else 0)"

text \<open>\<open>replace(/^\[|\]$/g, "")\<close>.\<close>

definition strip_brackets :: "string \<Rightarrow> string" where
  "strip_brackets s =
     (let a = (if starts ''['' s then tl s else s)
      in if a \<noteq> [] \<and> last a = CHR '']'' then butlast a else a)"

definition normalizedIp :: "string option \<Rightarrow> string option" where
  "normalizedIp v = (case v of None \<Rightarrow> None | Some s \<Rightarrow>
     if s = [] then None
     else let candidate = strip_brackets (js_trim s)
          in if isIP candidate \<noteq> 0 then Some candidate else None)"

definition isTrustedProxyAddress :: "string \<Rightarrow> bool" where
  "isTrustedProxyAddress v = (case normalizedIp (Some v) of None \<Rightarrow> False | Some ip \<Rightarrow>
     if isIP ip = 6 then ip = ''::1'' \<or> list_ex (\<lambda>p. starts p (js_lower ip))
         [''fc'', ''fd'', ''fe8'', ''fe9'', ''fea'', ''feb'']
     else let o1 = map digits_value (split_on CHR ''.'' ip) in
       o1 ! 0 = 10 \<or> o1 ! 0 = 127 \<or> (o1 ! 0 = 172 \<and> 16 \<le> o1 ! 1 \<and> o1 ! 1 \<le> 31)
       \<or> (o1 ! 0 = 192 \<and> o1 ! 1 = 168) \<or> (o1 ! 0 = 169 \<and> o1 ! 1 = 254))"

text \<open>
  A request as the check reads it: the URL, the method, the peer, the forwarding header where it is a
  single text, and the number its content length header reads as.
\<close>

record edge_request =
  rq_url :: "string option"
  rq_method :: "string option"
  rq_remote :: "string option"
  rq_forwarded :: "string option"
  rq_content_length :: "js_number option"

definition trustedClientIp :: "edge_request \<Rightarrow> string" where
  "trustedClientIp req =
     (case normalizedIp (rq_remote req) of
        None \<Rightarrow> ''unknown''
      | Some remote \<Rightarrow>
          if \<not> isTrustedProxyAddress remote then remote
          else case Option.bind (rq_forwarded req)
                 (\<lambda>f. normalizedIp (Some (hd (split_on CHR '','' f)))) of
                 Some client \<Rightarrow> client
               | None \<Rightarrow> remote)"

section \<open>The check before the route\<close>

record edge_options =
  general_policy :: bucket_policy
  mutation_policy :: bucket_policy
  max_entries :: int

record edge_state =
  general_buckets :: buckets
  mutation_buckets :: buckets

datatype edge_outcome = PassOn | TooLarge | RateLimited int

definition health_paths :: "string list" where
  "health_paths = [''/health/live'', ''/health/ready'', ''/api/v1/health/live'', ''/api/v1/health/ready'']"

definition request_path :: "edge_request \<Rightarrow> string" where
  "request_path req = (case rq_url req of None \<Rightarrow> ''/'' | Some u \<Rightarrow> hd (split_on CHR ''?'' u))"

definition mutation :: "edge_request \<Rightarrow> bool" where
  "mutation req \<longleftrightarrow> (case rq_method req of None \<Rightarrow> False
     | Some m \<Rightarrow> m \<in> set [''POST'', ''PUT'', ''PATCH'', ''DELETE''])"

definition body_check :: "edge_request \<Rightarrow> edge_outcome" where
  "body_check req =
     (let n = (case rq_content_length req of None \<Rightarrow> JInt 0 | Some n \<Rightarrow> n)
      in if is_finite n \<and> API_BODY_LIMIT_BYTES < js_rat n then TooLarge else PassOn)"

fun first_refusal :: "rate_decision list \<Rightarrow> int option" where
  "first_refusal [] = None"
| "first_refusal (Refused r # _) = Some r"
| "first_refusal (Allowed # ds) = first_refusal ds"

definition settle :: "edge_request \<Rightarrow> rate_decision list \<Rightarrow> edge_outcome" where
  "settle req ds = (case first_refusal ds of Some r \<Rightarrow> RateLimited r | None \<Rightarrow> body_check req)"

text \<open>The two limiters read the clock one after the other.\<close>

definition beforeRoute ::
    "edge_options \<Rightarrow> int \<times> int \<Rightarrow> edge_request \<Rightarrow> edge_state \<Rightarrow> (edge_outcome \<times> edge_state) option" where
  "beforeRoute opts now req s =
     (if request_path req \<in> set health_paths \<or> \<not> starts ''/api/v1/'' (request_path req)
      then Some (PassOn, s)
      else case limiter_consume (max_entries opts) (fst now) (trustedClientIp req) (general_policy opts) (general_buckets s) of
        None \<Rightarrow> None
      | Some (d, gb) \<Rightarrow>
          if mutation req
          then map_option (\<lambda>(d', mb). (settle req [d, d'], \<lparr>general_buckets = gb, mutation_buckets = mb\<rparr>))
                 (limiter_consume (max_entries opts) (snd now) (trustedClientIp req) (mutation_policy opts) (mutation_buckets s))
          else Some (settle req [d], s\<lparr>general_buckets := gb\<rparr>))"

section \<open>Limiters as meters\<close>

text \<open>
  A meter admits takings; \<open>level k t s\<close> is what key \<open>k\<close> could take at time \<open>t\<close>, up to a slack with
  every taking of that key. What it admits is bounded by the level at the start, what flows in since and
  the slack of its takings.
\<close>

fun admitted :: "(int \<Rightarrow> string \<Rightarrow> 's \<Rightarrow> (rate_decision \<times> 's) option) \<Rightarrow> string \<Rightarrow> (int \<times> string) list \<Rightarrow> 's \<Rightarrow> nat" where
  "admitted take_one k [] s = 0"
| "admitted take_one k ((t, j) # cs) s =
     (case take_one t j s of
        None \<Rightarrow> 0
      | Some (d, s') \<Rightarrow> (if d = Allowed \<and> j = k then 1 else 0) + admitted take_one k cs s')"

locale metered =
  fixes take_one :: "int \<Rightarrow> string \<Rightarrow> 's \<Rightarrow> (rate_decision \<times> 's) option"
    and level :: "string \<Rightarrow> int \<Rightarrow> 's \<Rightarrow> rat" and ok :: "string set \<Rightarrow> int \<Rightarrow> 's \<Rightarrow> bool" and inflow :: rat and slack :: rat
  assumes level_nonneg: "ok K t s \<Longrightarrow> 0 \<le> level k t s"
    and level_grows: "ok K t s \<Longrightarrow> t \<le> t' \<Longrightarrow> level k t' s \<le> level k t s + inflow * of_int (t' - t)"
    and later_ok: "ok K t s \<Longrightarrow> t \<le> t' \<Longrightarrow> ok K t' s"
    and take_ok: "ok K t s \<Longrightarrow> j \<in> K \<Longrightarrow> take_one t j s = Some (d, s') \<Longrightarrow> ok K t s'"
    and take_level: "ok K t s \<Longrightarrow> j \<in> K \<Longrightarrow> take_one t j s = Some (d, s') \<Longrightarrow>
        level k t s' + (if d = Allowed \<and> j = k then 1 else 0)
          \<le> level k t s + (if j = k then slack else 0)"
    and inflow_nonneg: "0 \<le> inflow" and slack_nonneg: "0 \<le> slack"
begin

lemma admitted_bound:
  assumes "ok K t0 s" and "sorted (t0 # map fst cs)" and "snd ` set cs \<subseteq> K"
  shows "of_nat (admitted take_one k cs s) \<le> level k t0 s + inflow * of_int (last (t0 # map fst cs) - t0)
      + slack * of_nat (length (filter (\<lambda>c. snd c = k) cs))"
  using assms
proof (induction cs arbitrary: t0 s)
  case Nil
  then show ?case by (simp add: level_nonneg)
next
  case (Cons c cs)
  obtain t j where c: "c = (t, j)" by (cases c)
  let ?final = "last (t # map fst cs)"
  from Cons.prems c have t: "t0 \<le> t" and rest: "sorted (t # map fst cs)" "j \<in> K" "snd ` set cs \<subseteq> K" by auto
  have "?final \<in> set (t # map fst cs)" by (rule last_in_set) simp
  with rest(1) have "t \<le> ?final" by auto
  note okt = later_ok [OF Cons.prems(1) t]
  have lev: "level k t s \<le> level k t0 s + inflow * of_int (t - t0)" by (rule level_grows [OF Cons.prems(1) t])
  have split: "inflow * of_int (?final - t0) = inflow * of_int (t - t0) + inflow * of_int (?final - t)"
    by (simp add: algebra_simps)
  have "0 \<le> inflow * of_int (?final - t)" using \<open>t \<le> ?final\<close> inflow_nonneg by simp
  show ?case
  proof (cases "take_one t j s")
    case None
    have "0 \<le> level k t s" using okt by (rule level_nonneg)
    moreover have "0 \<le> slack * of_nat (length (filter (\<lambda>c. snd c = k) (c # cs)))"
      using slack_nonneg by (intro mult_nonneg_nonneg) simp_all
    moreover have "admitted take_one k (c # cs) s = 0" using None by (simp add: c)
    moreover have "last (t0 # map fst (c # cs)) = ?final" by (simp add: c)
    ultimately show ?thesis using lev split \<open>0 \<le> inflow * of_int (?final - t)\<close> by simp
  next
    case (Some r)
    obtain d s' where r: "r = (d, s')" by (cases r)
    from Some r have run: "take_one t j s = Some (d, s')" by simp
    have "of_nat (admitted take_one k cs s') \<le> level k t s' + inflow * of_int (?final - t)
        + slack * of_nat (length (filter (\<lambda>c. snd c = k) cs))"
      by (rule Cons.IH [OF take_ok [OF okt rest(2) run] rest(1,3)])
    with take_level [OF okt rest(2) run, of k] lev split run show ?thesis
      by (cases "j = k"; cases "d = Allowed") (auto simp: c algebra_simps)
  qed
qed

end

section \<open>The limiter is a meter\<close>

text \<open>What a key could take at time \<open>t\<close>: as the limiter computes it, and without its rounding.\<close>

definition available :: "bucket_policy \<Rightarrow> string \<Rightarrow> int \<Rightarrow> buckets \<Rightarrow> rat" where
  "available pol k t bs = (case map_of bs k of
     None \<Rightarrow> capacity pol | Some b \<Rightarrow> tokens (refilled t pol b))"

definition level :: "bucket_policy \<Rightarrow> string \<Rightarrow> int \<Rightarrow> buckets \<Rightarrow> rat" where
  "level pol k t bs = (case map_of bs k of
     None \<Rightarrow> capacity pol
   | Some b \<Rightarrow> min (capacity pol) (tokens b + of_int (max 0 (t - updatedAt b)) * refillPerMs pol))"

text \<open>Policies in whole numbers of ordinary size whose idle time refills a whole bucket, as both
  configured ones.\<close>

definition whole :: "rat \<Rightarrow> bool" where
  "whole x \<longleftrightarrow> of_int \<lfloor>x\<rfloor> = x"

definition policy_ok :: "bucket_policy \<Rightarrow> bool" where
  "policy_ok pol \<longleftrightarrow> whole (rate pol) \<and> whole (windowSeconds pol) \<and> whole (burst pol)
     \<and> 1 \<le> rate pol \<and> rate pol \<le> 2 ^ 20 \<and> 1 \<le> windowSeconds pol \<and> windowSeconds pol \<le> 2 ^ 20
     \<and> 0 \<le> burst pol \<and> burst pol < rate pol"

text \<open>What the rounding of one call can add to a bucket.\<close>

definition slack :: "bucket_policy \<Rightarrow> rat" where
  "slack pol = (rate pol + burst pol) / 2 ^ 51"

definition bucket_ok :: "int \<Rightarrow> bucket \<Rightarrow> bool" where
  "bucket_ok t b \<longleftrightarrow> 0 \<le> tokens b \<and> touchedAt b = updatedAt b \<and> updatedAt b \<le> t"

definition limiter_ok :: "int \<Rightarrow> string set \<Rightarrow> int \<Rightarrow> buckets \<Rightarrow> bool" where
  "limiter_ok m K t bs \<longleftrightarrow> distinct (map fst bs) \<and> (\<forall>(k, b)\<in>set bs. bucket_ok t b) \<and> fst ` set bs \<subseteq> K
     \<and> finite K \<and> int (card K) \<le> m"

subsection \<open>The numbers of a policy\<close>

lemma policy_numbers:
  assumes "policy_ok pol"
  obtains r w c where "rate pol = of_int r" "windowSeconds pol = of_int w" "burst pol = of_int c"
    "1 \<le> r" "r \<le> 2 ^ 20" "1 \<le> w" "w \<le> 2 ^ 20" "0 \<le> c" "c + 1 \<le> r"
proof
  let ?r = "\<lfloor>rate pol\<rfloor>" and ?w = "\<lfloor>windowSeconds pol\<rfloor>" and ?c = "\<lfloor>burst pol\<rfloor>"
  show eqs: "rate pol = of_int ?r" "windowSeconds pol = of_int ?w" "burst pol = of_int ?c"
    using assms unfolding policy_ok_def whole_def by metis+
  show "1 \<le> ?r" "1 \<le> ?w" "0 \<le> ?c" using assms by (simp_all add: policy_ok_def le_floor_iff)
  have "rate pol \<le> of_int (2 ^ 20)" "windowSeconds pol \<le> of_int (2 ^ 20)" using assms by (simp_all add: policy_ok_def)
  then show "?r \<le> 2 ^ 20" "?w \<le> 2 ^ 20" by (metis eqs(1) of_int_le_iff, metis eqs(2) of_int_le_iff)
  have "burst pol < rate pol" using assms by (simp add: policy_ok_def)
  then show "?c + 1 \<le> ?r" by (metis eqs(1,3) of_int_less_iff zless_imp_add1_zle)
qed

lemma capacity_exact:
  assumes "policy_ok pol"
  shows "capacity pol = rate pol + burst pol" and "1 \<le> capacity pol" and "capacity pol \<le> 2 ^ 21"
    and "rounded (capacity pol) = capacity pol"
proof -
  from assms obtain r w c where n: "rate pol = of_int r" "burst pol = of_int c"
    "1 \<le> r" "r \<le> 2 ^ 20" "0 \<le> c" "c + 1 \<le> r" by (rule policy_numbers)
  have e: "rounded (of_int (r + c)) = of_int (r + c)" by (rule rounded_of_int) (use n in simp)
  then show eq: "capacity pol = rate pol + burst pol" by (simp add: capacity_def n)
  show "rounded (capacity pol) = capacity pol" using e by (simp add: eq n)
  have "(of_int 1 :: rat) \<le> of_int (r + c)" "(of_int (r + c) :: rat) \<le> of_int (2 ^ 21)"
    unfolding of_int_le_iff using n(3-) by simp_all
  then show "1 \<le> capacity pol" "capacity pol \<le> 2 ^ 21" by (simp_all add: eq n)
qed

text \<open>The refill is the exact quotient up to the rounding of one division; it is no less than a token in
  2^31 milliseconds.\<close>

lemma refill_bounds:
  assumes "policy_ok pol"
  shows "rate pol / (windowSeconds pol * 1000) * (1 - 1 / 2 ^ 53) \<le> refillPerMs pol"
    and "refillPerMs pol \<le> rate pol / (windowSeconds pol * 1000) * (1 + 1 / 2 ^ 53)"
    and "1 / 2 ^ 31 \<le> refillPerMs pol"
    and "idleMs pol = windowSeconds pol * 2000"
    and "refillPerMs pol = rounded (rate pol / (windowSeconds pol * 1000))"
proof -
  from assms obtain r w where n: "rate pol = of_int r" "windowSeconds pol = of_int w"
    "1 \<le> r" "r \<le> 2 ^ 20" "1 \<le> w" "w \<le> 2 ^ 20" by (rule policy_numbers)
  have ms: "rounded (of_int (w * 1000)) = of_int (w * 1000)" "rounded (of_int (w * 2000)) = of_int (w * 2000)"
    by (rule rounded_of_int; use n in simp)+
  then show idle: "idleMs pol = windowSeconds pol * 2000" by (simp add: idleMs_def n)
  show refill: "refillPerMs pol = rounded (rate pol / (windowSeconds pol * 1000))"
    using ms by (simp add: refillPerMs_def n)
  let ?q = "rate pol / (windowSeconds pol * 1000)"
  have "(of_int w :: rat) * 1000 \<le> 2 ^ 30"
  proof -
    have "(of_int (w * 1000) :: rat) \<le> of_int (2 ^ 30)" unfolding of_int_le_iff using n(6) by simp
    then show ?thesis by simp
  qed
  then have "1 / 2 ^ 30 \<le> 1 / (windowSeconds pol * 1000)" using n(5) unfolding n by (intro divide_left_mono) simp_all
  also have "\<dots> \<le> ?q" using n(3,5) unfolding n by (intro divide_right_mono) simp_all
  finally have q: "1 / 2 ^ 30 \<le> ?q" .
  have "1 / 2 ^ 1022 \<le> \<bar>?q\<bar>" using q by (rule order_trans [rotated, OF order_trans [OF _ abs_ge_self]]) simp
  from rounded_relative_error [OF this] have "\<bar>rounded ?q - ?q\<bar> \<le> ?q / 2 ^ 53" using q by simp
  then have "?q - ?q / 2 ^ 53 \<le> rounded ?q" "rounded ?q \<le> ?q + ?q / 2 ^ 53" by linarith+
  then show low: "?q * (1 - 1 / 2 ^ 53) \<le> refillPerMs pol" and "refillPerMs pol \<le> ?q * (1 + 1 / 2 ^ 53)"
    unfolding refill by (simp_all add: algebra_simps)
  have "1 / 2 ^ 31 \<le> 1 / 2 ^ 30 * (1 - 1 / 2 ^ 53 :: rat)" by simp
  also have "\<dots> \<le> ?q * (1 - 1 / 2 ^ 53)" using q by (rule mult_right_mono) simp
  also note low
  finally show "1 / 2 ^ 31 \<le> refillPerMs pol" .
qed

lemma refill_pos: "policy_ok pol \<Longrightarrow> 0 < refillPerMs pol"
  using refill_bounds(3) [of pol] by (rule less_le_trans [rotated]) simp_all

lemma refill_mono: "policy_ok pol \<Longrightarrow> a \<le> b \<Longrightarrow> of_int a * refillPerMs pol \<le> of_int b * refillPerMs pol"
  using refill_pos [of pol] by (simp add: mult_right_mono)

text \<open>The idle time refills a whole bucket.\<close>

lemma refill_window:
  assumes "policy_ok pol" and "idleMs pol \<le> of_int e"
  shows "capacity pol \<le> of_int e * refillPerMs pol"
proof -
  from assms(1) obtain r w c where n: "rate pol = of_int r" "windowSeconds pol = of_int w" "burst pol = of_int c"
    "1 \<le> r" "r \<le> 2 ^ 20" "1 \<le> w" "c + 1 \<le> r" by (rule policy_numbers)
  have w: "0 < windowSeconds pol" using n by simp
  have "(of_int (c + 1) :: rat) \<le> of_int r" "(of_int r :: rat) \<le> of_int (2 ^ 20)" unfolding of_int_le_iff using n by simp_all
  then have "rate pol + burst pol \<le> 2 * rate pol * (1 - 1 / 2 ^ 53)" by (simp add: n algebra_simps)
  also have "\<dots> = windowSeconds pol * 2000 * (rate pol / (windowSeconds pol * 1000) * (1 - 1 / 2 ^ 53))"
    using w by (simp add: field_simps)
  also have "\<dots> \<le> windowSeconds pol * 2000 * refillPerMs pol"
    using w refill_bounds(1) [OF assms(1)] by (intro mult_left_mono) simp_all
  also have "\<dots> \<le> of_int e * refillPerMs pol"
    using assms(2) refill_pos [OF assms(1)] by (intro mult_right_mono) (simp_all add: refill_bounds(4) [OF assms(1)])
  finally show ?thesis by (simp add: capacity_exact [OF assms(1)])
qed

text \<open>The refill of a bucket against the exact one.\<close>

lemma refill_error:
  assumes "policy_ok pol" and "0 \<le> l" and "0 \<le> e"
  shows "min (capacity pol) (rounded (l + rounded (e * refillPerMs pol)))
     \<le> min (capacity pol) (l + e * refillPerMs pol) + 3 * capacity pol / 2 ^ 53"
proof -
  let ?C = "capacity pol" and ?p = "e * refillPerMs pol"
  note C = capacity_exact(2) [OF assms(1)]
  have p: "0 \<le> ?p" using assms(3) refill_pos [OF assms(1)] by simp
  show ?thesis
  proof (cases "?C \<le> l + ?p")
    case True
    then show ?thesis using C by (simp add: min_def)
  next
    case False
    then have m: "max \<bar>?p\<bar> 1 \<le> ?C" using p assms(2) C by simp
    have a: "rounded ?p \<le> ?p + ?C / 2 ^ 53" by (rule rounded_near(2) [OF m])
    have nn: "0 \<le> rounded ?p" using p by (rule rounded_nonneg)
    have "max \<bar>l + rounded ?p\<bar> 1 \<le> 2 * ?C" using a nn assms(2) False C by simp
    then have "rounded (l + rounded ?p) \<le> l + rounded ?p + 2 * ?C / 2 ^ 53" by (rule rounded_near(2))
    then have "rounded (l + rounded ?p) \<le> l + ?p + 3 * ?C / 2 ^ 53" using a by simp
    then show ?thesis using False by (simp add: min_def)
  qed
qed

subsection \<open>One call\<close>

definition keep :: "int \<Rightarrow> buckets \<Rightarrow> buckets" where
  "keep m bs = drop (length bs - nat m) bs"

lemma bound_keep: "bound m bs = Some (keep m bs)"
proof (induction bs)
  case Nil
  show ?case by (simp add: bound_def keep_def while_option_unfold)
next
  case (Cons b bs)
  show ?case
  proof (cases "m < int (length (b # bs))")
    case True
    then have "length (b # bs) - nat m = Suc (length bs - nat m)" by auto
    with True Cons.IH show ?thesis
      unfolding bound_def keep_def by (subst while_option_unfold) simp
  next
    case False
    then show ?thesis unfolding bound_def keep_def by (subst while_option_unfold) simp
  qed
qed

lemma length_keep: "length (keep m bs) = min (length bs) (nat m)"
  by (simp add: keep_def)

lemma keep_all: "int (length bs) \<le> m \<Longrightarrow> keep m bs = bs"
  by (simp add: keep_def)

lemma prune_subset: "set (prune t i bs) \<subseteq> set bs"
  by (auto simp: prune_def)

lemma distinct_prune: "distinct (map fst bs) \<Longrightarrow> distinct (map fst (prune t i bs))"
  by (auto simp: prune_def distinct_map inj_on_def)

lemma map_of_prune:
  assumes "distinct (map fst bs)"
  shows "map_of (prune t i bs) k = (case map_of bs k of None \<Rightarrow> None
    | Some b \<Rightarrow> if i \<le> of_int (t - touchedAt b) then None else Some b)"
  using assms
proof (induction bs)
  case (Cons x bs)
  obtain j b where x: "x = (j, b)" by (cases x)
  have "k = j \<Longrightarrow> map_of (prune t i bs) k = None"
    using Cons.prems x by (auto simp: map_of_eq_None_iff prune_def)
  with Cons x show ?case by (cases "j = k") (auto simp: prune_def)
qed (simp add: prune_def)

text \<open>A bucket idle for two windows would be full: forgetting it changes nothing.\<close>

lemma refilled_tokens:
  "tokens (refilled t pol b) =
     min (capacity pol) (rounded (tokens b + rounded (of_int (max 0 (t - updatedAt b)) * refillPerMs pol)))"
  by (simp add: refilled_def)

lemma idle_full:
  assumes "policy_ok pol" and "bucket_ok t b" and "idleMs pol \<le> of_int (t - touchedAt b)" and "t \<le> t'"
  shows "tokens (refilled t' pol b) = capacity pol"
    and "min (capacity pol) (tokens b + of_int (max 0 (t' - updatedAt b)) * refillPerMs pol) = capacity pol"
proof -
  let ?p = "of_int (max 0 (t' - updatedAt b)) * refillPerMs pol"
  note C = capacity_exact(2,4) [OF assms(1)]
  have "idleMs pol \<le> of_int (max 0 (t' - updatedAt b))"
    by (rule order_trans [OF assms(3)], unfold of_int_le_iff) (use assms(2,4) in \<open>simp add: bucket_ok_def\<close>)
  then have p: "capacity pol \<le> ?p" by (rule refill_window [OF assms(1)])
  have l: "0 \<le> tokens b" using assms(2) by (simp add: bucket_ok_def)
  have "rounded (capacity pol) \<le> rounded ?p" by (rule rounded_mono) (use C(1) p in linarith)+
  then have "rounded (capacity pol) \<le> rounded (tokens b + rounded ?p)"
    by (intro rounded_mono) (use C l in linarith)+
  then show "tokens (refilled t' pol b) = capacity pol" by (simp add: refilled_tokens C(2) min_def)
  show "min (capacity pol) (tokens b + ?p) = capacity pol" using p l by (simp add: min_def)
qed

lemma available_prune:
  assumes "policy_ok pol" and "distinct (map fst bs)" and "\<forall>(k, b)\<in>set bs. bucket_ok t b" and "t \<le> t'"
  shows "available pol k t' (prune t (idleMs pol) bs) = available pol k t' bs"
    and "level pol k t' (prune t (idleMs pol) bs) = level pol k t' bs"
proof -
  have ok: "bucket_ok t b" if "map_of bs k = Some b" for b
    using assms(3) that by (auto dest: map_of_SomeD)
  note full = idle_full [OF assms(1) ok _ assms(4)]
  show "available pol k t' (prune t (idleMs pol) bs) = available pol k t' bs"
    by (auto simp: available_def map_of_prune [OF assms(2)] full(1) split: option.split)
  show "level pol k t' (prune t (idleMs pol) bs) = level pol k t' bs"
    by (auto simp: level_def map_of_prune [OF assms(2)] full(2) split: option.split)
qed

text \<open>The bucket a call leaves behind.\<close>

definition charged :: "rat \<Rightarrow> int \<Rightarrow> bucket" where
  "charged l t = \<lparr>tokens = l, updatedAt = t, touchedAt = t\<rparr>"

lemma refilled_full:
  "policy_ok pol \<Longrightarrow> refilled t pol \<lparr>tokens = capacity pol, updatedAt = t, touchedAt = t\<rparr> = charged (capacity pol) t"
  by (simp add: refilled_def charged_def capacity_exact(4))

lemma limiter_consume_available:
  assumes "policy_ok pol" and "distinct (map fst bs)" and "\<forall>(k, b)\<in>set bs. bucket_ok t b"
  shows "limiter_consume m t k pol bs =
    (let live = prune t (idleMs pol) bs; l = available pol k t bs in
     if l < 1 then Some (Refused (retryAfter pol (charged l t)), AList.update k (charged l t) live)
     else Some (Allowed, keep m (AList.update k (charged (rounded (l - 1)) t) live)))"
proof -
  let ?live = "prune t (idleMs pol) bs"
  have "refilled t pol (case map_of ?live k of Some b \<Rightarrow> b
        | None \<Rightarrow> \<lparr>tokens = capacity pol, updatedAt = t, touchedAt = t\<rparr>) = charged (available pol k t ?live) t"
    by (auto simp: refilled_full [OF assms(1)] available_def split: option.split)
       (simp_all add: refilled_def charged_def)
  then show ?thesis
    by (simp add: limiter_consume_def Let_def bound_keep available_prune(1) [OF assms order_refl])
       (simp add: charged_def)
qed

lemma limiter_consume_total: "limiter_consume m t k pol bs \<noteq> None"
  by (simp add: limiter_consume_def Let_def bound_keep)

lemma available_bounds:
  assumes "policy_ok pol" and "\<forall>(k, b)\<in>set bs. bucket_ok t b"
  shows "0 \<le> available pol k t bs" and "available pol k t bs \<le> capacity pol"
    and "available pol k t bs \<le> level pol k t bs + 3 * capacity pol / 2 ^ 53"
    and "0 \<le> level pol k t bs"
proof -
  note C = capacity_exact(2) [OF assms(1)]
  have b: "0 \<le> tokens b" if "map_of bs k = Some b" for b
    using assms(2) that by (auto simp: bucket_ok_def dest: map_of_SomeD)
  have p: "0 \<le> of_int (max 0 (t - updatedAt b)) * refillPerMs pol" for b
    using refill_pos [OF assms(1)] by simp
  have r: "0 \<le> rounded (tokens b + rounded (of_int (max 0 (t - updatedAt b)) * refillPerMs pol))"
    if "map_of bs k = Some b" for b
    using b [OF that] p [of b] by (intro rounded_nonneg add_nonneg_nonneg) simp_all
  show "0 \<le> available pol k t bs" using C r by (auto simp: available_def refilled_tokens split: option.split)
  show "0 \<le> level pol k t bs" using C add_nonneg_nonneg [OF b p] by (auto simp: level_def split: option.split)
  show "available pol k t bs \<le> capacity pol"
    by (simp add: available_def refilled_tokens split: option.split)
  show "available pol k t bs \<le> level pol k t bs + 3 * capacity pol / 2 ^ 53"
  proof (cases "map_of bs k")
    case None
    then show ?thesis using C by (simp add: available_def level_def)
  next
    case (Some b)
    then show ?thesis
      using refill_error [OF assms(1) b [OF Some], of "of_int (max 0 (t - updatedAt b))"]
      by (simp add: available_def level_def refilled_tokens)
  qed
qed

lemma level_grows:
  assumes "policy_ok pol" and "\<forall>(k, b)\<in>set bs. bucket_ok t b" and "t \<le> t'"
  shows "level pol k t' bs \<le> level pol k t bs + refillPerMs pol * of_int (t' - t)"
proof (cases "map_of bs k")
  case None
  then show ?thesis using assms(3) refill_pos [OF assms(1)] by (simp add: level_def)
next
  case (Some b)
  with assms(2) have b: "updatedAt b \<le> t" by (auto simp: bucket_ok_def dest: map_of_SomeD)
  have "of_int (t' - updatedAt b) * refillPerMs pol =
      of_int (t - updatedAt b) * refillPerMs pol + refillPerMs pol * of_int (t' - t)"
    by (simp add: algebra_simps)
  moreover have "0 \<le> refillPerMs pol * of_int (t' - t)" using assms(3) refill_pos [OF assms(1)] by simp
  ultimately show ?thesis using Some b assms(3) by (simp add: level_def min_def max_def)
qed

lemma level_charged:
  "level pol k t (AList.update j (charged l t) bs) =
     (if k = j then min (capacity pol) l else level pol k t bs)"
  by (auto simp: level_def charged_def update_conv')

lemma available_charged:
  "available pol k t' (AList.update j (charged l t) bs) =
     (if k = j then min (capacity pol) (rounded (l + rounded (of_int (max 0 (t' - t)) * refillPerMs pol)))
      else available pol k t' bs)"
  by (auto simp: available_def charged_def update_conv' refilled_tokens)

lemma card_keys: "distinct (map fst bs) \<Longrightarrow> length bs = card (fst ` set bs)"
  by (metis distinct_card length_map set_map)

lemma limiter_ok_update:
  assumes "limiter_ok m K t bs" and "j \<in> K" and "0 \<le> l"
  shows "limiter_ok m K t (AList.update j (charged l t) (prune t i bs))"
    and "int (length (AList.update j (charged l t) (prune t i bs))) \<le> m"
proof -
  let ?bs = "AList.update j (charged l t) (prune t i bs)"
  have d: "distinct (map fst ?bs)"
    using assms(1) by (intro distinct_update distinct_prune) (simp add: limiter_ok_def)
  have keys: "fst ` set ?bs \<subseteq> K"
    using assms(1,2) prune_subset [of t i bs] unfolding dom_update [symmetric]
    by (auto simp: limiter_ok_def dom_update image_iff)
  have sub: "set ?bs \<subseteq> insert (j, charged l t) (set (prune t i bs))"
  proof
    fix x assume x: "x \<in> set ?bs"
    then have "map_of ?bs (fst x) = Some (snd x)" using d by simp
    then show "x \<in> insert (j, charged l t) (set (prune t i bs))"
      by (cases x) (auto simp: update_conv' split: if_splits dest: map_of_SomeD)
  qed
  from d have "length ?bs = card (fst ` set ?bs)" by (rule card_keys)
  also have "\<dots> \<le> card K" using keys assms(1) by (intro card_mono) (auto simp: limiter_ok_def)
  finally show "int (length ?bs) \<le> m" using assms(1) by (simp add: limiter_ok_def)
  have "\<forall>(k, b)\<in>set ?bs. bucket_ok t b"
    using sub assms(1,3) prune_subset [of t i bs]
    by (fastforce simp: limiter_ok_def bucket_ok_def charged_def)
  with d keys assms(1) show "limiter_ok m K t ?bs" by (simp add: limiter_ok_def)
qed

lemma limiter_ok_parts:
  "limiter_ok m K t bs \<Longrightarrow> distinct (map fst bs) \<and> (\<forall>(k, b)\<in>set bs. bucket_ok t b)"
  by (simp add: limiter_ok_def)

lemma limiter_consume_effect:
  assumes pol: "policy_ok pol" and ok: "limiter_ok m K t bs" and j: "j \<in> K"
    and run: "limiter_consume m t j pol bs = Some (d, bs')"
  shows "limiter_ok m K t bs'"
    and "d = Allowed \<longleftrightarrow> 1 \<le> available pol j t bs"
    and "level pol k t bs' + (if d = Allowed \<and> j = k then 1 else 0)
      \<le> level pol k t bs + (if j = k then slack pol else 0)"
    and "k \<noteq> j \<Longrightarrow> t \<le> t' \<Longrightarrow> available pol k t' bs' = available pol k t' bs"
    and "d \<noteq> Allowed \<Longrightarrow> d = Refused (retryAfter pol (charged (available pol j t bs) t))
      \<and> available pol j t' bs' = min (capacity pol)
          (rounded (available pol j t bs + rounded (of_int (max 0 (t' - t)) * refillPerMs pol)))"
proof -
  note parts = conjunct1 [OF limiter_ok_parts [OF ok]] conjunct2 [OF limiter_ok_parts [OF ok]]
  let ?live = "prune t (idleMs pol) bs" and ?l = "available pol j t bs"
  note a = available_bounds [OF pol parts(2), of j]
  note run' = run [unfolded limiter_consume_available [OF pol parts] Let_def]
  define l where "l = (if ?l < 1 then ?l else rounded (?l - 1))"
  have l: "0 \<le> l" using a(1) by (simp add: l_def rounded_nonneg)
  note upd = limiter_ok_update [OF ok j l, where i = "idleMs pol"]
  have bs': "bs' = AList.update j (charged l t) ?live"
    using run' upd(2) by (auto simp: l_def keep_all split: if_splits)
  show "limiter_ok m K t bs'" using upd(1) by (simp add: bs')
  show d: "d = Allowed \<longleftrightarrow> 1 \<le> ?l" using run' by (auto split: if_splits)
  show "available pol k t' bs' = available pol k t' bs" if "k \<noteq> j" "t \<le> t'"
    using that by (simp add: bs' available_charged available_prune(1) [OF pol parts])
  show "d = Refused (retryAfter pol (charged ?l t)) \<and> available pol j t' bs' = min (capacity pol)
      (rounded (?l + rounded (of_int (max 0 (t' - t)) * refillPerMs pol)))" if "d \<noteq> Allowed"
    using that d run' by (auto simp: bs' available_charged l_def split: if_splits)
  show "level pol k t bs' + (if d = Allowed \<and> j = k then 1 else 0)
      \<le> level pol k t bs + (if j = k then slack pol else 0)"
  proof (cases "k = j")
    case True
    note C = capacity_exact [OF pol]
    have "l + (if d = Allowed then 1 else 0) \<le> ?l + capacity pol / 2 ^ 53"
    proof (cases "?l < 1")
      case False
      have "max \<bar>?l - 1\<bar> 1 \<le> capacity pol" using False a(2) C(2) by simp
      then have "rounded (?l - 1) \<le> ?l - 1 + capacity pol / 2 ^ 53" by (rule rounded_near(2))
      with False d show ?thesis by (simp add: l_def)
    qed (use d C(2) in \<open>simp add: l_def\<close>)
    then have "l + (if d = Allowed then 1 else 0) \<le> level pol j t bs + 4 * capacity pol / 2 ^ 53" using a(3) by simp
    moreover have "4 * capacity pol / 2 ^ 53 = slack pol" by (simp add: slack_def C(1))
    moreover have "level pol j t bs' \<le> l" by (simp add: bs' level_charged)
    ultimately show ?thesis using True by simp
  next
    case False
    then show ?thesis by (auto simp: bs' level_charged available_prune(2) [OF pol parts order_refl])
  qed
qed

lemma slack_not_negative: "policy_ok pol \<Longrightarrow> 0 \<le> slack pol"
  using capacity_exact(1,2) [of pol] by (simp add: slack_def)

lemma limiter_metered:
  assumes "policy_ok pol"
  shows "metered (\<lambda>t j. limiter_consume m t j pol) (level pol) (limiter_ok m) (refillPerMs pol) (slack pol)"
proof
  show "0 \<le> refillPerMs pol" using refill_pos [OF assms] by simp
  show "0 \<le> slack pol" by (rule slack_not_negative [OF assms])
next
  fix K t s j d s' k
  assume ok: "limiter_ok m K t s" "j \<in> K" "limiter_consume m t j pol s = Some (d, s')"
  show "limiter_ok m K t s'" by (rule limiter_consume_effect(1) [OF assms ok])
  show "level pol k t s' + (if d = Allowed \<and> j = k then 1 else 0) \<le> level pol k t s + (if j = k then slack pol else 0)"
    by (rule limiter_consume_effect(3) [OF assms ok])
next
  fix K t s k assume "limiter_ok m K t s"
  then show "0 \<le> level pol k t s" by (simp add: limiter_ok_parts available_bounds(4) [OF assms])
next
  fix K t s t' k assume "limiter_ok m K t s" and "t \<le> (t' :: int)"
  then show "level pol k t' s \<le> level pol k t s + refillPerMs pol * of_int (t' - t)"
    by (intro level_grows [OF assms]) (simp_all add: limiter_ok_parts)
qed (fastforce simp: limiter_ok_def bucket_ok_def)

lemma policies_ok: "policy_ok GENERAL_RATE_LIMIT" "policy_ok MUTATION_RATE_LIMIT"
  by (simp_all add: policy_ok_def whole_def GENERAL_RATE_LIMIT_def MUTATION_RATE_LIMIT_def)

interpretation general_limiter: metered "\<lambda>t j. limiter_consume m t j GENERAL_RATE_LIMIT"
    "level GENERAL_RATE_LIMIT" "limiter_ok m" "refillPerMs GENERAL_RATE_LIMIT" "slack GENERAL_RATE_LIMIT" for m
  by (rule limiter_metered [OF policies_ok(1)])

interpretation mutation_limiter: metered "\<lambda>t j. limiter_consume m t j MUTATION_RATE_LIMIT"
    "level MUTATION_RATE_LIMIT" "limiter_ok m" "refillPerMs MUTATION_RATE_LIMIT" "slack MUTATION_RATE_LIMIT" for m
  by (rule limiter_metered [OF policies_ok(2)])

section \<open>Requests through the edge\<close>

text \<open>The requests a limiter counts, and how many of them a run passes on to their routes.\<close>

definition limited :: "edge_request \<Rightarrow> bool" where
  "limited req \<longleftrightarrow> request_path req \<notin> set health_paths \<and> starts ''/api/v1/'' (request_path req)"

fun edge_passes ::
    "edge_options \<Rightarrow> (edge_request \<Rightarrow> bool) \<Rightarrow> ((int \<times> int) \<times> edge_request) list \<Rightarrow> edge_state \<Rightarrow> nat" where
  "edge_passes opts p [] s = 0"
| "edge_passes opts p ((now, req) # rs) s =
     (case beforeRoute opts now req s of
        None \<Rightarrow> 0
      | Some (out, s') \<Rightarrow> (if out = PassOn \<and> p req then 1 else 0) + edge_passes opts p rs s')"

definition general_calls :: "((int \<times> int) \<times> edge_request) list \<Rightarrow> (int \<times> string) list" where
  "general_calls rs = map (\<lambda>(now, req). (fst now, trustedClientIp req)) (filter (\<lambda>(now, req). limited req) rs)"

definition mutation_calls :: "((int \<times> int) \<times> edge_request) list \<Rightarrow> (int \<times> string) list" where
  "mutation_calls rs = map (\<lambda>(now, req). (snd now, trustedClientIp req))
     (filter (\<lambda>(now, req). limited req \<and> mutation req) rs)"

lemma settle_PassOn: "settle req ds = PassOn \<longleftrightarrow> set ds \<subseteq> {Allowed} \<and> body_check req = PassOn"
  by (induction ds rule: first_refusal.induct)
     (auto simp: settle_def body_check_def Let_def split: option.splits)

lemma limiter_consume_some: obtains d bs' where "limiter_consume m t k pol bs = Some (d, bs')"
  using limiter_consume_total [of m t k pol bs] by auto

lemma beforeRoute_free: "\<not> limited req \<Longrightarrow> beforeRoute opts now req s = Some (PassOn, s)"
  by (auto simp: beforeRoute_def limited_def)

text \<open>A limited request: the decisions it gets and the tables it leaves.\<close>

lemma beforeRoute_limited:
  assumes "limited req"
  obtains d gb d' mb where
    "limiter_consume (max_entries opts) (fst now) (trustedClientIp req) (general_policy opts) (general_buckets s) = Some (d, gb)"
    "limiter_consume (max_entries opts) (snd now) (trustedClientIp req) (mutation_policy opts) (mutation_buckets s) = Some (d', mb)"
    "beforeRoute opts now req s = Some (if mutation req
       then (settle req [d, d'], \<lparr>general_buckets = gb, mutation_buckets = mb\<rparr>)
       else (settle req [d], s\<lparr>general_buckets := gb\<rparr>))"
proof -
  obtain d gb where c: "limiter_consume (max_entries opts) (fst now) (trustedClientIp req) (general_policy opts)
      (general_buckets s) = Some (d, gb)" by (rule limiter_consume_some)
  obtain d' mb where c': "limiter_consume (max_entries opts) (snd now) (trustedClientIp req) (mutation_policy opts)
      (mutation_buckets s) = Some (d', mb)" by (rule limiter_consume_some)
  from c c' assms show thesis by (intro that [OF c c']) (simp add: beforeRoute_def limited_def)
qed

lemma passes_general:
  "edge_passes opts (\<lambda>r. limited r \<and> trustedClientIp r = k) rs s
     \<le> admitted (\<lambda>t j. limiter_consume (max_entries opts) t j (general_policy opts)) k (general_calls rs) (general_buckets s)"
proof (induction rs arbitrary: s)
  case (Cons r rs)
  obtain now req where r: "r = (now, req)" by (cases r)
  show ?case
  proof (cases "limited req")
    case True
    then obtain d gb d' mb where calls:
      "limiter_consume (max_entries opts) (fst now) (trustedClientIp req) (general_policy opts) (general_buckets s) = Some (d, gb)"
      "beforeRoute opts now req s = Some (if mutation req
         then (settle req [d, d'], \<lparr>general_buckets = gb, mutation_buckets = mb\<rparr>)
         else (settle req [d], s\<lparr>general_buckets := gb\<rparr>))"
      by (rule beforeRoute_limited)
    obtain out s' where out: "beforeRoute opts now req s = Some (out, s')" "general_buckets s' = gb"
      "out = PassOn \<Longrightarrow> d = Allowed"
      using calls(2) by (cases "mutation req") (auto simp: settle_PassOn)
    from out(3) True calls(1) out(1,2) Cons.IH [of s'] show ?thesis by (auto simp: r general_calls_def)
  next
    case False
    with Cons.IH [of s] show ?thesis by (simp add: r beforeRoute_free general_calls_def)
  qed
qed simp

lemma passes_mutations:
  "edge_passes opts (\<lambda>r. limited r \<and> mutation r \<and> trustedClientIp r = k) rs s
     \<le> admitted (\<lambda>t j. limiter_consume (max_entries opts) t j (mutation_policy opts)) k (mutation_calls rs) (mutation_buckets s)"
proof (induction rs arbitrary: s)
  case (Cons r rs)
  obtain now req where r: "r = (now, req)" by (cases r)
  show ?case
  proof (cases "limited req")
    case True
    then obtain d gb d' mb where calls:
      "limiter_consume (max_entries opts) (snd now) (trustedClientIp req) (mutation_policy opts) (mutation_buckets s) = Some (d', mb)"
      "beforeRoute opts now req s = Some (if mutation req
         then (settle req [d, d'], \<lparr>general_buckets = gb, mutation_buckets = mb\<rparr>)
         else (settle req [d], s\<lparr>general_buckets := gb\<rparr>))"
      by (rule beforeRoute_limited)
    obtain out s' where out: "beforeRoute opts now req s = Some (out, s')"
      "mutation_buckets s' = (if mutation req then mb else mutation_buckets s)"
      "mutation req \<Longrightarrow> out = PassOn \<Longrightarrow> d' = Allowed"
      using calls(2) by (cases "mutation req") (auto simp: settle_PassOn)
    from out True calls(1) Cons.IH [of s'] show ?thesis
      by (cases "mutation req") (auto simp: r mutation_calls_def)
  next
    case False
    with Cons.IH [of s] show ?thesis by (simp add: r beforeRoute_free mutation_calls_def)
  qed
qed simp


lemma level_le_capacity: "level pol k t bs \<le> capacity pol"
  by (simp add: level_def split: option.split)

lemma sorted_calls:
  assumes "sorted (t0 # map f rs)"
  shows "sorted (t0 # map f (filter p rs))"
  using assms by (auto intro: sorted_filter)

lemma general_calls_of:
  "length (filter (\<lambda>c. snd c = k) (general_calls rs)) =
     length (filter (\<lambda>r. limited (snd r) \<and> trustedClientIp (snd r) = k) rs)"
  by (induction rs) (auto simp: general_calls_def split_beta)

lemma mutation_calls_of:
  "length (filter (\<lambda>c. snd c = k) (mutation_calls rs)) =
     length (filter (\<lambda>r. limited (snd r) \<and> mutation (snd r) \<and> trustedClientIp (snd r) = k) rs)"
  by (induction rs) (auto simp: mutation_calls_def split_beta)

text \<open>The bound of a policy: a full bucket, the refill of the time with the rounding of its division, and the
  slack of \<open>n\<close> calls.\<close>

definition policy_bound :: "bucket_policy \<Rightarrow> int \<Rightarrow> nat \<Rightarrow> rat" where
  "policy_bound pol elapsed n =
     rate pol + burst pol + rate pol * of_int elapsed / (windowSeconds pol * 1000) * (1 + 1 / 2 ^ 53)
       + slack pol * of_nat n"

lemma admitted_in_time:
  assumes pol: "policy_ok pol" and ok: "limiter_ok m K t0 bs" and srt: "sorted (t0 # map fst cs)"
    and keys: "snd ` set cs \<subseteq> K" and t1: "t0 \<le> t1" "\<forall>c\<in>set cs. fst c \<le> t1"
  shows "of_nat (admitted (\<lambda>t j. limiter_consume m t j pol) k cs bs)
     \<le> policy_bound pol (t1 - t0) (length (filter (\<lambda>c. snd c = k) cs))"
proof -
  let ?final = "last (t0 # map fst cs)" and ?e = "of_int (t1 - t0) :: rat"
  have "?final \<in> set (t0 # map fst cs)" by (rule last_in_set) simp
  with t1 have "?final \<le> t1" by auto
  then have "refillPerMs pol * of_int (?final - t0) \<le> refillPerMs pol * ?e"
    using refill_pos [OF pol] by (intro mult_left_mono) auto
  moreover have "refillPerMs pol * ?e \<le> rate pol / (windowSeconds pol * 1000) * (1 + 1 / 2 ^ 53) * ?e"
    using t1(1) by (intro mult_right_mono refill_bounds(2) [OF pol]) simp
  moreover have "of_nat (admitted (\<lambda>t j. limiter_consume m t j pol) k cs bs)
      \<le> level pol k t0 bs + refillPerMs pol * of_int (?final - t0) + slack pol * of_nat (length (filter (\<lambda>c. snd c = k) cs))"
    by (rule metered.admitted_bound [OF limiter_metered [OF pol] ok srt keys])
  moreover have "level pol k t0 bs \<le> rate pol + burst pol"
    using level_le_capacity [of pol k t0 bs] by (simp add: capacity_exact(1) [OF pol])
  moreover have "rate pol / (windowSeconds pol * 1000) * (1 + 1 / 2 ^ 53) * ?e
      = rate pol * ?e / (windowSeconds pol * 1000) * (1 + 1 / 2 ^ 53)" by (simp add: field_simps)
  ultimately show ?thesis unfolding policy_bound_def by linarith
qed

section \<open>Properties\<close>

definition tight_policy :: edge_options where
  "tight_policy = \<lparr>general_policy = \<lparr>rate = 2, windowSeconds = 60, burst = 1\<rparr>,
     mutation_policy = \<lparr>rate = 1, windowSeconds = 60, burst = 0\<rparr>, max_entries = 10\<rparr>"

definition no_buckets :: edge_state where
  "no_buckets = \<lparr>general_buckets = [], mutation_buckets = []\<rparr>"

definition api_request :: "string \<Rightarrow> string \<Rightarrow> edge_request" where
  "api_request m peer = \<lparr>rq_url = Some ''/api/v1/x?a=1'', rq_method = Some m, rq_remote = Some peer,
     rq_forwarded = Some ''203.0.113.7, 10.0.0.9'', rq_content_length = None\<rparr>"

text \<open>C20: Of the requests the edge limits (those under \<open>/api/v1/\<close> except the health checks; it passes all others
  on uncounted), the ones of one client address that pass within a stretch of time are at most rate + burst
  plus the refill of that time, and its mutations also keep to their own policy; the rounding of the
  limiter's doubles adds at most \<open>slack\<close>, (rate + burst) / 2^51, with each of its requests and one part in
  2^53 to the refill. For policies in whole numbers up to 2^20 with the burst below the rate, as both
  configured ones; the clock does not step back and the addresses seen fit in the limiter.\<close>

theorem client_requests_bounded:
  assumes "policy_ok (general_policy opts)" and "policy_ok (mutation_policy opts)"
    and "limiter_ok (max_entries opts) K t0 (general_buckets s)"
    and "limiter_ok (max_entries opts) K t0 (mutation_buckets s)"
    and "sorted (t0 # map (fst \<circ> fst) rs)" and "sorted (t0 # map (snd \<circ> fst) rs)"
    and "\<forall>r\<in>set rs. trustedClientIp (snd r) \<in> K \<and> fst (fst r) \<le> t1 \<and> snd (fst r) \<le> t1" and "t0 \<le> t1"
  shows "of_nat (edge_passes opts (\<lambda>r. limited r \<and> trustedClientIp r = k) rs s)
      \<le> policy_bound (general_policy opts) (t1 - t0)
          (length (filter (\<lambda>r. limited (snd r) \<and> trustedClientIp (snd r) = k) rs))
    \<and> of_nat (edge_passes opts (\<lambda>r. limited r \<and> mutation r \<and> trustedClientIp r = k) rs s)
      \<le> policy_bound (mutation_policy opts) (t1 - t0)
          (length (filter (\<lambda>r. limited (snd r) \<and> mutation (snd r) \<and> trustedClientIp (snd r) = k) rs))"
proof
  let ?g = "general_calls rs" and ?m = "mutation_calls rs"
  have "sorted (t0 # map fst ?g)" using sorted_calls [OF assms(5), of "\<lambda>(now, req). limited req"]
    by (simp add: general_calls_def comp_def split_beta)
  moreover have "snd ` set ?g \<subseteq> K" "\<forall>c\<in>set ?g. fst c \<le> t1" using assms(7) by (auto simp: general_calls_def)
  ultimately have "of_nat (admitted (\<lambda>t j. limiter_consume (max_entries opts) t j (general_policy opts)) k ?g (general_buckets s))
      \<le> policy_bound (general_policy opts) (t1 - t0) (length (filter (\<lambda>c. snd c = k) ?g))"
    using assms(8) by (intro admitted_in_time [OF assms(1,3)])
  with passes_general [of opts k rs s] show "of_nat (edge_passes opts (\<lambda>r. limited r \<and> trustedClientIp r = k) rs s)
      \<le> policy_bound (general_policy opts) (t1 - t0)
          (length (filter (\<lambda>r. limited (snd r) \<and> trustedClientIp (snd r) = k) rs))"
    unfolding general_calls_of by (elim order_trans [rotated]) simp
  have "sorted (t0 # map fst ?m)" using sorted_calls [OF assms(6), of "\<lambda>(now, req). limited req \<and> mutation req"]
    by (simp add: mutation_calls_def comp_def split_beta)
  moreover have "snd ` set ?m \<subseteq> K" "\<forall>c\<in>set ?m. fst c \<le> t1" using assms(7) by (auto simp: mutation_calls_def)
  ultimately have "of_nat (admitted (\<lambda>t j. limiter_consume (max_entries opts) t j (mutation_policy opts)) k ?m (mutation_buckets s))
      \<le> policy_bound (mutation_policy opts) (t1 - t0) (length (filter (\<lambda>c. snd c = k) ?m))"
    using assms(8) by (intro admitted_in_time [OF assms(2,4)])
  with passes_mutations [of opts k rs s]
  show "of_nat (edge_passes opts (\<lambda>r. limited r \<and> mutation r \<and> trustedClientIp r = k) rs s)
      \<le> policy_bound (mutation_policy opts) (t1 - t0)
          (length (filter (\<lambda>r. limited (snd r) \<and> mutation (snd r) \<and> trustedClientIp (snd r) = k) rs))"
    unfolding mutation_calls_of by (elim order_trans [rotated]) simp
qed

definition sample_requests :: "((int \<times> int) \<times> edge_request) list" where
  "sample_requests = [((0, 0), api_request ''GET'' ''172.20.0.2''), ((0, 0), api_request ''POST'' ''172.20.0.2''),
     ((0, 0), api_request ''POST'' ''203.0.113.7''), ((0, 0), api_request ''GET'' ''10.1.1.1'')]"

lemma sample_request:
  "trustedClientIp (api_request m ''172.20.0.2'') = ''203.0.113.7''"
  "trustedClientIp (api_request m ''203.0.113.7'') = ''203.0.113.7''"
  "trustedClientIp (api_request m ''10.1.1.1'') = ''203.0.113.7''"
  "limited (api_request m p)" "body_check (api_request m p) = PassOn"
  by (code_simp, code_simp, code_simp, code_simp, code_simp)

lemma limited_path: "limited req \<Longrightarrow> request_path req \<notin> set health_paths \<and> starts ''/api/v1/'' (request_path req)"
  by (simp add: limited_def)

lemma small_rounded: "rounded 1 = 1" "rounded 2 = 2" "rounded 3 = 3"
  using rounded_of_int [of 1] rounded_of_int [of 2] rounded_of_int [of 3] by simp_all

lemma tight_capacity:
  "capacity (general_policy tight_policy) = 3" "capacity (mutation_policy tight_policy) = 1"
  "idleMs (general_policy tight_policy) = 120000" "idleMs (mutation_policy tight_policy) = 120000"
  "max_entries tight_policy = 10"
  by code_simp+

text \<open>Three requests fill the general bucket; the second mutation is refused by the mutation policy.\<close>

lemma sample_passes:
  "edge_passes tight_policy (\<lambda>r. limited r \<and> trustedClientIp r = ''203.0.113.7'') sample_requests no_buckets = 2"
  by (simp add: sample_requests_def sample_request beforeRoute_def limited_path [OF sample_request(4)]
      limiter_consume_def Let_def no_buckets_def tight_capacity refilled_def small_rounded bound_keep keep_def
      prune_def settle_def mutation_def) (simp add: api_request_def)

theorem client_requests_bounded_witness:
  "edge_passes tight_policy (\<lambda>r. limited r \<and> trustedClientIp r = ''203.0.113.7'') sample_requests no_buckets = 2
   \<and> of_nat (edge_passes tight_policy (\<lambda>r. limited r \<and> trustedClientIp r = ''203.0.113.7'') sample_requests no_buckets)
      \<le> policy_bound (general_policy tight_policy) 30 4"
proof -
  have "\<forall>r\<in>set sample_requests. trustedClientIp (snd r) \<in> {''203.0.113.7''} \<and> fst (fst r) \<le> 30 \<and> snd (fst r) \<le> 30"
    by (simp add: sample_requests_def sample_request)
  moreover have "sorted (0 # map (fst \<circ> fst) sample_requests)" "sorted (0 # map (snd \<circ> fst) sample_requests)"
    by (simp_all add: sample_requests_def)
  moreover note sample_passes
  moreover have "length (filter (\<lambda>r. limited (snd r) \<and> trustedClientIp (snd r) = ''203.0.113.7'') sample_requests) = 4"
    by (simp add: sample_requests_def sample_request)
  moreover have "policy_ok (general_policy tight_policy)" "policy_ok (mutation_policy tight_policy)"
    by (simp_all add: policy_ok_def whole_def tight_policy_def)
  ultimately show ?thesis
    using client_requests_bounded [of tight_policy "{''203.0.113.7''}" 0 no_buckets sample_requests 30 "''203.0.113.7''"]
    by (simp add: limiter_ok_def no_buckets_def tight_capacity)
qed

lemma length_update_present: "k \<in> fst ` set al \<Longrightarrow> length (AList.update k v al) = length al"
  by (induction al) auto

text \<open>C21: With a policy whose capacity is at least one request, a call of the limiter always returns, the loop that
  drops the oldest entries included, and keeps the table within its bound.\<close>

theorem limiter_returns_bounded:
  assumes "1 \<le> capacity pol" and "length bs \<le> nat m"
  shows "\<exists>d bs'. limiter_consume m now k pol bs = Some (d, bs') \<and> length bs' \<le> nat m"
proof -
  let ?live = "prune now (idleMs pol) bs"
  have live: "length ?live \<le> nat m" using assms(2) by (simp add: prune_def le_trans [OF length_filter_le])
  show ?thesis
  proof (cases "map_of ?live k")
    case None
    then have "\<not> tokens (refilled now pol \<lparr>tokens = capacity pol, updatedAt = now, touchedAt = now\<rparr>) < 1"
      using assms(1) rounded_ge_of_int [of 1 "capacity pol"] by (simp add: refilled_def)
    with None show ?thesis by (simp add: limiter_consume_def Let_def bound_keep length_keep)
  next
    case (Some b)
    then have "k \<in> fst ` set ?live" by (metis map_of_eq_None_iff option.distinct(1))
    then have "length (AList.update k b' ?live) \<le> nat m" for b' using live by (simp add: length_update_present)
    with Some show ?thesis by (simp add: limiter_consume_def Let_def bound_keep length_keep)
  qed
qed

theorem limiter_returns_bounded_witness:
  "\<exists>d bs'. limiter_consume 1 0 ''b'' MUTATION_RATE_LIMIT [(''a'', charged 3 0)] = Some (d, bs') \<and> length bs' \<le> nat 1"
  by (rule limiter_returns_bounded) (simp_all add: capacity_exact(2) [OF policies_ok(2)])

subsection \<open>The wait a refusal asks for\<close>

text \<open>The table after calls of other clients, and what it leaves of one key.\<close>

fun limiter_run :: "int \<Rightarrow> bucket_policy \<Rightarrow> (int \<times> string) list \<Rightarrow> buckets \<Rightarrow> buckets" where
  "limiter_run m pol [] bs = bs"
| "limiter_run m pol ((t, j) # cs) bs =
     (case limiter_consume m t j pol bs of None \<Rightarrow> bs | Some (_, bs') \<Rightarrow> limiter_run m pol cs bs')"

lemma others_leave:
  assumes "policy_ok pol" and "limiter_ok m K t bs" and "sorted (t # map fst cs @ [t'])"
    and "snd ` set cs \<subseteq> K - {j}"
  shows "limiter_ok m K t' (limiter_run m pol cs bs) \<and> available pol j t' (limiter_run m pol cs bs) = available pol j t' bs"
  using assms(2-)
proof (induction cs arbitrary: t bs)
  case Nil
  then show ?case by (fastforce simp: limiter_ok_def bucket_ok_def)
next
  case (Cons c cs)
  obtain t1 i where c: "c = (t1, i)" by (cases c)
  obtain d bs1 where run: "limiter_consume m t1 i pol bs = Some (d, bs1)" by (rule limiter_consume_some)
  from Cons.prems c have "t \<le> t1" "t1 \<le> t'" "i \<in> K" "j \<noteq> i" by auto
  moreover have "limiter_ok m K t1 bs" using Cons.prems(1) \<open>t \<le> t1\<close> by (fastforce simp: limiter_ok_def bucket_ok_def)
  ultimately have "limiter_ok m K t1 bs1" "available pol j t' bs1 = available pol j t' bs"
    using limiter_consume_effect(1,4) [OF assms(1) _ _ run] by blast+
  with Cons.IH [of t1 bs1] Cons.prems c run show ?case by simp
qed

text \<open>The seconds of a refusal against the missing part of a token.\<close>

lemma retry_bounds:
  fixes t :: int
  assumes pol: "policy_ok pol" and l: "0 \<le> l" "l < 1"
  defines "r \<equiv> retryAfter pol (charged l t)" and "p \<equiv> refillPerMs pol * 1000"
  shows "1 \<le> r" and "1 - l - 3 / 2 ^ 53 \<le> of_int r * p"
    and "r \<noteq> 1 \<Longrightarrow> of_int (r - 1) * p < 1 - l + 6 / 2 ^ 53"
proof -
  define a q where "a = rounded (1 - l)" and "q = a / rounded p"
  have p: "1 / 2 ^ 22 \<le> p" using refill_bounds(3) [OF pol] by (simp add: p_def)
  have "1 / 2 ^ 1022 \<le> \<bar>p\<bar>" using p by (rule order_trans [rotated, OF order_trans [OF _ abs_ge_self]]) simp
  from rounded_relative_error [OF this] have "\<bar>rounded p - p\<bar> \<le> p / 2 ^ 53" using p by simp
  then have D: "p - p / 2 ^ 53 \<le> rounded p" "rounded p \<le> p + p / 2 ^ 53" by linarith+
  have Dpos: "0 < rounded p" using D(1) p by simp
  have a: "0 \<le> a" "a \<le> 1" "1 - l - 1 / 2 ^ 53 \<le> a" "a \<le> 1 - l + 1 / 2 ^ 53"
    using l rounded_nonneg [of "1 - l"] rounded_le_of_int [of "1 - l" 1] rounded_near [of "1 - l" 1]
    by (simp_all add: a_def)
  have q: "0 \<le> q" "q * rounded p = a" using a Dpos by (simp_all add: q_def)
  have r: "r = max 1 \<lceil>rounded q\<rceil>" by (simp add: r_def retryAfter_def charged_def q_def a_def p_def)
  then show "1 \<le> r" by simp
  have small: "q - q / 2 ^ 53 \<le> of_int r"
  proof (cases "q \<le> 1")
    case True
    then have "q - q / 2 ^ 53 \<le> of_int 1" using q(1) by simp
    also have "\<dots> \<le> of_int r" unfolding of_int_le_iff by (simp add: r)
    finally show ?thesis .
  next
    case False
    then have "q - q / 2 ^ 53 \<le> rounded q" by (intro rounded_near(1)) simp
    also have "\<dots> \<le> of_int r" unfolding r by (meson le_of_int_ceiling max.cobounded2 of_int_le_iff order_trans)
    finally show ?thesis .
  qed
  show "1 - l - 3 / 2 ^ 53 \<le> of_int r * p"
  proof (rule ccontr)
    assume less: "\<not> ?thesis"
    define x where "x = of_int r * p"
    have "(q - q / 2 ^ 53) * rounded p \<le> of_int r * rounded p" using small Dpos by (intro mult_right_mono) simp_all
    also have "\<dots> \<le> of_int r * (p + p / 2 ^ 53)" using D(2) \<open>1 \<le> r\<close> by (intro mult_left_mono) simp_all
    also have "\<dots> = of_int r * p + of_int r * p / 2 ^ 53" by (simp add: algebra_simps)
    also have "(q - q / 2 ^ 53) * rounded p = a - a / 2 ^ 53" using q(2) by (simp add: algebra_simps)
    finally have "a - a / 2 ^ 53 \<le> x + x / 2 ^ 53" by (simp add: x_def)
    with less a l show False by (simp flip: x_def)
  qed
  show "of_int (r - 1) * p < 1 - l + 6 / 2 ^ 53" if "r \<noteq> 1"
  proof (rule ccontr)
    assume more: "\<not> ?thesis"
    have r2: "r = \<lceil>rounded q\<rceil>" "2 \<le> r" using that r by linarith+
    then have r1: "of_int (r - 1) < rounded q" "2 \<le> r" using ceiling_correct [of "rounded q"] by simp_all
    have "1 < q"
    proof (rule ccontr)
      assume "\<not> 1 < q"
      with rounded_le_of_int [of q 1] q(1) have "rounded q \<le> 1" by simp
      moreover have "(of_int 1 :: rat) \<le> of_int (r - 1)" unfolding of_int_le_iff using r1(2) by simp
      ultimately show False using r1(1) by simp
    qed
    then have "rounded q \<le> q + q / 2 ^ 53" by (intro rounded_near(2)) simp
    then have "of_int (r - 1) * rounded p \<le> (q + q / 2 ^ 53) * rounded p"
      using r1(1) Dpos by (intro mult_right_mono) simp_all
    also have "\<dots> = a + a / 2 ^ 53" using q(2) by (simp add: algebra_simps)
    finally have up: "of_int (r - 1) * rounded p \<le> a + a / 2 ^ 53" .
    have "of_int (r - 1) * (p - p / 2 ^ 53) \<le> of_int (r - 1) * rounded p"
      using D(1) r1(2) by (intro mult_left_mono) simp_all
    moreover have "of_int (r - 1) * (p - p / 2 ^ 53) = of_int (r - 1) * p - of_int (r - 1) * p / 2 ^ 53"
      by (simp only: right_diff_distrib times_divide_eq_right)
    ultimately show False using up more a l by simp
  qed
qed

text \<open>C22: A refusal's Retry-After is exact to the millisecond: with calls of other clients only in between, the next
  call of that client passes once more than that many seconds have gone by, and is refused again while more
  than a full second of them is left. With a window of no more seconds than the rate, as in both configured
  policies, it passes at exactly that many seconds. For policies as in \<open>policy_ok\<close>, a clock that does not
  step back and addresses that fit in the limiter.\<close>

theorem retry_after_to_the_millisecond:
  assumes pol: "policy_ok pol" and ok: "limiter_ok m K t bs" and j: "j \<in> K"
    and refused: "limiter_consume m t j pol bs = Some (Refused r, bs')"
    and later: "sorted (t # map fst cs @ [t'])" and others: "snd ` set cs \<subseteq> K - {j}"
    and again: "limiter_consume m t' j pol (limiter_run m pol cs bs') = Some (d, bs'')"
  shows "(t + 1000 * r < t' \<longrightarrow> d = Allowed) \<and> (t' < t + 1000 * (r - 1) \<longrightarrow> d \<noteq> Allowed)
    \<and> (windowSeconds pol \<le> rate pol \<and> t + 1000 * r \<le> t' \<longrightarrow> d = Allowed)"
proof -
  let ?l = "available pol j t bs" and ?w = "of_int (t' - t) * refillPerMs pol" and ?p = "refillPerMs pol * 1000"
  note l = available_bounds(1) [OF pol conjunct2 [OF limiter_ok_parts [OF ok]], of j]
  from limiter_consume_effect(2) [OF pol ok j refused] have l1: "?l < 1" by simp
  have r: "r = retryAfter pol (charged ?l t)" using limiter_consume_effect(5) [OF pol ok j refused] by simp
  note R = retry_bounds [OF pol l l1, of t, folded r]
  have t: "t \<le> t'" using later by auto
  have left: "available pol j t' bs' = min (capacity pol) (rounded (?l + rounded ?w))"
    using limiter_consume_effect(5) [OF pol ok j refused, of t'] t by simp
  note run = others_leave [OF pol limiter_consume_effect(1) [OF pol ok j refused] later others]
  have d: "d = Allowed \<longleftrightarrow> 1 \<le> rounded (?l + rounded ?w)"
    using limiter_consume_effect(2) [OF pol conjunct1 [OF run] j again] run capacity_exact(2) [OF pol] by (simp add: left)
  have w: "0 \<le> ?w" using t refill_pos [OF pol] by simp
  have pass: "d = Allowed" if "1 - ?l \<le> rounded ?w"
    using d rounded_ge_of_int [of 1 "?l + rounded ?w"] that by simp
  have one: "d = Allowed" if "1 \<le> ?w"
    using pass rounded_ge_of_int [of 1 ?w] that l by simp
  have ms: "of_int (1000 * n + i) * refillPerMs pol = of_int n * ?p + of_int i * refillPerMs pol" for n i
    by (simp add: algebra_simps)
  have "d = Allowed" if "t + 1000 * r < t'"
  proof (cases "1 \<le> ?w")
    case False
    have "of_int r * ?p + refillPerMs pol \<le> ?w" using refill_mono [OF pol, of "1000 * r + 1" "t' - t"] that ms [of r 1] by simp
    moreover have "?w - 1 / 2 ^ 53 \<le> rounded ?w" using w False by (intro rounded_near(1)) simp
    ultimately show ?thesis using pass R(2) refill_bounds(3) [OF pol] by simp
  qed (rule one)
  moreover have "d \<noteq> Allowed" if "t' < t + 1000 * (r - 1)"
  proof -
    have "r \<noteq> 1" using that t by auto
    have "?w \<le> of_int (r - 1) * ?p - refillPerMs pol"
      using refill_mono [OF pol, of "t' - t" "1000 * (r - 1) + (- 1)"] that ms [of "r - 1" "- 1"] by simp
    then have w1: "?w \<le> 1 - ?l + 6 / 2 ^ 53 - 1 / 2 ^ 31" using R(3) [OF \<open>r \<noteq> 1\<close>] refill_bounds(3) [OF pol] by linarith
    then have "rounded ?w \<le> ?w + 1 / 2 ^ 53" using w l by (intro rounded_near(2)) simp
    with w1 have x: "?l + rounded ?w \<le> 1 + 7 / 2 ^ 53 - 1 / 2 ^ 31" by simp
    have "rounded (?l + rounded ?w) \<le> ?l + rounded ?w + 1 / 2 ^ 53"
      using x l rounded_nonneg [OF w] by (intro rounded_near(2)) simp
    with x show ?thesis using d by simp
  qed
  moreover have "d = Allowed" if ws: "windowSeconds pol \<le> rate pol" and "t + 1000 * r \<le> t'"
  proof (rule one)
    have "0 < windowSeconds pol" using pol by (simp add: policy_ok_def)
    with ws have "1 / 1000 \<le> rate pol / (windowSeconds pol * 1000)" by (simp add: field_simps)
    then have "rounded (1 / 1000) \<le> refillPerMs pol" unfolding refill_bounds(5) [OF pol] by (intro rounded_mono) simp_all
    moreover have "1 / 1000 \<le> rounded (1 / 1000)" by code_simp
    ultimately have "1 \<le> ?p" by simp
    also have "\<dots> = of_int 1000 * refillPerMs pol" by simp
    also have "\<dots> \<le> ?w" using refill_mono [OF pol, of 1000 "t' - t"] that(2) R(1) by simp
    finally show "1 \<le> ?w" .
  qed
  ultimately show ?thesis by blast
qed

definition spent :: buckets where
  "spent = [(''a'', charged (1/4) 0)]"

theorem retry_after_to_the_millisecond_witness:
  "limiter_consume 5 0 ''a'' MUTATION_RATE_LIMIT spent = Some (Refused 1, spent)
   \<and> fst (the (limiter_consume 5 1000 ''a'' MUTATION_RATE_LIMIT
        (limiter_run 5 MUTATION_RATE_LIMIT [(400, ''b'')] spent))) = Allowed"
proof -
  have r: "limiter_consume 5 0 ''a'' MUTATION_RATE_LIMIT spent = Some (Refused 1, spent)" by code_simp
  have ok: "limiter_ok 5 {''a'', ''b''} 0 spent" by (simp add: limiter_ok_def spent_def bucket_ok_def charged_def)
  have ws: "windowSeconds MUTATION_RATE_LIMIT \<le> rate MUTATION_RATE_LIMIT" by (simp add: MUTATION_RATE_LIMIT_def)
  obtain d b where c: "limiter_consume 5 1000 ''a'' MUTATION_RATE_LIMIT
      (limiter_run 5 MUTATION_RATE_LIMIT [(400, ''b'')] spent) = Some (d, b)" by (rule limiter_consume_some)
  from retry_after_to_the_millisecond [OF policies_ok(2) ok _ r _ _ c] r c ws show ?thesis by simp
qed

text \<open>At exactly the announced seconds a slower policy may still refuse: one request in 43 seconds.\<close>

lemma slow_policy_one_millisecond_short:
  defines "pol \<equiv> \<lparr>rate = 1, windowSeconds = 43, burst = 0\<rparr>"
  shows "limiter_consume 5 0 ''a'' pol [(''a'', charged 0 0)] = Some (Refused 43, [(''a'', charged 0 0)])"
    and "fst (the (limiter_consume 5 43000 ''a'' pol [(''a'', charged 0 0)])) \<noteq> Allowed"
    and "fst (the (limiter_consume 5 43001 ''a'' pol [(''a'', charged 0 0)])) = Allowed"
  unfolding pol_def by code_simp+

lemma rounded_nat: "n < 2 ^ 53 \<Longrightarrow> rounded (of_nat n) = of_nat n"
  using rounded_of_int [of "int n"] by simp

lemma drain:
  assumes "of_nat n \<le> capacity pol" and "n \<le> l" and "of_nat l \<le> capacity pol" and "l < 2 ^ 53" and "m \<ge> 1"
    and "0 < idleMs pol"
  shows "admitted (\<lambda>t j. limiter_consume m t j pol) k (replicate n (t, k) @ cs) [(k, charged (of_nat l) t)] =
     n + admitted (\<lambda>t j. limiter_consume m t j pol) k cs [(k, charged (of_nat (l - n)) t)]"
  using assms
proof (induction n arbitrary: l)
  case (Suc n)
  then obtain i where l: "l = Suc i" by (cases l) auto
  have "rounded (of_nat l) = of_nat l" "rounded (of_nat i) = of_nat i"
    using Suc.prems by (simp_all add: l rounded_nat del: of_nat_Suc)
  then have "limiter_consume m t k pol [(k, charged (of_nat l) t)] = Some (Allowed, [(k, charged (of_nat i) t)])"
    using Suc.prems by (simp add: limiter_consume_def Let_def prune_def charged_def refilled_def bound_keep keep_def l)
  with Suc.IH [of i] Suc.prems show ?case by (simp add: l)
qed simp

text \<open>C35: The configured general policy lets one client through 700 times within a minute: the bucket starts with
  rate and burst together.\<close>

theorem general_policy_admits_700:
  "admitted (\<lambda>t j. limiter_consume 10000 t j GENERAL_RATE_LIMIT) k
     (replicate 400 (0, k) @ replicate 300 (60000, k)) [] = 700"
proof -
  let ?p = GENERAL_RATE_LIMIT
  let ?late = "replicate 300 (60000, k)"
  have cap: "capacity ?p = 400" "idleMs ?p = 120000" "rounded (60000 * refillPerMs ?p) = 300" by code_simp+
  have r: "rounded 400 = 400" "rounded 399 = 399" "rounded 300 = 300" using rounded_nat [of 400] rounded_nat [of 399] rounded_nat [of 300] by simp_all
  have first: "limiter_consume 10000 0 k ?p [] = Some (Allowed, [(k, charged 399 0)])"
    by (simp add: limiter_consume_def Let_def prune_def charged_def refilled_def bound_keep keep_def cap r)
  have later: "limiter_consume 10000 60000 k ?p [(k, charged 0 0)] = limiter_consume 10000 60000 k ?p [(k, charged 300 60000)]"
    by (simp add: limiter_consume_def Let_def prune_def charged_def refilled_def cap r)
  have "replicate 400 (0 :: int, k) = (0, k) # replicate 399 (0, k)" by (simp add: numeral_eq_Suc)
  then have "admitted (\<lambda>t j. limiter_consume 10000 t j ?p) k (replicate 400 (0, k) @ ?late) []
      = Suc (admitted (\<lambda>t j. limiter_consume 10000 t j ?p) k (replicate 399 (0, k) @ ?late) [(k, charged 399 0)])"
    by (simp add: first)
  also have "\<dots> = 400 + admitted (\<lambda>t j. limiter_consume 10000 t j ?p) k ?late [(k, charged 0 0)]"
    using drain [of 399 ?p 399 10000 k 0 ?late] by (simp add: cap)
  also have "admitted (\<lambda>t j. limiter_consume 10000 t j ?p) k ?late [(k, charged 0 0)] =
      admitted (\<lambda>t j. limiter_consume 10000 t j ?p) k ?late [(k, charged 300 60000)]"
  proof -
    have "?late = (60000 :: int, k) # replicate 299 (60000, k)" by (simp add: numeral_eq_Suc)
    then show ?thesis by (simp add: later)
  qed
  also have "\<dots> = 300" using drain [of 300 ?p 300 10000 k 60000 "[]"] by (simp add: cap)
  finally show ?thesis by simp
qed

end
