(* ===== verification/License_Entitlements.thy ===== *)
theory License_Entitlements
  imports License_Seats Commands Doubles
begin

text \<open>
  \<open>modules/license/application/entitlements.ts\<close>: license pools, entitlements with their quantity and
  numbered terms, their history, and the facts that announce an expiry, with the pass of
  \<open>apps/worker/src/license-expiry.ts\<close> that records them. The tables extend those of License_Seats, so
  that the seat commands and these run over one state. A database compares UUIDs without regard to
  letter case and returns them in lower case (\<open>js_lower\<close>); times are milliseconds, and \<open>parse\<close> is
  \<open>Date.parse\<close>.
\<close>

section \<open>Validation\<close>

definition licenseTypes :: "string list" where
  "licenseTypes = [''PER_USER'', ''PER_DEVICE'', ''CONCURRENT'', ''SUBSCRIPTION'', ''PERPETUAL'', ''SITE'',
     ''ENTERPRISE_AGREEMENT'', ''NAMED_USER'', ''FLOATING'', ''CORE_CPU'', ''SERVER_INSTANCE'']"

definition poolTypes :: "string list" where
  "poolTypes = [''DEPARTMENT'', ''COUNTRY'', ''BUSINESS_UNIT'', ''PROJECT'', ''CONTRACT'']"

definition invalid :: exn where
  "invalid = AppError VALIDATION_ERROR"

definition plain_text :: "string \<Rightarrow> nat \<Rightarrow> exn + string" where
  "plain_text v limit = (if blank v \<or> limit < length v then Inl invalid else Inr (js_trim v))"

definition nonSecretText :: "string \<Rightarrow> nat \<Rightarrow> exn + string" where
  "nonSecretText v limit = (case plain_text v limit of
     Inl e \<Rightarrow> Inl e
   | Inr s \<Rightarrow> if looks_secret s then Inl invalid else Inr s)"

definition optionalText :: "string option \<Rightarrow> nat \<Rightarrow> exn + string option" where
  "optionalText v limit = (case v of
     None \<Rightarrow> Inr None
   | Some s \<Rightarrow> if s = [] then Inr None else map_sum id Some (nonSecretText s limit))"

definition uuid_text :: "string \<Rightarrow> exn + string" where
  "uuid_text v = (if is_uuid v then Inr v else Inl invalid)"

definition timestamp :: "(string \<Rightarrow> int option) \<Rightarrow> string \<Rightarrow> exn + int" where
  "timestamp parse v =
     (if \<not> has_zone v then Inl invalid
      else case parse v of None \<Rightarrow> Inl invalid | Some ms \<Rightarrow> Inr ms)"

text \<open>\<open>value ? timestamp(value) : null\<close>.\<close>

definition optionalTimestamp :: "(string \<Rightarrow> int option) \<Rightarrow> string option \<Rightarrow> exn + int option" where
  "optionalTimestamp parse v = (case v of
     None \<Rightarrow> Inr None
   | Some s \<Rightarrow> if s = [] then Inr None else map_sum id Some (timestamp parse s))"

definition validateTerms ::
    "(string \<Rightarrow> int option) \<Rightarrow> string \<Rightarrow> string option \<Rightarrow> exn + (int \<times> int option)" where
  "validateTerms parse validFrom validUntil = (case timestamp parse validFrom of
     Inl e \<Rightarrow> Inl e
   | Inr start \<Rightarrow> (case optionalTimestamp parse validUntil of
       Inl e \<Rightarrow> Inl e
     | Inr ends \<Rightarrow>
        if (case ends of None \<Rightarrow> False | Some u \<Rightarrow> u \<le> start) then Inl invalid else Inr (start, ends)))"

definition validateQuantity :: "js_number \<Rightarrow> exn + int" where
  "validateQuantity n =
     (if \<not> is_safe_integer n \<or> js_int n < 1 \<or> 1000000000 < js_int n then Inl invalid else Inr (js_int n))"

definition validateLicenseType :: "string \<Rightarrow> exn + string" where
  "validateLicenseType v = (if v \<in> set licenseTypes then Inr v else Inl invalid)"

definition validatePoolType :: "string \<Rightarrow> exn + string" where
  "validatePoolType v = (if v \<in> set poolTypes then Inr v else Inl invalid)"

definition validateCost :: "js_number option \<Rightarrow> string option \<Rightarrow> exn + (js_number option \<times> string option)" where
  "validateCost cost currency = (case cost of
     None \<Rightarrow> if currency \<noteq> None then Inl invalid else Inr (None, None)
   | Some n \<Rightarrow>
      if \<not> is_finite n \<or> js_rat n < 0 \<or> js_round (js_times n (JInt 100)) \<noteq> js_times n (JInt 100)
      then Inl invalid
      else (case plain_text (case currency of None \<Rightarrow> [] | Some c \<Rightarrow> c) 3 of
          Inl e \<Rightarrow> Inl e
        | Inr c \<Rightarrow> if currency_code (js_upper c) then Inr (Some n, Some (js_upper c)) else Inl invalid))"

text \<open>The column \<open>numeric(18,2)\<close>, in hundredths.\<close>

definition cents_of :: "js_number option \<Rightarrow> int option" where
  "cents_of cost = map_option (\<lambda>n. \<lfloor>100 * js_rat n + 1/2\<rfloor>) cost"

definition cents_fit :: "js_number option \<Rightarrow> bool" where
  "cents_fit cost \<longleftrightarrow> (case cents_of cost of None \<Rightarrow> True | Some c \<Rightarrow> c < 10 ^ 18)"

definition validateRestrictions :: "string list \<Rightarrow> exn + string list" where
  "validateRestrictions vs =
     (if 100 < length vs \<or> list_ex (\<lambda>v. blank v \<or> 500 < length v \<or> looks_secret v) vs then Inl invalid
      else Inr (rev (remdups (rev (map js_trim vs)))))"

definition renewal_notice :: "js_number option \<Rightarrow> exn + int option" where
  "renewal_notice v = (case v of
     None \<Rightarrow> Inr None
   | Some n \<Rightarrow> if \<not> is_safe_integer n \<or> js_int n < 0 \<or> 3650 < js_int n then Inl invalid else Inr (Some (js_int n)))"

definition effectiveState :: "int \<Rightarrow> int option \<Rightarrow> int \<Rightarrow> string" where
  "effectiveState validFrom validUntil now =
     (if now < validFrom then ''NOT_YET_VALID''
      else case validUntil of
        None \<Rightarrow> ''ACTIVE''
      | Some u \<Rightarrow> if now < u then ''ACTIVE'' else ''EXPIRED'')"

section \<open>Tables\<close>

record entitlement_view =
  ev_row :: entitlement
  ev_valid_from :: int
  ev_valid_until :: "int option"
  ev_state :: string

record entitlement_entry =
  eh_id :: string
  eh_tenant :: string
  eh_entitlement :: string
  eh_version :: int
  eh_term_version :: int
  eh_action :: string
  eh_snapshot :: entitlement_view
  eh_actor :: string
  eh_reason :: string

record expiry_fact =
  xf_tenant :: string
  xf_entitlement :: string
  xf_term_version :: int
  xf_valid_until :: int
  xf_expired_at :: int

record expiring_fact =
  xg_tenant :: string
  xg_entitlement :: string
  xg_term_version :: int
  xg_valid_until :: int
  xg_notice_days :: int
  xg_emitted_at :: int

text \<open>\<open>software_products\<close> is the table of the software module that foreign keys point to.\<close>

record entitlement_db =
  seats :: license_db
  software_products :: "(string \<times> string) list"
  entitlement_log :: "entitlement_entry list"
  expiry_facts :: "expiry_fact list"
  expiring_facts :: "expiring_fact list"

abbreviation all_entitlements :: "entitlement_db \<Rightarrow> entitlement list" where
  "all_entitlements db \<equiv> entitlements (seats db)"

definition with_entitlements :: "entitlement list \<Rightarrow> entitlement_db \<Rightarrow> entitlement_db" where
  "with_entitlements es db = db\<lparr>seats := (seats db)\<lparr>entitlements := es\<rparr>\<rparr>"

definition with_terms :: "license_term list \<Rightarrow> entitlement_db \<Rightarrow> entitlement_db" where
  "with_terms ts db = db\<lparr>seats := (seats db)\<lparr>terms := ts\<rparr>\<rparr>"

definition with_pools :: "pool list \<Rightarrow> entitlement_db \<Rightarrow> entitlement_db" where
  "with_pools ps db = db\<lparr>seats := (seats db)\<lparr>pools := ps\<rparr>\<rparr>"

definition pool_clash :: "pool \<Rightarrow> pool \<Rightarrow> bool" where
  "pool_clash x y \<longleftrightarrow> po_id x = po_id y \<or>
     (po_tenant x = po_tenant y \<and> po_type x = po_type y \<and> po_scope x = po_scope y \<and> po_name x = po_name y)"

definition term_clash :: "license_term \<Rightarrow> license_term \<Rightarrow> bool" where
  "term_clash x y \<longleftrightarrow> tm_id x = tm_id y \<or>
     (tm_tenant x = tm_tenant y \<and> tm_entitlement x = tm_entitlement y \<and> tm_version x = tm_version y)"

definition entry_clash :: "entitlement_entry \<Rightarrow> entitlement_entry \<Rightarrow> bool" where
  "entry_clash x y \<longleftrightarrow> eh_id x = eh_id y \<or>
     (eh_tenant x = eh_tenant y \<and> eh_entitlement x = eh_entitlement y \<and> eh_version x = eh_version y)"

text \<open>The row of the projection: an entitlement joined with its current term.\<close>

definition entitlement_projection :: "int \<Rightarrow> license_db \<Rightarrow> entitlement \<Rightarrow> entitlement_view option" where
  "entitlement_projection now db e = map_option (\<lambda>tm.
     \<lparr>ev_row = e, ev_valid_from = tm_valid_from tm, ev_valid_until = tm_valid_until tm,
      ev_state = effectiveState (tm_valid_from tm) (tm_valid_until tm) now\<rparr>) (term_of db e)"

definition find_entitlement :: "string \<Rightarrow> string \<Rightarrow> int \<Rightarrow> entitlement_db \<Rightarrow> entitlement_view option" where
  "find_entitlement t i now db =
     Option.bind (find_row (\<lambda>e. en_tenant e = t \<and> en_id e = js_lower i) (all_entitlements db))
       (entitlement_projection now (seats db))"

definition appendHistory ::
    "string \<Rightarrow> string \<Rightarrow> string \<Rightarrow> int \<Rightarrow> int \<Rightarrow> string \<Rightarrow> entitlement_view \<Rightarrow> string \<Rightarrow> string
       \<Rightarrow> (entitlement_db, 'b) call \<Rightarrow> (entitlement_db, 'b) call" where
  "appendHistory t hid i version termVersion action snapshot actorId reason k =
     given (plain_text actorId 256) (\<lambda>actor.
     given (nonSecretText reason 2000) (\<lambda>why.
     insert_into entry_clash entitlement_log (\<lambda>rows db. db\<lparr>entitlement_log := rows\<rparr>)
       \<lparr>eh_id = hid, eh_tenant = t, eh_entitlement = i, eh_version = version, eh_term_version = termVersion,
        eh_action = action, eh_snapshot = snapshot, eh_actor = actor, eh_reason = why\<rparr> k))"

section \<open>Pools\<close>

text \<open>An INSERT whose unique violation the code turns into an error of its own.\<close>

definition insert_or ::
    "error_code \<Rightarrow> ('r \<Rightarrow> 'r \<Rightarrow> bool) \<Rightarrow> ('s \<Rightarrow> 'r list) \<Rightarrow> ('r list \<Rightarrow> 's \<Rightarrow> 's) \<Rightarrow> 'r \<Rightarrow> ('s, 'b) call \<Rightarrow> ('s, 'b) call" where
  "insert_or code clash tab w r k s =
     (case insert_row clash r (tab s) of None \<Rightarrow> (Inl (AppError code), s) | Some rs \<Rightarrow> k (w rs s))"

lemma insert_or_Inr [call_simps]:
  "insert_or code clash tab w r k s = (Inr b, s') \<longleftrightarrow>
     (\<forall>x\<in>set (tab s). \<not> clash r x) \<and> k (w (tab s @ [r]) s) = (Inr b, s')"
  by (auto simp: insert_or_def insert_row_def list_ex_iff)

record pool_input =
  pl_name :: string
  pl_type :: string
  pl_scope :: string
  pl_contract :: "string option"
  pl_actor :: string

definition createLicensePool :: "string \<Rightarrow> call_env \<Rightarrow> pool_input \<Rightarrow> (entitlement_db, pool) call" where
  "createLicensePool t env inp =
     given (plain_text (pl_name inp) 160) (\<lambda>name.
     given (validatePoolType (pl_type inp)) (\<lambda>type.
     given (plain_text (pl_scope inp) 256) (\<lambda>scope.
     given (optionalText (pl_contract inp) 256) (\<lambda>ref.
     given (plain_text (pl_actor inp) 256) (\<lambda>actor.
       let row = \<lparr>po_id = env_uuid env 0, po_tenant = t, po_name = name, po_type = type, po_scope = scope,
                  po_contract_reference = ref, po_state = ''ACTIVE'', po_created_by = actor, po_version = 1\<rparr>
       in insert_or VERSION_CONFLICT pool_clash (\<lambda>db. pools (seats db)) with_pools row (done_with row))))))"

record pool_change =
  pc_pool :: string
  pc_expected :: js_number
  pc_name :: string
  pc_state :: string
  pc_contract :: "string option"

definition find_pool :: "string \<Rightarrow> string \<Rightarrow> entitlement_db \<Rightarrow> pool option" where
  "find_pool t i db = find_row (\<lambda>p. po_tenant p = t \<and> po_id p = js_lower i) (pools (seats db))"

text \<open>A rename that meets the unique index of another pool is an error of the database.\<close>

definition updateLicensePool :: "string \<Rightarrow> pool_change \<Rightarrow> (entitlement_db, pool \<times> pool) call" where
  "updateLicensePool t inp =
     given (uuid_text (pc_pool inp)) (\<lambda>i.
     load (find_pool t i) (\<lambda>found.
     given (needed NOT_FOUND found) (\<lambda>row.
     given (assertVersion (po_version row) (pc_expected inp)) (\<lambda>_.
     fail_if (pc_state inp \<notin> set [''ACTIVE'', ''INACTIVE'']) VALIDATION_ERROR (
     given (plain_text (pc_name inp) 160) (\<lambda>name.
     given (optionalText (pc_contract inp) 256) (\<lambda>ref.
       let changed = row\<lparr>po_name := name, po_contract_reference := ref, po_state := pc_state inp,
                         po_version := js_int (pc_expected inp) + 1\<rparr>
       in load (\<lambda>db. list_ex (\<lambda>p. po_id p \<noteq> po_id row \<and> pool_clash changed p) (pools (seats db))) (\<lambda>taken.
          given (sql_check ''23505'' (\<not> taken)) (\<lambda>_.
          store (\<lambda>db. with_pools (update_rows (\<lambda>p. po_tenant p = t \<and> po_id p = po_id row) (\<lambda>_. changed)
                  (pools (seats db))) db)
            (done_with (changed, row)))))))))))"

definition readLicensePool :: "string \<Rightarrow> string \<Rightarrow> entitlement_db \<Rightarrow> exn + (pool \<times> int \<times> int)" where
  "readLicensePool t i db =
     (if \<not> is_uuid i then Inl invalid
      else case find_pool t i db of
        None \<Rightarrow> Inl (AppError NOT_FOUND)
      | Some p \<Rightarrow>
          let es = select_rows (\<lambda>e. en_tenant e = po_tenant p \<and> en_pool e = Some (po_id p)) (all_entitlements db)
          in Inr (p, int (length es), sum_list (map en_quantity es)))"

section \<open>Entitlements\<close>

text \<open>A pool an entitlement is linked to must be there and active.\<close>

definition linkable_pool :: "string \<Rightarrow> string option \<Rightarrow> (entitlement_db, 'b) call \<Rightarrow> (entitlement_db, 'b) call" where
  "linkable_pool t poolId k = (case poolId of
     None \<Rightarrow> k
   | Some p \<Rightarrow>
      load (find_pool t p) (\<lambda>found.
      given (needed NOT_FOUND found) (\<lambda>pool.
      fail_if (po_state pool \<noteq> ''ACTIVE'') BUSINESS_RULE_VIOLATION k)))"

definition pool_text :: "string option \<Rightarrow> exn + string option" where
  "pool_text v = (case optionalText v 256 of
     Inr (Some p) \<Rightarrow> map_sum id Some (uuid_text p)
   | r \<Rightarrow> r)"

record entitlement_input =
  ei_product :: string
  ei_pool :: "string option"
  ei_type :: string
  ei_quantity :: js_number
  ei_purchased :: "string option"
  ei_from :: string
  ei_until :: "string option"
  ei_contract :: "string option"
  ei_supplier :: "string option"
  ei_cost :: "js_number option"
  ei_currency :: "string option"
  ei_notice :: "js_number option"
  ei_restrictions :: "string list"
  ei_actor :: string
  ei_reason :: string

definition new_term ::
    "string \<Rightarrow> string \<Rightarrow> string \<Rightarrow> int \<Rightarrow> int \<times> int option \<Rightarrow> string \<Rightarrow> string \<Rightarrow> license_term" where
  "new_term tid t i version period actorId reason =
     \<lparr>tm_id = tid, tm_tenant = t, tm_entitlement = i, tm_version = version, tm_valid_from = fst period,
      tm_valid_until = snd period, tm_recorded_by = actorId, tm_reason = reason\<rparr>"

definition createLicenseEntitlement ::
    "string \<Rightarrow> (string \<Rightarrow> int option) \<Rightarrow> call_env \<Rightarrow> entitlement_input \<Rightarrow> (entitlement_db, entitlement_view) call" where
  "createLicenseEntitlement t parse env inp =
     given (uuid_text (ei_product inp)) (\<lambda>productId.
     given (pool_text (ei_pool inp)) (\<lambda>poolId.
     given (validateLicenseType (ei_type inp)) (\<lambda>licenseType.
     given (validateQuantity (ei_quantity inp)) (\<lambda>quantity.
     given (validateTerms parse (ei_from inp) (ei_until inp)) (\<lambda>period.
     given (optionalTimestamp parse (ei_purchased inp)) (\<lambda>purchasedAt.
     given (validateCost (ei_cost inp) (ei_currency inp)) (\<lambda>money.
     given (renewal_notice (ei_notice inp)) (\<lambda>noticeDays.
     linkable_pool t poolId (
     given (nonSecretText (ei_reason inp) 2000) (\<lambda>reason.
     given (plain_text (ei_actor inp) 256) (\<lambda>actorId.
     given (optionalText (ei_contract inp) 256) (\<lambda>contractReference.
     given (optionalText (ei_supplier inp) 256) (\<lambda>supplierReference.
     given (validateRestrictions (ei_restrictions inp)) (\<lambda>restrictions.
       let i = env_uuid env 0;
           row = \<lparr>en_id = i, en_tenant = t, en_product = js_lower productId, en_pool = map_option js_lower poolId,
                  en_type = licenseType, en_quantity = quantity, en_term_version = 1,
                  en_renewal_notice_days = noticeDays, en_purchased_at = purchasedAt,
                  en_contract_reference = contractReference, en_supplier_reference = supplierReference,
                  en_cost_cents = cents_of (fst money), en_currency = snd money, en_restrictions = restrictions,
                  en_created_by = actorId, en_created_at = env_now env, en_version = 1\<rparr>;
           snapshot = \<lparr>ev_row = row, ev_valid_from = fst period, ev_valid_until = snd period,
                       ev_state = effectiveState (fst period) (snd period) (env_now env)\<rparr>
       in given (sql_check ''22003'' (cents_fit (fst money))) (\<lambda>_.
          insert_into (\<lambda>x y. en_id x = en_id y) all_entitlements with_entitlements row (
          load software_products (\<lambda>products.
          fail_if ((t, js_lower productId) \<notin> set products) NOT_FOUND (
          insert_into term_clash (\<lambda>db. terms (seats db)) with_terms
            (new_term (env_uuid env 1) t i 1 period actorId reason) (
          appendHistory t (env_uuid env 2) i 1 1 ''CREATED'' snapshot actorId reason (
          done_with snapshot))))))))))))))))))))"

record entitlement_change =
  ec_entitlement :: string
  ec_expected :: js_number
  ec_pool :: "string option"
  ec_type :: string
  ec_quantity :: js_number
  ec_purchased :: "string option"
  ec_contract :: "string option"
  ec_supplier :: "string option"
  ec_cost :: "js_number option"
  ec_currency :: "string option"
  ec_notice :: "js_number option"
  ec_restrictions :: "string list"
  ec_actor :: string
  ec_reason :: string

text \<open>What the allocation query finds: the seats taken, and whether a live one would not fit the new type.\<close>

definition has_allocations :: "string \<Rightarrow> string \<Rightarrow> license_db \<Rightarrow> bool" where
  "has_allocations t i db \<longleftrightarrow>
     list_ex (\<lambda>a. la_tenant a = t \<and> la_entitlement a = i \<and> live a) (licenses db)
     \<or> list_ex (\<lambda>r. sr_tenant r = t \<and> sr_entitlement r = i \<and> sr_state r = ''RESERVED'') (seat_reservations db)"

definition incompatible_assignment :: "string \<Rightarrow> string \<Rightarrow> string \<Rightarrow> license_db \<Rightarrow> bool" where
  "incompatible_assignment t i licenseType db \<longleftrightarrow>
     list_ex (\<lambda>a. la_tenant a = t \<and> la_entitlement a = i \<and> live a
       \<and> licenseType \<notin> set (seatTypesByPrincipal (la_principal_type a))) (licenses db)"

definition store_entitlement :: "entitlement \<Rightarrow> entitlement_db \<Rightarrow> entitlement_db" where
  "store_entitlement row db = with_entitlements
     (update_rows (\<lambda>e. en_tenant e = en_tenant row \<and> en_id e = en_id row) (\<lambda>_. row) (all_entitlements db)) db"

definition updateLicenseEntitlement ::
    "string \<Rightarrow> (string \<Rightarrow> int option) \<Rightarrow> call_env \<Rightarrow> entitlement_change
       \<Rightarrow> (entitlement_db, entitlement_view \<times> entitlement_view) call" where
  "updateLicenseEntitlement t parse env inp =
     given (uuid_text (ec_entitlement inp)) (\<lambda>i.
     load (find_entitlement t i (env_now env)) (\<lambda>found.
     given (needed NOT_FOUND found) (\<lambda>current.
       let row = ev_row current in
     given (assertVersion (en_version row) (ec_expected inp)) (\<lambda>_.
     given (pool_text (ec_pool inp)) (\<lambda>poolId.
     linkable_pool t poolId (
     given (validateLicenseType (ec_type inp)) (\<lambda>licenseType.
     given (validateQuantity (ec_quantity inp)) (\<lambda>quantity.
     load seats (\<lambda>sdb.
     fail_if (quantity < allocated t (en_id row) sdb) BUSINESS_RULE_VIOLATION (
     fail_if (has_allocations t (en_id row) sdb
         \<and> (licenseType \<noteq> en_type row \<or> poolId \<noteq> en_pool row
            \<or> incompatible_assignment t (en_id row) licenseType sdb)) BUSINESS_RULE_VIOLATION (
     given (optionalTimestamp parse (ec_purchased inp)) (\<lambda>purchasedAt.
     given (validateCost (ec_cost inp) (ec_currency inp)) (\<lambda>money.
     given (renewal_notice (ec_notice inp)) (\<lambda>noticeDays.
     given (validateRestrictions (ec_restrictions inp)) (\<lambda>restrictions.
     given (nonSecretText (ec_reason inp) 2000) (\<lambda>reason.
     given (plain_text (ec_actor inp) 256) (\<lambda>actorId.
     given (optionalText (ec_contract inp) 256) (\<lambda>contractReference.
     given (optionalText (ec_supplier inp) 256) (\<lambda>supplierReference.
     given (sql_check ''22003'' (cents_fit (fst money))) (\<lambda>_.
       let changed = row\<lparr>en_pool := map_option js_lower poolId, en_type := licenseType, en_quantity := quantity,
             en_purchased_at := purchasedAt, en_contract_reference := contractReference,
             en_supplier_reference := supplierReference, en_cost_cents := cents_of (fst money),
             en_currency := snd money, en_renewal_notice_days := noticeDays, en_restrictions := restrictions,
             en_version := js_int (ec_expected inp) + 1\<rparr>;
           snapshot = current\<lparr>ev_row := changed\<rparr>
       in store (store_entitlement changed) (
          appendHistory t (env_uuid env 0) (en_id row) (en_version changed) (en_term_version row) ''UPDATED''
            snapshot actorId reason (
          done_with (snapshot, current)))))))))))))))))))))))"

record renewal_input =
  ri_entitlement :: string
  ri_expected :: js_number
  ri_from :: string
  ri_until :: "string option"
  ri_actor :: string
  ri_reason :: string

text \<open>The snapshot of a renewal is the row read before it, with the new term.\<close>

definition renewLicenseEntitlement ::
    "string \<Rightarrow> (string \<Rightarrow> int option) \<Rightarrow> call_env \<Rightarrow> renewal_input
       \<Rightarrow> (entitlement_db, entitlement_view \<times> entitlement_view) call" where
  "renewLicenseEntitlement t parse env inp =
     given (uuid_text (ri_entitlement inp)) (\<lambda>i.
     load (find_entitlement t i (env_now env)) (\<lambda>found.
     given (needed NOT_FOUND found) (\<lambda>current.
       let row = ev_row current in
     given (assertVersion (en_version row) (ri_expected inp)) (\<lambda>_.
     given (validateTerms parse (ri_from inp) (ri_until inp)) (\<lambda>period.
     given (nonSecretText (ri_reason inp) 2000) (\<lambda>reason.
     given (plain_text (ri_actor inp) 256) (\<lambda>actorId.
       let termVersion = en_term_version row + 1;
           snapshot = \<lparr>ev_row = row\<lparr>en_term_version := termVersion\<rparr>, ev_valid_from = fst period,
             ev_valid_until = snd period, ev_state = effectiveState (fst period) (snd period) (env_now env)\<rparr>
       in insert_into term_clash (\<lambda>db. terms (seats db)) with_terms
            (new_term (env_uuid env 0) t (en_id row) termVersion period actorId reason) (
          store (store_entitlement (row\<lparr>en_term_version := termVersion, en_version := js_int (ri_expected inp) + 1\<rparr>)) (
          appendHistory t (env_uuid env 1) (en_id row) (js_int (ri_expected inp) + 1) termVersion ''RENEWED''
            snapshot actorId reason (
          done_with (current, snapshot)))))))))))"

definition readLicenseEntitlement ::
    "string \<Rightarrow> int \<Rightarrow> string \<Rightarrow> entitlement_db \<Rightarrow> exn + entitlement_view" where
  "readLicenseEntitlement t now i db =
     (if \<not> is_uuid i then Inl invalid
      else case find_entitlement t i now db of None \<Rightarrow> Inl (AppError NOT_FOUND) | Some v \<Rightarrow> Inr v)"

definition listLicenseEntitlements :: "string \<Rightarrow> int \<Rightarrow> entitlement_db \<Rightarrow> entitlement_view list" where
  "listLicenseEntitlements t now db =
     take 200 (List.map_filter (entitlement_projection now (seats db))
       (sort_key (\<lambda>e. - en_created_at e) (sort_key en_id (select_rows (\<lambda>e. en_tenant e = t) (all_entitlements db)))))"

section \<open>Expiry facts\<close>

text \<open>
  INSERT ... SELECT ... LIMIT 500 ON CONFLICT DO NOTHING RETURNING: the limit counts the rows selected,
  those that are already recorded too. The identifiers the database draws are left out.
\<close>

fun record_new :: "('f \<Rightarrow> 'f \<Rightarrow> bool) \<Rightarrow> 'f list \<Rightarrow> 'f list \<Rightarrow> 'f list \<times> 'f list" where
  "record_new same [] facts = ([], facts)"
| "record_new same (f # fs) facts =
     (if list_ex (same f) facts then record_new same fs facts
      else let (new, all) = record_new same fs (facts @ [f]) in (f # new, all))"

definition same_expiry :: "expiry_fact \<Rightarrow> expiry_fact \<Rightarrow> bool" where
  "same_expiry x y \<longleftrightarrow> xf_tenant x = xf_tenant y \<and> xf_entitlement x = xf_entitlement y
     \<and> xf_term_version x = xf_term_version y"

definition same_expiring :: "expiring_fact \<Rightarrow> expiring_fact \<Rightarrow> bool" where
  "same_expiring x y \<longleftrightarrow> xg_tenant x = xg_tenant y \<and> xg_entitlement x = xg_entitlement y
     \<and> xg_term_version x = xg_term_version y"

definition as_of_time :: "(string \<Rightarrow> int option) \<Rightarrow> int \<Rightarrow> string option \<Rightarrow> exn + int" where
  "as_of_time parse now asOf = (case optionalTimestamp parse asOf of
     Inl e \<Rightarrow> Inl e | Inr None \<Rightarrow> Inr now | Inr (Some ms) \<Rightarrow> Inr ms)"

definition due_terms :: "string \<Rightarrow> int \<Rightarrow> license_db \<Rightarrow> expiry_fact list" where
  "due_terms t asOf db =
     (let due = filter (\<lambda>tm. tm_tenant tm = t \<and> (case tm_valid_until tm of None \<Rightarrow> False | Some u \<Rightarrow> u \<le> asOf)) (terms db);
          sorted = sort_key (\<lambda>tm. the (tm_valid_until tm)) (sort_key tm_entitlement (sort_key tm_version due))
      in map (\<lambda>tm. \<lparr>xf_tenant = t, xf_entitlement = tm_entitlement tm, xf_term_version = tm_version tm,
               xf_valid_until = the (tm_valid_until tm), xf_expired_at = asOf\<rparr>) (take 500 sorted))"

definition recordDueEntitlementExpiryFacts ::
    "string \<Rightarrow> (string \<Rightarrow> int option) \<Rightarrow> int \<Rightarrow> string option \<Rightarrow> (entitlement_db, expiry_fact list) call" where
  "recordDueEntitlementExpiryFacts t parse now asOf db = (case as_of_time parse now asOf of
     Inl e \<Rightarrow> (Inl e, db)
   | Inr ms \<Rightarrow>
      let (new, all) = record_new same_expiry (due_terms t ms (seats db)) (expiry_facts db)
      in (Inr new, db\<lparr>expiry_facts := all\<rparr>))"

definition expiring_terms :: "string \<Rightarrow> int \<Rightarrow> license_db \<Rightarrow> expiring_fact list" where
  "expiring_terms t asOf db =
     (let near = filter (\<lambda>(e, tm). en_tenant e = t \<and>
            (case (en_renewal_notice_days e, tm_valid_until tm) of
               (Some d, Some u) \<Rightarrow> 0 < d \<and> asOf < u \<and> u \<le> asOf + d * day_ms
             | _ \<Rightarrow> False))
            (List.map_filter (\<lambda>e. map_option (Pair e) (term_of db e)) (entitlements db));
          sorted = sort_key (\<lambda>(e, tm). the (tm_valid_until tm)) (sort_key (\<lambda>(e, tm). en_id e) near)
      in map (\<lambda>(e, tm). \<lparr>xg_tenant = t, xg_entitlement = en_id e, xg_term_version = tm_version tm,
               xg_valid_until = the (tm_valid_until tm), xg_notice_days = the (en_renewal_notice_days e),
               xg_emitted_at = asOf\<rparr>) (take 500 sorted))"

definition recordUpcomingEntitlementExpiringFacts ::
    "string \<Rightarrow> (string \<Rightarrow> int option) \<Rightarrow> int \<Rightarrow> string option \<Rightarrow> (entitlement_db, expiring_fact list) call" where
  "recordUpcomingEntitlementExpiringFacts t parse now asOf db = (case as_of_time parse now asOf of
     Inl e \<Rightarrow> (Inl e, db)
   | Inr ms \<Rightarrow>
      let (new, all) = record_new same_expiring (expiring_terms t ms (seats db)) (expiring_facts db)
      in (Inr new, db\<lparr>expiring_facts := all\<rparr>))"

declare seatTypesByPrincipal.simps [simp del]

section \<open>Seats fit their entitlement\<close>

text \<open>
  Every seat names an entitlement of its tenant, and while it is taken its holder fits the license type.
\<close>

definition seat_in :: "license_db \<Rightarrow> string \<Rightarrow> string \<Rightarrow> bool \<Rightarrow> string \<Rightarrow> bool" where
  "seat_in db t i taken ptype \<longleftrightarrow> (\<exists>e\<in>set (entitlements db). en_tenant e = t \<and> en_id e = i
     \<and> (taken \<longrightarrow> en_type e \<in> set (seatTypesByPrincipal ptype)))"

definition seats_fit :: "license_db \<Rightarrow> bool" where
  "seats_fit db \<longleftrightarrow>
     (\<forall>a\<in>set (licenses db). seat_in db (la_tenant a) (la_entitlement a) (live a) (la_principal_type a))
     \<and> (\<forall>r\<in>set (seat_reservations db). seat_in db (sr_tenant r) (sr_entitlement r) (sr_state r = ''RESERVED'') ''ASSET'')"

text \<open>What the seat commands leave alone.\<close>

definition seat_frame :: "license_db \<Rightarrow> license_db \<Rightarrow> bool" where
  "seat_frame db db' \<longleftrightarrow> entitlements db' = entitlements db \<and> terms db' = terms db \<and> pools db' = pools db"

lemma seat_in_cong: "entitlements db' = entitlements db \<Longrightarrow> seat_in db' = seat_in db"
  by (simp add: seat_in_def fun_eq_iff)

lemma seat_in_less: "seat_in db t i b p \<Longrightarrow> (b' \<Longrightarrow> b) \<Longrightarrow> seat_in db t i b' p"
  by (auto simp: seat_in_def)

lemma seats_fit_rows:
  assumes "seats_fit db"
  shows "a \<in> set (licenses db) \<Longrightarrow> seat_in db (la_tenant a) (la_entitlement a) (live a) (la_principal_type a)"
    and "r \<in> set (seat_reservations db) \<Longrightarrow>
      seat_in db (sr_tenant r) (sr_entitlement r) (sr_state r = ''RESERVED'') ''ASSET''"
    and "r \<in> set (seat_reservations db) \<Longrightarrow> seat_in db (sr_tenant r) (sr_entitlement r) False ''ASSET''"
  using assms by (auto simp: seats_fit_def intro: seat_in_less)

lemma seats_fitI:
  assumes "entitlements db' = entitlements db"
    and "\<And>a. a \<in> set (licenses db') \<Longrightarrow> seat_in db (la_tenant a) (la_entitlement a) (live a) (la_principal_type a)"
    and "\<And>r. r \<in> set (seat_reservations db') \<Longrightarrow>
      seat_in db (sr_tenant r) (sr_entitlement r) (sr_state r = ''RESERVED'') ''ASSET''"
  shows "seats_fit db'"
  unfolding seats_fit_def seat_in_cong [OF assms(1)] using assms(2,3) by blast

lemma save_reservation_rows:
  assumes "save_reservation t env inp i rs = (Inr row, rs')" and "r \<in> set rs'"
  shows "r \<in> set rs \<or> (sr_tenant r = t \<and> sr_entitlement r = i)"
  using assms
  by (auto simp: save_reservation_def Let_def set_update_rows insert_row_Some_iff split: option.splits prod.splits)

lemma reserve_rows:
  assumes "reserveLicenseForDeployment t env inp db = (Inr r, db')"
  obtains "db' = db" | e si row rs h where "e \<in> set (entitlements db)" and "en_tenant e = t"
    and "en_type e \<in> set (seatTypesByPrincipal ''ASSET'')"
    and "save_reservation t env si (en_id e) (seat_reservations db) = (Inr row, rs)"
    and "db' = db\<lparr>seat_reservations := rs, reservation_history := h\<rparr>"
proof -
  let ?found = "find_row (\<lambda>r. sr_tenant r = t \<and> sr_target r = de_target inp) (seat_reservations db)"
  let ?si = "\<lparr>se_product = de_product inp, se_principal_type = ''ASSET'',
                 se_principal_id = de_asset inp, se_target = Some (de_target inp),
                 se_existing = map_option (\<lambda>r. (sr_id r, sr_version r)) ?found,
                 se_actor = de_actor inp,
                 se_reason = ''Reserve a license seat before deployment execution.''\<rparr>"
  from assms consider "db' = db" | "reserveAvailableSeat t env ?si db = (Inr r, db')"
    by (auto simp: reserveLicenseForDeployment_def Let_def split: if_splits option.splits)
  then show thesis
  proof cases
    case 2
    then show ?thesis
      unfolding reserveAvailableSeat_def
    proof (cases rule: reserve_first_Inr)
      case (2 e row rs h)
      with set_seat_candidates [OF 2(1)] show ?thesis
        by (intro that(2) [of e ?si row rs h]) (auto)
    qed (rule that(1))
  qed (rule that(1))
qed

lemma seats_fit_reserve:
  assumes "seats_fit db" and "reserveLicenseForDeployment t env inp db = (Inr r, db')"
  shows "seats_fit db' \<and> seat_frame db db'"
  using assms(2)
proof (cases rule: reserve_rows)
  case (2 e si row rs h)
  have e: "seat_in db t (en_id e) b ''ASSET''" for b
    using 2(1-3) by (auto simp: seat_in_def)
  have "seats_fit db'"
  proof (rule seats_fitI [of _ db])
    fix r' assume "r' \<in> set (seat_reservations db')"
    then have "r' \<in> set (seat_reservations db) \<or> (sr_tenant r' = t \<and> sr_entitlement r' = en_id e)"
      by (intro save_reservation_rows [OF 2(4)]) (simp add: 2(5))
    then show "seat_in db (sr_tenant r') (sr_entitlement r') (sr_state r' = ''RESERVED'') ''ASSET''"
      using seats_fit_rows(2) [OF assms(1), of r'] e by auto
  qed (use seats_fit_rows [OF assms(1)] in \<open>simp_all add: 2(5)\<close>)
  then show ?thesis by (simp add: 2(5) seat_frame_def)
qed (use assms(1) in \<open>simp add: seat_frame_def\<close>)

lemma seats_fit_release:
  assumes "seats_fit db" and "releaseDeploymentReservation t env target who why db = (Inr r, db')"
  shows "seats_fit db' \<and> seat_frame db db'"
  using assms(2)
proof (cases rule: releaseDeploymentReservation_Inr)
  case (2 r0 h)
  have "seats_fit db'"
    by (rule seats_fitI [of _ db])
      (use seats_fit_rows [OF assms(1)] in \<open>auto simp: 2(4) set_update_rows intro: seat_in_less\<close>)
  then show ?thesis by (simp add: 2(4) seat_frame_def)
qed (use assms(1) in \<open>simp add: seat_frame_def\<close>)

lemma seats_fit_create:
  assumes "seats_fit db" and "createLicenseAssignment t env inp db = (Inr r, db')"
  shows "seats_fit db' \<and> seat_frame db db'"
  using assms(2)
proof (cases rule: createLicenseAssignment_Inr)
  case (1 e ls h)
  have fits: "seat_in db t (ai_entitlement inp) True (ai_ptype inp)"
    using find_row_SomeD [OF 1(1)] 1(6) by (auto simp: seat_in_def)
  have "seats_fit db'"
    by (rule seats_fitI [of _ db])
      (use seats_fit_rows [OF assms(1)] 1(4) fits in \<open>auto simp: 1(3,5) insert_row_Some_iff new_license_def intro: seat_in_less\<close>)
  then show ?thesis by (simp add: 1(5) seat_frame_def)
qed

lemma seats_fit_transition:
  assumes "license_inv db" and "seats_fit db" and "transitionLicenseAssignment t env inp db = (Inr r, db')"
  shows "seats_fit db' \<and> seat_frame db db'"
  using assms(3)
proof (cases rule: transitionLicenseAssignment_Inr)
  case (2 current nxt ref h)
  have live: "live current" using map_of_license_transitions [OF 2(3)] by (simp add: live_def)
  have "a = current" if "a \<in> set (licenses db)" "license_key t (mi_assignment inp) a" for a
    using assms(1) that find_row_SomeD [OF 2(1)]
    by (auto simp: license_inv_def license_rows_ok_def license_clash_def intro!: unique_rows_clashD)
  then have moved: "seat_in db (la_tenant a) (la_entitlement a) (live (move_license nxt v n ref a)) (la_principal_type a)"
    if "a \<in> set (licenses db)" "license_key t (mi_assignment inp) a" for a v n
    using seats_fit_rows(1) [OF assms(2) that(1)] that live by (auto intro: seat_in_less)
  have "seats_fit db'"
    by (rule seats_fitI [of _ db])
      (use seats_fit_rows [OF assms(2)] moved in \<open>auto simp: 2(5) set_update_rows\<close>)
  then show ?thesis by (simp add: 2(5) seat_frame_def)
qed (use assms(2) in \<open>simp add: seat_frame_def\<close>)

lemma seats_fit_activate:
  assumes fit: "seats_fit db" and "activateDeploymentReservation t env inp db = (Inr r, db')"
  shows "seats_fit db' \<and> seat_frame db db'"
  using assms(2)
proof (cases rule: activateDeploymentReservation_Inr)
  case (2 r0 ls)
  let ?new = "new_license (env_uuid env 0) t (env_now env) (sr_entitlement r0) (Some (sr_id r0)) ''ASSET''
      (sr_asset r0) (de_actor inp)"
  have fits: "seat_in db t (sr_entitlement r0) True ''ASSET''"
    using fit 2(1,2,4) unfolding seats_fit_def by fastforce
  have ls: "ls = licenses db @ [?new]" using 2(5) by (simp add: insert_row_Some_iff)
  obtain h1 h2 where db': "db' = db\<lparr>seat_reservations := update_rows (\<lambda>x. sr_tenant x = t \<and> sr_id x = sr_id r0)
         (\<lambda>x. x\<lparr>sr_state := ''ASSIGNED'', sr_version := sr_version x + 1\<rparr>) (seat_reservations db),
       licenses := update_rows (license_key t (env_uuid env 0))
         (\<lambda>a. a\<lparr>la_state := ''ACTIVE'', la_activated_at := Some (env_now env), la_version := 2\<rparr>) ls,
       assignment_history := h1, reservation_history := h2\<rparr>"
    using 2(6) by (elim log_activation_Inr) simp
  have fresh: "\<not> license_key t (env_uuid env 0) a" if "a \<in> set (licenses db)" for a
    using 2(5) that by (auto simp: insert_row_Some_iff license_clash_def)
  have "seats_fit db'"
    by (rule seats_fitI [of _ db])
      (use seats_fit_rows [OF fit] fresh fits in \<open>auto simp: db' ls set_update_rows new_license_def intro: seat_in_less\<close>)
  then show ?thesis by (simp add: db' seat_frame_def)
qed (use fit in \<open>simp add: seat_frame_def\<close>)

lemma seat_step_effect:
  assumes "license_inv db" and "seats_fit db" and "license_step t c db = (Inr u, db')"
  shows "seats_fit db' \<and> seat_frame db db'"
proof -
  obtain env k where c: "c = (env, k)" by (cases c)
  have same: "seats_fit (db\<lparr>usage_observations := us\<rparr>)" "seats_fit (db\<lparr>compliance_facts := fs\<rparr>)" for us fs
    using assms(2) by (simp_all add: seats_fit_def seat_in_def)
  have usage: "seats_fit db' \<and> seat_frame db db'" if "recordLicenseUsageObservation t env i db = (Inr r, db')" for i r
  proof -
    from that obtain us where "db' = db\<lparr>usage_observations := us\<rparr>"
      by (auto simp: recordLicenseUsageObservation_def Let_def split: if_splits option.splits)
    then show ?thesis by (simp add: same seat_frame_def)
  qed
  have facts: "seats_fit db' \<and> seat_frame db db'" if "recordLicenseComplianceFacts t env db = (Inr r, db')" for r
    using that by (auto simp: recordLicenseComplianceFacts_def same seat_frame_def split: prod.splits)
  show ?thesis
    using assms(3) unfolding c
    by (cases k) (auto simp: forget_Inr dest: seats_fit_reserve [OF assms(2)] seats_fit_release [OF assms(2)]
      seats_fit_activate [OF assms(2)] seats_fit_create [OF assms(2)] seats_fit_transition [OF assms(1,2)] usage facts)
qed

section \<open>What the entitlement commands do\<close>

lemma linkable_pool_Inr [call_simps]:
  "linkable_pool t p k db = (Inr b, db') \<longleftrightarrow>
     (\<forall>i. p = Some i \<longrightarrow> (\<exists>q. find_pool t i db = Some q \<and> po_state q = ''ACTIVE'')) \<and> k db = (Inr b, db')"
  by (auto simp: linkable_pool_def load_Inr given_Inr fail_if_Inr needed_Inr split: option.split)

lemma appendHistory_Inr [call_simps]:
  "appendHistory t hid i v tv action snap actorId reason k db = (Inr b, db') \<longleftrightarrow>
     (\<exists>actor why. plain_text actorId 256 = Inr actor \<and> nonSecretText reason 2000 = Inr why \<and>
        (let h = \<lparr>eh_id = hid, eh_tenant = t, eh_entitlement = i, eh_version = v, eh_term_version = tv,
                  eh_action = action, eh_snapshot = snap, eh_actor = actor, eh_reason = why\<rparr>
         in (\<forall>x\<in>set (entitlement_log db). \<not> entry_clash h x) \<and>
            k (db\<lparr>entitlement_log := entitlement_log db @ [h]\<rparr>) = (Inr b, db')))"
  by (simp add: appendHistory_def given_Inr insert_into_Inr Let_def)

definition columns_ok :: "entitlement \<Rightarrow> bool" where
  "columns_ok e \<longleftrightarrow> 1 \<le> en_quantity e \<and> en_quantity e \<le> 1000000000 \<and> en_type e \<in> set licenseTypes
     \<and> (en_cost_cents e = None \<longleftrightarrow> en_currency e = None)"

lemma validateQuantity_Inr: "validateQuantity n = Inr q \<Longrightarrow> 1 \<le> q \<and> q \<le> 1000000000"
  by (auto simp: validateQuantity_def split: if_splits)

lemma validateLicenseType_Inr: "validateLicenseType s = Inr v \<Longrightarrow> v \<in> set licenseTypes"
  by (auto simp: validateLicenseType_def split: if_splits)

lemma validateCost_Inr: "validateCost c cur = Inr m \<Longrightarrow> cents_of (fst m) = None \<longleftrightarrow> snd m = None"
  by (auto simp: validateCost_def cents_of_def split: option.splits if_splits sum.splits)

lemmas validated = validateQuantity_Inr validateLicenseType_Inr validateCost_Inr

lemma create_entitlement_effect:
  assumes "createLicenseEntitlement t parse env inp db = (Inr v, db')"
  obtains row tm h where "\<forall>e\<in>set (all_entitlements db). en_id row \<noteq> en_id e"
    and "en_tenant row = t" and "en_term_version row = 1" and "en_version row = 1" and "columns_ok row"
    and "tm_tenant tm = t" and "tm_entitlement tm = en_id row" and "tm_version tm = 1"
    and "eh_tenant h = t" and "eh_entitlement h = en_id row" and "eh_version h = 1"
    and "db' = db\<lparr>seats := (seats db)\<lparr>entitlements := all_entitlements db @ [row], terms := terms (seats db) @ [tm]\<rparr>,
           entitlement_log := entitlement_log db @ [h]\<rparr>"
  using assms
  unfolding createLicenseEntitlement_def Let_def given_Inr linkable_pool_Inr sql_check_Inr insert_into_Inr load_Inr
    fail_if_Inr appendHistory_Inr done_with_Inr
  by (elim exE conjE) (rule that, assumption?,
      simp_all add: new_term_def with_entitlements_def with_terms_def columns_ok_def validated)

lemma store_entitlement_sel [simp]:
  "entitlement_log (store_entitlement e db) = entitlement_log db"
  "terms (seats (store_entitlement e db)) = terms (seats db)"
  "entitlement_log (with_terms ts db) = entitlement_log db"
  "terms (seats (with_terms ts db)) = ts"
  by (simp_all add: store_entitlement_def with_entitlements_def with_terms_def)

lemma find_entitlement_Some:
  assumes "find_entitlement t i now db = Some v"
  shows "ev_row v \<in> set (all_entitlements db) \<and> en_tenant (ev_row v) = t \<and> en_id (ev_row v) = js_lower i
    \<and> term_of (seats db) (ev_row v) \<noteq> None"
  using assms
  by (auto simp: find_entitlement_def entitlement_projection_def bind_eq_Some_conv dest!: find_row_SomeD)

lemma update_effect:
  assumes "updateLicenseEntitlement t parse env inp db = (Inr v, db')"
  obtains row changed h where "row \<in> set (all_entitlements db)" and "en_tenant row = t"
    and "ec_expected inp = JInt (en_version row)"
    and "en_id changed = en_id row" and "en_tenant changed = t" and "en_term_version changed = en_term_version row"
    and "en_version changed = en_version row + 1" and "columns_ok changed"
    and "allocated t (en_id row) (seats db) \<le> en_quantity changed"
    and "has_allocations t (en_id row) (seats db) \<Longrightarrow> en_type changed = en_type row
           \<and> \<not> incompatible_assignment t (en_id row) (en_type row) (seats db)"
    and "has_allocations t (en_id row) (seats db) \<Longrightarrow> en_pool changed = map_option js_lower (en_pool row)"
    and "eh_tenant h = t" and "eh_entitlement h = en_id row" and "eh_version h = en_version row + 1"
    and "db' = (store_entitlement changed db)\<lparr>entitlement_log := entitlement_log db @ [h]\<rparr>"
  by (insert assms, unfold updateLicenseEntitlement_def Let_def given_Inr linkable_pool_Inr sql_check_Inr load_Inr
      store_Inr fail_if_Inr appendHistory_Inr done_with_Inr needed_Inr assertVersion_Inr,
      elim exE conjE, drule find_entitlement_Some, elim conjE, unfold store_entitlement_sel,
      rule that [rotated -1], assumption, auto simp: columns_ok_def validated)

lemma renew_effect:
  assumes "renewLicenseEntitlement t parse env inp db = (Inr v, db')"
  obtains row tm h where "row \<in> set (all_entitlements db)" and "en_tenant row = t"
    and "ri_expected inp = JInt (en_version row)"
    and "tm_tenant tm = t" and "tm_entitlement tm = en_id row" and "tm_version tm = en_term_version row + 1"
    and "eh_tenant h = t" and "eh_entitlement h = en_id row" and "eh_version h = en_version row + 1"
    and "is_uuid (ri_entitlement inp)" and "en_id row = js_lower (ri_entitlement inp)" and "ev_row (fst v) = row"
    and "ev_valid_from (snd v) = tm_valid_from tm" and "ev_valid_until (snd v) = tm_valid_until tm"
    and "ev_state (snd v) = effectiveState (tm_valid_from tm) (tm_valid_until tm) (env_now env)"
    and "validateTerms parse (ri_from inp) (ri_until inp) = Inr (tm_valid_from tm, tm_valid_until tm)"
    and "db' = (store_entitlement (row\<lparr>en_term_version := en_term_version row + 1, en_version := js_int (ri_expected inp) + 1\<rparr>)
           (with_terms (terms (seats db) @ [tm]) db))\<lparr>entitlement_log := entitlement_log db @ [h]\<rparr>"
  by (insert assms, unfold renewLicenseEntitlement_def Let_def given_Inr load_Inr store_Inr insert_into_Inr
      appendHistory_Inr done_with_Inr needed_Inr assertVersion_Inr,
      elim exE conjE, drule find_entitlement_Some, elim conjE, unfold store_entitlement_sel,
      rule that [rotated -1], assumption, simp_all add: new_term_def uuid_text_def split: if_splits)

section \<open>Commands on both kinds of rows\<close>

definition on_seats :: "(license_db, 'a) call \<Rightarrow> (entitlement_db, 'a) call" where
  "on_seats f db = (case f (seats db) of (r, s) \<Rightarrow> (r, db\<lparr>seats := s\<rparr>))"

datatype entitlement_command =
    CreatePool pool_input
  | ChangePool pool_change
  | CreateEntitlement entitlement_input
  | ChangeEntitlement entitlement_change
  | RenewEntitlement renewal_input
  | ExpiryFacts "string option"
  | ExpiringFacts "string option"
  | SeatCommand license_command

fun entitlement_step ::
    "string \<Rightarrow> (string \<Rightarrow> int option) \<Rightarrow> call_env \<times> entitlement_command \<Rightarrow> (entitlement_db, unit) call" where
  "entitlement_step t parse (env, CreatePool i) db = forget (createLicensePool t env i db)"
| "entitlement_step t parse (env, ChangePool i) db = forget (updateLicensePool t i db)"
| "entitlement_step t parse (env, CreateEntitlement i) db = forget (createLicenseEntitlement t parse env i db)"
| "entitlement_step t parse (env, ChangeEntitlement i) db = forget (updateLicenseEntitlement t parse env i db)"
| "entitlement_step t parse (env, RenewEntitlement i) db = forget (renewLicenseEntitlement t parse env i db)"
| "entitlement_step t parse (env, ExpiryFacts a) db = forget (recordDueEntitlementExpiryFacts t parse (env_now env) a db)"
| "entitlement_step t parse (env, ExpiringFacts a) db =
     forget (recordUpcomingEntitlementExpiringFacts t parse (env_now env) a db)"
| "entitlement_step t parse (env, SeatCommand c) db = on_seats (license_step t (env, c)) db"

fun entitlement_run ::
    "string \<Rightarrow> (string \<Rightarrow> int option) \<Rightarrow> (call_env \<times> entitlement_command) list \<Rightarrow> entitlement_db \<Rightarrow> entitlement_db" where
  "entitlement_run t parse [] db = db"
| "entitlement_run t parse (c # cs) db = entitlement_run t parse cs (snd (uow t (entitlement_step t parse c) db))"

lemma entitlement_run_calls: "entitlement_run t parse cs db = pg.run_calls t (map (entitlement_step t parse) cs) db"
  by (induction cs arbitrary: db) simp_all

definition terms_of :: "license_db \<Rightarrow> entitlement \<Rightarrow> license_term list" where
  "terms_of db e = filter (\<lambda>tm. tm_tenant tm = en_tenant e \<and> tm_entitlement tm = en_id e) (terms db)"

definition log_of :: "entitlement_db \<Rightarrow> entitlement \<Rightarrow> entitlement_entry list" where
  "log_of db e = filter (\<lambda>h. eh_tenant h = en_tenant e \<and> eh_entitlement h = en_id e) (entitlement_log db)"

definition entitlement_ok :: "entitlement_db \<Rightarrow> entitlement \<Rightarrow> bool" where
  "entitlement_ok db e \<longleftrightarrow> columns_ok e \<and> 1 \<le> en_term_version e \<and> 1 \<le> en_version e
     \<and> map tm_version (terms_of (seats db) e) = [1..en_term_version e]
     \<and> map eh_version (log_of db e) = [1..en_version e]"

definition names_entitlement :: "entitlement list \<Rightarrow> string \<Rightarrow> string \<Rightarrow> bool" where
  "names_entitlement es t i \<longleftrightarrow> (\<exists>e\<in>set es. en_tenant e = t \<and> en_id e = i)"

definition entitlement_inv :: "entitlement_db \<Rightarrow> bool" where
  "entitlement_inv db \<longleftrightarrow> license_inv (seats db) \<and> seats_fit (seats db)
     \<and> (\<forall>e\<in>set (all_entitlements db). entitlement_ok db e)
     \<and> (\<forall>tm\<in>set (terms (seats db)). names_entitlement (all_entitlements db) (tm_tenant tm) (tm_entitlement tm))
     \<and> (\<forall>h\<in>set (entitlement_log db). names_entitlement (all_entitlements db) (eh_tenant h) (eh_entitlement h))"

lemma entitlement_inv_frame:
  assumes "entitlement_inv db" and "license_inv (seats db')" and "seats_fit (seats db')"
    and "all_entitlements db' = all_entitlements db" and "terms (seats db') = terms (seats db)"
    and "entitlement_log db' = entitlement_log db"
  shows "entitlement_inv db'"
  using assms by (simp add: entitlement_inv_def entitlement_ok_def terms_of_def log_of_def)

lemma license_inv_pools: "license_inv (db\<lparr>pools := ps\<rparr>) = license_inv db" "seats_fit (db\<lparr>pools := ps\<rparr>) = seats_fit db"
  by (simp_all add: license_inv_def license_rows_ok_def capacity_ok_def allocated_weights seats_fit_def seat_in_def)

lemma entitlement_inv_pools: "entitlement_inv (with_pools ps db) = entitlement_inv db"
  by (simp add: entitlement_inv_def entitlement_ok_def terms_of_def log_of_def with_pools_def license_inv_pools)

lemma entitlement_inv_facts:
  "entitlement_inv (db\<lparr>expiry_facts := xs\<rparr>) = entitlement_inv db"
  "entitlement_inv (db\<lparr>expiring_facts := ys\<rparr>) = entitlement_inv db"
  by (simp_all add: entitlement_inv_def entitlement_ok_def terms_of_def log_of_def)

text \<open>No seat refers to an identifier that is not in the table.\<close>

lemma fresh_unallocated:
  assumes "seats_fit db" and "\<forall>e\<in>set (entitlements db). i \<noteq> en_id e"
  shows "allocated t i db = 0"
proof -
  from assms have "la_entitlement a \<noteq> i" if "a \<in> set (licenses db)" for a
    using that unfolding seats_fit_def seat_in_def by metis
  then have "sum_list (map (seat_weight t i) (licenses db)) = 0"
    by (simp add: seat_weight_def cong: map_cong)
  moreover from assms have "sr_entitlement r \<noteq> i" if "r \<in> set (seat_reservations db)" for r
    using that unfolding seats_fit_def seat_in_def by metis
  then have "sum_list (map (hold_weight t i) (seat_reservations db)) = 0"
    by (simp add: hold_weight_def cong: map_cong)
  ultimately show ?thesis by (simp add: allocated_weights)
qed

lemma fresh_rows:
  assumes "\<forall>x\<in>set xs. names_entitlement es (f x) (g x)" and "\<forall>e\<in>set es. i \<noteq> en_id e"
  shows "filter (\<lambda>x. f x = t \<and> g x = i) xs = []"
  using assms unfolding names_entitlement_def filter_empty_conv by metis

lemma names_entitlement_append [simp]: "names_entitlement es t i \<Longrightarrow> names_entitlement (es @ [e]) t i"
  by (auto simp: names_entitlement_def)

lemma entitlement_inv_create:
  assumes inv: "entitlement_inv db" and "createLicenseEntitlement t parse env inp db = (Inr v, db')"
  shows "entitlement_inv db'"
  using assms(2)
proof (cases rule: create_entitlement_effect)
  case (1 row tm h)
  let ?s = "(seats db)\<lparr>entitlements := all_entitlements db @ [row], terms := terms (seats db) @ [tm]\<rparr>"
  note parts = inv [unfolded entitlement_inv_def]
  have alloc: "allocated u i ?s = allocated u i (seats db)" for u i by (simp add: allocated_weights)
  have "license_inv ?s"
    unfolding license_inv_def license_rows_ok_def capacity_ok_def alloc
    using parts 1(1,5) fresh_unallocated [of "seats db" "en_id row" t]
    by (auto simp: license_inv_def license_rows_ok_def capacity_ok_def unique_rows_snoc columns_ok_def 1(2))
  moreover have "seats_fit ?s" using parts by (auto simp: seats_fit_def seat_in_def)
  moreover have "entitlement_ok db' e" if "e \<in> set (all_entitlements db)" for e
    using parts that 1(1) by (auto simp: entitlement_ok_def terms_of_def log_of_def 1)
  moreover have "entitlement_ok db' row"
    using parts 1(5) fresh_rows [of "terms (seats db)" "all_entitlements db" tm_tenant tm_entitlement "en_id row" t]
      fresh_rows [of "entitlement_log db" "all_entitlements db" eh_tenant eh_entitlement "en_id row" t] 1(1)
    by (simp add: entitlement_ok_def terms_of_def log_of_def 1(2-4,6-12))
  ultimately show ?thesis
    using parts 1(6,7,9,10) by (auto simp: entitlement_inv_def 1(2,12)) (simp_all add: names_entitlement_def 1(2))
qed

text \<open>Storing a changed row in place of the one of its identifier.\<close>

lemma set_stored:
  assumes "unique_rows (\<lambda>x y. en_id x = en_id y) (all_entitlements db)" and "row \<in> set (all_entitlements db)"
    and "en_id c = en_id row" and "en_tenant c = en_tenant row"
  shows "e \<in> set (all_entitlements (store_entitlement c db)) \<longleftrightarrow>
      e = c \<or> (e \<in> set (all_entitlements db) \<and> en_id e \<noteq> en_id row)"
proof -
  have "x = row" if "x \<in> set (all_entitlements db)" "en_id x = en_id row" for x
    using assms(1,2) that by (auto intro: unique_rows_keyD)
  then show ?thesis using assms(2-4)
    by (auto simp: store_entitlement_def with_entitlements_def set_update_rows)
qed

lemma names_stored:
  assumes "names_entitlement (all_entitlements db) t i"
  shows "names_entitlement (all_entitlements (store_entitlement c db)) t i"
proof -
  from assms obtain e where e: "e \<in> set (all_entitlements db)" "en_tenant e = t" "en_id e = i"
    by (auto simp: names_entitlement_def)
  let ?e = "if en_tenant e = en_tenant c \<and> en_id e = en_id c then c else e"
  have "?e \<in> set (all_entitlements (store_entitlement c db))"
    using e(1) by (auto simp: store_entitlement_def with_entitlements_def set_update_rows)
  moreover have "en_tenant ?e = t \<and> en_id ?e = i" using e by auto
  ultimately show ?thesis unfolding names_entitlement_def by blast
qed

lemma unique_stored:
  assumes "unique_rows (\<lambda>x y. en_id x = en_id y) (all_entitlements db)"
  shows "unique_rows (\<lambda>x y. en_id x = en_id y) (all_entitlements (store_entitlement c db))"
  using assms unfolding store_entitlement_def with_entitlements_def
  by simp (rule unique_rows_update, auto split: if_splits)

lemma stored_sel [simp]:
  "licenses (seats (store_entitlement c db)) = licenses (seats db)"
  "seat_reservations (seats (store_entitlement c db)) = seat_reservations (seats db)"
  by (simp_all add: store_entitlement_def with_entitlements_def)

lemma allocated_stored: "allocated t i (seats (store_entitlement c db)) = allocated t i (seats db)"
  by (simp add: allocated_weights)

lemma upto_next: "0 \<le> n \<Longrightarrow> [1..n + 1] = [1..n] @ [n + 1 :: int]"
  by (simp add: upto_rec2)

text \<open>Replacing a row keeps the invariant when the new row has room for the seats, still fits their holders, and
  the terms and the history have grown with it.\<close>

lemma entitlement_inv_store:
  assumes inv: "entitlement_inv db" and row: "row \<in> set (all_entitlements db)"
    and c: "en_id c = en_id row" "en_tenant c = en_tenant row" "columns_ok c"
    and room: "allocated (en_tenant row) (en_id row) (seats db) \<le> en_quantity c"
    and type: "has_allocations (en_tenant row) (en_id row) (seats db) \<Longrightarrow> en_type c = en_type row"
    and ts: "ts = [] \<and> en_term_version c = en_term_version row
      \<or> (\<exists>tm. ts = [tm] \<and> tm_tenant tm = en_tenant row \<and> tm_entitlement tm = en_id row
           \<and> tm_version tm = en_term_version row + 1 \<and> en_term_version c = en_term_version row + 1)"
    and h: "eh_tenant h = en_tenant row" "eh_entitlement h = en_id row" "eh_version h = en_version row + 1"
      "en_version c = en_version row + 1"
  shows "entitlement_inv ((store_entitlement c (with_terms (terms (seats db) @ ts) db))
     \<lparr>entitlement_log := entitlement_log db @ [h]\<rparr>)" (is "entitlement_inv ?db")
proof -
  let ?st = "store_entitlement c (with_terms (terms (seats db) @ ts) db)"
  note parts = inv [unfolded entitlement_inv_def]
  have es: "all_entitlements ?st = all_entitlements (store_entitlement c db)"
    and rows: "licenses (seats ?st) = licenses (seats db)" "seat_reservations (seats ?st) = seat_reservations (seats db)"
    and tms: "terms (seats ?st) = terms (seats db) @ ts"
    by (simp_all add: store_entitlement_def with_entitlements_def with_terms_def)
  have u: "unique_rows (\<lambda>x y. en_id x = en_id y) (all_entitlements db)"
    using parts by (auto simp: license_inv_def license_rows_ok_def)
  note stored = set_stored [OF u row c(1,2)]
  have alloc: "allocated t i (seats ?st) = allocated t i (seats db)" for t i
    by (simp only: allocated_weights rows)
  have names: "names_entitlement (all_entitlements db) t i \<Longrightarrow> names_entitlement (all_entitlements ?st) t i" for t i
    unfolding es by (rule names_stored)
  have "license_inv (seats ?st)"
    unfolding license_inv_def license_rows_ok_def capacity_ok_def rows alloc es
    using parts unique_stored [OF u, of c] room
    by (auto simp: stored license_inv_def license_rows_ok_def capacity_ok_def c(1,2))
  moreover have fits: "seat_in (seats ?st) t i taken p"
    if "seat_in (seats db) t i taken p" "taken \<Longrightarrow> has_allocations t i (seats db)" for t i taken p
  proof -
    from that(1) obtain e where e: "e \<in> set (all_entitlements db)" "en_tenant e = t" "en_id e = i"
      "taken \<longrightarrow> en_type e \<in> set (seatTypesByPrincipal p)" by (auto simp: seat_in_def)
    show ?thesis
    proof (cases "en_id e = en_id row")
      case True
      with u row e(1) have "e = row" by (auto intro: unique_rows_keyD)
      with e type that(2) c have "en_tenant c = t \<and> en_id c = i \<and> (taken \<longrightarrow> en_type c \<in> set (seatTypesByPrincipal p))"
        by auto
      then show ?thesis unfolding seat_in_def es by (intro bexI [of _ c]) (auto simp: stored)
    next
      case False
      with e show ?thesis unfolding seat_in_def es by (intro bexI [of _ e]) (auto simp: stored)
    qed
  qed
  have "seats_fit (seats ?st)"
    unfolding seats_fit_def rows
  proof (intro conjI ballI fits)
    fix a assume "a \<in> set (licenses (seats db))" and "live a"
    then show "has_allocations (la_tenant a) (la_entitlement a) (seats db)"
      by (auto simp: has_allocations_def list_ex_iff)
  next
    fix r assume "r \<in> set (seat_reservations (seats db))" and "sr_state r = ''RESERVED''"
    then show "has_allocations (sr_tenant r) (sr_entitlement r) (seats db)"
      by (auto simp: has_allocations_def list_ex_iff)
  qed (use parts in \<open>auto simp: seats_fit_def\<close>)
  moreover have "entitlement_ok ?db c"
    using parts row ts h c
    by (auto simp: entitlement_ok_def terms_of_def log_of_def upto_next)
  moreover have "entitlement_ok ?db e" if "e \<in> set (all_entitlements db)" "en_id e \<noteq> en_id row" for e
    using parts that ts h by (auto simp: entitlement_ok_def terms_of_def log_of_def tms)
  ultimately show ?thesis
    using parts ts h c names row
    by (auto simp: entitlement_inv_def es stored tms) (auto simp: names_entitlement_def stored)
qed

lemma entitlement_inv_update:
  assumes inv: "entitlement_inv db" and "updateLicenseEntitlement t parse env inp db = (Inr v, db')"
  shows "entitlement_inv db'"
  using assms(2)
proof (cases rule: update_effect)
  case (1 row changed h)
  have "with_terms (terms (seats db) @ []) db = db" by (simp add: with_terms_def)
  with entitlement_inv_store [OF inv 1(1), of changed "[]" h] 1 show ?thesis by simp
qed

lemma has_room: "entitlement_inv db \<Longrightarrow> e \<in> set (all_entitlements db) \<Longrightarrow>
    allocated (en_tenant e) (en_id e) (seats db) \<le> en_quantity e"
  by (simp add: entitlement_inv_def license_inv_def capacity_ok_def)

lemma entitlement_inv_renew:
  assumes inv: "entitlement_inv db" and "renewLicenseEntitlement t parse env inp db = (Inr v, db')"
  shows "entitlement_inv db'"
  using assms(2)
proof (cases rule: renew_effect)
  case (1 row tm h)
  let ?c = "row\<lparr>en_term_version := en_term_version row + 1, en_version := js_int (ri_expected inp) + 1\<rparr>"
  have "columns_ok ?c" using inv 1(1) by (auto simp: entitlement_inv_def entitlement_ok_def columns_ok_def)
  with entitlement_inv_store [OF inv 1(1), of ?c "[tm]" h] 1 has_room [OF inv 1(1)] show ?thesis by simp
qed

lemma entitlement_inv_seats:
  assumes inv: "entitlement_inv db" and "on_seats (license_step t c) db = (Inr u, db')"
  shows "entitlement_inv db'"
proof -
  from assms(2) obtain s where s: "license_step t c (seats db) = (Inr u, s)" and db': "db' = db\<lparr>seats := s\<rparr>"
    by (auto simp: on_seats_def split: prod.splits)
  have "license_inv s" "seats_fit s" "seat_frame (seats db) s"
    using license_inv_step [OF _ s] seat_step_effect [OF _ _ s] inv by (auto simp: entitlement_inv_def)
  then show ?thesis
    by (intro entitlement_inv_frame [OF inv]) (simp_all add: db' seat_frame_def)
qed

lemma createLicensePool_Inr:
  assumes "createLicensePool t env inp db = (Inr r, db')"
  obtains ps where "db' = with_pools ps db"
  using assms unfolding createLicensePool_def Let_def given_Inr insert_or_Inr done_with_Inr by blast

lemma updateLicensePool_Inr:
  assumes "updateLicensePool t inp db = (Inr r, db')"
  obtains ps where "db' = with_pools ps db"
  using assms
  unfolding updateLicensePool_def Let_def given_Inr load_Inr fail_if_Inr store_Inr done_with_Inr by blast

lemma expiry_frames:
  "recordDueEntitlementExpiryFacts t parse now a db = (Inr r, db') \<Longrightarrow> \<exists>xs. db' = db\<lparr>expiry_facts := xs\<rparr>"
  "recordUpcomingEntitlementExpiringFacts t parse now a db = (Inr r', db') \<Longrightarrow> \<exists>ys. db' = db\<lparr>expiring_facts := ys\<rparr>"
  by (auto simp: recordDueEntitlementExpiryFacts_def recordUpcomingEntitlementExpiringFacts_def Let_def
      split: sum.splits prod.splits)

lemma entitlement_inv_step:
  assumes "entitlement_inv db" and "entitlement_step t parse c db = (Inr a, db')"
  shows "entitlement_inv db'"
proof -
  obtain env k where c: "c = (env, k)" by (cases c)
  show ?thesis
    using assms unfolding c
    by (cases k)
      (auto simp: forget_Inr entitlement_inv_pools entitlement_inv_facts elim!: createLicensePool_Inr updateLicensePool_Inr
        dest!: expiry_frames dest: entitlement_inv_create entitlement_inv_update entitlement_inv_renew entitlement_inv_seats)
qed

lemma entitlement_inv_run: "entitlement_inv db \<Longrightarrow> entitlement_inv (entitlement_run t parse cs db)"
  unfolding entitlement_run_calls
  by (rule pg.run_calls_invariant [of entitlement_inv]) (auto intro: entitlement_inv_step)

section \<open>Properties\<close>

definition sample_parse :: "string \<Rightarrow> int option" where
  "sample_parse s = (if s = ''2026-01-01T00:00:00Z'' then Some 500
     else if s = ''2027-01-01T00:00:00Z'' then Some 5000 else None)"

definition sample_entitlement_db :: entitlement_db where
  "sample_entitlement_db = \<lparr>seats = sample_license_db, software_products = [(''t'', uuid_of CHR ''a'')],
     entitlement_log = [\<lparr>eh_id = ''h'', eh_tenant = ''t'', eh_entitlement = uuid_of CHR ''e'', eh_version = 1,
       eh_term_version = 1, eh_action = ''CREATED'',
       eh_snapshot = \<lparr>ev_row = hd (entitlements sample_license_db), ev_valid_from = 0, ev_valid_until = None,
         ev_state = ''ACTIVE''\<rparr>, eh_actor = ''op'', eh_reason = ''bought''\<rparr>],
     expiry_facts = [], expiring_facts = []\<rparr>"

definition set_quantity :: "int \<Rightarrow> int \<Rightarrow> entitlement_change" where
  "set_quantity version n = \<lparr>ec_entitlement = uuid_of CHR ''e'', ec_expected = JInt version, ec_pool = None,
     ec_type = ''PER_DEVICE'', ec_quantity = JInt n, ec_purchased = None, ec_contract = None, ec_supplier = None,
     ec_cost = Some (JInt 20), ec_currency = Some ''eur'', ec_notice = None, ec_restrictions = [],
     ec_actor = ''op'', ec_reason = ''true-up''\<rparr>"

lemma sample_entitlement_inv: "entitlement_inv sample_entitlement_db"
  using sample_license_inv
  by (simp add: entitlement_inv_def sample_entitlement_db_def)
     (simp add: seats_fit_def sample_license_db_def entitlement_ok_def columns_ok_def licenseTypes_def terms_of_def log_of_def
       names_entitlement_def)


lemma sample_uuids [simp]:
  "is_uuid (uuid_of CHR ''e'')" "js_lower (uuid_of CHR ''e'') = uuid_of CHR ''e''"
  by code_simp+

lemma sample_found:
  "find_entitlement ''t'' (uuid_of CHR ''e'') n sample_entitlement_db = Some
     \<lparr>ev_row = hd (entitlements sample_license_db), ev_valid_from = 0, ev_valid_until = None,
      ev_state = effectiveState 0 None n\<rparr>"
  by (simp add: find_entitlement_def entitlement_projection_def sample_entitlement_db_def sample_license_db_def find_row_def
     select_rows_def term_of_def)

lemma sample_inputs:
  "uuid_text (uuid_of CHR ''e'') = Inr (uuid_of CHR ''e'')"
  "assertVersion 1 (JInt 1) = Inr ()" "pool_text None = Inr None"
  "validateLicenseType ''PER_DEVICE'' = Inr ''PER_DEVICE''" "validateQuantity (JInt 2) = Inr 2"
  "optionalTimestamp sample_parse None = Inr None" "renewal_notice None = Inr None"
  "validateCost (Some (JInt 20)) (Some ''eur'') = Inr (Some (JInt 20), Some ''EUR'')"
  "validateRestrictions [] = Inr []" "nonSecretText ''true-up'' 2000 = Inr ''true-up''"
  "plain_text ''op'' 256 = Inr ''op''" "optionalText None 256 = Inr None" "cents_of (Some (JInt 20)) = Some 2000"
  "cents_fit (Some (JInt 20))"
  by code_simp+

lemma sample_row:
  "en_version (hd (entitlements sample_license_db)) = 1" "en_id (hd (entitlements sample_license_db)) = uuid_of CHR ''e''"
  "en_tenant (hd (entitlements sample_license_db)) = ''t''" "en_term_version (hd (entitlements sample_license_db)) = 1"
  "allocated ''t'' (uuid_of CHR ''e'') (seats sample_entitlement_db) = 0"
  "has_allocations ''t'' (uuid_of CHR ''e'') (seats sample_entitlement_db) = False"
  by (simp_all add: sample_license_db_def sample_entitlement_db_def allocated_weights has_allocations_def)

definition changed_row :: entitlement where
  "changed_row = (hd (entitlements sample_license_db))
     \<lparr>en_quantity := 2, en_cost_cents := Some 2000, en_currency := Some ''EUR'', en_version := 2\<rparr>"

lemma sample_change:
  obtains v db' where
    "updateLicenseEntitlement ''t'' sample_parse (license_env 1) (set_quantity 1 2) sample_entitlement_db = (Inr v, db')"
    and "all_entitlements db' = [changed_row]" and "licenses (seats db') = []" and "seat_reservations (seats db') = []"
proof -
  have "\<exists>v db'. updateLicenseEntitlement ''t'' sample_parse (license_env 1) (set_quantity 1 2) sample_entitlement_db = (Inr v, db')
    \<and> all_entitlements db' = [changed_row] \<and> licenses (seats db') = [] \<and> seat_reservations (seats db') = []"
    apply (simp add: updateLicenseEntitlement_def call_unfold call_eval sample_found set_quantity_def Let_def
     sample_inputs sample_row linkable_pool_def needed_def sql_check_def appendHistory_def insert_into_def
     store_entitlement_def with_entitlements_def cong: call_cong option.case_cong_weak)
    apply (simp add: sample_entitlement_db_def sample_license_db_def insert_row_def entry_clash_def license_env_def done_with_def
      table_simps uuid_of_def changed_row_def)
    done
  then show thesis using that by blast
qed

lemma sample_changed_run:
  obtains R where "entitlement_run ''t'' sample_parse [(license_env 1, ChangeEntitlement (set_quantity 1 2))]
      sample_entitlement_db = R"
    and "all_entitlements R = [changed_row]" and "licenses (seats R) = []" and "seat_reservations (seats R) = []"
proof -
  obtain v db' where c: "updateLicenseEntitlement ''t'' sample_parse (license_env 1) (set_quantity 1 2)
      sample_entitlement_db = (Inr v, db')" and db': "all_entitlements db' = [changed_row]"
      "licenses (seats db') = []" "seat_reservations (seats db') = []" by (rule sample_change)
  have "uow ''t'' (entitlement_step ''t'' sample_parse (license_env 1, ChangeEntitlement (set_quantity 1 2)))
      sample_entitlement_db = (Inr (), db')"
    unfolding uow_Inr entitlement_step.simps forget_Inr using c by (auto simp: blank_iff js_space_def)
  with db' show thesis by (intro that) simp_all
qed

text \<open>C2: Whatever commands on pools, entitlements and seats run, the live assignments and held reservations of an
  entitlement never exceed its quantity, also after the quantity was changed, and every live assignment still fits
  its license type.\<close>

theorem entitlement_seats_covered:
  assumes "entitlement_inv db" and "e \<in> set (all_entitlements (entitlement_run t parse cs db))"
  shows "live_quantity (en_tenant e) (en_id e) (seats (entitlement_run t parse cs db))
      + reserved_quantity (\<lambda>_. True) (en_tenant e) (en_id e) (seats (entitlement_run t parse cs db)) \<le> en_quantity e
    \<and> \<not> incompatible_assignment (en_tenant e) (en_id e) (en_type e) (seats (entitlement_run t parse cs db))"
proof -
  let ?R = "entitlement_run t parse cs db"
  note inv = entitlement_inv_run [OF assms(1), of t parse cs]
  have u: "unique_rows (\<lambda>x y. en_id x = en_id y) (all_entitlements ?R)" and fit: "seats_fit (seats ?R)"
    using inv by (auto simp: entitlement_inv_def license_inv_def license_rows_ok_def)
  have "en_type e \<in> set (seatTypesByPrincipal (la_principal_type a))"
    if "a \<in> set (licenses (seats ?R))" "la_tenant a = en_tenant e" "la_entitlement a = en_id e" "live a" for a
  proof -
    from seats_fit_rows(1) [OF fit that(1)] that(2-4) obtain e' where "e' \<in> set (all_entitlements ?R)"
      "en_id e' = en_id e" "en_type e' \<in> set (seatTypesByPrincipal (la_principal_type a))" by (auto simp: seat_in_def)
    moreover from this u assms(2) have "e' = e" by (auto intro: unique_rows_keyD)
    ultimately show ?thesis by simp
  qed
  then show ?thesis
    using has_room [OF inv assms(2)] by (auto simp: allocated_def incompatible_assignment_def list_ex_iff)
qed

theorem entitlement_seats_covered_witness:
  "\<exists>R. entitlement_run ''t'' sample_parse [(license_env 1, ChangeEntitlement (set_quantity 1 2))] sample_entitlement_db = R
     \<and> en_quantity (hd (all_entitlements R)) = 2
     \<and> live_quantity ''t'' (uuid_of CHR ''e'') (seats R) + reserved_quantity (\<lambda>_. True) ''t'' (uuid_of CHR ''e'') (seats R) \<le> 2"
proof -
  let ?cs = "[(license_env 1, ChangeEntitlement (set_quantity 1 2))]"
  obtain R where R: "entitlement_run ''t'' sample_parse ?cs sample_entitlement_db = R"
    "all_entitlements R = [changed_row]" by (rule sample_changed_run)
  have "changed_row \<in> set (all_entitlements (entitlement_run ''t'' sample_parse ?cs sample_entitlement_db))"
    using R by simp
  from entitlement_seats_covered [OF sample_entitlement_inv this] R(2) show ?thesis
    unfolding R(1) by (simp add: changed_row_def sample_row)
qed

text \<open>C37: In every reachable state the terms of an entitlement are numbered from 1 to its current one without gaps, the
  current one is there, and its history has exactly one entry for each of its versions.\<close>

theorem entitlement_terms_numbered:
  assumes "entitlement_inv db" and "e \<in> set (all_entitlements (entitlement_run t parse cs db))"
  shows "map tm_version (terms_of (seats (entitlement_run t parse cs db)) e) = [1..en_term_version e]
    \<and> term_of (seats (entitlement_run t parse cs db)) e \<noteq> None
    \<and> map eh_version (log_of (entitlement_run t parse cs db) e) = [1..en_version e]"
proof -
  let ?R = "entitlement_run t parse cs db"
  have ok: "entitlement_ok ?R e"
    using entitlement_inv_run [OF assms(1), of t parse cs] assms(2) by (simp add: entitlement_inv_def)
  then have "en_term_version e \<in> set (map tm_version (terms_of (seats ?R) e))" by (simp add: entitlement_ok_def)
  then have "term_of (seats ?R) e \<noteq> None"
    by (auto simp: term_of_def find_row_None_iff terms_of_def)
  with ok show ?thesis by (simp add: entitlement_ok_def)
qed

theorem entitlement_terms_numbered_witness:
  "\<exists>R. entitlement_run ''t'' sample_parse [(license_env 1, ChangeEntitlement (set_quantity 1 2))] sample_entitlement_db = R
     \<and> map eh_version (log_of R changed_row) = [1..2] \<and> map tm_version (terms_of (seats R) changed_row) = [1..1]"
proof -
  let ?cs = "[(license_env 1, ChangeEntitlement (set_quantity 1 2))]"
  obtain R where R: "entitlement_run ''t'' sample_parse ?cs sample_entitlement_db = R"
    "all_entitlements R = [changed_row]" by (rule sample_changed_run)
  have "changed_row \<in> set (all_entitlements (entitlement_run ''t'' sample_parse ?cs sample_entitlement_db))"
    using R by simp
  from entitlement_terms_numbered [OF sample_entitlement_inv this] show ?thesis
    unfolding R(1) by (simp add: changed_row_def sample_row)
qed

lemma validateTerms_Inr:
  "validateTerms parse x u = Inr (start, ends) \<Longrightarrow> has_zone x \<and> parse x = Some start \<and>
     ends = (case u of None \<Rightarrow> None | Some s \<Rightarrow> if s = [] then None else parse s)
     \<and> (case ends of None \<Rightarrow> True | Some e \<Rightarrow> start < e)"
  by (auto simp: validateTerms_def timestamp_def optionalTimestamp_def split: sum.splits option.splits if_splits)

text \<open>C18: A renewal that succeeds takes effect at once: reading the entitlement gives the period that the request asked
  for, its start and its end or that it has none, the state of that period, the next term number and the next
  version, as the answer says, and no earlier term and no seat is touched.\<close>

theorem renewal_takes_effect:
  assumes "entitlement_inv db" and "renewLicenseEntitlement t parse env inp db = (Inr (before, after), db')"
  shows "\<exists>v. readLicenseEntitlement t (env_now env) (ri_entitlement inp) db' = Inr v
      \<and> parse (ri_from inp) = Some (ev_valid_from v)
      \<and> ev_valid_until v = (case ri_until inp of None \<Rightarrow> None | Some u \<Rightarrow> if u = [] then None else parse u)
      \<and> ev_state v = effectiveState (ev_valid_from v) (ev_valid_until v) (env_now env)
      \<and> ev_valid_from v = ev_valid_from after \<and> ev_valid_until v = ev_valid_until after \<and> ev_state v = ev_state after
      \<and> en_term_version (ev_row v) = en_term_version (ev_row before) + 1
      \<and> en_version (ev_row v) = en_version (ev_row before) + 1
      \<and> butlast (terms (seats db')) = terms (seats db)
      \<and> licenses (seats db') = licenses (seats db) \<and> seat_reservations (seats db') = seat_reservations (seats db)"
  using assms(2)
proof (cases rule: renew_effect)
  case (1 row tm h)
  let ?c = "row\<lparr>en_term_version := en_term_version row + 1, en_version := js_int (ri_expected inp) + 1\<rparr>"
  note parts = assms(1) [unfolded entitlement_inv_def]
  have u: "unique_rows (\<lambda>x y. en_id x = en_id y) (all_entitlements (with_terms (terms (seats db) @ [tm]) db))"
    using parts by (auto simp: license_inv_def license_rows_ok_def with_terms_def)
  have es: "e \<in> set (all_entitlements db') \<longleftrightarrow> e = ?c \<or> (e \<in> set (all_entitlements db) \<and> en_id e \<noteq> en_id row)" for e
    using set_stored [OF u, of row ?c e] 1(1) by (simp add: 1(17)) (simp add: with_terms_def)
  have found: "find_row (\<lambda>e. en_tenant e = t \<and> en_id e = js_lower (ri_entitlement inp)) (all_entitlements db') = Some ?c"
    (is "?f = _")
  proof (cases ?f)
    case None
    then have "\<not> (en_tenant ?c = t \<and> en_id ?c = js_lower (ri_entitlement inp))"
      unfolding find_row_None_iff by (metis es)
    then show ?thesis using 1(2,11) by simp
  next
    case (Some e)
    then show ?thesis using es [of e] 1(11) by (auto dest: find_row_SomeD)
  qed
  have "tm_version x \<noteq> en_term_version row + 1" if "x \<in> set (terms (seats db))" "tm_tenant x = t" "tm_entitlement x = en_id row" for x
  proof -
    have "tm_version x \<in> set (map tm_version (terms_of (seats db) row))" using that 1(2) by (simp add: terms_of_def)
    moreover have "map tm_version (terms_of (seats db) row) = [1..en_term_version row]"
      using parts 1(1) by (simp add: entitlement_ok_def)
    ultimately show ?thesis by simp
  qed
  then have "term_of (seats db') ?c = Some tm"
    using 1(2,4-6) by (auto simp: term_of_def 1(17) find_row_append table_simps find_row_None_iff split: option.split dest!: find_row_SomeD)
  then have "find_entitlement t (ri_entitlement inp) (env_now env) db' = Some
      \<lparr>ev_row = ?c, ev_valid_from = tm_valid_from tm, ev_valid_until = tm_valid_until tm,
       ev_state = effectiveState (tm_valid_from tm) (tm_valid_until tm) (env_now env)\<rparr>"
    by (simp add: find_entitlement_def found entitlement_projection_def)
  then show ?thesis using 1(3,10,12-15) validateTerms_Inr [OF 1(16)]
    by (simp add: readLicenseEntitlement_def) (simp add: 1(17) with_terms_def)
qed

definition sample_renewal :: renewal_input where
  "sample_renewal = \<lparr>ri_entitlement = uuid_of CHR ''e'', ri_expected = JInt 1, ri_from = ''2026-01-01T00:00:00Z'',
     ri_until = Some ''2027-01-01T00:00:00Z'', ri_actor = ''op'', ri_reason = ''true-up''\<rparr>"

lemma sample_period:
  "validateTerms sample_parse ''2026-01-01T00:00:00Z'' (Some ''2027-01-01T00:00:00Z'') = Inr (500, Some 5000)"
  by code_simp

lemma sample_ids:
  "env_uuid (license_env 1) 0 \<noteq> uuid_of CHR ''0''" "env_uuid (license_env 1) 1 \<noteq> ''h''"
  by code_simp+

lemma sample_renewed:
  "\<exists>p. fst (renewLicenseEntitlement ''t'' sample_parse (license_env 1) sample_renewal sample_entitlement_db) = Inr p
     \<and> ev_valid_until (snd p) = Some 5000 \<and> ev_state (snd p) = effectiveState 500 (Some 5000) (env_now (license_env 1))"
  apply (simp add: renewLicenseEntitlement_def call_unfold call_eval sample_found sample_renewal_def Let_def
     sample_inputs sample_row sample_period needed_def appendHistory_def insert_into_def
     store_entitlement_def with_entitlements_def with_terms_def cong: call_cong option.case_cong_weak)
  apply (simp add: sample_entitlement_db_def sample_license_db_def insert_row_def entry_clash_def term_clash_def
      call_unfold call_eval insert_into_def cong: call_cong)
  apply (simp add: table_simps new_term_def sample_ids [unfolded One_nat_def] call_unfold call_eval insert_into_def
      insert_row_def entry_clash_def)
  done

theorem renewal_takes_effect_witness:
  "\<exists>v db'. readLicenseEntitlement ''t'' 1000 (uuid_of CHR ''e'') db' = Inr v \<and> ev_state v = ''ACTIVE''
     \<and> ev_valid_until v = Some 5000 \<and> butlast (terms (seats db')) = terms sample_license_db"
proof -
  let ?call = "renewLicenseEntitlement ''t'' sample_parse (license_env 1) sample_renewal sample_entitlement_db"
  from sample_renewed obtain before after where p: "fst ?call = Inr (before, after)"
    and after: "ev_valid_until after = Some 5000" "ev_state after = effectiveState 500 (Some 5000) (env_now (license_env 1))"
    by (metis prod.collapse)
  define db' where "db' = snd ?call"
  have r: "?call = (Inr (before, after), db')" unfolding db'_def p [symmetric] by simp
  from renewal_takes_effect [OF sample_entitlement_inv r] obtain v where
    "readLicenseEntitlement ''t'' (env_now (license_env 1)) (ri_entitlement sample_renewal) db' = Inr v"
    "ev_state v = ev_state after" "ev_valid_until v = ev_valid_until after"
    "butlast (terms (seats db')) = terms (seats sample_entitlement_db)" by blast
  with after show ?thesis
    by (intro exI [of _ v] exI [of _ db']) (simp add: sample_renewal_def license_env_def sample_entitlement_db_def effectiveState_def)
qed

text \<open>The facts an expiry leaves.\<close>

definition facts_ok :: "entitlement_db \<Rightarrow> bool" where
  "facts_ok db \<longleftrightarrow> unique_rows same_expiry (expiry_facts db) \<and> (\<forall>f\<in>set (expiry_facts db). xf_valid_until f \<le> xf_expired_at f)"

lemma same_expiry_sym: "same_expiry x y \<Longrightarrow> same_expiry y x"
  by (simp add: same_expiry_def)

lemma record_new_unique:
  assumes "record_new same fs facts = (new, all)" and "unique_rows same facts" and "\<And>x y. same x y \<Longrightarrow> same y x"
  shows "unique_rows same all \<and> set all = set new \<union> set facts \<and> set new \<subseteq> set fs
    \<and> (\<forall>f\<in>set new. \<forall>x\<in>set facts. \<not> same f x)"
  using assms(1,2)
proof (induction fs arbitrary: facts new all)
  case (Cons f fs)
  show ?case
  proof (cases "list_ex (same f) facts")
    case True
    then have "record_new same fs facts = (new, all)" using Cons.prems(1) by simp
    from Cons.IH [OF this Cons.prems(2)] show ?thesis by auto
  next
    case False
    then obtain new' where r: "record_new same fs (facts @ [f]) = (new', all)" and new: "new = f # new'"
      using Cons.prems(1) by (auto split: prod.splits)
    have "unique_rows same (facts @ [f])"
      using False Cons.prems(2) assms(3) by (intro unique_rows_snoc) (auto simp: list_ex_iff)
    from Cons.IH [OF r this] have ih: "unique_rows same all" "set all = set new' \<union> set (facts @ [f])"
      "set new' \<subseteq> set fs" "\<forall>g\<in>set new'. \<forall>x\<in>set (facts @ [f]). \<not> same g x" by simp_all
    from False have nf: "\<forall>x\<in>set facts. \<not> same f x" by (simp add: list_ex_iff)
    show ?thesis unfolding new
    proof (intro conjI)
      show "set all = set (f # new') \<union> set facts" unfolding ih(2) by auto
      show "set (f # new') \<subseteq> set (f # fs)" using ih(3) by auto
      show "\<forall>g\<in>set (f # new'). \<forall>x\<in>set facts. \<not> same g x" using ih(4) nf by simp
    qed (rule ih(1))
  qed
qed simp

lemma due_terms_past: "f \<in> set (due_terms t now db) \<Longrightarrow> xf_valid_until f \<le> xf_expired_at f \<and> xf_expired_at f = now"
  by (auto simp: due_terms_def Let_def dest!: in_set_takeD split: option.splits)

lemma facts_ok_due:
  assumes "facts_ok db" and "recordDueEntitlementExpiryFacts t parse now a db = (Inr r, db')"
  shows "facts_ok db' \<and> (\<forall>f\<in>set r. \<forall>x\<in>set (expiry_facts db). \<not> same_expiry f x)"
proof -
  from assms(2) obtain ms all where "record_new same_expiry (due_terms t ms (seats db)) (expiry_facts db) = (r, all)"
    and db': "db' = db\<lparr>expiry_facts := all\<rparr>"
    by (auto simp: recordDueEntitlementExpiryFacts_def Let_def split: sum.splits prod.splits)
  from record_new_unique [OF this(1)] assms(1) same_expiry_sym show ?thesis
    unfolding db' facts_ok_def by (auto dest: due_terms_past)
qed

text \<open>A pass announces only expiries that no earlier pass has announced, at most one per term, and none before its
  time; what it announces is recorded, so the next pass leaves it out.\<close>

theorem expiry_announced_once:
  assumes "facts_ok db" and "recordDueEntitlementExpiryFacts t parse now a db = (Inr new, db1)"
    and "recordDueEntitlementExpiryFacts t parse now' a' db1 = (Inr again, db2)"
  shows "distinct (map (\<lambda>f. (xf_tenant f, xf_entitlement f, xf_term_version f)) (expiry_facts db2))
    \<and> list_all (\<lambda>f. xf_valid_until f \<le> xf_expired_at f) (expiry_facts db2)
    \<and> \<not> list_ex (\<lambda>f. list_ex (same_expiry f) new) again"
proof -
  note ok1 = facts_ok_due [OF assms(1,2)]
  note ok2 = facts_ok_due [OF conjunct1 [OF ok1] assms(3)]
  have "distinct (map (\<lambda>f. (xf_tenant f, xf_entitlement f, xf_term_version f)) xs)" if "unique_rows same_expiry xs" for xs
    using that by (induction xs) (auto simp: unique_rows_def same_expiry_def)
  moreover have "set new \<subseteq> set (expiry_facts db1)"
  proof -
    from assms(2) obtain ms all where r: "record_new same_expiry (due_terms t ms (seats db)) (expiry_facts db) = (new, all)"
      and db1: "db1 = db\<lparr>expiry_facts := all\<rparr>"
      by (auto simp: recordDueEntitlementExpiryFacts_def Let_def split: sum.splits prod.splits)
    from record_new_unique [OF r] assms(1) same_expiry_sym show ?thesis by (auto simp: db1 facts_ok_def)
  qed
  ultimately show ?thesis using ok2 by (auto simp: facts_ok_def list_all_iff list_ex_iff)
qed

definition ended_db :: entitlement_db where
  "ended_db = with_terms [(hd (terms sample_license_db))\<lparr>tm_valid_until := Some 300\<rparr>] sample_entitlement_db"

theorem expiry_announced_once_witness:
  "\<exists>new db1 again db2. recordDueEntitlementExpiryFacts ''t'' sample_parse 400 None ended_db = (Inr new, db1)
     \<and> recordDueEntitlementExpiryFacts ''t'' sample_parse 700 None db1 = (Inr again, db2)
     \<and> length new = 1 \<and> \<not> list_ex (\<lambda>f. list_ex (same_expiry f) new) again"
proof -
  let ?f = "\<lparr>xf_tenant = ''t'', xf_entitlement = uuid_of CHR ''e'', xf_term_version = 1, xf_valid_until = 300,
    xf_expired_at = 400\<rparr>"
  have 1: "recordDueEntitlementExpiryFacts ''t'' sample_parse 400 None ended_db = (Inr [?f], ended_db\<lparr>expiry_facts := [?f]\<rparr>)"
    by (simp add: recordDueEntitlementExpiryFacts_def as_of_time_def optionalTimestamp_def due_terms_def ended_db_def
      with_terms_def sample_license_db_def sample_entitlement_db_def)
  have 2: "recordDueEntitlementExpiryFacts ''t'' sample_parse 700 None (ended_db\<lparr>expiry_facts := [?f]\<rparr>) =
      (Inr [], ended_db\<lparr>expiry_facts := [?f]\<rparr>)"
    by (simp add: recordDueEntitlementExpiryFacts_def as_of_time_def optionalTimestamp_def due_terms_def ended_db_def
      with_terms_def sample_license_db_def sample_entitlement_db_def same_expiry_def)
  have "facts_ok ended_db" by (simp add: facts_ok_def ended_db_def with_terms_def sample_entitlement_db_def)
  from expiry_announced_once [OF this 1 2] 1 2 show ?thesis by fastforce
qed

text \<open>The limit of the statement counts the terms already recorded: with 500 terms that ended earlier, it selects no
  later one, at whatever time.\<close>

lemma due_terms_early:
  assumes "500 \<le> length (filter (\<lambda>x. tm_tenant x = t \<and> (case tm_valid_until x of None \<Rightarrow> False | Some u \<Rightarrow> u < ends)) (terms db))"
    and "f \<in> set (due_terms t now db)"
  shows "xf_valid_until f < ends"
proof (cases "now < ends")
  case True
  with assms(2) show ?thesis
    by (auto simp: due_terms_def Let_def split: option.splits dest!: in_set_takeD)
next
  case False
  let ?until = "\<lambda>x. the (tm_valid_until x)"
  define due where "due = filter (\<lambda>x. tm_tenant x = t \<and> (case tm_valid_until x of None \<Rightarrow> False | Some u \<Rightarrow> u \<le> now))
    (terms db)"
  define srt where "srt = sort_key ?until (sort_key tm_entitlement (sort_key tm_version due))"
  have srt: "sorted (map ?until srt)" "mset srt = mset due" by (simp_all add: srt_def)
  let ?early = "\<lambda>x. ?until x < ends"
  have "filter ?early due = filter (\<lambda>x. tm_tenant x = t \<and> (case tm_valid_until x of None \<Rightarrow> False | Some u \<Rightarrow> u < ends)) (terms db)"
    unfolding due_def filter_filter by (rule filter_cong) (use False in \<open>auto split: option.splits\<close>)
  then have early: "500 \<le> length (filter ?early srt)"
    using assms(1) srt(2) by (metis mset_filter size_mset)
  have "?early x" if "x \<in> set (take 500 srt)" for x
  proof (rule ccontr)
    assume late: "\<not> ?early x"
    from that obtain n where n: "n < 500" "n < length srt" "x = srt ! n" by (auto simp: in_set_conv_nth)
    have "\<not> ?early y" if "y \<in> set (drop n srt)" for y
    proof -
      from that obtain k where "k < length (drop n srt)" "y = drop n srt ! k" by (metis in_set_conv_nth)
      then have k: "n + k < length srt" "y = srt ! (n + k)" by simp_all
      have "map ?until srt ! n \<le> map ?until srt ! (n + k)"
        using srt(1) k(1) by (intro sorted_nth_mono) simp_all
      then show ?thesis using late n k by simp
    qed
    then have "filter ?early (drop n srt) = []" by (simp add: filter_empty_conv)
    then have "filter ?early srt = filter ?early (take n srt)"
      by (metis append_Nil2 append_take_drop_id filter_append)
    then have "length (filter ?early srt) \<le> n" by (metis length_filter_le length_take min.cobounded2 order_trans)
    with early n show False by simp
  qed
  with assms(2) show ?thesis
    by (auto simp: due_terms_def Let_def due_def [symmetric] srt_def [symmetric])
qed

definition crowded_db :: entitlement_db where
  "crowded_db = with_terms
     (map (\<lambda>n. (hd (terms sample_license_db))\<lparr>tm_version := int n, tm_valid_until := Some 300\<rparr>) [0..<500]
      @ [(hd (terms sample_license_db))\<lparr>tm_version := 500, tm_valid_until := Some 800\<rparr>]) sample_entitlement_db"

lemma crowded_terms:
  "terms (seats crowded_db) = map (\<lambda>n. (hd (terms sample_license_db))\<lparr>tm_version := int n, tm_valid_until := Some 300\<rparr>) [0..<500]
      @ [(hd (terms sample_license_db))\<lparr>tm_version := 500, tm_valid_until := Some 800\<rparr>]"
  by (simp add: crowded_db_def)

lemma sample_term: "tm_tenant (hd (terms sample_license_db)) = ''t''"
  by (simp add: sample_license_db_def)

lemma price_double: "to_double (1999 / 100) = JFrac (5626684784446013 / 281474976710656)"
proof -
  have e: "exponent_of (1999 / 100) = 4" by code_simp
  have f: "\<lfloor>140667119611150336 / 25 :: rat\<rfloor> = 5626684784446013" "\<lfloor>5626684784446013 / 281474976710656 :: rat\<rfloor> = 19"
    by (simp_all add: floor_eq_iff)
  show ?thesis by (simp add: to_double_def rounded_def double_ulp_def two_power_def round_half_even_def Let_def e f)
qed

lemma price_times: "to_double (140667119611150325 / 70368744177664) = JFrac (8791694975696895 / 4398046511104)"
proof -
  have e: "exponent_of (140667119611150325 / 70368744177664) = 10" by code_simp
  have f: "\<lfloor>140667119611150325 / 16 :: rat\<rfloor> = 8791694975696895" "\<lfloor>8791694975696895 / 4398046511104 :: rat\<rfloor> = 1998"
    by (simp_all add: floor_eq_iff)
  show ?thesis by (simp add: to_double_def rounded_def double_ulp_def two_power_def round_half_even_def Let_def e f)
qed

text \<open>A cost of 19.99 has two decimals and is refused: its double times 100 is 1998.9999999999998.\<close>

theorem cents_refused:
  "validateCost (Some (to_double (1999 / 100))) (Some ''EUR'') = Inl (AppError VALIDATION_ERROR)"
  by (simp add: price_double validateCost_def price_times invalid_def)

end
