(* ===== verification/License_Expiry.thy ===== *)
theory License_Expiry
  imports License_Entitlements
begin

text \<open>
  \<open>apps/worker/src/license-expiry.ts\<close>: the pass of the expiry scheduler over one tenant. It records the
  facts of License_Entitlements and announces each new one in the outbox of the same unit of work. An
  announcement keeps the fact and what the code computes from it; the envelope (random identifiers, the
  service name) and the audit entry beside it are left out. The polling loop never ends by itself and is
  left out; a run is a list of passes.
\<close>

datatype license_event =
    LicenseExpiring expiring_fact int
  | LicenseExpired expiry_fact
  | ComplianceFinding compliance_fact

record expiry_state =
  xs_db :: entitlement_db
  xs_outbox :: "license_event list"

text \<open>\<open>Math.max(0, Math.ceil(difference / 86_400_000))\<close>.\<close>

definition days_remaining :: "expiring_fact \<Rightarrow> int" where
  "days_remaining f = max 0 (- ((xg_emitted_at f - xg_valid_until f) div day_ms))"

definition write_facts :: "license_event list \<Rightarrow> expiry_state \<Rightarrow> expiry_state" where
  "write_facts evs s = s\<lparr>xs_outbox := xs_outbox s @ evs\<rparr>"

definition on_db :: "(entitlement_db, 'a) call \<Rightarrow> ('a \<Rightarrow> (expiry_state, 'b) call) \<Rightarrow> (expiry_state, 'b) call" where
  "on_db f k s = (case f (xs_db s) of
     (Inl e, db) \<Rightarrow> (Inl e, s\<lparr>xs_db := db\<rparr>)
   | (Inr a, db) \<Rightarrow> k a (s\<lparr>xs_db := db\<rparr>))"

definition expiry_pass :: "string \<Rightarrow> (string \<Rightarrow> int option) \<Rightarrow> call_env \<Rightarrow> (expiry_state, unit) call" where
  "expiry_pass t parse env =
     on_db (recordUpcomingEntitlementExpiringFacts t parse (env_now env) None) (\<lambda>expiring.
     store (write_facts (map (\<lambda>f. LicenseExpiring f (days_remaining f)) expiring)) (
     on_db (recordDueEntitlementExpiryFacts t parse (env_now env) None) (\<lambda>expired.
     store (write_facts (map LicenseExpired expired)) (
     on_db (on_seats (recordLicenseComplianceFacts t env)) (\<lambda>findings.
     store (write_facts (map ComplianceFinding findings)) (done_with ()))))))"

fun expiry_passes :: "(string \<Rightarrow> int option) \<Rightarrow> (string \<times> call_env) list \<Rightarrow> expiry_state \<Rightarrow> expiry_state" where
  "expiry_passes parse [] s = s"
| "expiry_passes parse ((t, env) # ps) s = expiry_passes parse ps (snd (uow t (expiry_pass t parse env) s))"

section \<open>Announcements and facts agree\<close>

definition announced :: "(license_event \<Rightarrow> 'f option) \<Rightarrow> expiry_state \<Rightarrow> 'f list" where
  "announced sel s = List.map_filter sel (xs_outbox s)"

fun as_expiring :: "license_event \<Rightarrow> expiring_fact option" where
  "as_expiring (LicenseExpiring f _) = Some f" | "as_expiring _ = None"

fun as_expired :: "license_event \<Rightarrow> expiry_fact option" where
  "as_expired (LicenseExpired f) = Some f" | "as_expired _ = None"

fun as_finding :: "license_event \<Rightarrow> compliance_fact option" where
  "as_finding (ComplianceFinding f) = Some f" | "as_finding _ = None"

definition outbox_agrees :: "expiry_state \<Rightarrow> bool" where
  "outbox_agrees s \<longleftrightarrow> announced as_expiring s = expiring_facts (xs_db s)
     \<and> announced as_expired s = expiry_facts (xs_db s)
     \<and> announced as_finding s = compliance_facts (seats (xs_db s))"

lemma record_new_append: "record_new same fs facts = (new, all) \<Longrightarrow> all = facts @ new"
proof (induction fs arbitrary: facts new all)
  case (Cons f fs)
  from Cons.prems show ?case by (auto split: if_splits prod.splits dest: Cons.IH)
qed simp

lemma record_facts_append: "record_facts t uuid n cs fs = (Inr new, fs') \<Longrightarrow> fs' = fs @ new"
proof (induction cs arbitrary: n fs new fs')
  case (Cons c cs)
  from Cons.prems show ?case
    by (auto simp: Let_def insert_row_Some_iff split: if_splits option.splits prod.splits sum.splits dest: Cons.IH)
qed simp

lemma map_filter_append: "List.map_filter f (xs @ ys) = List.map_filter f xs @ List.map_filter f ys"
  by (simp add: List.map_filter_def)

lemma map_filter_map:
  "List.map_filter as_expiring (map (\<lambda>f. LicenseExpiring f (d f)) xs) = xs"
  "List.map_filter as_expiring (map LicenseExpired es) = []" "List.map_filter as_expiring (map ComplianceFinding cs) = []"
  "List.map_filter as_expired (map (\<lambda>f. LicenseExpiring f (d f)) xs) = []"
  "List.map_filter as_expired (map LicenseExpired es) = es" "List.map_filter as_expired (map ComplianceFinding cs) = []"
  "List.map_filter as_finding (map (\<lambda>f. LicenseExpiring f (d f)) xs) = []"
  "List.map_filter as_finding (map LicenseExpired es) = []" "List.map_filter as_finding (map ComplianceFinding cs) = cs"
  by (simp_all add: List.map_filter_def comp_def)

lemma recorded:
  "recordUpcomingEntitlementExpiringFacts t parse now a db = (Inr new, db1) \<Longrightarrow>
     db1 = db\<lparr>expiring_facts := expiring_facts db @ new\<rparr>"
  "recordDueEntitlementExpiryFacts t parse now a db = (Inr new', db2) \<Longrightarrow>
     db2 = db\<lparr>expiry_facts := expiry_facts db @ new'\<rparr>"
  "on_seats (recordLicenseComplianceFacts t env) db = (Inr found, db3) \<Longrightarrow>
     db3 = db\<lparr>seats := (seats db)\<lparr>compliance_facts := compliance_facts (seats db) @ found\<rparr>\<rparr>"
  by (auto simp: recordUpcomingEntitlementExpiringFacts_def recordDueEntitlementExpiryFacts_def on_seats_def
      recordLicenseComplianceFacts_def Let_def split: sum.splits prod.splits
      dest!: record_new_append record_facts_append)

lemma on_db_Inr: "on_db f k s = (Inr b, s') \<longleftrightarrow>
    (\<exists>a db. f (xs_db s) = (Inr a, db) \<and> k a (s\<lparr>xs_db := db\<rparr>) = (Inr b, s'))"
  by (auto simp: on_db_def split: prod.splits sum.splits)

lemma expiry_pass_agrees:
  assumes "outbox_agrees s" and "expiry_pass t parse env s = (Inr u, s')"
  shows "outbox_agrees s'"
  using assms unfolding expiry_pass_def on_db_Inr store_Inr done_with_Inr
  by (elim exE conjE) (auto simp: outbox_agrees_def announced_def write_facts_def map_filter_append map_filter_map
      dest!: recorded)

text \<open>C19: However the passes run and fail, the announcements of expiries, of coming expiries and of compliance findings
  are exactly the recorded facts, in the order they were recorded: none is announced twice, and none is recorded in
  silence.\<close>

theorem announcements_match_facts:
  assumes "outbox_agrees s"
  shows "announced as_expired (expiry_passes parse ps s) = expiry_facts (xs_db (expiry_passes parse ps s))
    \<and> announced as_expiring (expiry_passes parse ps s) = expiring_facts (xs_db (expiry_passes parse ps s))
    \<and> announced as_finding (expiry_passes parse ps s) = compliance_facts (seats (xs_db (expiry_passes parse ps s)))"
proof -
  have "outbox_agrees (expiry_passes parse ps s)"
    using assms
  proof (induction ps arbitrary: s)
    case (Cons p ps)
    obtain t env where p: "p = (t, env)" by (cases p)
    have "outbox_agrees (snd (uow t (expiry_pass t parse env) s))"
      by (rule pg.run_invariant [where I = outbox_agrees, OF Cons.prems]) (rule expiry_pass_agrees [OF Cons.prems])
    with Cons.IH show ?case by (simp add: p)
  qed simp
  then show ?thesis by (simp add: outbox_agrees_def)
qed

definition ended_state :: expiry_state where
  "ended_state = \<lparr>xs_db = ended_db, xs_outbox = []\<rparr>"

theorem announcements_match_facts_witness:
  "announced as_expired (expiry_passes sample_parse [(''t'', license_env 1), (''t'', license_env 2)] ended_state) =
     expiry_facts (xs_db (expiry_passes sample_parse [(''t'', license_env 1), (''t'', license_env 2)] ended_state))"
proof -
  have "outbox_agrees ended_state"
    by (simp add: outbox_agrees_def announced_def ended_state_def List.map_filter_def ended_db_def with_terms_def
      sample_entitlement_db_def sample_license_db_def)
  from announcements_match_facts [OF this] show ?thesis by blast
qed

section \<open>A limit that starves\<close>

lemma record_new_subset: "record_new same fs facts = (new, all) \<Longrightarrow> set new \<subseteq> set fs"
proof (induction fs arbitrary: facts new all)
  case (Cons f fs)
  from Cons.prems show ?case by (force split: if_splits prod.splits dest: Cons.IH)
qed simp

lemma due_tenant: "f \<in> set (due_terms t now db) \<Longrightarrow> xf_tenant f = t"
  by (auto simp: due_terms_def Let_def)

lemma due_recorded:
  "recordDueEntitlementExpiryFacts t parse now None db = (Inr new, db') \<Longrightarrow>
     db' = db\<lparr>expiry_facts := expiry_facts db @ new\<rparr> \<and> set new \<subseteq> set (due_terms t now (seats db))"
  using recorded(2) [of t parse now None db new db']
  by (auto simp: recordDueEntitlementExpiryFacts_def as_of_time_def optionalTimestamp_def split: prod.splits
      dest!: record_new_subset)

text \<open>What one pass leaves: the terms, and the late expiries of a tenant with 500 earlier ones.\<close>

definition many_earlier :: "string \<Rightarrow> int \<Rightarrow> expiry_state \<Rightarrow> bool" where
  "many_earlier t ends s \<longleftrightarrow> 500 \<le> length (filter (\<lambda>x. tm_tenant x = t
     \<and> (case tm_valid_until x of None \<Rightarrow> False | Some u \<Rightarrow> u < ends)) (terms (seats (xs_db s))))"

definition late_expiries :: "string \<Rightarrow> int \<Rightarrow> expiry_state \<Rightarrow> expiry_fact set \<times> expiry_fact set" where
  "late_expiries t ends s =
     ({f \<in> set (expiry_facts (xs_db s)). xf_tenant f = t \<and> ends \<le> xf_valid_until f},
      {f \<in> set (announced as_expired s). xf_tenant f = t \<and> ends \<le> xf_valid_until f})"

lemma expiry_pass_late:
  assumes "many_earlier t ends s" and "expiry_pass t' parse env s = (Inr u, s')"
  shows "terms (seats (xs_db s')) = terms (seats (xs_db s)) \<and> late_expiries t ends s' = late_expiries t ends s"
proof -
  from assms(2) obtain new where s': "terms (seats (xs_db s')) = terms (seats (xs_db s))"
    "expiry_facts (xs_db s') = expiry_facts (xs_db s) @ new" "announced as_expired s' = announced as_expired s @ new"
    "set new \<subseteq> set (due_terms t' (env_now env) (seats (xs_db s)))"
    unfolding expiry_pass_def on_db_Inr store_Inr done_with_Inr
    by (elim exE conjE) (auto simp: announced_def write_facts_def map_filter_append map_filter_map
      dest!: recorded(1,3) due_recorded)
  have "\<not> (xf_tenant f = t \<and> ends \<le> xf_valid_until f)" if "f \<in> set new" for f
    using that s'(4) due_tenant [of f t'] due_terms_early [OF assms(1) [unfolded many_earlier_def], of f "env_now env"] by fastforce
  with s'(1-3) show ?thesis by (auto simp: late_expiries_def)
qed

text \<open>C36: Once 500 terms of a tenant end before some time, no term of it that ends at that time or later is recorded as
  expired or announced again, however often the passes run and at whatever times: the limit of the statement
  counts the terms already recorded.\<close>

theorem later_expiry_starved:
  assumes "500 \<le> length (filter (\<lambda>x. tm_tenant x = t \<and> (case tm_valid_until x of None \<Rightarrow> False | Some u \<Rightarrow> u < ends))
      (terms (seats (xs_db s))))"
    and "xf_tenant f = t" and "ends \<le> xf_valid_until f"
  shows "(f \<in> set (expiry_facts (xs_db (expiry_passes parse ps s))) \<longleftrightarrow> f \<in> set (expiry_facts (xs_db s)))
    \<and> (LicenseExpired f \<in> set (xs_outbox (expiry_passes parse ps s)) \<longleftrightarrow> LicenseExpired f \<in> set (xs_outbox s))"
proof -
  have out: "f \<in> set (announced as_expired x) \<longleftrightarrow> LicenseExpired f \<in> set (xs_outbox x)" for x
  proof -
    have "as_expired ev = Some f \<longleftrightarrow> ev = LicenseExpired f" for ev by (cases ev) auto
    then show ?thesis by (force simp: announced_def List.map_filter_def)
  qed
  have "many_earlier t ends s" using assms(1) by (simp add: many_earlier_def)
  then have "late_expiries t ends (expiry_passes parse ps s) = late_expiries t ends s"
  proof (induction ps arbitrary: s)
    case (Cons p ps)
    obtain t' env where p: "p = (t', env)" by (cases p)
    let ?s = "snd (uow t' (expiry_pass t' parse env) s)"
    have "terms (seats (xs_db ?s)) = terms (seats (xs_db s)) \<and> late_expiries t ends ?s = late_expiries t ends s"
      by (rule pg.run_invariant [where I = "\<lambda>x. terms (seats (xs_db x)) = terms (seats (xs_db s))
            \<and> late_expiries t ends x = late_expiries t ends s"])
        (simp, rule expiry_pass_late [OF Cons.prems])
    with Cons.IH [of ?s] Cons.prems show ?case by (simp add: p many_earlier_def)
  qed simp
  then have "f \<in> fst (late_expiries t ends (expiry_passes parse ps s)) \<longleftrightarrow> f \<in> fst (late_expiries t ends s)"
    "f \<in> snd (late_expiries t ends (expiry_passes parse ps s)) \<longleftrightarrow> f \<in> snd (late_expiries t ends s)" by simp_all
  with assms(2,3) show ?thesis by (simp add: late_expiries_def out)
qed

definition crowded_state :: expiry_state where
  "crowded_state = \<lparr>xs_db = crowded_db, xs_outbox = []\<rparr>"

text \<open>Passes at the time 1000: the term that ended at 800 is there and due, and is not announced.\<close>

theorem later_expiry_starved_witness:
  "(hd (terms sample_license_db))\<lparr>tm_version := 500, tm_valid_until := Some 800\<rparr> \<in> set (terms (seats (xs_db crowded_state)))
   \<and> env_now (license_env 1) = 1000
   \<and> (\<forall>k e. LicenseExpired \<lparr>xf_tenant = ''t'', xf_entitlement = e, xf_term_version = 500, xf_valid_until = 800, xf_expired_at = k\<rparr>
        \<notin> set (xs_outbox (expiry_passes sample_parse [(''t'', license_env 1), (''t'', license_env 2)] crowded_state)))"
proof -
  have many: "500 \<le> length (filter (\<lambda>x. tm_tenant x = ''t'' \<and> (case tm_valid_until x of None \<Rightarrow> False | Some u \<Rightarrow> u < 800))
      (terms (seats (xs_db crowded_state))))"
    by (simp add: crowded_state_def crowded_terms filter_map comp_def sample_term)
  have "LicenseExpired \<lparr>xf_tenant = ''t'', xf_entitlement = e, xf_term_version = 500, xf_valid_until = 800, xf_expired_at = k\<rparr>
      \<notin> set (xs_outbox (expiry_passes sample_parse [(''t'', license_env 1), (''t'', license_env 2)] crowded_state))" for k e
    using later_expiry_starved [OF many, of "\<lparr>xf_tenant = ''t'', xf_entitlement = e, xf_term_version = 500, xf_valid_until = 800,
      xf_expired_at = k\<rparr>" sample_parse "[(''t'', license_env 1), (''t'', license_env 2)]"]
    by (simp add: crowded_state_def)
  then show ?thesis by (simp add: crowded_state_def crowded_terms license_env_def)
qed

end
