(* ===== verification/Suppliers.thy ===== *)
theory Suppliers
  imports Commands Messaging
begin

text \<open>
  Suppliers of the procurement module: \<open>modules/procurement/domain/supplier.ts\<close> (the state machine and its
  command contract) and \<open>modules/procurement/application/suppliers.ts\<close> (create, update of the profile,
  state commands and reads) over the tables \<open>procurement.suppliers\<close> and \<open>procurement.supplier_history\<close>.
  The text function \<open>lower\<close> of the database is the parameter \<open>lc\<close>: it depends on its collation.
  The database compares UUIDs without regard to letter case.
\<close>

section \<open>The state machine\<close>

datatype supplier_state = PROSPECT | APPROVED | PREFERRED | SUSPENDED | BLOCKED | INACTIVE

definition supplierTransitions :: "(supplier_state \<times> supplier_state list) list" where
  "supplierTransitions =
    [(PROSPECT, [APPROVED, BLOCKED, INACTIVE]),
     (APPROVED, [PREFERRED, SUSPENDED, BLOCKED, INACTIVE]),
     (PREFERRED, [APPROVED, SUSPENDED, BLOCKED, INACTIVE]),
     (SUSPENDED, [APPROVED, BLOCKED, INACTIVE]),
     (BLOCKED, [PROSPECT, INACTIVE]),
     (INACTIVE, [PROSPECT])]"

abbreviation supplier_targets :: "supplier_state \<Rightarrow> supplier_state list" where
  "supplier_targets \<equiv> table_targets supplierTransitions"

record supplier_contract =
  sc_from :: "supplier_state list"
  sc_to :: supplier_state
  sc_permission :: string
  sc_event :: string

text \<open>A contract's \<open>from\<close> is a state or an array of them; the command reads both as a list.\<close>

definition supplierCommandContract :: "(string \<times> supplier_contract) list" where
  "supplierCommandContract =
    [(''APPROVE'', \<lparr>sc_from = [PROSPECT], sc_to = APPROVED, sc_permission = ''supplier.approve'',
        sc_event = ''SUPPLIER.APPROVED''\<rparr>),
     (''MARK_PREFERRED'', \<lparr>sc_from = [APPROVED], sc_to = PREFERRED, sc_permission = ''supplier.approve'',
        sc_event = ''SUPPLIER.PREFERRED''\<rparr>),
     (''REMOVE_PREFERRED'', \<lparr>sc_from = [PREFERRED], sc_to = APPROVED, sc_permission = ''supplier.approve'',
        sc_event = ''SUPPLIER.PREFERRED_REMOVED''\<rparr>),
     (''SUSPEND'', \<lparr>sc_from = [APPROVED, PREFERRED], sc_to = SUSPENDED,
        sc_permission = ''supplier.status.change'', sc_event = ''SUPPLIER.SUSPENDED''\<rparr>),
     (''RESUME'', \<lparr>sc_from = [SUSPENDED], sc_to = APPROVED, sc_permission = ''supplier.status.change'',
        sc_event = ''SUPPLIER.RESUMED''\<rparr>),
     (''BLOCK'', \<lparr>sc_from = [PROSPECT, APPROVED, PREFERRED, SUSPENDED], sc_to = BLOCKED,
        sc_permission = ''supplier.block'', sc_event = ''SUPPLIER.BLOCKED''\<rparr>),
     (''UNBLOCK'', \<lparr>sc_from = [BLOCKED], sc_to = PROSPECT, sc_permission = ''supplier.block'',
        sc_event = ''SUPPLIER.UNBLOCKED''\<rparr>),
     (''DEACTIVATE'', \<lparr>sc_from = [PROSPECT, APPROVED, PREFERRED, SUSPENDED, BLOCKED], sc_to = INACTIVE,
        sc_permission = ''supplier.status.change'', sc_event = ''SUPPLIER.DEACTIVATED''\<rparr>),
     (''REACTIVATE'', \<lparr>sc_from = [INACTIVE], sc_to = PROSPECT, sc_permission = ''supplier.status.change'',
        sc_event = ''SUPPLIER.REACTIVATED''\<rparr>)]"

datatype supplier_rule = UNSUPPORTED_COMMAND | INVALID_TRANSITION

text \<open>The test \<open>input in supplierCommandContract\<close> also finds the inherited members of the object.\<close>

definition supplierCommand :: "string \<Rightarrow> supplier_rule + string" where
  "supplierCommand c =
     (if c \<in> set (map fst supplierCommandContract) \<or> c \<in> set inherited then Inr c else Inl UNSUPPORTED_COMMAND)"

definition assertSupplierTransition :: "supplier_state \<Rightarrow> supplier_state \<Rightarrow> supplier_rule + unit" where
  "assertSupplierTransition x y = (if y \<in> set (supplier_targets x) then Inr () else Inl INVALID_TRANSITION)"

text \<open>Whether a supplier may be asked for a quotation, and whether an order may be issued to it.\<close>

definition supplierEligibility :: "supplier_state \<Rightarrow> bool \<times> bool" where
  "supplierEligibility x = (x \<in> set [PROSPECT, APPROVED, PREFERRED], x \<in> set [APPROVED, PREFERRED])"

definition mapSupplierRule :: "supplier_rule + 'a \<Rightarrow> exn + 'a" where
  "mapSupplierRule r = (case r of
     Inl UNSUPPORTED_COMMAND \<Rightarrow> Inl (AppError VALIDATION_ERROR)
   | Inl INVALID_TRANSITION \<Rightarrow> Inl (AppError BUSINESS_RULE_VIOLATION)
   | Inr a \<Rightarrow> Inr a)"

section \<open>Reasons keep protected values out\<close>

text \<open>The classes \<open>\p{L}\<close> and \<open>\p{N}\<close> on the range.\<close>

definition word_char :: "char \<Rightarrow> bool" where
  "word_char c \<longleftrightarrow> (let n = (of_char c :: nat) in
     (48 \<le> n \<and> n \<le> 57) \<or> (65 \<le> n \<and> n \<le> 90) \<or> (97 \<le> n \<and> n \<le> 122)
     \<or> n \<in> set [170, 178, 179, 181, 185, 186, 188, 189, 190] \<or> (192 \<le> n \<and> n \<noteq> 215 \<and> n \<noteq> 247))"

fun has_text :: "string \<Rightarrow> string \<Rightarrow> bool" where
  "has_text v [] = (v = [])"
| "has_text v (c # s) = (take (length v) (c # s) = v \<or> has_text v s)"

text \<open>
  \<open>(?<![\p{L}\p{N}])value(?![\p{L}\p{N}])\<close> without regard to case; \<open>before\<close> says whether the character
  before \<open>s\<close> is a letter or a number.
\<close>

definition word_at :: "string \<Rightarrow> bool \<Rightarrow> string \<Rightarrow> bool" where
  "word_at v before s \<longleftrightarrow> \<not> before \<and> js_lower (take (length v) s) = v
     \<and> (case drop (length v) s of [] \<Rightarrow> True | c # _ \<Rightarrow> \<not> word_char c)"

fun has_word :: "string \<Rightarrow> bool \<Rightarrow> string \<Rightarrow> bool" where
  "has_word v before [] = word_at v before []"
| "has_word v before (c # s) = (word_at v before (c # s) \<or> has_word v (word_char c) s)"

definition names_value :: "string \<Rightarrow> string option \<Rightarrow> bool" where
  "names_value reason candidate = (case candidate of
     None \<Rightarrow> False
   | Some t \<Rightarrow> \<not> blank t \<and>
      (let v = js_lower (js_trim t)
       in if 4 \<le> length v then has_text v (js_lower reason) else has_word v False reason))"

definition assertReasonExcludesProtectedValues :: "string \<Rightarrow> string option list \<Rightarrow> exn + unit" where
  "assertReasonExcludesProtectedValues reason vs =
     (if list_ex (names_value reason) vs then Inl (AppError VALIDATION_ERROR) else Inr ())"

section \<open>Tables\<close>

text \<open>A contact's members may be absent (\<open>None\<close>) or null (\<open>Some None\<close>).\<close>

record supplier_contact =
  cn_name :: string
  cn_email :: "string option option"
  cn_phone :: "string option option"
  cn_role :: "string option option"

record supplier =
  su_id :: string
  su_tenant :: string
  su_code :: string
  su_legal_name :: string
  su_tax_identifier :: "string option"
  su_address :: "string option"
  su_categories :: "string list"
  su_risk_state :: "string option"
  su_bank_info_reference :: "string option"
  su_contacts :: "supplier_contact list"
  su_state :: supplier_state
  su_version :: int
  su_created_by :: string
  su_created_at :: int
  su_updated_at :: int

text \<open>What a snapshot keeps of a supplier; an update adds the names of the changed fields.\<close>

record supplier_snapshot =
  sn_code :: string
  sn_legal_name :: string
  sn_address :: "string option"
  sn_categories :: "string list"
  sn_risk_state :: "string option"
  sn_state :: supplier_state
  sn_version :: int
  sn_changed_fields :: "string list option"

record supplier_entry =
  sh_id :: string
  sh_tenant :: string
  sh_supplier :: string
  sh_version :: int
  sh_action :: string
  sh_previous_state :: "supplier_state option"
  sh_new_state :: supplier_state
  sh_changed_fields :: "string list"
  sh_before :: "supplier_snapshot option"
  sh_after :: supplier_snapshot
  sh_actor :: string
  sh_reason :: string
  sh_correlation :: string

record supplier_db =
  suppliers :: "supplier list"
  supplier_history :: "supplier_entry list"

text \<open>The key of the partial unique index on tax identifiers.\<close>

definition tax_key :: "(string \<Rightarrow> string) \<Rightarrow> supplier \<Rightarrow> string option" where
  "tax_key lc s = (case su_tax_identifier s of
     None \<Rightarrow> None | Some x \<Rightarrow> if btrim x = [] then None else Some (lc (btrim x)))"

definition same_tax :: "(string \<Rightarrow> string) \<Rightarrow> supplier \<Rightarrow> supplier \<Rightarrow> bool" where
  "same_tax lc x y \<longleftrightarrow> su_tenant x = su_tenant y \<and> tax_key lc x \<noteq> None \<and> tax_key lc x = tax_key lc y"

definition supplier_clash :: "(string \<Rightarrow> string) \<Rightarrow> supplier \<Rightarrow> supplier \<Rightarrow> bool" where
  "supplier_clash lc x y \<longleftrightarrow> su_id x = su_id y \<or> (su_tenant x = su_tenant y \<and> su_code x = su_code y) \<or> same_tax lc x y"

definition supplier_entry_clash :: "supplier_entry \<Rightarrow> supplier_entry \<Rightarrow> bool" where
  "supplier_entry_clash x y \<longleftrightarrow> sh_id x = sh_id y \<or>
     (sh_tenant x = sh_tenant y \<and> sh_supplier x = sh_supplier y \<and> sh_version x = sh_version y)"

definition find_supplier :: "string \<Rightarrow> string \<Rightarrow> supplier_db \<Rightarrow> supplier option" where
  "find_supplier t i db = find_row (\<lambda>s. su_tenant s = t \<and> su_id s = js_lower i) (suppliers db)"

text \<open>What the interface shows of a supplier: of the protected values, only whether they are there.\<close>

record safe_supplier =
  ss_id :: string
  ss_code :: string
  ss_legal_name :: string
  ss_address :: "string option"
  ss_categories :: "string list"
  ss_risk_state :: "string option"
  ss_contacts :: "supplier_contact list"
  ss_state :: supplier_state
  ss_version :: int
  ss_created_at :: int
  ss_updated_at :: int
  ss_tax_identifier_present :: bool
  ss_bank_info_reference_present :: bool

definition safeSupplier :: "supplier \<Rightarrow> safe_supplier" where
  "safeSupplier s =
     \<lparr>ss_id = su_id s, ss_code = su_code s, ss_legal_name = su_legal_name s, ss_address = su_address s,
      ss_categories = su_categories s, ss_risk_state = su_risk_state s, ss_contacts = su_contacts s,
      ss_state = su_state s, ss_version = su_version s, ss_created_at = su_created_at s,
      ss_updated_at = su_updated_at s, ss_tax_identifier_present = (su_tax_identifier s \<noteq> None),
      ss_bank_info_reference_present = (su_bank_info_reference s \<noteq> None)\<rparr>"

definition safeSnapshot :: "supplier \<Rightarrow> supplier_snapshot" where
  "safeSnapshot s =
     \<lparr>sn_code = su_code s, sn_legal_name = su_legal_name s, sn_address = su_address s,
      sn_categories = su_categories s, sn_risk_state = su_risk_state s, sn_state = su_state s,
      sn_version = su_version s, sn_changed_fields = None\<rparr>"

text \<open>The context of a mutation, and the history row it writes.\<close>

record supplier_context =
  cx_actor :: string
  cx_reason :: string
  cx_correlation :: string

definition writeHistory ::
    "string \<Rightarrow> string \<Rightarrow> supplier_context \<Rightarrow> string \<Rightarrow> int \<Rightarrow> string \<Rightarrow> supplier_state option \<Rightarrow> supplier_state
       \<Rightarrow> string list \<Rightarrow> supplier_snapshot option \<Rightarrow> supplier_snapshot
       \<Rightarrow> (supplier_db, 'b) call \<Rightarrow> (supplier_db, 'b) call" where
  "writeHistory t hid cx i version action previous new changed before after k =
     given (sql_check ''23514'' (sized 2000 (cx_reason cx))) (\<lambda>_.
     insert_into supplier_entry_clash supplier_history (\<lambda>rows db. db\<lparr>supplier_history := rows\<rparr>)
       \<lparr>sh_id = hid, sh_tenant = t, sh_supplier = i, sh_version = version, sh_action = action,
        sh_previous_state = previous, sh_new_state = new, sh_changed_fields = changed, sh_before = before,
        sh_after = after, sh_actor = cx_actor cx, sh_reason = cx_reason cx, sh_correlation = cx_correlation cx\<rparr> k)"

section \<open>Commands\<close>

text \<open>A profile holds the members that the caller gave; a nullable one may be given as null.\<close>

record supplier_profile =
  sp_legal_name :: "string option"
  sp_tax_identifier :: "string option option"
  sp_address :: "string option option"
  sp_categories :: "string list option"
  sp_risk_state :: "string option option"
  sp_bank_info_reference :: "string option option"
  sp_contacts :: "supplier_contact list option"

text \<open>\<open>Object.keys(profile).sort()\<close>.\<close>

definition profile_fields :: "supplier_profile \<Rightarrow> string list" where
  "profile_fields p = sort (map fst (filter snd
     [(''legal_name'', sp_legal_name p \<noteq> None), (''tax_identifier'', sp_tax_identifier p \<noteq> None),
      (''address'', sp_address p \<noteq> None), (''categories'', sp_categories p \<noteq> None),
      (''risk_state'', sp_risk_state p \<noteq> None), (''bank_info_reference'', sp_bank_info_reference p \<noteq> None),
      (''contacts'', sp_contacts p \<noteq> None)]))"

text \<open>\<open>given ?? fallback\<close>, and \<open>given === undefined ? current : given\<close>.\<close>

definition default_to :: "'a \<Rightarrow> 'a option \<Rightarrow> 'a" where
  "default_to d x = (case x of None \<Rightarrow> d | Some v \<Rightarrow> v)"

definition nullable :: "'a option option \<Rightarrow> 'a option" where
  "nullable x = (case x of None \<Rightarrow> None | Some v \<Rightarrow> v)"

definition new_supplier ::
    "string \<Rightarrow> call_env \<Rightarrow> string \<Rightarrow> string \<Rightarrow> supplier_profile \<Rightarrow> supplier" where
  "new_supplier t env actorId legalName p =
     \<lparr>su_id = env_uuid env 0, su_tenant = t, su_code = ''SUP-'' @ js_upper (take 8 (env_uuid env 0)),
      su_legal_name = legalName, su_tax_identifier = nullable (sp_tax_identifier p),
      su_address = nullable (sp_address p), su_categories = default_to [] (sp_categories p),
      su_risk_state = nullable (sp_risk_state p), su_bank_info_reference = nullable (sp_bank_info_reference p),
      su_contacts = default_to [] (sp_contacts p), su_state = PROSPECT, su_version = 1,
      su_created_by = actorId, su_created_at = env_now env, su_updated_at = env_now env\<rparr>"

text \<open>\<open>legal_name\<close> is required here: its member of the profile is not looked at.\<close>

definition createSupplier ::
    "string \<Rightarrow> (string \<Rightarrow> string) \<Rightarrow> call_env \<Rightarrow> supplier_context \<Rightarrow> string \<Rightarrow> supplier_profile
       \<Rightarrow> (supplier_db, safe_supplier) call" where
  "createSupplier t lc env cx legalName p =
     given (assertReasonExcludesProtectedValues (cx_reason cx)
              [nullable (sp_tax_identifier p), nullable (sp_bank_info_reference p)]) (\<lambda>_.
     let row = new_supplier t env (cx_actor cx) legalName p
     in given (sql_check ''23514'' (sized 240 legalName)) (\<lambda>_.
        insert_into (supplier_clash lc) suppliers (\<lambda>rows db. db\<lparr>suppliers := rows\<rparr>) row (
        writeHistory t (env_uuid env 1) cx (su_id row) 1 ''SUPPLIER.CREATE'' None PROSPECT
          (profile_fields (p\<lparr>sp_legal_name := Some legalName\<rparr>)) None (safeSnapshot row)
          (done_with (safeSupplier row)))))"

text \<open>The UPDATE of one supplier: it must keep the unique indexes and meet the version it expects.\<close>

definition supplier_addressed :: "string \<Rightarrow> string \<Rightarrow> js_number \<Rightarrow> supplier \<Rightarrow> bool" where
  "supplier_addressed t i expected s \<longleftrightarrow> su_tenant s = t \<and> su_id s = js_lower i \<and> JInt (su_version s) = expected"

definition update_supplier ::
    "string \<Rightarrow> (string \<Rightarrow> string) \<Rightarrow> string \<Rightarrow> js_number \<Rightarrow> (supplier \<Rightarrow> supplier)
       \<Rightarrow> (supplier \<Rightarrow> (supplier_db, 'b) call) \<Rightarrow> (supplier_db, 'b) call" where
  "update_supplier t lc i expected f k =
     load (\<lambda>db. find_row (supplier_addressed t i expected) (suppliers db)) (\<lambda>found. case found of
           None \<Rightarrow> throw (AppError VERSION_CONFLICT)
         | Some s \<Rightarrow>
            load (\<lambda>db. list_ex (\<lambda>x. su_id x \<noteq> su_id s \<and> supplier_clash lc (f s) x) (suppliers db)) (\<lambda>taken.
            given (sql_check ''23505'' (\<not> taken)) (\<lambda>_.
            given (sql_check ''23514'' (sized 240 (su_legal_name (f s)))) (\<lambda>_.
            store (\<lambda>db. db\<lparr>suppliers := update_rows (supplier_addressed t i expected) f (suppliers db)\<rparr>) (k (f s))))))"

definition merge_profile :: "int \<Rightarrow> int \<Rightarrow> supplier_profile \<Rightarrow> supplier \<Rightarrow> supplier" where
  "merge_profile now version p s = s
     \<lparr>su_legal_name := default_to (su_legal_name s) (sp_legal_name p),
      su_tax_identifier := default_to (su_tax_identifier s) (sp_tax_identifier p),
      su_address := default_to (su_address s) (sp_address p),
      su_categories := default_to (su_categories s) (sp_categories p),
      su_risk_state := default_to (su_risk_state s) (sp_risk_state p),
      su_bank_info_reference := default_to (su_bank_info_reference s) (sp_bank_info_reference p),
      su_contacts := default_to (su_contacts s) (sp_contacts p), su_version := version, su_updated_at := now\<rparr>"

definition updateSupplierProfile ::
    "string \<Rightarrow> (string \<Rightarrow> string) \<Rightarrow> call_env \<Rightarrow> supplier_context \<Rightarrow> string \<Rightarrow> js_number \<Rightarrow> supplier_profile
       \<Rightarrow> (supplier_db, safe_supplier \<times> supplier_state \<times> string list) call" where
  "updateSupplierProfile t lc env cx i expected p =
     load (find_supplier t i) (\<lambda>found.
     given (needed NOT_FOUND found) (\<lambda>current.
     given (assertVersion (su_version current) expected) (\<lambda>_.
       let version = js_int expected + 1;
           merged = merge_profile (env_now env) version p
       in given (assertReasonExcludesProtectedValues (cx_reason cx)
              [su_tax_identifier current, su_bank_info_reference current,
               su_tax_identifier (merged current), su_bank_info_reference (merged current)]) (\<lambda>_.
          fail_if (profile_fields p = []) VALIDATION_ERROR (
          update_supplier t lc i expected merged (\<lambda>row.
          writeHistory t (env_uuid env 0) cx (js_lower i) version ''SUPPLIER.UPDATE_PROFILE''
            (Some (su_state current)) (su_state current) (profile_fields p) (Some (safeSnapshot current))
            ((safeSnapshot row)\<lparr>sn_changed_fields := Some (profile_fields p)\<rparr>)
            (done_with (safeSupplier row, su_state current, profile_fields p))))))))"

text \<open>
  The contract under the command's name; under an inherited name it is a member of every object, whose
  \<open>from\<close> is undefined, so that no state is allowed.
\<close>

definition contract_for :: "string \<Rightarrow> supplier_state \<Rightarrow> supplier_contract option" where
  "contract_for command x = (case map_of supplierCommandContract command of
     None \<Rightarrow> None | Some c \<Rightarrow> if x \<in> set (sc_from c) then Some c else None)"

definition set_state :: "int \<Rightarrow> int \<Rightarrow> supplier_state \<Rightarrow> supplier \<Rightarrow> supplier" where
  "set_state now version x s = s\<lparr>su_state := x, su_version := version, su_updated_at := now\<rparr>"

definition transitionSupplier ::
    "string \<Rightarrow> (string \<Rightarrow> string) \<Rightarrow> call_env \<Rightarrow> supplier_context \<Rightarrow> string \<Rightarrow> js_number \<Rightarrow> string
       \<Rightarrow> (supplier_db, safe_supplier \<times> supplier_state \<times> string) call" where
  "transitionSupplier t lc env cx i expected cmd =
     given (mapSupplierRule (supplierCommand cmd)) (\<lambda>command.
     load (find_supplier t i) (\<lambda>found.
     given (needed NOT_FOUND found) (\<lambda>current.
     given (assertVersion (su_version current) expected) (\<lambda>_.
     given (assertReasonExcludesProtectedValues (cx_reason cx)
              [su_tax_identifier current, su_bank_info_reference current]) (\<lambda>_.
     given (needed BUSINESS_RULE_VIOLATION (contract_for command (su_state current))) (\<lambda>contract.
     given (mapSupplierRule (assertSupplierTransition (su_state current) (sc_to contract))) (\<lambda>_.
       let version = js_int expected + 1
       in update_supplier t lc i expected
            (set_state (env_now env) version (sc_to contract)) (\<lambda>row.
          writeHistory t (env_uuid env 0) cx (js_lower i) version (''SUPPLIER.'' @ command)
            (Some (su_state current)) (sc_to contract) [''state''] (Some (safeSnapshot current)) (safeSnapshot row)
            (done_with (safeSupplier row, su_state current, sc_event contract))))))))))"

definition readSupplier :: "string \<Rightarrow> string \<Rightarrow> supplier_db \<Rightarrow> exn + safe_supplier" where
  "readSupplier t i db = map_sum id safeSupplier (needed NOT_FOUND (find_supplier t i db))"

text \<open>
  \<open>rank\<close> is the place of a text in the database's collation; names of one place are ordered by identifier.
\<close>

definition listSuppliers ::
    "string \<Rightarrow> (string \<Rightarrow> nat) \<Rightarrow> supplier_state option \<Rightarrow> nat \<Rightarrow> nat \<Rightarrow> supplier_db \<Rightarrow> safe_supplier list" where
  "listSuppliers t rank state limit offset db =
     map safeSupplier (take limit (drop offset
       (sort_key (\<lambda>s. rank (su_legal_name s)) (sort_key su_id
         (select_rows (\<lambda>s. su_tenant s = t \<and> (case state of None \<Rightarrow> True | Some x \<Rightarrow> su_state s = x))
            (suppliers db))))))"

section \<open>What a reason may hold\<close>

lemma has_text_iff: "has_text v s \<longleftrightarrow> (\<exists>xs ys. s = xs @ v @ ys)"
proof (induction s)
  case (Cons c s)
  have "take (length v) (c # s) = v \<longleftrightarrow> (\<exists>ys. c # s = v @ ys)"
    by (metis append_eq_conv_conj append_take_drop_id)
  with Cons show ?case by (auto simp: Cons_eq_append_conv append_eq_Cons_conv) 
qed auto

text \<open>A value of at least four characters does not occur in a reason that the test lets pass.\<close>

lemma excluded_text:
  assumes "\<not> names_value reason (Some v)" and "4 \<le> length (js_trim v)"
  shows "js_lower reason \<noteq> xs @ js_lower (js_trim v) @ ys"
proof -
  from assms(2) have "\<not> blank v" by (auto simp: blank_def)
  with assms show ?thesis by (auto simp: names_value_def Let_def js_lower_def has_text_iff)
qed

lemma has_wordI:
  assumes "js_lower m = v" and "ys = [] \<or> \<not> word_char (hd ys)"
    and "if xs = [] then \<not> before else \<not> word_char (last xs)"
  shows "has_word v before (xs @ m @ ys)"
  using assms(3)
proof (induction xs arbitrary: before)
  case Nil
  have "length v = length m" using assms(1) by (auto simp: js_lower_def)
  with Nil assms(1,2) have "word_at v before (m @ ys)" by (auto simp: word_at_def split: list.split)
  then show ?case by (cases "m @ ys") auto
qed (auto split: if_splits)

text \<open>A shorter one does not stand there as a word of its own.\<close>

lemma excluded_word:
  assumes "\<not> names_value reason (Some v)" and "\<not> blank v" and "length (js_trim v) < 4"
    and "js_lower m = js_lower (js_trim v)" and "ys = [] \<or> \<not> word_char (hd ys)"
    and "xs = [] \<or> \<not> word_char (last xs)"
  shows "reason \<noteq> xs @ m @ ys"
proof
  assume "reason = xs @ m @ ys"
  moreover have "has_word (js_lower (js_trim v)) False (xs @ m @ ys)"
    by (rule has_wordI [OF assms(4,5)]) (use assms(6) in auto)
  ultimately show False using assms(1-3) by (auto simp: names_value_def Let_def js_lower_def)
qed

lemma reason_Inr [call_simps]:
  "assertReasonExcludesProtectedValues reason vs = Inr u \<longleftrightarrow> (\<forall>v\<in>set vs. \<not> names_value reason v)"
  by (auto simp: assertReasonExcludesProtectedValues_def list_ex_iff)

section \<open>The history is the audit trail of the row\<close>

definition without_fields :: "supplier_snapshot \<Rightarrow> supplier_snapshot" where
  "without_fields q = q\<lparr>sn_changed_fields := None\<rparr>"

text \<open>The moves that a supplier makes, from snapshot to snapshot.\<close>

definition supplier_move :: "supplier_snapshot option \<Rightarrow> string \<Rightarrow> supplier_snapshot \<Rightarrow> bool" where
  "supplier_move p action q = (case p of
     None \<Rightarrow> action = ''SUPPLIER.CREATE'' \<and> sn_state q = PROSPECT \<and> sn_version q = 1
   | Some b \<Rightarrow> sn_version q = sn_version b + 1 \<and> sn_code q = sn_code b \<and>
      ((action = ''SUPPLIER.UPDATE_PROFILE'' \<and> sn_state q = sn_state b)
       \<or> list_ex (\<lambda>(k, c). action = ''SUPPLIER.'' @ k \<and> sn_state b \<in> set (sc_from c)
           \<and> q = b\<lparr>sn_state := sc_to c, sn_version := sn_version b + 1\<rparr>) supplierCommandContract))"

fun audit_trail :: "supplier_snapshot option \<Rightarrow> supplier_entry list \<Rightarrow> supplier_snapshot option \<Rightarrow> bool" where
  "audit_trail p [] q = (p = q)"
| "audit_trail p (h # hs) q =
     (let a = without_fields (sh_after h)
      in sh_before h = p \<and> sh_previous_state h = map_option sn_state p \<and> sh_new_state h = sn_state a
         \<and> sh_version h = sn_version a \<and> supplier_move p (sh_action h) a \<and> audit_trail (Some a) hs q)"

definition trail_of :: "supplier_db \<Rightarrow> supplier \<Rightarrow> supplier_entry list" where
  "trail_of db s = filter (\<lambda>h. sh_tenant h = su_tenant s \<and> sh_supplier h = su_id s) (supplier_history db)"

text \<open>A history entry that takes a supplier from one snapshot to the next.\<close>

definition entry_step :: "supplier option \<Rightarrow> supplier_entry \<Rightarrow> supplier \<Rightarrow> bool" where
  "entry_step p h s \<longleftrightarrow> sh_tenant h = su_tenant s \<and> sh_supplier h = su_id s
     \<and> audit_trail (map_option safeSnapshot p) [h] (Some (safeSnapshot s))"

definition reason_clean :: "string \<Rightarrow> supplier \<Rightarrow> bool" where
  "reason_clean reason s \<longleftrightarrow>
     \<not> names_value reason (su_tax_identifier s) \<and> \<not> names_value reason (su_bank_info_reference s)"

lemma audit_trail_append:
  "audit_trail p (hs @ gs) q \<longleftrightarrow> (\<exists>m. audit_trail p hs m \<and> audit_trail m gs q)"
  by (induction hs arbitrary: p) (auto simp: Let_def)

lemma map_of_contract: "map_of supplierCommandContract k = Some c \<Longrightarrow> (k, c) \<in> set supplierCommandContract"
  by (rule map_of_SomeD)

lemma contract_for_Some:
  "contract_for k x = Some c \<Longrightarrow> (k, c) \<in> set supplierCommandContract \<and> x \<in> set (sc_from c)"
  by (auto simp: contract_for_def split: option.splits if_splits dest: map_of_contract)

section \<open>What the commands do\<close>

lemma writeHistory_Inr [call_simps]:
  "writeHistory t hid cx i v action p n fs b a k db = (Inr r, db') \<longleftrightarrow>
     sized 2000 (cx_reason cx) \<and>
     (let h = \<lparr>sh_id = hid, sh_tenant = t, sh_supplier = i, sh_version = v, sh_action = action,
        sh_previous_state = p, sh_new_state = n, sh_changed_fields = fs, sh_before = b,
        sh_after = a, sh_actor = cx_actor cx, sh_reason = cx_reason cx, sh_correlation = cx_correlation cx\<rparr>
      in (\<forall>x\<in>set (supplier_history db). \<not> supplier_entry_clash h x)
         \<and> k (db\<lparr>supplier_history := supplier_history db @ [h]\<rparr>) = (Inr r, db'))"
  by (simp add: writeHistory_def given_Inr sql_check_Inr insert_into_Inr Let_def)

lemma update_supplier_Inr [call_simps]:
  "update_supplier t lc i expected f k db = (Inr r, db') \<longleftrightarrow>
     (\<exists>s. find_row (supplier_addressed t i expected) (suppliers db) = Some s
        \<and> (\<forall>x\<in>set (suppliers db). su_id x \<noteq> su_id s \<longrightarrow> \<not> supplier_clash lc (f s) x)
        \<and> sized 240 (su_legal_name (f s))
        \<and> k (f s) (db\<lparr>suppliers := update_rows (supplier_addressed t i expected) f (suppliers db)\<rparr>) = (Inr r, db'))"
  by (auto simp: update_supplier_def load_def throw_def given_Inr sql_check_Inr store_def Let_def list_ex_iff
      split: option.split)

lemma supplier_db_sel:
  "supplier_history (db\<lparr>suppliers := ss\<rparr>) = supplier_history db"
  "suppliers (db\<lparr>supplier_history := hs\<rparr>) = suppliers db"
  by simp_all

lemma create_supplier_effect:
  assumes "createSupplier t lc env cx legalName p db = (Inr v, db')"
  obtains row h where "\<forall>s\<in>set (suppliers db). \<not> supplier_clash lc row s" and "entry_step None h row"
    and "reason_clean (sh_reason h) row" and "v = safeSupplier row"
    and "db' = db\<lparr>suppliers := suppliers db @ [row], supplier_history := supplier_history db @ [h]\<rparr>"
  by (insert assms, unfold createSupplier_def Let_def given_Inr sql_check_Inr insert_into_Inr writeHistory_Inr
      done_with_Inr reason_Inr supplier_db_sel, elim exE conjE, rule that [rotated -1], assumption,
      simp_all add: entry_step_def new_supplier_def safeSnapshot_def without_fields_def supplier_move_def reason_clean_def)

text \<open>What a change of one supplier is, with the entry it leaves.\<close>

definition supplier_changed ::
    "string \<Rightarrow> (string \<Rightarrow> string) \<Rightarrow> string \<Rightarrow> js_number \<Rightarrow> supplier_db \<Rightarrow> supplier \<Rightarrow> supplier_entry
       \<Rightarrow> (supplier \<Rightarrow> supplier) \<Rightarrow> supplier_db \<Rightarrow> bool" where
  "supplier_changed t lc i expected db s h f db' \<longleftrightarrow>
     find_supplier t i db = Some s \<and> expected = JInt (su_version s)
     \<and> (\<forall>x. su_id (f x) = su_id x \<and> su_tenant (f x) = su_tenant x \<and> su_code (f x) = su_code x)
     \<and> (\<forall>x\<in>set (suppliers db). su_id x \<noteq> su_id s \<longrightarrow> \<not> supplier_clash lc (f s) x)
     \<and> entry_step (Some s) h (f s) \<and> reason_clean (sh_reason h) s \<and> reason_clean (sh_reason h) (f s)
     \<and> db' = db\<lparr>suppliers := update_rows (supplier_addressed t i expected) f (suppliers db),
                supplier_history := supplier_history db @ [h]\<rparr>"

lemma supplier_addressed_found:
  assumes "find_supplier t i db = Some s" and "expected = JInt (su_version s)"
    and "find_row (supplier_addressed t i expected) (suppliers db) = Some s'"
  shows "s' = s"
proof -
  have "find_row (supplier_addressed t i expected) (suppliers db) = Some s"
    using assms(1) unfolding find_supplier_def
    by (rule find_row_narrower)
      (use assms(1,2) in \<open>auto simp: supplier_addressed_def find_supplier_def dest: find_row_SomeD\<close>)
  with assms(3) show ?thesis by simp
qed

lemma find_supplier_key: "find_supplier t i db = Some s \<Longrightarrow> s \<in> set (suppliers db) \<and> su_tenant s = t \<and> su_id s = js_lower i"
  by (auto simp: find_supplier_def dest: find_row_SomeD)

lemma update_profile_effect:
  assumes "updateSupplierProfile t lc env cx i expected p db = (Inr v, db')"
  shows "\<exists>s h. supplier_changed t lc i expected db s h (merge_profile (env_now env) (js_int expected + 1) p) db'
    \<and> v = (safeSupplier (merge_profile (env_now env) (js_int expected + 1) p s), su_state s, profile_fields p)"
proof -
  let ?f = "merge_profile (env_now env) (js_int expected + 1) p"
  obtain s h where s: "find_supplier t i db = Some s" "expected = JInt (su_version s)"
    and clash: "\<forall>x\<in>set (suppliers db). su_id x \<noteq> su_id s \<longrightarrow> \<not> supplier_clash lc (?f s) x"
    and h: "entry_step (Some s) h (?f s)" "reason_clean (sh_reason h) s" "reason_clean (sh_reason h) (?f s)"
    and v: "v = (safeSupplier (?f s), su_state s, profile_fields p)"
    and db': "db' = db\<lparr>suppliers := update_rows (supplier_addressed t i expected) ?f (suppliers db),
                supplier_history := supplier_history db @ [h]\<rparr>"
    by (insert assms, unfold updateSupplierProfile_def Let_def given_Inr load_Inr needed_Inr fail_if_Inr assertVersion_Inr
        update_supplier_Inr writeHistory_Inr done_with_Inr reason_Inr supplier_db_sel, elim exE conjE,
        frule find_supplier_key, elim conjE, frule (2) supplier_addressed_found, rule that [rotated -1], assumption,
        simp_all add: entry_step_def safeSnapshot_def without_fields_def supplier_move_def reason_clean_def merge_profile_def)
  then show ?thesis unfolding supplier_changed_def by (intro exI [of _ s] exI [of _ h]) (simp add: merge_profile_def)
qed

lemma supplierCommand_Inr [call_simps]: "mapSupplierRule (supplierCommand c) = Inr k \<longleftrightarrow>
    k = c \<and> (c \<in> set (map fst supplierCommandContract) \<or> c \<in> set inherited)"
  by (auto simp: mapSupplierRule_def supplierCommand_def)

lemma assertSupplierTransition_Inr [call_simps]:
  "mapSupplierRule (assertSupplierTransition x y) = Inr u \<longleftrightarrow> y \<in> set (supplier_targets x)"
  by (auto simp: mapSupplierRule_def assertSupplierTransition_def)

lemma transition_supplier_effect:
  assumes "transitionSupplier t lc env cx i expected cmd db = (Inr v, db')"
  obtains s h c where "supplier_changed t lc i expected db s h (set_state (env_now env) (js_int expected + 1) (sc_to c)) db'"
    and "(cmd, c) \<in> set supplierCommandContract" and "su_state s \<in> set (sc_from c)"
    and "v = (safeSupplier (set_state (env_now env) (js_int expected + 1) (sc_to c) s), su_state s, sc_event c)"
proof -
  let ?f = "\<lambda>c. set_state (env_now env) (js_int expected + 1) (sc_to c)"
  obtain s h c where s: "find_supplier t i db = Some s" "expected = JInt (su_version s)"
    and c: "(cmd, c) \<in> set supplierCommandContract" "su_state s \<in> set (sc_from c)"
    and clash: "\<forall>x\<in>set (suppliers db). su_id x \<noteq> su_id s \<longrightarrow> \<not> supplier_clash lc (?f c s) x"
    and h: "entry_step (Some s) h (?f c s)" "reason_clean (sh_reason h) s" "reason_clean (sh_reason h) (?f c s)"
    and v: "v = (safeSupplier (?f c s), su_state s, sc_event c)"
    and db': "db' = db\<lparr>suppliers := update_rows (supplier_addressed t i expected) (?f c) (suppliers db),
                supplier_history := supplier_history db @ [h]\<rparr>"
    by (insert assms, unfold transitionSupplier_def Let_def given_Inr load_Inr needed_Inr assertVersion_Inr
        supplierCommand_Inr assertSupplierTransition_Inr update_supplier_Inr writeHistory_Inr done_with_Inr reason_Inr
        supplier_db_sel, elim exE conjE,
        frule find_supplier_key, elim conjE, frule (2) supplier_addressed_found, frule contract_for_Some, elim conjE,
        rule that [rotated -1], assumption,
        simp_all add: entry_step_def safeSnapshot_def without_fields_def supplier_move_def reason_clean_def set_state_def)
      (fastforce simp: list_ex_iff)
  then show ?thesis
    unfolding supplier_changed_def by (intro that [of s h c]) (simp_all add: supplier_changed_def set_state_def)
qed

section \<open>Invariant and histories of calls\<close>

datatype supplier_command =
    CreateSupplier string supplier_profile
  | UpdateProfile string js_number supplier_profile
  | ChangeState string js_number string

fun supplier_step ::
    "string \<Rightarrow> (string \<Rightarrow> string) \<Rightarrow> call_env \<times> supplier_context \<times> supplier_command \<Rightarrow> (supplier_db, unit) call" where
  "supplier_step t lc (env, cx, CreateSupplier n p) db = forget (createSupplier t lc env cx n p db)"
| "supplier_step t lc (env, cx, UpdateProfile i v p) db = forget (updateSupplierProfile t lc env cx i v p db)"
| "supplier_step t lc (env, cx, ChangeState i v c) db = forget (transitionSupplier t lc env cx i v c db)"

fun supplier_run ::
    "(string \<Rightarrow> string) \<Rightarrow> (string \<times> call_env \<times> supplier_context \<times> supplier_command) list \<Rightarrow> supplier_db \<Rightarrow> supplier_db" where
  "supplier_run lc [] db = db"
| "supplier_run lc ((t, c) # cs) db = supplier_run lc cs (snd (uow t (supplier_step t lc c) db))"

definition supplier_ok :: "supplier_db \<Rightarrow> supplier \<Rightarrow> bool" where
  "supplier_ok db s \<longleftrightarrow> audit_trail None (trail_of db s) (Some (safeSnapshot s))
     \<and> reason_clean (sh_reason (last (trail_of db s))) s"

definition supplier_inv :: "(string \<Rightarrow> string) \<Rightarrow> supplier_db \<Rightarrow> bool" where
  "supplier_inv lc db \<longleftrightarrow> unique_rows (supplier_clash lc) (suppliers db)
     \<and> (\<forall>s\<in>set (suppliers db). supplier_ok db s)
     \<and> (\<forall>h\<in>set (supplier_history db). \<exists>s\<in>set (suppliers db). su_tenant s = sh_tenant h \<and> su_id s = sh_supplier h)"

lemma supplier_clash_sym: "supplier_clash lc x y \<Longrightarrow> supplier_clash lc y x"
  unfolding supplier_clash_def same_tax_def by metis

text \<open>A trail grows by its entry; the trails of the other suppliers stay.\<close>

lemma trail_of_append:
  "trail_of (db\<lparr>suppliers := ss, supplier_history := supplier_history db @ [h]\<rparr>) s =
     trail_of db s @ (if sh_tenant h = su_tenant s \<and> sh_supplier h = su_id s then [h] else [])"
  by (simp add: trail_of_def)

lemma supplier_ok_entry:
  assumes "entry_step p h s" and "reason_clean (sh_reason h) s"
    and "audit_trail None (trail_of db s) (map_option safeSnapshot p)"
  shows "supplier_ok (db\<lparr>suppliers := ss, supplier_history := supplier_history db @ [h]\<rparr>) s"
  using assms by (auto simp: supplier_ok_def trail_of_append entry_step_def audit_trail_append)

lemma supplier_ok_other:
  assumes "supplier_ok db s" and "entry_step p h r" and "su_id r \<noteq> su_id s"
  shows "supplier_ok (db\<lparr>suppliers := ss, supplier_history := supplier_history db @ [h]\<rparr>) s"
  using assms by (auto simp: supplier_ok_def trail_of_append entry_step_def)

lemma supplier_inv_create:
  assumes "supplier_inv lc db" and "\<forall>s\<in>set (suppliers db). \<not> supplier_clash lc row s" and "entry_step None h row"
    and "reason_clean (sh_reason h) row"
    and db': "db' = db\<lparr>suppliers := suppliers db @ [row], supplier_history := supplier_history db @ [h]\<rparr>"
  shows "supplier_inv lc db'"
proof -
  have fresh: "su_id s \<noteq> su_id row" if "s \<in> set (suppliers db)" for s
    using assms(2) that by (auto simp: supplier_clash_def)
  have "trail_of db row = []"
    using assms(1) fresh by (fastforce simp: supplier_inv_def trail_of_def filter_empty_conv)
  then have "supplier_ok db' row"
    unfolding db' using assms(3,4) by (intro supplier_ok_entry) auto
  moreover have "supplier_ok db' s" if "s \<in> set (suppliers db)" for s
    unfolding db' by (rule supplier_ok_other [OF _ assms(3)]) (use assms(1) fresh that in \<open>fastforce simp: supplier_inv_def\<close>)+
  moreover have "unique_rows (supplier_clash lc) (suppliers db')"
    unfolding db' using assms(1,2) by (auto simp: supplier_inv_def intro: unique_rows_snoc supplier_clash_sym)
  moreover have "sh_tenant h = su_tenant row \<and> sh_supplier h = su_id row" using assms(3) by (simp add: entry_step_def)
  ultimately show ?thesis
    using assms(1) unfolding supplier_inv_def db' by auto
qed

lemma supplier_inv_change:
  assumes inv: "supplier_inv lc db" and change: "supplier_changed t lc i expected db s h f db'"
  shows "supplier_inv lc db'"
proof -
  from change have found: "find_supplier t i db = Some s" and ids: "\<And>x. su_id (f x) = su_id x" "\<And>x. su_tenant (f x) = su_tenant x"
    and clash: "\<And>x. x \<in> set (suppliers db) \<Longrightarrow> su_id x \<noteq> su_id s \<Longrightarrow> \<not> supplier_clash lc (f s) x"
    and entry: "entry_step (Some s) h (f s)" and clean: "reason_clean (sh_reason h) (f s)"
    and db': "db' = db\<lparr>suppliers := update_rows (supplier_addressed t i expected) f (suppliers db),
                supplier_history := supplier_history db @ [h]\<rparr>"
    by (auto simp: supplier_changed_def)
  from find_supplier_key [OF found] have s: "s \<in> set (suppliers db)" "su_tenant s = t" "su_id s = js_lower i" by auto
  have uniq: "unique_rows (supplier_clash lc) (suppliers db)" using inv by (simp add: supplier_inv_def)
  have one: "x = s" if "x \<in> set (suppliers db)" "su_id x = su_id s" for x
    using unique_rows_clashD [OF uniq that(1) s(1)] that(2) by (simp add: supplier_clash_def)
  have hit: "x = s" if "x \<in> set (suppliers db)" "supplier_addressed t i expected x" for x
    using one that s by (simp add: supplier_addressed_def)
  have "supplier_addressed t i expected s" using change s by (simp add: supplier_changed_def supplier_addressed_def)
  then have rows: "x = f s \<or> (x \<in> set (suppliers db) \<and> su_id x \<noteq> su_id s)" if "x \<in> set (suppliers db')" for x
    using that hit one unfolding db' by (auto simp: set_update_rows) metis
  have "supplier_ok db' (f s)"
    unfolding db' by (rule supplier_ok_entry [OF entry clean])
      (use inv s(1) in \<open>simp add: supplier_inv_def supplier_ok_def trail_of_def ids\<close>)
  moreover have "supplier_ok db' x" if "x \<in> set (suppliers db)" "su_id x \<noteq> su_id s" for x
    unfolding db' by (rule supplier_ok_other [OF _ entry]) (use inv that ids in \<open>auto simp: supplier_inv_def\<close>)
  ultimately have "\<forall>x\<in>set (suppliers db'). supplier_ok db' x" using rows by blast
  moreover have "unique_rows (supplier_clash lc) (suppliers db')"
  proof -
    have "distinct (suppliers db)"
      by (rule unique_rows_distinct [OF uniq]) (simp add: supplier_clash_def)
    then show ?thesis
      unfolding db' using uniq hit clash one
      by (auto intro!: unique_update_at [where r = s] dest: supplier_clash_sym)
  qed
  moreover have "\<exists>x\<in>set (suppliers db'). su_tenant x = su_tenant y \<and> su_id x = su_id y" if "y \<in> set (suppliers db)" for y
  proof -
    have "(\<lambda>s. (su_tenant s, su_id s)) ` set (suppliers db') = (\<lambda>s. (su_tenant s, su_id s)) ` set (suppliers db)"
      unfolding db' by (simp, rule image_update_rows) (simp add: ids)
    then have "(su_tenant y, su_id y) \<in> (\<lambda>s. (su_tenant s, su_id s)) ` set (suppliers db')" using that by simp
    then show ?thesis by auto
  qed
  moreover have "sh_tenant h = su_tenant s \<and> sh_supplier h = su_id s" using entry ids by (simp add: entry_step_def)
  moreover have "set (supplier_history db') = insert h (set (supplier_history db))" by (simp add: db')
  moreover have "\<exists>x\<in>set (suppliers db). su_tenant x = sh_tenant g \<and> su_id x = sh_supplier g"
    if "g \<in> set (supplier_history db)" for g using inv that by (simp add: supplier_inv_def)
  ultimately show ?thesis
    using s(1) unfolding supplier_inv_def by (metis insert_iff)
qed

lemma supplier_inv_step:
  assumes "supplier_inv lc db" and "supplier_step t lc c db = (Inr u, db')"
  shows "supplier_inv lc db'"
proof -
  obtain env cx k where c: "c = (env, cx, k)" by (cases c)
  show ?thesis
  proof (cases k)
    case (CreateSupplier n p)
    with assms(2) c obtain v where "createSupplier t lc env cx n p db = (Inr v, db')" by (auto simp: forget_Inr)
    then show ?thesis by (rule create_supplier_effect) (rule supplier_inv_create [OF assms(1)])
  next
    case (UpdateProfile i v p)
    with assms(2) c obtain r where "updateSupplierProfile t lc env cx i v p db = (Inr r, db')" by (auto simp: forget_Inr)
    from update_profile_effect [OF this] show ?thesis by (auto intro: supplier_inv_change [OF assms(1)])
  next
    case (ChangeState i v cmd)
    with assms(2) c obtain r where "transitionSupplier t lc env cx i v cmd db = (Inr r, db')" by (auto simp: forget_Inr)
    then show ?thesis by (rule transition_supplier_effect) (rule supplier_inv_change [OF assms(1)])
  qed
qed

lemma supplier_inv_run: "supplier_inv lc db \<Longrightarrow> supplier_inv lc (supplier_run lc cs db)"
proof (induction cs arbitrary: db)
  case (Cons c cs)
  obtain t k where c: "c = (t, k)" by (cases c)
  have "supplier_inv lc (snd (uow t (supplier_step t lc k) db))"
    by (rule pg.run_invariant [where I = "supplier_inv lc", OF Cons.prems]) (rule supplier_inv_step [OF Cons.prems])
  with Cons.IH show ?case by (simp add: c)
qed simp

definition no_suppliers :: supplier_db where
  "no_suppliers = \<lparr>suppliers = [], supplier_history = []\<rparr>"

lemma supplier_inv_reached: "supplier_inv lc (supplier_run lc cs no_suppliers)"
  by (rule supplier_inv_run) (simp add: supplier_inv_def no_suppliers_def)

lemma supplier_ok_reached: "s \<in> set (suppliers (supplier_run lc cs no_suppliers)) \<Longrightarrow>
    supplier_ok (supplier_run lc cs no_suppliers) s"
  using supplier_inv_reached [of lc cs] by (simp add: supplier_inv_def)

text \<open>A trail that ends in an approved state has an approval after which the supplier never left these states.\<close>

definition trusted_states :: "supplier_state set" where
  "trusted_states = {APPROVED, PREFERRED, SUSPENDED}"

definition approved_since :: "supplier_entry list \<Rightarrow> bool" where
  "approved_since hs \<longleftrightarrow> (\<exists>xs h ys. hs = xs @ h # ys \<and> sh_action h = ''SUPPLIER.APPROVE''
     \<and> (\<forall>y\<in>set ys. sh_new_state y \<in> trusted_states))"

lemma approved_since_append:
  "approved_since hs \<Longrightarrow> sh_new_state h \<in> trusted_states \<Longrightarrow> approved_since (hs @ [h])"
  unfolding approved_since_def by fastforce

lemma approved_since_last: "sh_action h = ''SUPPLIER.APPROVE'' \<Longrightarrow> approved_since (hs @ [h])"
  unfolding approved_since_def by fastforce

lemma trusted_move:
  assumes "supplier_move (Some b) action q" and "sn_state q \<in> trusted_states"
  shows "action = ''SUPPLIER.APPROVE'' \<or> sn_state b \<in> trusted_states"
  using assms by (auto simp: supplier_move_def trusted_states_def supplierCommandContract_def)

lemma trail_approved:
  "audit_trail None hs (Some q) \<Longrightarrow> sn_state q \<in> trusted_states \<Longrightarrow> approved_since hs"
proof (induction hs arbitrary: q rule: rev_induct)
  case (snoc h hs)
  then obtain m where m: "audit_trail None hs m" "audit_trail m [h] (Some q)"
    by (auto simp: audit_trail_append)
  show ?case
  proof (cases m)
    case None
    with m(2) snoc.prems(2) show ?thesis
      by (auto simp: Let_def supplier_move_def trusted_states_def)
  next
    case (Some b)
    with m(2) have q: "supplier_move (Some b) (sh_action h) q" "sh_new_state h = sn_state q" by (auto simp: Let_def)
    from trusted_move [OF q(1) snoc.prems(2)] snoc.IH [of b] m(1) Some q(2) snoc.prems(2) show ?thesis
      by (auto intro: approved_since_last approved_since_append)
  qed
qed simp

section \<open>The contracts of the state machine\<close>

definition supplier_states :: "supplier_state list" where
  "supplier_states = [PROSPECT, APPROVED, PREFERRED, SUSPENDED, BLOCKED, INACTIVE]"

lemma supplier_changed_row:
  assumes "supplier_changed t lc i expected db s h f db'"
  shows "find_supplier t i db = Some s \<and> expected = JInt (su_version s) \<and> find_supplier t i db' = Some (f s)"
proof -
  have found: "find_row (\<lambda>s. su_tenant s = t \<and> su_id s = js_lower i) (suppliers db) = Some s"
    and "supplier_addressed t i expected s"
    using assms find_supplier_key [of t i db s] by (auto simp: supplier_changed_def find_supplier_def supplier_addressed_def)
  then have "find_row (\<lambda>s. su_tenant s = t \<and> su_id s = js_lower i) (update_rows (supplier_addressed t i expected) f (suppliers db)) = Some (f s)"
    by (rule find_row_update_hit) (use assms in \<open>simp add: supplier_changed_def\<close>)
  then show ?thesis using assms by (simp add: supplier_changed_def find_supplier_def)
qed

lemma contract_edge: "(k, c) \<in> set supplierCommandContract \<Longrightarrow> x \<in> set (sc_from c) \<Longrightarrow> sc_to c \<in> set (supplier_targets x)"
  by (auto simp: supplierCommandContract_def supplierTransitions_def)

text \<open>A change of one supplier: a command on its state, or an update of its profile.\<close>

fun change_supplier ::
    "string \<Rightarrow> (string \<Rightarrow> string) \<Rightarrow> string \<Rightarrow> call_env \<times> supplier_context \<times> js_number \<times> (string + supplier_profile)
       \<Rightarrow> (supplier_db, unit) call" where
  "change_supplier t lc i (env, cx, v, Inl c) db = forget (transitionSupplier t lc env cx i v c db)"
| "change_supplier t lc i (env, cx, v, Inr p) db = forget (updateSupplierProfile t lc env cx i v p db)"

interpretation supplier_machine: keyed_machine
  supplier_targets supplier_states t "change_supplier t lc i" "\<lambda>(env, cx, v, k). v" "find_supplier t i"
  su_version su_state
  for t lc i
proof
  show "y \<in> set supplier_states" for y by (cases y) (simp_all add: supplier_states_def)
next
  fix j db and a :: unit and db'
  assume ok: "change_supplier t lc i j db = (Inr a, db')"
  obtain env cx v k where j: "j = (env, cx, v, k)" by (cases j)
  show "\<exists>r r'. find_supplier t i db = Some r \<and> find_supplier t i db' = Some r'
     \<and> (case j of (env, cx, v, k) \<Rightarrow> v) = JInt (su_version r) \<and> su_version r' = su_version r + 1
     \<and> (su_state r' = su_state r \<or> su_state r' \<in> set (supplier_targets (su_state r)))"
  proof (cases k)
    case (Inl c)
    with ok j obtain r where "transitionSupplier t lc env cx i v c db = (Inr r, db')" by (auto simp: forget_Inr)
    then show ?thesis
      by (rule transition_supplier_effect)
        (auto simp: j set_state_def dest!: supplier_changed_row dest: contract_edge)
  next
    case (Inr p)
    with ok j obtain r where "updateSupplierProfile t lc env cx i v p db = (Inr r, db')" by (auto simp: forget_Inr)
    from update_profile_effect [OF this] show ?thesis
      by (auto simp: j merge_profile_def dest!: supplier_changed_row)
  qed
qed

section \<open>A run on concrete input\<close>

definition supplier_env :: "string \<Rightarrow> call_env" where
  "supplier_env u = \<lparr>env_now = 0, env_iso = [], env_uuid = (\<lambda>n. if n = 0 then u else ''h'' @ u), env_valid_event = (\<lambda>_. True)\<rparr>"

definition because :: "string \<Rightarrow> supplier_context" where
  "because why = \<lparr>cx_actor = ''ann'', cx_reason = why, cx_correlation = ''c''\<rparr>"

definition acme_profile :: supplier_profile where
  "acme_profile = \<lparr>sp_legal_name = None, sp_tax_identifier = Some (Some ''AB-1234''), sp_address = None, sp_categories = None,
     sp_risk_state = Some None, sp_bank_info_reference = None, sp_contacts = None\<rparr>"

definition acme :: "supplier_state \<Rightarrow> int \<Rightarrow> supplier" where
  "acme x v = \<lparr>su_id = ''s'', su_tenant = ''t'', su_code = ''SUP-S'', su_legal_name = ''Acme'',
     su_tax_identifier = Some ''AB-1234'', su_address = None, su_categories = [], su_risk_state = None,
     su_bank_info_reference = None, su_contacts = [], su_state = x, su_version = v, su_created_by = ''ann'',
     su_created_at = 0, su_updated_at = 0\<rparr>"

definition acme_calls :: "(string \<times> call_env \<times> supplier_context \<times> supplier_command) list" where
  "acme_calls =
    [(''t'', supplier_env ''s'', because ''new supplier'', CreateSupplier ''Acme'' acme_profile),
     (''t'', supplier_env ''a'', because ''see AB-1234'', ChangeState ''S'' (JInt 1) ''APPROVE''),
     (''t'', supplier_env ''a'', because ''checked'', ChangeState ''S'' (JInt 1) ''APPROVE'')]"

definition acme_db :: supplier_db where
  "acme_db = supplier_run (\<lambda>s. s) acme_calls no_suppliers"

lemma acme_rows: "suppliers acme_db = [acme APPROVED 2]"
  by code_simp
lemma acme_trail: "map (\<lambda>h. (sh_version h, sh_action h, sh_reason h)) (trail_of acme_db (acme APPROVED 2)) =
    [(1, ''SUPPLIER.CREATE'', ''new supplier''), (2, ''SUPPLIER.APPROVE'', ''checked'')]"
  by code_simp

lemma trail_versions:
  "audit_trail p hs q \<Longrightarrow> map sh_version hs =
     [(case p of None \<Rightarrow> 0 | Some b \<Rightarrow> sn_version b) + 1 .. (case q of None \<Rightarrow> 0 | Some b \<Rightarrow> sn_version b)]
   \<and> (case p of None \<Rightarrow> 0 | Some b \<Rightarrow> sn_version b) \<le> (case q of None \<Rightarrow> 0 | Some b \<Rightarrow> sn_version b)"
proof (induction p hs q rule: audit_trail.induct)
  case (2 p h hs q)
  then have h: "sh_version h = (case p of None \<Rightarrow> 0 | Some b \<Rightarrow> sn_version b) + 1"
    by (auto simp: Let_def supplier_move_def split: option.splits)
  from 2 have "map sh_version hs = [sh_version h + 1 .. (case q of None \<Rightarrow> 0 | Some b \<Rightarrow> sn_version b)]"
    and "sh_version h \<le> (case q of None \<Rightarrow> 0 | Some b \<Rightarrow> sn_version b)"
    by (auto simp: Let_def)
  then show ?case by (simp add: h upto.simps [of "_ + 1"])
qed (simp split: option.split)

section \<open>Properties\<close>

text \<open>C9: Whatever commands run, on whatever inputs, the history of a supplier is its complete audit trail: its entries are
  numbered 1 to the version of the row, each starts from the snapshot where the one before ended, makes a move that
  its command's contract allows, and the last one ends in the snapshot of the row as it is.\<close>

theorem supplier_history_replays:
  assumes "s \<in> set (suppliers (supplier_run lc cs no_suppliers))"
  shows "audit_trail None (trail_of (supplier_run lc cs no_suppliers) s) (Some (safeSnapshot s))
    \<and> map sh_version (trail_of (supplier_run lc cs no_suppliers) s) = [1..su_version s]"
proof -
  have "audit_trail None (trail_of (supplier_run lc cs no_suppliers) s) (Some (safeSnapshot s))"
    using supplier_ok_reached [OF assms] by (simp add: supplier_ok_def)
  then show ?thesis by (auto simp: safeSnapshot_def dest: trail_versions)
qed

theorem supplier_history_replays_witness:
  "map sh_version (trail_of acme_db (acme APPROVED 2)) = [1..2]"
  using supplier_history_replays [of "acme APPROVED 2" "\<lambda>s. s" acme_calls] acme_rows
  by (simp add: acme_db_def acme_def)

text \<open>C10: A supplier that an order may be issued to was approved: its history has an entry of the command APPROVE, and
  since then it has only been approved, preferred or suspended. No other command, and no update of a profile, makes a
  supplier that was never approved, or was blocked or deactivated since, eligible for orders.\<close>

theorem supplier_orders_need_approval:
  assumes "s \<in> set (suppliers (supplier_run lc cs no_suppliers))" and "snd (supplierEligibility (su_state s))"
  shows "\<exists>xs h ys. trail_of (supplier_run lc cs no_suppliers) s = xs @ h # ys \<and> sh_action h = ''SUPPLIER.APPROVE''
    \<and> sh_new_state ` set ys \<subseteq> {APPROVED, PREFERRED, SUSPENDED}"
proof -
  have "approved_since (trail_of (supplier_run lc cs no_suppliers) s)"
    using supplier_ok_reached [OF assms(1)] assms(2)
    by (intro trail_approved) (auto simp: supplier_ok_def supplierEligibility_def trusted_states_def safeSnapshot_def)
  then show ?thesis unfolding approved_since_def trusted_states_def by fastforce
qed

theorem supplier_orders_need_approval_witness:
  "\<exists>xs h ys. trail_of acme_db (acme APPROVED 2) = xs @ h # ys \<and> sh_action h = ''SUPPLIER.APPROVE''
    \<and> sh_new_state ` set ys \<subseteq> {APPROVED, PREFERRED, SUSPENDED}"
  using supplier_orders_need_approval [of "acme APPROVED 2" "\<lambda>s. s" acme_calls] acme_rows
  by (simp add: acme_db_def acme_def supplierEligibility_def)

text \<open>C33: The reason recorded with the latest change of a supplier does not give its tax identifier or bank reference
  away. A value of four characters or more occurs nowhere in it, whatever the case of its letters; a shorter one does
  not stand in it as a word.\<close>

theorem supplier_reason_keeps_secret:
  assumes "s \<in> set (suppliers (supplier_run lc cs no_suppliers))"
    and "Some v \<in> {su_tax_identifier s, su_bank_info_reference s}" and "\<not> blank v"
    and "js_lower m = js_lower (js_trim v)"
    and "4 \<le> length (js_trim v) \<or> ((xs = [] \<or> \<not> word_char (last xs)) \<and> (ys = [] \<or> \<not> word_char (hd ys)))"
  shows "sh_reason (last (trail_of (supplier_run lc cs no_suppliers) s)) \<noteq> xs @ m @ ys"
proof -
  let ?reason = "sh_reason (last (trail_of (supplier_run lc cs no_suppliers) s))"
  have clean: "\<not> names_value ?reason (Some v)"
    using supplier_ok_reached [OF assms(1)] assms(2) by (auto simp: supplier_ok_def reason_clean_def)
  show ?thesis
  proof (cases "4 \<le> length (js_trim v)")
    case True
    have "js_lower ?reason \<noteq> js_lower xs @ js_lower (js_trim v) @ js_lower ys"
      by (rule excluded_text [OF clean True])
    with assms(4) show ?thesis by (auto simp: js_lower_def)
  next
    case False
    with assms(5) show ?thesis by (intro excluded_word [OF clean assms(3) _ assms(4)]) auto
  qed
qed

theorem supplier_reason_keeps_secret_witness:
  "sh_reason (last (trail_of acme_db (acme APPROVED 2))) \<noteq> ''see '' @ ''ab-1234'' @ '' there''"
proof -
  have "js_lower ''ab-1234'' = js_lower (js_trim ''AB-1234'')" "4 \<le> length (js_trim ''AB-1234'')" "\<not> blank ''AB-1234''"
    by code_simp+
  then show ?thesis
    using supplier_reason_keeps_secret [of "acme APPROVED 2" "\<lambda>s. s" acme_calls "''AB-1234''" "''ab-1234''" "''see ''" "'' there''"]
      acme_rows
    by (simp add: acme_db_def acme_def)
qed

text \<open>The commands are exactly the edges of the state machine: a transition is in the table if and only if some
  command's contract makes it, so that the check of the table never refuses what a contract allows.\<close>

theorem supplier_contract_is_graph:
  "y \<in> set (supplier_targets x) \<longleftrightarrow> list_ex (\<lambda>(k, c). x \<in> set (sc_from c) \<and> sc_to c = y) supplierCommandContract"
  by (cases x; cases y) (simp_all add: supplierTransitions_def supplierCommandContract_def)

text \<open>Within a tenant no two suppliers have the same tax identifier, blanks around it and the database's notion of
  letter case aside.\<close>

theorem supplier_tax_unique:
  assumes "x \<in> set (suppliers (supplier_run lc cs no_suppliers))" and "y \<in> set (suppliers (supplier_run lc cs no_suppliers))"
    and "su_tenant x = su_tenant y" and "su_tax_identifier x = Some a" and "su_tax_identifier y = Some b"
    and "lc (btrim a) = lc (btrim b)" and "btrim a \<noteq> []" and "btrim b \<noteq> []"
  shows "x = y"
proof -
  have "supplier_clash lc x y" using assms by (simp add: supplier_clash_def same_tax_def tax_key_def)
  then show ?thesis
    using supplier_inv_reached [of lc cs] assms(1,2) by (auto simp: supplier_inv_def dest: unique_rows_clashD)
qed

end
