(* ===== verification/Procurement_Requests.thy ===== *)
theory Procurement_Requests
  imports Suppliers
begin

text \<open>
  \<open>modules/procurement/application/requests.ts\<close>: procurement requests with their numbered lines and their
  history, over the tables of \<open>database/migrations/procurement/20260912_001_procurement.sql\<close> with their
  checks. Parameters: \<open>pg_date\<close> is the date a text denotes to the database, and \<open>pg_num s\<close> the number a
  \<open>numeric\<close> column with \<open>s\<close> decimals holds, in units of its last decimal (the routes let finite numbers
  through only). A table of users stands for \<open>identity.users\<close>, which a foreign key points to.
\<close>

record request_line =
  rl_id :: string
  rl_tenant :: string
  rl_request :: string
  rl_line_number :: nat
  rl_item_type :: string
  rl_item_reference :: "string option"
  rl_description :: string
  rl_quantity :: int
  rl_unit_price :: "int option"

record procurement_request =
  pr_id :: string
  pr_tenant :: string
  pr_code :: string
  pr_requester :: string
  pr_source_type :: string
  pr_source_id :: "string option"
  pr_state :: string
  pr_business_reason :: string
  pr_cost_center :: "string option"
  pr_project :: "string option"
  pr_target_date :: string
  pr_total :: "int option"
  pr_currency :: "string option"
  pr_priority :: "string option"
  pr_version :: int
  pr_created_by :: string
  pr_created_at :: int
  pr_updated_at :: int

text \<open>A snapshot is the whole request with its lines, or its state and version.\<close>

datatype request_snapshot = Whole procurement_request "request_line list" | Marker string int

record request_entry =
  rh_id :: string
  rh_tenant :: string
  rh_request :: string
  rh_version :: int
  rh_action :: string
  rh_previous_state :: "string option"
  rh_new_state :: string
  rh_before :: "request_snapshot option"
  rh_after :: request_snapshot
  rh_actor :: string
  rh_reason :: string
  rh_correlation :: string

record request_db =
  request_users :: "(string \<times> string) list"
  procurement_requests :: "procurement_request list"
  request_lines :: "request_line list"
  request_history :: "request_entry list"

definition active_request :: "procurement_request \<Rightarrow> bool" where
  "active_request r \<longleftrightarrow> pr_state r \<notin> set [''FULFILLED'', ''REJECTED'', ''CANCELLED'']"

definition same_source :: "procurement_request \<Rightarrow> procurement_request \<Rightarrow> bool" where
  "same_source x y \<longleftrightarrow> active_request x \<and> active_request y \<and> pr_tenant x = pr_tenant y
     \<and> pr_source_type x = pr_source_type y \<and> pr_source_id x \<noteq> None \<and> pr_source_id x = pr_source_id y"

definition request_clash :: "procurement_request \<Rightarrow> procurement_request \<Rightarrow> bool" where
  "request_clash x y \<longleftrightarrow> pr_id x = pr_id y \<or> (pr_tenant x = pr_tenant y \<and> pr_code x = pr_code y) \<or> same_source x y"

definition line_clash :: "request_line \<Rightarrow> request_line \<Rightarrow> bool" where
  "line_clash x y \<longleftrightarrow> rl_id x = rl_id y \<or>
     (rl_tenant x = rl_tenant y \<and> rl_request x = rl_request y \<and> rl_line_number x = rl_line_number y)"

definition request_entry_clash :: "request_entry \<Rightarrow> request_entry \<Rightarrow> bool" where
  "request_entry_clash x y \<longleftrightarrow> rh_id x = rh_id y \<or>
     (rh_tenant x = rh_tenant y \<and> rh_request x = rh_request y \<and> rh_version x = rh_version y)"

text \<open>The checks of the two tables.\<close>

definition request_checks :: "procurement_request \<Rightarrow> bool" where
  "request_checks r \<longleftrightarrow> sized 40 (pr_code r) \<and> sized 80 (pr_source_type r) \<and> sized 2000 (pr_business_reason r)
     \<and> (case pr_total r of None \<Rightarrow> True | Some n \<Rightarrow> 0 \<le> n) \<and> (pr_total r = None) = (pr_currency r = None)
     \<and> (case pr_currency r of None \<Rightarrow> True | Some c \<Rightarrow> currency_code c)
     \<and> (case pr_source_id r of None \<Rightarrow> True | Some s \<Rightarrow> btrim s \<noteq> [])
     \<and> (pr_cost_center r \<noteq> None \<or> pr_project r \<noteq> None)"

definition line_checks :: "request_line \<Rightarrow> bool" where
  "line_checks l \<longleftrightarrow> 0 < rl_line_number l \<and> sized 80 (rl_item_type l) \<and> sized 1000 (rl_description l) \<and> 0 < rl_quantity l
     \<and> (case rl_unit_price l of None \<Rightarrow> True | Some p \<Rightarrow> 0 \<le> p)"

section \<open>Commands\<close>

record line_input =
  li_item_type :: string
  li_item_reference :: "string option"
  li_description :: string
  li_quantity :: js_number
  li_unit_price :: "js_number option"

record request_input =
  ri_requester :: string
  ri_source_type :: string
  ri_source_id :: "string option"
  ri_business_reason :: string
  ri_target_date :: string
  ri_cost_center :: "string option"
  ri_project :: "string option"
  ri_total :: "js_number option"
  ri_currency :: "string option"
  ri_priority :: "string option"
  ri_lines :: "line_input list"

text \<open>A nullable number goes to its column as it is or as NULL.\<close>

definition optional_number :: "(js_number \<Rightarrow> int option) \<Rightarrow> js_number option \<Rightarrow> int option option" where
  "optional_number f x = (case x of None \<Rightarrow> Some None | Some n \<Rightarrow> map_option Some (f n))"

definition find_request :: "string \<Rightarrow> string \<Rightarrow> request_db \<Rightarrow> procurement_request option" where
  "find_request t i db = find_row (\<lambda>r. pr_tenant r = t \<and> pr_id r = js_lower i) (procurement_requests db)"

text \<open>The lines of a request in the order of their numbers.\<close>

definition lines_of :: "string \<Rightarrow> string \<Rightarrow> request_db \<Rightarrow> request_line list" where
  "lines_of t i db =
     sort_key rl_line_number (select_rows (\<lambda>l. rl_tenant l = t \<and> rl_request l = js_lower i) (request_lines db))"

definition write_request_entry ::
    "string \<Rightarrow> string \<Rightarrow> supplier_context \<Rightarrow> string \<Rightarrow> int \<Rightarrow> string \<Rightarrow> string option \<Rightarrow> string
       \<Rightarrow> request_snapshot option \<Rightarrow> request_snapshot \<Rightarrow> (request_db, 'b) call \<Rightarrow> (request_db, 'b) call" where
  "write_request_entry t hid cx i version action previous new before after k =
     given (sql_check ''23514'' (sized 2000 (cx_reason cx))) (\<lambda>_.
     insert_into request_entry_clash request_history (\<lambda>rows db. db\<lparr>request_history := rows\<rparr>)
       \<lparr>rh_id = hid, rh_tenant = t, rh_request = i, rh_version = version, rh_action = action,
        rh_previous_state = previous, rh_new_state = new, rh_before = before, rh_after = after,
        rh_actor = cx_actor cx, rh_reason = cx_reason cx, rh_correlation = cx_correlation cx\<rparr> k)"

text \<open>The INSERT of the lines one by one: number \<open>n + 1\<close> with the \<open>n\<close>th next identifier.\<close>

fun insert_lines ::
    "string \<Rightarrow> (nat \<Rightarrow> js_number \<Rightarrow> int option) \<Rightarrow> (nat \<Rightarrow> string) \<Rightarrow> string \<Rightarrow> nat \<Rightarrow> line_input list
       \<Rightarrow> (request_db, 'b) call \<Rightarrow> (request_db, 'b) call" where
  "insert_lines t pg_num ids i n [] k = k"
| "insert_lines t pg_num ids i n (l # ls) k =
     given (column ''22003'' (pg_num 4 (li_quantity l))) (\<lambda>quantity.
     given (column ''22003'' (optional_number (pg_num 2) (li_unit_price l))) (\<lambda>price.
       let row = \<lparr>rl_id = ids n, rl_tenant = t, rl_request = i, rl_line_number = n + 1, rl_item_type = li_item_type l,
                  rl_item_reference = li_item_reference l, rl_description = li_description l,
                  rl_quantity = quantity, rl_unit_price = price\<rparr>
       in given (sql_check ''23514'' (line_checks row)) (\<lambda>_.
          insert_into line_clash request_lines (\<lambda>rows db. db\<lparr>request_lines := rows\<rparr>) row
            (insert_lines t pg_num ids i (n + 1) ls k))))"

definition draft_request ::
    "string \<Rightarrow> call_env \<Rightarrow> string \<Rightarrow> request_input \<Rightarrow> string \<Rightarrow> int option \<Rightarrow> procurement_request" where
  "draft_request t env actorId inp date amount =
     \<lparr>pr_id = env_uuid env 0, pr_tenant = t, pr_code = ''PR-'' @ js_upper (take 8 (env_uuid env 0)),
      pr_requester = js_lower (ri_requester inp), pr_source_type = ri_source_type inp, pr_source_id = ri_source_id inp,
      pr_state = ''DRAFT'', pr_business_reason = ri_business_reason inp, pr_cost_center = ri_cost_center inp,
      pr_project = ri_project inp, pr_target_date = date, pr_total = amount, pr_currency = ri_currency inp,
      pr_priority = ri_priority inp, pr_version = 1, pr_created_by = actorId, pr_created_at = env_now env,
      pr_updated_at = env_now env\<rparr>"

definition createProcurementRequest ::
    "string \<Rightarrow> (string \<Rightarrow> string option) \<Rightarrow> (nat \<Rightarrow> js_number \<Rightarrow> int option) \<Rightarrow> call_env \<Rightarrow> supplier_context \<Rightarrow> request_input
       \<Rightarrow> (request_db, procurement_request \<times> request_line list) call" where
  "createProcurementRequest t pg_date pg_num env cx inp =
     fail_if (ri_lines inp = []) VALIDATION_ERROR (
     given (column ''22007'' (pg_date (ri_target_date inp))) (\<lambda>date.
     given (column ''22003'' (optional_number (pg_num 2) (ri_total inp))) (\<lambda>amount.
       let row = draft_request t env (cx_actor cx) inp date amount
       in given (sql_check ''23514'' (request_checks row)) (\<lambda>_.
          load (\<lambda>db. (t, pr_requester row) \<in> set (request_users db)) (\<lambda>known.
          insert_into request_clash procurement_requests (\<lambda>rows db. db\<lparr>procurement_requests := rows\<rparr>) row (
          given (sql_check ''23503'' known) (\<lambda>_.
          insert_lines t pg_num (\<lambda>n. env_uuid env (n + 2)) (pr_id row) 0 (ri_lines inp) (
          load (lines_of t (pr_id row)) (\<lambda>rows.
          write_request_entry t (env_uuid env 1) cx (pr_id row) 1 ''PROCUREMENT.REQUEST_CREATE'' None ''DRAFT''
            None (Whole row rows) (done_with (row, rows)))))))))))"

definition submit_row :: "int \<Rightarrow> int \<Rightarrow> procurement_request \<Rightarrow> procurement_request" where
  "submit_row now version r = r\<lparr>pr_state := ''SUBMITTED'', pr_version := version, pr_updated_at := now\<rparr>"

definition submitProcurementRequest ::
    "string \<Rightarrow> call_env \<Rightarrow> supplier_context \<Rightarrow> string \<Rightarrow> js_number
       \<Rightarrow> (request_db, procurement_request \<times> request_line list) call" where
  "submitProcurementRequest t env cx i expected =
     load (find_request t i) (\<lambda>found.
     given (needed NOT_FOUND found) (\<lambda>current.
     given (assertVersion (pr_version current) expected) (\<lambda>_.
     fail_if (pr_state current \<noteq> ''DRAFT'') BUSINESS_RULE_VIOLATION (
       let version = js_int expected + 1;
           hit = (\<lambda>r. pr_tenant r = t \<and> pr_id r = js_lower i \<and> JInt (pr_version r) = expected)
       in load (\<lambda>db. find_row hit (procurement_requests db)) (\<lambda>updated.
          given (needed VERSION_CONFLICT updated) (\<lambda>row.
          store (\<lambda>db. db\<lparr>procurement_requests := update_rows hit (submit_row (env_now env) version) (procurement_requests db)\<rparr>) (
          load (lines_of t i) (\<lambda>rows.
          write_request_entry t (env_uuid env 0) cx (js_lower i) version ''PROCUREMENT.REQUEST_SUBMIT'' (Some ''DRAFT'')
            ''SUBMITTED'' (Some (Marker (pr_state current) (pr_version current))) (Marker ''SUBMITTED'' version)
            (done_with (submit_row (env_now env) version row, rows))))))))))"

definition readProcurementRequest :: "string \<Rightarrow> string \<Rightarrow> request_db \<Rightarrow> exn + procurement_request \<times> request_line list" where
  "readProcurementRequest t i db = map_sum id (\<lambda>r. (r, lines_of t i db)) (needed NOT_FOUND (find_request t i db))"

definition listProcurementRequests ::
    "string \<Rightarrow> string option \<Rightarrow> nat \<Rightarrow> nat \<Rightarrow> request_db \<Rightarrow> procurement_request list" where
  "listProcurementRequests t state limit offset db =
     take limit (drop offset (sort_key (\<lambda>r. - pr_created_at r) (sort_key pr_id
       (select_rows (\<lambda>r. pr_tenant r = t \<and> (case state of None \<Rightarrow> True | Some x \<Rightarrow> pr_state r = x))
          (procurement_requests db)))))"

section \<open>What the commands do\<close>

lemma request_db_sel:
  "request_lines (db\<lparr>procurement_requests := rs\<rparr>) = request_lines db"
  "request_history (db\<lparr>procurement_requests := rs\<rparr>) = request_history db"
  "request_history (db\<lparr>request_lines := ls\<rparr>) = request_history db"
  "db\<lparr>request_lines := ls, request_lines := ls'\<rparr> = db\<lparr>request_lines := ls'\<rparr>"
  by simp_all

lemma write_request_entry_Inr [call_simps]:
  "write_request_entry t hid cx i v action p n b a k db = (Inr r, db') \<longleftrightarrow>
     sized 2000 (cx_reason cx) \<and>
     (let h = \<lparr>rh_id = hid, rh_tenant = t, rh_request = i, rh_version = v, rh_action = action,
        rh_previous_state = p, rh_new_state = n, rh_before = b, rh_after = a, rh_actor = cx_actor cx,
        rh_reason = cx_reason cx, rh_correlation = cx_correlation cx\<rparr>
      in (\<forall>x\<in>set (request_history db). \<not> request_entry_clash h x)
         \<and> k (db\<lparr>request_history := request_history db @ [h]\<rparr>) = (Inr r, db'))"
  by (simp add: write_request_entry_def given_Inr sql_check_Inr insert_into_Inr Let_def)

lemma insert_lines_Inr:
  "insert_lines t pg_num ids i n ls k db = (Inr r, db') \<Longrightarrow>
     \<exists>rows. map rl_line_number rows = [n + 1..<n + 1 + length ls]
       \<and> (\<forall>l\<in>set rows. rl_tenant l = t \<and> rl_request l = i)
       \<and> k (db\<lparr>request_lines := request_lines db @ rows\<rparr>) = (Inr r, db')"
proof (induction ls arbitrary: n db)
  case (Cons l ls)
  obtain row where row: "rl_line_number row = n + 1" "rl_tenant row = t" "rl_request row = i"
    and rest: "insert_lines t pg_num ids i (n + 1) ls k (db\<lparr>request_lines := request_lines db @ [row]\<rparr>) = (Inr r, db')"
    by (insert Cons.prems, unfold insert_lines.simps Let_def given_Inr insert_into_Inr, elim exE conjE,
        rule that [rotated -1], assumption, simp_all)
  from Cons.IH [OF rest] obtain rows where "map rl_line_number rows = [n + 2..<n + 2 + length ls]"
    and "\<forall>l\<in>set rows. rl_tenant l = t \<and> rl_request l = i"
    and "k (db\<lparr>request_lines := request_lines db @ row # rows\<rparr>) = (Inr r, db')"
    by auto
  with row show ?case by (intro exI [of _ "row # rows"]) (simp add: upt_conv_Cons del: upt_Suc)
qed simp

definition numbered :: "request_line list \<Rightarrow> bool" where
  "numbered ls \<longleftrightarrow> ls \<noteq> [] \<and> map rl_line_number ls = [1..<length ls + 1]"

lemma numberedI: "map rl_line_number ls = [0 + 1..<0 + 1 + length xs] \<Longrightarrow> xs \<noteq> [] \<Longrightarrow> numbered ls"
  unfolding numbered_def by (metis add.commute add_0 add_diff_cancel_left' length_greater_0_conv length_map length_upt)

lemma create_request_effect:
  assumes "createProcurementRequest t pg_date pg_num env cx inp db = (Inr v, db')"
  obtains row ls h where "\<forall>r\<in>set (procurement_requests db). \<not> request_clash row r" and "pr_state row = ''DRAFT''"
    and "pr_version row = 1" and "pr_tenant row = t" and "numbered ls"
    and "\<forall>l\<in>set ls. rl_tenant l = t \<and> rl_request l = pr_id row"
    and "rh_tenant h = t" and "rh_request h = pr_id row"
    and "(rh_version h, rh_previous_state h, rh_new_state h) = (1, None, ''DRAFT'')"
    and "db' = db\<lparr>procurement_requests := procurement_requests db @ [row], request_lines := request_lines db @ ls,
           request_history := request_history db @ [h]\<rparr>"
  by (insert assms, unfold createProcurementRequest_def Let_def fail_if_Inr given_Inr load_Inr insert_into_Inr,
      elim exE conjE, drule insert_lines_Inr, elim exE conjE,
      unfold load_Inr write_request_entry_Inr Let_def done_with_Inr request_db_sel, elim exE conjE,
      rule that [rotated -1], assumption, simp_all add: draft_request_def, rule numberedI, simp_all)

lemma submit_request_effect:
  assumes "submitProcurementRequest t env cx i expected db = (Inr v, db')"
  obtains r h where "find_request t i db = Some r" and "expected = JInt (pr_version r)" and "pr_state r = ''DRAFT''"
    and "rh_tenant h = t" and "rh_request h = js_lower i"
    and "(rh_version h, rh_previous_state h, rh_new_state h) = (pr_version r + 1, Some ''DRAFT'', ''SUBMITTED'')"
    and "db' = db\<lparr>procurement_requests := update_rows (\<lambda>r. pr_tenant r = t \<and> pr_id r = js_lower i \<and> JInt (pr_version r) = expected)
           (submit_row (env_now env) (js_int expected + 1)) (procurement_requests db),
           request_history := request_history db @ [h]\<rparr>"
  by (insert assms, unfold submitProcurementRequest_def Let_def given_Inr load_Inr needed_Inr assertVersion_Inr fail_if_Inr
      store_Inr write_request_entry_Inr done_with_Inr request_db_sel, elim exE conjE, rule that [rotated -1], assumption, simp_all)

section \<open>Invariant and histories of calls\<close>

datatype request_command = CreateRequest request_input | SubmitRequest string js_number

fun request_step ::
    "string \<Rightarrow> (string \<Rightarrow> string option) \<Rightarrow> (nat \<Rightarrow> js_number \<Rightarrow> int option)
       \<Rightarrow> call_env \<times> supplier_context \<times> request_command \<Rightarrow> (request_db, unit) call" where
  "request_step t pg_date pg_num (env, cx, CreateRequest inp) db = forget (createProcurementRequest t pg_date pg_num env cx inp db)"
| "request_step t pg_date pg_num (env, cx, SubmitRequest i v) db = forget (submitProcurementRequest t env cx i v db)"

fun request_run ::
    "(string \<Rightarrow> string option) \<Rightarrow> (nat \<Rightarrow> js_number \<Rightarrow> int option)
       \<Rightarrow> (string \<times> call_env \<times> supplier_context \<times> request_command) list \<Rightarrow> request_db \<Rightarrow> request_db" where
  "request_run pg_date pg_num [] db = db"
| "request_run pg_date pg_num ((t, c) # cs) db =
     request_run pg_date pg_num cs (snd (uow t (request_step t pg_date pg_num c) db))"

definition own_lines :: "request_db \<Rightarrow> procurement_request \<Rightarrow> request_line list" where
  "own_lines db r = filter (\<lambda>l. rl_tenant l = pr_tenant r \<and> rl_request l = pr_id r) (request_lines db)"

definition own_history :: "request_db \<Rightarrow> procurement_request \<Rightarrow> request_entry list" where
  "own_history db r = filter (\<lambda>h. rh_tenant h = pr_tenant r \<and> rh_request h = pr_id r) (request_history db)"

text \<open>The two stages of a request, with the history each has.\<close>

definition request_stage :: "procurement_request \<Rightarrow> request_entry list \<Rightarrow> bool" where
  "request_stage r hs \<longleftrightarrow>
     (let trail = map (\<lambda>h. (rh_version h, rh_previous_state h, rh_new_state h)) hs
      in (pr_state r = ''DRAFT'' \<and> pr_version r = 1 \<and> trail = [(1, None, ''DRAFT'')])
         \<or> (pr_state r = ''SUBMITTED'' \<and> pr_version r = 2
            \<and> trail = [(1, None, ''DRAFT''), (2, Some ''DRAFT'', ''SUBMITTED'')]))"

definition names_request :: "procurement_request list \<Rightarrow> string \<Rightarrow> string \<Rightarrow> bool" where
  "names_request rs t i \<longleftrightarrow> (\<exists>r\<in>set rs. pr_tenant r = t \<and> pr_id r = i)"

definition request_inv :: "request_db \<Rightarrow> bool" where
  "request_inv db \<longleftrightarrow> unique_rows request_clash (procurement_requests db)
     \<and> (\<forall>r\<in>set (procurement_requests db). numbered (own_lines db r) \<and> request_stage r (own_history db r))
     \<and> (\<forall>l\<in>set (request_lines db). names_request (procurement_requests db) (rl_tenant l) (rl_request l))
     \<and> (\<forall>h\<in>set (request_history db). names_request (procurement_requests db) (rh_tenant h) (rh_request h))"

lemma request_clash_sym: "request_clash x y \<Longrightarrow> request_clash y x"
  unfolding request_clash_def same_source_def by metis

lemma request_inv_create:
  assumes inv: "request_inv db" and fresh: "\<forall>r\<in>set (procurement_requests db). \<not> request_clash row r"
    and row: "pr_state row = ''DRAFT''" "pr_version row = 1" and ls: "numbered ls"
    and keys: "\<forall>l\<in>set ls. rl_tenant l = pr_tenant row \<and> rl_request l = pr_id row"
      "rh_tenant h = pr_tenant row" "rh_request h = pr_id row"
    and h: "(rh_version h, rh_previous_state h, rh_new_state h) = (1, None, ''DRAFT'')"
    and db': "db' = db\<lparr>procurement_requests := procurement_requests db @ [row], request_lines := request_lines db @ ls,
           request_history := request_history db @ [h]\<rparr>"
  shows "request_inv db'"
proof -
  have ids: "pr_id r \<noteq> pr_id row" if "r \<in> set (procurement_requests db)" for r
    using fresh that by (auto simp: request_clash_def)
  have "own_lines db row = []" "own_history db row = []"
    using inv ids by (auto simp: request_inv_def own_lines_def own_history_def names_request_def filter_empty_conv)
  then have mine: "own_lines db' row = ls" "own_history db' row = [h]"
    using keys by (auto simp: db' own_lines_def own_history_def)
  have other: "own_lines db' r = own_lines db r" "own_history db' r = own_history db r" if "r \<in> set (procurement_requests db)" for r
    using ids [OF that] keys by (auto simp: db' own_lines_def own_history_def filter_empty_conv)
  have "request_stage row [h]" using row h by (simp add: request_stage_def)
  moreover have "unique_rows request_clash (procurement_requests db')"
    unfolding db' using inv fresh by (auto simp: request_inv_def intro: unique_rows_snoc request_clash_sym)
  moreover have "names_request (procurement_requests db') a b \<longleftrightarrow>
      names_request (procurement_requests db) a b \<or> (a = pr_tenant row \<and> b = pr_id row)" for a b
    by (auto simp: names_request_def db')
  ultimately show ?thesis
    using inv mine other ls keys by (auto simp: request_inv_def db')
qed

lemma request_inv_submit:
  assumes inv: "request_inv db" and found: "find_request t i db = Some r" and r: "pr_state r = ''DRAFT''"
    and h: "rh_tenant h = t" "rh_request h = js_lower i"
      "(rh_version h, rh_previous_state h, rh_new_state h) = (pr_version r + 1, Some ''DRAFT'', ''SUBMITTED'')"
    and db': "db' = db\<lparr>procurement_requests := update_rows (\<lambda>x. pr_tenant x = t \<and> pr_id x = js_lower i \<and> JInt (pr_version x) = JInt (pr_version r))
           (submit_row now (pr_version r + 1)) (procurement_requests db),
           request_history := request_history db @ [h]\<rparr>"
  shows "request_inv db'"
proof -
  let ?hit = "\<lambda>x. pr_tenant x = t \<and> pr_id x = js_lower i \<and> JInt (pr_version x) = JInt (pr_version r)"
  let ?r = "submit_row now (pr_version r + 1) r"
  from found have mem: "r \<in> set (procurement_requests db)" "pr_tenant r = t" "pr_id r = js_lower i"
    by (auto simp: find_request_def dest: find_row_SomeD)
  have uniq: "unique_rows request_clash (procurement_requests db)" using inv by (simp add: request_inv_def)
  have one: "x = r" if "x \<in> set (procurement_requests db)" "pr_id x = pr_id r" for x
    using unique_rows_clashD [OF uniq that(1) mem(1)] that(2) by (simp add: request_clash_def)
  have keys: "(\<lambda>x. (pr_tenant x, pr_id x)) ` set (procurement_requests db') = (\<lambda>x. (pr_tenant x, pr_id x)) ` set (procurement_requests db)"
    unfolding db' by (simp, rule image_update_rows) (simp add: submit_row_def)
  have names: "names_request rs a b \<longleftrightarrow> (a, b) \<in> (\<lambda>x. (pr_tenant x, pr_id x)) ` set rs" for rs a b
    by (auto simp: names_request_def)
  have rows: "x = ?r \<or> (x \<in> set (procurement_requests db) \<and> pr_id x \<noteq> pr_id r)" if "x \<in> set (procurement_requests db')" for x
  proof (rule updated_row_cases [where p = ?hit and f = "submit_row now (pr_version r + 1)"
        and t = "procurement_requests db" and r = r and k = pr_id])
    show "x \<in> set (update_rows ?hit (submit_row now (pr_version r + 1)) (procurement_requests db))" using that by (simp add: db')
    show "y = r" if "y \<in> set (procurement_requests db)" "pr_id y = pr_id r" for y by (rule one [OF that])
  qed (use mem in auto)
  have stage: "pr_version r = 1 \<and> map (\<lambda>h. (rh_version h, rh_previous_state h, rh_new_state h)) (own_history db r) = [(1, None, ''DRAFT'')]"
    using inv mem(1) r by (auto simp: request_inv_def request_stage_def Let_def)
  have "own_history db' ?r = own_history db r @ [h]"
    using h mem by (simp add: own_history_def db' submit_row_def)
  with stage h have "request_stage ?r (own_history db' ?r)"
    by (simp add: request_stage_def submit_row_def)
  moreover have "own_lines db' ?r = own_lines db r" by (simp add: own_lines_def db' submit_row_def)
  moreover have "own_lines db' x = own_lines db x \<and> own_history db' x = own_history db x" if "pr_id x \<noteq> pr_id r" for x
    using that h mem by (simp add: own_lines_def own_history_def db')
  ultimately have "\<forall>x\<in>set (procurement_requests db'). numbered (own_lines db' x) \<and> request_stage x (own_history db' x)"
    using rows inv mem(1) unfolding request_inv_def by metis
  moreover have "unique_rows request_clash (procurement_requests db')"
  proof -
    have "active_request r = active_request ?r" using r by (simp add: active_request_def submit_row_def)
    then have same: "request_clash x ?r = request_clash x r" "request_clash ?r x = request_clash r x" for x
      by (auto simp: request_clash_def same_source_def submit_row_def)
    have "unique_rows request_clash (update_rows ?hit (submit_row now (pr_version r + 1)) (procurement_requests db))"
    proof (rule unique_update_at [where r = r])
      show "distinct (procurement_requests db)" by (rule unique_rows_distinct [OF uniq]) (simp add: request_clash_def)
      show "x = r" if "x \<in> set (procurement_requests db)" "?hit x" for x using one [of x] that mem by simp
    qed (simp_all add: uniq same)
    then show ?thesis by (simp add: db')
  qed
  moreover have "names_request (procurement_requests db) t (js_lower i)" using mem by (auto simp: names_request_def)
  ultimately show ?thesis
    using inv h(1,2) unfolding request_inv_def names keys by (auto simp: db')
qed

lemma request_inv_step:
  assumes "request_inv db" and "request_step t pg_date pg_num c db = (Inr u, db')"
  shows "request_inv db'"
proof -
  obtain env cx k where c: "c = (env, cx, k)" by (cases c)
  show ?thesis
  proof (cases k)
    case (CreateRequest inp)
    with assms(2) c obtain v where "createProcurementRequest t pg_date pg_num env cx inp db = (Inr v, db')" by (auto simp: forget_Inr)
    then show ?thesis
      by (rule create_request_effect) (rule request_inv_create [OF assms(1)], assumption+, simp_all)
  next
    case (SubmitRequest i v)
    with assms(2) c obtain r where "submitProcurementRequest t env cx i v db = (Inr r, db')" by (auto simp: forget_Inr)
    then show ?thesis
      by (rule submit_request_effect) (rule request_inv_submit [OF assms(1)], assumption+, simp_all)
  qed
qed

lemma request_inv_run: "request_inv db \<Longrightarrow> request_inv (request_run pg_date pg_num cs db)"
proof (induction cs arbitrary: db)
  case (Cons c cs)
  obtain t k where c: "c = (t, k)" by (cases c)
  have "request_inv (snd (uow t (request_step t pg_date pg_num k) db))"
    by (rule pg.run_invariant [where I = request_inv, OF Cons.prems]) (rule request_inv_step [OF Cons.prems])
  with Cons.IH show ?case by (simp add: c)
qed simp

definition no_requests :: "(string \<times> string) list \<Rightarrow> request_db" where
  "no_requests us = \<lparr>request_users = us, procurement_requests = [], request_lines = [], request_history = []\<rparr>"

lemma request_inv_none: "request_inv (no_requests us)"
  by (simp add: request_inv_def no_requests_def)

section \<open>Properties\<close>

text \<open>Every procurement request has at least one line and its lines are numbered 1 to n; it is a draft of version 1, or was
  submitted once and has version 2, and its history says exactly that. No call takes a request further.\<close>

theorem procurement_request_stages:
  assumes "r \<in> set (procurement_requests (request_run pg_date pg_num cs (no_requests us)))"
  shows "numbered (own_lines (request_run pg_date pg_num cs (no_requests us)) r)
    \<and> request_stage r (own_history (request_run pg_date pg_num cs (no_requests us)) r)"
  using request_inv_run [OF request_inv_none] assms by (auto simp: request_inv_def)

text \<open>At most one active request stems from a source.\<close>

theorem one_active_request_per_source:
  assumes "x \<in> set (procurement_requests (request_run pg_date pg_num cs (no_requests us)))"
    and "y \<in> set (procurement_requests (request_run pg_date pg_num cs (no_requests us)))"
    and "pr_tenant x = pr_tenant y" and "pr_source_type x = pr_source_type y" and "pr_source_id x = Some i"
    and "pr_source_id y = Some i"
  shows "x = y"
proof -
  have inv: "request_inv (request_run pg_date pg_num cs (no_requests us))" by (rule request_inv_run [OF request_inv_none])
  with assms(1,2) have "active_request x" "active_request y"
    by (fastforce simp: request_inv_def request_stage_def Let_def active_request_def)+
  with assms(3-6) have "request_clash x y" by (simp add: request_clash_def same_source_def)
  with inv assms(1,2) show ?thesis by (auto simp: request_inv_def dest: unique_rows_clashD)
qed

end
