(* ===== verification/Rfqs.thy ===== *)
theory Rfqs
  imports Procurement_Requests Control_Plane
begin

text \<open>
  Requests for quotation and the quotations that answer them: \<open>modules/procurement/application/rfqs.ts\<close> over
  \<open>database/migrations/procurement/20260912_002_rfq_quotation.sql\<close>. A command's body is a JSON object.
  Parameters of a call, in \<open>rfq_host\<close>: \<open>Date.parse\<close>, \<open>Number\<close> of a text, the text of a fraction, and what a column
  of some type, with its checks, holds of the value that the driver sends it, or the code of the database's error. A command
  answers with its events, and of an event its type, row, version and states are kept; the views of the changed row
  that the answer and the events also carry are left out. The database's triggers are left out: \<open>rfq_award_decides\<close>
  and \<open>submitted_quotation_frozen\<close> show that none of them ever fires.
\<close>

section \<open>Tables\<close>

record rfq =
  rf_id :: string
  rf_tenant :: string
  rf_code :: string
  rf_request :: "string option"
  rf_title :: string
  rf_description :: json
  rf_state :: string
  rf_currency :: string
  rf_deadline :: int
  rf_issued_at :: "int option"
  rf_terms :: json
  rf_awarded :: "string option"
  rf_approval :: "string option"
  rf_version :: int
  rf_created_by :: string
  rf_created_at :: int
  rf_updated_at :: int

record rfq_candidate =
  rc_tenant :: string
  rc_rfq :: string
  rc_supplier :: string

record quotation =
  qu_id :: string
  qu_tenant :: string
  qu_rfq :: string
  qu_supplier :: string
  qu_number :: string
  qu_revision :: int
  qu_replaces :: "string option"
  qu_state :: string
  qu_currency :: string
  qu_total :: json
  qu_valid_until :: json
  qu_lead_time_days :: json
  qu_payment_terms :: json
  qu_warranty :: json
  qu_delivery_terms :: json
  qu_terms :: json
  qu_lines :: json
  qu_attachments :: json
  qu_submitted_at :: "int option"
  qu_version :: int
  qu_created_by :: string
  qu_created_at :: int
  qu_updated_at :: int

text \<open>\<open>safeRfq\<close> and \<open>safeQuotation\<close>: the rows without tenant and author, an RFQ with its candidates.\<close>

record rfq_view =
  rv_id :: string
  rv_code :: string
  rv_request :: "string option"
  rv_title :: string
  rv_description :: json
  rv_state :: string
  rv_currency :: string
  rv_deadline :: int
  rv_issued_at :: "int option"
  rv_terms :: json
  rv_suppliers :: "string list"
  rv_awarded :: "string option"
  rv_approval :: "string option"
  rv_version :: int
  rv_created_at :: int
  rv_updated_at :: int

definition safeRfq :: "rfq \<Rightarrow> string list \<Rightarrow> rfq_view" where
  "safeRfq r ss =
     \<lparr>rv_id = rf_id r, rv_code = rf_code r, rv_request = rf_request r, rv_title = rf_title r,
      rv_description = rf_description r, rv_state = rf_state r, rv_currency = js_trim (rf_currency r),
      rv_deadline = rf_deadline r, rv_issued_at = rf_issued_at r, rv_terms = rf_terms r, rv_suppliers = ss,
      rv_awarded = rf_awarded r, rv_approval = rf_approval r, rv_version = rf_version r,
      rv_created_at = rf_created_at r, rv_updated_at = rf_updated_at r\<rparr>"

record quotation_view =
  qv_id :: string
  qv_rfq :: string
  qv_supplier :: string
  qv_revision :: int
  qv_replaces :: "string option"
  qv_state :: string
  qv_currency :: string
  qv_number :: string
  qv_total :: json
  qv_valid_until :: json
  qv_lead_time_days :: json
  qv_payment_terms :: json
  qv_warranty :: json
  qv_delivery_terms :: json
  qv_terms :: json
  qv_lines :: json
  qv_attachments :: json
  qv_submitted_at :: "int option"
  qv_version :: int
  qv_created_at :: int
  qv_updated_at :: int

definition safeQuotation :: "quotation \<Rightarrow> quotation_view" where
  "safeQuotation q =
     \<lparr>qv_id = qu_id q, qv_rfq = qu_rfq q, qv_supplier = qu_supplier q, qv_revision = qu_revision q,
      qv_replaces = qu_replaces q, qv_state = qu_state q, qv_currency = js_trim (qu_currency q), qv_number = qu_number q,
      qv_total = qu_total q, qv_valid_until = qu_valid_until q, qv_lead_time_days = qu_lead_time_days q,
      qv_payment_terms = qu_payment_terms q, qv_warranty = qu_warranty q, qv_delivery_terms = qu_delivery_terms q,
      qv_terms = qu_terms q, qv_lines = qu_lines q, qv_attachments = qu_attachments q,
      qv_submitted_at = qu_submitted_at q, qv_version = qu_version q, qv_created_at = qu_created_at q,
      qv_updated_at = qu_updated_at q\<rparr>"

text \<open>A row of \<open>rfq_history\<close> or \<open>quotation_history\<close>.\<close>

record 'v trade_entry =
  te_id :: string
  te_tenant :: string
  te_entity :: string
  te_version :: int
  te_action :: string
  te_previous_state :: "string option"
  te_new_state :: string
  te_before :: "'v option"
  te_after :: 'v
  te_actor :: string
  te_reason :: string
  te_correlation :: string

definition trade_entry_clash :: "'v trade_entry \<Rightarrow> 'v trade_entry \<Rightarrow> bool" where
  "trade_entry_clash x y \<longleftrightarrow> te_id x = te_id y \<or>
     (te_tenant x = te_tenant y \<and> te_entity x = te_entity y \<and> te_version x = te_version y)"

text \<open>The tables, with those of suppliers, procurement requests and approvals that the commands read.\<close>

record rfq_db =
  rq_suppliers :: supplier_db
  rq_requests :: request_db
  rq_approvals :: approval_db
  rfqs :: "rfq list"
  rfq_candidates :: "rfq_candidate list"
  quotations :: "quotation list"
  rfq_history :: "rfq_view trade_entry list"
  quotation_history :: "quotation_view trade_entry list"

definition rfq_clash :: "rfq \<Rightarrow> rfq \<Rightarrow> bool" where
  "rfq_clash x y \<longleftrightarrow> rf_id x = rf_id y \<or> (rf_tenant x = rf_tenant y \<and> rf_code x = rf_code y)"

definition same_submission :: "quotation \<Rightarrow> quotation \<Rightarrow> bool" where
  "same_submission x y \<longleftrightarrow> qu_state x = ''SUBMITTED'' \<and> qu_state y = ''SUBMITTED'' \<and> qu_tenant x = qu_tenant y
     \<and> qu_rfq x = qu_rfq y \<and> qu_supplier x = qu_supplier y"

definition quotation_clash :: "quotation \<Rightarrow> quotation \<Rightarrow> bool" where
  "quotation_clash x y \<longleftrightarrow> qu_id x = qu_id y \<or> (qu_tenant x = qu_tenant y \<and> qu_number x = qu_number y)
     \<or> (qu_tenant x = qu_tenant y \<and> qu_rfq x = qu_rfq y \<and> qu_supplier x = qu_supplier y \<and> qu_revision x = qu_revision y)
     \<or> same_submission x y"

section \<open>Bodies\<close>

record rfq_host =
  ho_env :: call_env
  ho_fr :: "rat \<Rightarrow> string"
  ho_parse :: "string \<Rightarrow> int option"
  ho_number :: "string \<Rightarrow> js_number"
  ho_column :: "string \<Rightarrow> json \<Rightarrow> string + json"

type_synonym json_body = "(string \<times> json) list"

definition member :: "string \<Rightarrow> json_body \<Rightarrow> json option" where
  "member k body = map_of body k"

text \<open>\<open>String(v)\<close>, \<open>Number(v)\<close> and \<open>asObject(v)\<close>.\<close>

definition as_string :: "rfq_host \<Rightarrow> json \<Rightarrow> exn + string" where
  "as_string ho v = (case js_string (ho_fr ho) v of None \<Rightarrow> Inl (JsError ''TypeError'') | Some s \<Rightarrow> Inr s)"

fun as_number :: "rfq_host \<Rightarrow> json option \<Rightarrow> exn + js_number" where
  "as_number ho None = Inr JNaN"
| "as_number ho (Some JNull) = Inr (JInt 0)"
| "as_number ho (Some (JBool b)) = Inr (JInt (if b then 1 else 0))"
| "as_number ho (Some (JNum n)) = Inr n"
| "as_number ho (Some v) = map_sum id (ho_number ho) (as_string ho v)"

definition asObject :: "json \<Rightarrow> json" where
  "asObject v = (case v of JObj kvs \<Rightarrow> JObj kvs | _ \<Rightarrow> JObj [])"

definition truthy :: "json option \<Rightarrow> bool" where
  "truthy v = (case v of None \<Rightarrow> False | Some w \<Rightarrow> js_true w)"

fun strings_of :: "rfq_host \<Rightarrow> json list \<Rightarrow> exn + string list" where
  "strings_of ho [] = Inr []"
| "strings_of ho (v # vs) = (case as_string ho v of
     Inl e \<Rightarrow> Inl e | Inr s \<Rightarrow> map_sum id ((#) s) (strings_of ho vs))"

text \<open>\<open>[...new Set(xs)]\<close> keeps first occurrences.\<close>

definition first_of_each :: "string list \<Rightarrow> string list" where
  "first_of_each xs = rev (remdups (rev xs))"

definition array_strings :: "rfq_host \<Rightarrow> json option \<Rightarrow> exn + string list" where
  "array_strings ho v = (case v of Some (JArr vs) \<Rightarrow> map_sum id first_of_each (strings_of ho vs) | _ \<Rightarrow> Inl (JsError ''TypeError''))"

definition uuid_column :: "json \<Rightarrow> exn + string option" where
  "uuid_column v = (case v of
     JNull \<Rightarrow> Inr None | JStr s \<Rightarrow> map_sum id Some (uuid_of_text s) | _ \<Rightarrow> Inl (SqlError ''22P02''))"

definition stored :: "rfq_host \<Rightarrow> string \<Rightarrow> json \<Rightarrow> exn + json" where
  "stored ho type v = (if v = JNull then Inr JNull else map_sum SqlError id (ho_column ho type v))"

text \<open>A member that is left as it is when the body does not have it.\<close>

definition kept :: "json \<Rightarrow> json option \<Rightarrow> json" where
  "kept current v = (case v of None \<Rightarrow> current | Some w \<Rightarrow> w)"

section \<open>Reads\<close>

definition getRfq :: "string \<Rightarrow> string \<Rightarrow> (rfq \<Rightarrow> (rfq_db, 'b) call) \<Rightarrow> (rfq_db, 'b) call" where
  "getRfq t i k =
     given (uuid_of_text i) (\<lambda>u.
     load (\<lambda>db. find_row (\<lambda>r. rf_tenant r = t \<and> rf_id r = u) (rfqs db)) (\<lambda>found.
     given (needed NOT_FOUND found) k))"

definition getQuotation :: "string \<Rightarrow> string \<Rightarrow> (quotation \<Rightarrow> (rfq_db, 'b) call) \<Rightarrow> (rfq_db, 'b) call" where
  "getQuotation t i k =
     given (uuid_of_text i) (\<lambda>u.
     load (\<lambda>db. find_row (\<lambda>q. qu_tenant q = t \<and> qu_id q = u) (quotations db)) (\<lambda>found.
     given (needed NOT_FOUND found) k))"

definition candidates_of :: "string \<Rightarrow> string \<Rightarrow> rfq_db \<Rightarrow> string list" where
  "candidates_of t i db =
     sort (map rc_supplier (select_rows (\<lambda>c. rc_tenant c = t \<and> rc_rfq c = i) (rfq_candidates db)))"

definition suppliersFor :: "string \<Rightarrow> string \<Rightarrow> (string list \<Rightarrow> (rfq_db, 'b) call) \<Rightarrow> (rfq_db, 'b) call" where
  "suppliersFor t i k = given (uuid_of_text i) (\<lambda>u. load (candidates_of t u) k)"

definition validateSupplier ::
    "string \<Rightarrow> bool \<Rightarrow> string \<Rightarrow> (rfq_db, 'b) call \<Rightarrow> (rfq_db, 'b) call" where
  "validateSupplier t award sid k =
     given (uuid_of_text sid) (\<lambda>u.
     load (\<lambda>db. find_row (\<lambda>s. su_tenant s = t \<and> su_id s = u) (suppliers (rq_suppliers db))) (\<lambda>found.
     given (needed NOT_FOUND found) (\<lambda>s.
     fail_if (su_state s \<notin> set (if award then [APPROVED, PREFERRED] else [PROSPECT, APPROVED, PREFERRED]))
       BUSINESS_RULE_VIOLATION k)))"

fun validateSuppliers :: "string \<Rightarrow> string list \<Rightarrow> (rfq_db, 'b) call \<Rightarrow> (rfq_db, 'b) call" where
  "validateSuppliers t [] k = k"
| "validateSuppliers t (s # ss) k = validateSupplier t False s (validateSuppliers t ss k)"

definition requireState :: "string \<Rightarrow> string \<Rightarrow> (rfq_db, 'b) call \<Rightarrow> (rfq_db, 'b) call" where
  "requireState actual expected k = fail_if (actual \<noteq> expected) BUSINESS_RULE_VIOLATION k"

section \<open>Evidence\<close>

datatype trade_kind = Rfq | Quotation

record rfq_event =
  ev_type :: string
  ev_kind :: trade_kind
  ev_aggregate :: string
  ev_version :: int
  ev_before :: "string option"
  ev_after :: string

definition trade_event ::
    "trade_kind \<Rightarrow> string \<Rightarrow> string \<Rightarrow> int \<Rightarrow> string option \<Rightarrow> string \<Rightarrow> rfq_event" where
  "trade_event kind type i version before after =
     \<lparr>ev_type = type, ev_kind = kind, ev_aggregate = i, ev_version = version, ev_before = before, ev_after = after\<rparr>"

definition trade_row ::
    "string \<Rightarrow> string \<Rightarrow> supplier_context \<Rightarrow> string \<Rightarrow> int \<Rightarrow> string \<Rightarrow> string option \<Rightarrow> string \<Rightarrow> 'v option \<Rightarrow> 'v
       \<Rightarrow> 'v trade_entry" where
  "trade_row t hid cx i version action previous new before after =
     \<lparr>te_id = hid, te_tenant = t, te_entity = i, te_version = version, te_action = action, te_previous_state = previous,
      te_new_state = new, te_before = before, te_after = after, te_actor = cx_actor cx, te_reason = cx_reason cx,
      te_correlation = cx_correlation cx\<rparr>"

text \<open>\<open>appendStateEvent\<close> for an RFQ and for a quotation.\<close>

definition append_rfq_event ::
    "string \<Rightarrow> string \<Rightarrow> supplier_context \<Rightarrow> string \<Rightarrow> string \<Rightarrow> string option \<Rightarrow> rfq_view option \<Rightarrow> rfq
       \<Rightarrow> (rfq_event \<Rightarrow> (rfq_db, 'b) call) \<Rightarrow> (rfq_db, 'b) call" where
  "append_rfq_event t hid cx command type previous before row k =
     load (candidates_of t (rf_id row)) (\<lambda>ss.
     given (sql_check ''23514'' (sized 2000 (cx_reason cx))) (\<lambda>_.
     insert_into trade_entry_clash rfq_history (\<lambda>rows db. db\<lparr>rfq_history := rows\<rparr>)
       (trade_row t hid cx (rf_id row) (rf_version row) command previous (rf_state row) before (safeRfq row ss))
       (k (trade_event Rfq type (rf_id row) (rf_version row) (map_option rv_state before) (rf_state row)))))"

definition append_quotation_event ::
    "string \<Rightarrow> string \<Rightarrow> supplier_context \<Rightarrow> string \<Rightarrow> string \<Rightarrow> string option \<Rightarrow> quotation_view option \<Rightarrow> quotation
       \<Rightarrow> (rfq_event \<Rightarrow> (rfq_db, 'b) call) \<Rightarrow> (rfq_db, 'b) call" where
  "append_quotation_event t hid cx command type previous before row k =
     given (sql_check ''23514'' (sized 2000 (cx_reason cx))) (\<lambda>_.
     insert_into trade_entry_clash quotation_history (\<lambda>rows db. db\<lparr>quotation_history := rows\<rparr>)
       (trade_row t hid cx (qu_id row) (qu_version row) command previous (qu_state row) before (safeQuotation row))
       (k (trade_event Quotation type (qu_id row) (qu_version row) (map_option qv_state before) (qu_state row))))"

section \<open>Commands on an RFQ\<close>

text \<open>The text fields of an RFQ that both create and update check.\<close>

definition rfq_fields_ok :: "int \<Rightarrow> string \<Rightarrow> string \<Rightarrow> int option \<Rightarrow> string list \<Rightarrow> bool" where
  "rfq_fields_ok now title currency deadline ss \<longleftrightarrow> title \<noteq> [] \<and> length title \<le> 240 \<and> currency_code currency
     \<and> (case deadline of None \<Rightarrow> False | Some d \<Rightarrow> now < d) \<and> ss \<noteq> []"

definition same_candidate :: "rfq_candidate \<Rightarrow> rfq_candidate \<Rightarrow> bool" where
  "same_candidate x y \<longleftrightarrow> x = y"

fun insert_candidates :: "string \<Rightarrow> string \<Rightarrow> string list \<Rightarrow> (rfq_db, 'b) call \<Rightarrow> (rfq_db, 'b) call" where
  "insert_candidates t i [] k = k"
| "insert_candidates t i (s # ss) k =
     given (uuid_of_text s) (\<lambda>u.
     insert_into same_candidate rfq_candidates (\<lambda>rows db. db\<lparr>rfq_candidates := rows\<rparr>)
       \<lparr>rc_tenant = t, rc_rfq = i, rc_supplier = u\<rparr> (insert_candidates t i ss k))"

text \<open>A request that an RFQ is created for must wait for one.\<close>

definition linkable_request :: "string \<Rightarrow> json option \<Rightarrow> (rfq_db, 'b) call \<Rightarrow> (rfq_db, 'b) call" where
  "linkable_request t v k =
     (if \<not> truthy v then k
      else given (uuid_column (the v)) (\<lambda>u.
        load (\<lambda>db. find_row (\<lambda>r. pr_tenant r = t \<and> Some (pr_id r) = u) (procurement_requests (rq_requests db))) (\<lambda>found.
        given (needed NOT_FOUND found) (\<lambda>r.
        fail_if (pr_state r \<noteq> ''WAITING_RFQ'') BUSINESS_RULE_VIOLATION k))))"

definition rfq_create ::
    "rfq_host \<Rightarrow> string \<Rightarrow> supplier_context \<Rightarrow> json_body \<Rightarrow> (rfq_db, rfq_event list) call" where
  "rfq_create ho t cx body =
     (let env = ho_env ho; i = env_uuid env 0
      in given (as_string ho (or_else (member ''title'' body) (JStr []))) (\<lambda>title.
         given (as_string ho (or_else (member ''currency'' body) (JStr []))) (\<lambda>currency.
         given (as_string ho (or_else (member ''submission_deadline'' body) (JStr []))) (\<lambda>deadline.
         given (case member ''supplier_ids'' body of Some (JArr vs) \<Rightarrow> map_sum id first_of_each (strings_of ho vs) | _ \<Rightarrow> Inr []) (\<lambda>ss.
         fail_if (\<not> rfq_fields_ok (env_now env) (js_trim title) (js_upper (js_trim currency)) (ho_parse ho deadline) ss) VALIDATION_ERROR (
         linkable_request t (member ''procurement_request_id'' body) (
         validateSuppliers t ss (
         given (uuid_column (or_else (member ''procurement_request_id'' body) JNull)) (\<lambda>request.
         given (stored ho ''text'' (or_else (member ''description'' body) JNull)) (\<lambda>description.
         given (uuid_of_text i) (\<lambda>key.
           let row = \<lparr>rf_id = key, rf_tenant = t, rf_code = ''RFQ-'' @ js_upper i, rf_request = request, rf_title = js_trim title,
                      rf_description = description, rf_state = ''DRAFT'', rf_currency = js_upper (js_trim currency),
                      rf_deadline = the (ho_parse ho deadline), rf_issued_at = None,
                      rf_terms = asObject (kept JNull (member ''terms'' body)), rf_awarded = None, rf_approval = None,
                      rf_version = 1, rf_created_by = cx_actor cx, rf_created_at = env_now env, rf_updated_at = env_now env\<rparr>
           in given (sql_check ''23514'' (sized 240 (rf_title row))) (\<lambda>_.
              insert_into rfq_clash rfqs (\<lambda>rows db. db\<lparr>rfqs := rows\<rparr>) row (
              insert_candidates t key ss (
              append_rfq_event t (env_uuid env 1) cx ''RFQ.CREATE'' ''RFQ.CREATED'' None None row (\<lambda>e.
              done_with [e])))))))))))))))"

text \<open>The UPDATE of one RFQ.\<close>

definition set_rfq :: "string \<Rightarrow> string \<Rightarrow> rfq \<Rightarrow> (rfq_db, 'b) call \<Rightarrow> (rfq_db, 'b) call" where
  "set_rfq t i row k = store (\<lambda>db. db\<lparr>rfqs := update_rows (\<lambda>r. rf_tenant r = t \<and> rf_id r = i) (\<lambda>_. row) (rfqs db)\<rparr>) k"

definition replace_candidates :: "string \<Rightarrow> string \<Rightarrow> bool \<Rightarrow> string list \<Rightarrow> (rfq_db, 'b) call \<Rightarrow> (rfq_db, 'b) call" where
  "replace_candidates t i given_ids ss k =
     (if \<not> given_ids then k
      else store (\<lambda>db. db\<lparr>rfq_candidates := filter (\<lambda>c. \<not> (rc_tenant c = t \<and> rc_rfq c = i)) (rfq_candidates db)\<rparr>)
        (insert_candidates t i ss k))"

definition rfq_update_draft ::
    "rfq_host \<Rightarrow> string \<Rightarrow> supplier_context \<Rightarrow> rfq \<Rightarrow> string list \<Rightarrow> json_body \<Rightarrow> (rfq_db, rfq_event list) call" where
  "rfq_update_draft ho t cx current cs body =
     (let env = ho_env ho
      in requireState (rf_state current) ''DRAFT'' (
         given (case member ''title'' body of None \<Rightarrow> Inr (rf_title current) | Some v \<Rightarrow> map_sum id js_trim (as_string ho v)) (\<lambda>title.
         given (case member ''submission_deadline'' body of None \<Rightarrow> Inr (Some (rf_deadline current))
                | Some v \<Rightarrow> map_sum id (ho_parse ho) (as_string ho v)) (\<lambda>deadline.
         given (case member ''currency'' body of None \<Rightarrow> Inr (js_trim (rf_currency current))
                | Some v \<Rightarrow> map_sum id (\<lambda>s. js_upper (js_trim s)) (as_string ho v)) (\<lambda>currency.
         given (case member ''supplier_ids'' body of None \<Rightarrow> Inr cs | v \<Rightarrow> array_strings ho v) (\<lambda>ss.
         fail_if (\<not> rfq_fields_ok (env_now env) title currency deadline ss) VALIDATION_ERROR (
         validateSuppliers t ss (
         given (stored ho ''text'' (kept (rf_description current) (member ''description'' body))) (\<lambda>description.
           let row = current\<lparr>rf_title := title, rf_description := description, rf_currency := currency,
                 rf_deadline := the deadline,
                 rf_terms := (case member ''terms'' body of None \<Rightarrow> rf_terms current | Some v \<Rightarrow> asObject v),
                 rf_version := rf_version current + 1, rf_updated_at := env_now env\<rparr>
           in given (sql_check ''23514'' (sized 240 title)) (\<lambda>_.
              set_rfq t (rf_id current) row (
              replace_candidates t (rf_id current) (member ''supplier_ids'' body \<noteq> None) ss (
              append_rfq_event t (env_uuid env 0) cx ''RFQ.UPDATE_DRAFT'' ''RFQ.UPDATED'' (Some ''DRAFT'')
                (Some (safeRfq current cs)) row (\<lambda>e.
              done_with [e])))))))))))))"

text \<open>
  The approvals linked to an award, the newest first; one of them that is not approved, or an RFQ named in capital
  letters, refuses the award. The identifier of the approval is kept.
\<close>

definition award_approval ::
    "rfq_host \<Rightarrow> string \<Rightarrow> string \<Rightarrow> json_body \<Rightarrow> (string option \<Rightarrow> (rfq_db, 'b) call) \<Rightarrow> (rfq_db, 'b) call" where
  "award_approval ho t i body k =
     given (uuid_of_text i) (\<lambda>u.
     load (\<lambda>db. rev (select_rows (\<lambda>a. aq_tenant a = t \<and> aq_source_type a = ''RFQ_AWARD'' \<and> aq_source_id a = u)
               (approval_requests (rq_approvals db)))) (\<lambda>linked.
     given (if truthy (member ''approval_id'' body) then map_sum id Some (as_string ho (the (member ''approval_id'' body)))
            else Inr None) (\<lambda>supplied.
     if linked \<noteq> [] then
       (let approval = find_row (\<lambda>a. supplied = None \<or> Some (aq_id a) = supplied) linked
        in fail_if (approval = None \<or> list_ex (\<lambda>a. aq_state a \<noteq> ''APPROVED'' \<or> aq_source_id a \<noteq> i) linked) BUSINESS_RULE_VIOLATION (
           k (map_option aq_id approval)))
     else fail_if (supplied \<noteq> None) BUSINESS_RULE_VIOLATION (k None))))"

text \<open>What becomes of a quotation that is open when its RFQ is decided.\<close>

definition next_quotation :: "string \<Rightarrow> string option \<Rightarrow> quotation \<Rightarrow> (string \<times> string) option" where
  "next_quotation command selected q =
     (if command = ''RFQ.CANCEL''
         \<or> ((command = ''RFQ.AWARD'' \<or> command = ''RFQ.CLOSE_NO_AWARD'') \<and> qu_state q = ''DRAFT'')
      then Some (''VOID'', ''QUOTATION.VOIDED'')
      else if command = ''RFQ.CLOSE_NO_AWARD'' \<and> qu_state q = ''SUBMITTED'' then Some (''REJECTED'', ''QUOTATION.REJECTED'')
      else if command = ''RFQ.AWARD'' \<and> qu_state q = ''SUBMITTED''
      then (if Some (qu_id q) = selected then Some (''ACCEPTED'', ''QUOTATION.ACCEPTED'')
            else Some (''REJECTED'', ''QUOTATION.REJECTED''))
      else None)"

definition set_quotation :: "string \<Rightarrow> string \<Rightarrow> quotation \<Rightarrow> (rfq_db, 'b) call \<Rightarrow> (rfq_db, 'b) call" where
  "set_quotation t i row k =
     store (\<lambda>db. db\<lparr>quotations := update_rows (\<lambda>q. qu_tenant q = t \<and> qu_id q = i) (\<lambda>_. row) (quotations db)\<rparr>) k"

definition moved_quotation :: "int \<Rightarrow> string \<Rightarrow> quotation \<Rightarrow> quotation" where
  "moved_quotation now state q = q\<lparr>qu_state := state, qu_version := qu_version q + 1, qu_updated_at := now,
     qu_submitted_at := (if state = ''SUBMITTED'' then Some now else qu_submitted_at q)\<rparr>"

text \<open>The loop over the open quotations; the \<open>n\<close>th of them takes the next identifier for its history row.\<close>

fun close_quotations ::
    "rfq_host \<Rightarrow> string \<Rightarrow> supplier_context \<Rightarrow> string \<Rightarrow> string option \<Rightarrow> nat \<Rightarrow> quotation list
       \<Rightarrow> (rfq_event list \<Rightarrow> (rfq_db, 'b) call) \<Rightarrow> (rfq_db, 'b) call" where
  "close_quotations ho t cx command selected n [] k = k []"
| "close_quotations ho t cx command selected n (q # qs) k =
     (case next_quotation command selected q of
        None \<Rightarrow> close_quotations ho t cx command selected n qs k
      | Some (state, type) \<Rightarrow>
         let row = moved_quotation (env_now (ho_env ho)) state q
         in set_quotation t (qu_id q) row (
            append_quotation_event t (env_uuid (ho_env ho) n) cx command type (Some (qu_state q)) (Some (safeQuotation q)) row (\<lambda>e.
            close_quotations ho t cx command selected (n + 1) qs (\<lambda>es. k (e # es)))))"

definition open_quotations :: "string \<Rightarrow> string \<Rightarrow> rfq_db \<Rightarrow> quotation list" where
  "open_quotations t i db = sort_key qu_id (select_rows (\<lambda>q. qu_tenant q = t \<and> qu_rfq q = i
     \<and> qu_state q \<in> set [''DRAFT'', ''SUBMITTED'']) (quotations db))"

text \<open>The target and the event of the commands that only move an RFQ, with their guards.\<close>

definition rfq_target ::
    "string \<Rightarrow> rfq \<Rightarrow> string list \<Rightarrow> string \<Rightarrow> (string \<times> string \<Rightarrow> (rfq_db, 'b) call) \<Rightarrow> (rfq_db, 'b) call" where
  "rfq_target t current cs command k =
     (if command = ''RFQ.ISSUE'' then
        requireState (rf_state current) ''DRAFT'' (
        fail_if (cs = []) BUSINESS_RULE_VIOLATION (
        validateSuppliers t cs (k (''OPEN'', ''RFQ.ISSUED''))))
      else if command = ''RFQ.CLOSE_SUBMISSIONS'' then
        requireState (rf_state current) ''OPEN'' (k (''EVALUATING'', ''RFQ.SUBMISSIONS_CLOSED''))
      else if command = ''RFQ.CANCEL'' then
        fail_if (rf_state current \<notin> set [''DRAFT'', ''OPEN'', ''EVALUATING'']) BUSINESS_RULE_VIOLATION
          (k (''CANCELLED'', ''RFQ.CANCELLED''))
      else if command = ''RFQ.CLOSE_NO_AWARD'' then
        requireState (rf_state current) ''EVALUATING'' (k (''CLOSED_NO_AWARD'', ''RFQ.CLOSED_NO_AWARD''))
      else if command = ''RFQ.AWARD'' then k (''AWARDED'', ''RFQ.AWARDED'')
      else throw (AppError VALIDATION_ERROR))"

text \<open>
  The checks of an award: the selected quotation must be submitted, to this RFQ, by a supplier that orders may
  go to. They pass on the quotation's identifier as the caller wrote it, and the approval.
\<close>

definition award_checks ::
    "rfq_host \<Rightarrow> string \<Rightarrow> string \<Rightarrow> rfq \<Rightarrow> json_body \<Rightarrow> (string \<times> string option \<Rightarrow> (rfq_db, 'b) call) \<Rightarrow> (rfq_db, 'b) call" where
  "award_checks ho t i current body k =
     requireState (rf_state current) ''EVALUATING'' (
     given (as_string ho (or_else (member ''quotation_id'' body) (JStr []))) (\<lambda>selected.
     fail_if (selected = []) VALIDATION_ERROR (
     award_approval ho t i body (\<lambda>approval.
     getQuotation t selected (\<lambda>q.
     fail_if (qu_rfq q \<noteq> i) BUSINESS_RULE_VIOLATION (
     requireState (qu_state q) ''SUBMITTED'' (
     validateSupplier t True (qu_supplier q) (k (selected, approval)))))))))"

text \<open>Once the open quotations are read, an award checks the selected one again, among them or by a new read.\<close>

definition recheck ::
    "string \<Rightarrow> string option \<Rightarrow> quotation list \<Rightarrow> (rfq_db, 'b) call \<Rightarrow> (rfq_db, 'b) call" where
  "recheck t selected qs k = (case selected of
     None \<Rightarrow> k
   | Some s \<Rightarrow> (case find_row (\<lambda>q. qu_id q = s) qs of
       Some q \<Rightarrow> requireState (qu_state q) ''SUBMITTED'' k
     | None \<Rightarrow> getQuotation t s (\<lambda>q. requireState (qu_state q) ''SUBMITTED'' k)))"

text \<open>
  The end of a move: open quotations are closed, then the RFQ is written. Naming the winning supplier of an award
  looks the selected quotation up by its text among the closed ones, and fails when it is not there.
\<close>

definition write_rfq ::
    "rfq_host \<Rightarrow> string \<Rightarrow> supplier_context \<Rightarrow> rfq \<Rightarrow> string list \<Rightarrow> string \<Rightarrow> string \<times> string \<Rightarrow> string option \<Rightarrow> string option
       \<Rightarrow> quotation list \<Rightarrow> rfq_event list \<Rightarrow> (rfq_db, rfq_event list) call" where
  "write_rfq ho t cx current cs command target selected approval qs es =
     (let env = ho_env ho
      in given (case selected of None \<Rightarrow> Inr None | Some s \<Rightarrow> map_sum id Some (uuid_of_text s)) (\<lambda>awarded.
           let row = current\<lparr>rf_state := fst target, rf_awarded := awarded, rf_approval := approval,
                 rf_issued_at := (if fst target = ''OPEN'' then Some (env_now env) else rf_issued_at current),
                 rf_version := rf_version current + 1, rf_updated_at := env_now env\<rparr>
           in set_rfq t (rf_id current) row (
              append_rfq_event t (env_uuid env 0) cx command (snd target) (Some (rf_state current))
                (Some (safeRfq current cs)) row (\<lambda>e.
              given (case selected of None \<Rightarrow> Inr () | Some s \<Rightarrow>
                       if list_ex (\<lambda>q. qu_id q = s) qs then Inr () else Inl (JsError ''TypeError'')) (\<lambda>_.
              done_with (e # es))))))"

definition deciding :: "string \<Rightarrow> bool" where
  "deciding command \<longleftrightarrow> command \<in> set [''RFQ.CANCEL'', ''RFQ.CLOSE_NO_AWARD'', ''RFQ.AWARD'']"

definition finish_rfq ::
    "rfq_host \<Rightarrow> string \<Rightarrow> supplier_context \<Rightarrow> rfq \<Rightarrow> string list \<Rightarrow> string \<Rightarrow> string \<times> string \<Rightarrow> string option \<Rightarrow> string option
       \<Rightarrow> (rfq_db, rfq_event list) call" where
  "finish_rfq ho t cx current cs command target selected approval =
     load (\<lambda>db. if deciding command then open_quotations t (rf_id current) db else []) (\<lambda>qs.
     recheck t selected qs (
     close_quotations ho t cx command selected 1 qs (
     write_rfq ho t cx current cs command target selected approval qs)))"

definition rfq_move ::
    "rfq_host \<Rightarrow> string \<Rightarrow> supplier_context \<Rightarrow> string \<Rightarrow> rfq \<Rightarrow> string list \<Rightarrow> string \<Rightarrow> json_body \<Rightarrow> (rfq_db, rfq_event list) call" where
  "rfq_move ho t cx i current cs command body =
     rfq_target t current cs command (\<lambda>target.
     if command = ''RFQ.AWARD'' then
       award_checks ho t i current body (\<lambda>(selected, approval).
         finish_rfq ho t cx current cs command target (Some selected) approval)
     else finish_rfq ho t cx current cs command target None None)"

section \<open>Commands on a quotation\<close>

text \<open>The revision of a quotation that replaces a withdrawn one, or 1.\<close>

definition next_revision ::
    "string \<Rightarrow> string \<Rightarrow> string \<Rightarrow> rfq \<Rightarrow> string option \<Rightarrow> (int \<Rightarrow> (rfq_db, 'b) call) \<Rightarrow> (rfq_db, 'b) call" where
  "next_revision t rid sid r previous k = (case previous of
     None \<Rightarrow> k 1
   | Some p \<Rightarrow>
      getQuotation t p (\<lambda>q.
      fail_if (qu_rfq q \<noteq> rid \<or> qu_supplier q \<noteq> sid \<or> qu_state q \<noteq> ''WITHDRAWN'') BUSINESS_RULE_VIOLATION (
      given (uuid_of_text sid) (\<lambda>u.
      load (\<lambda>db. foldr max (map qu_revision (select_rows (\<lambda>q. qu_tenant q = t \<and> qu_rfq q = rf_id r \<and> qu_supplier q = u)
              (quotations db))) 0) (\<lambda>latest. k (latest + 1))))))"

definition is_array :: "json option \<Rightarrow> bool" where
  "is_array v \<longleftrightarrow> (case v of Some (JArr _) \<Rightarrow> True | _ \<Rightarrow> False)"

definition quotation_fields_ok :: "string \<Rightarrow> js_number \<Rightarrow> json option \<Rightarrow> bool" where
  "quotation_fields_ok currency price lines \<longleftrightarrow>
     currency_code currency \<and> is_finite price \<and> 0 \<le> js_rat price \<and> is_array lines"

definition quotation_checks :: "quotation \<Rightarrow> bool" where
  "quotation_checks q \<longleftrightarrow> (qu_revision q = 1 \<and> qu_replaces q = None) \<or> (1 < qu_revision q \<and> qu_replaces q \<noteq> None)"

text \<open>A member of the body as a column of the quotation holds it.\<close>

definition quote_column :: "rfq_host \<Rightarrow> string \<Rightarrow> string \<Rightarrow> json \<Rightarrow> json_body \<Rightarrow> exn + json" where
  "quote_column ho type k dflt body = stored ho type (kept dflt (member k body))"

definition quotation_create ::
    "rfq_host \<Rightarrow> string \<Rightarrow> supplier_context \<Rightarrow> json_body \<Rightarrow> (rfq_db, rfq_event list) call" where
  "quotation_create ho t cx body =
     (let env = ho_env ho; i = env_uuid env 0
      in given (as_string ho (or_else (member ''rfq_id'' body) (JStr []))) (\<lambda>rid.
         given (as_string ho (or_else (member ''supplier_id'' body) (JStr []))) (\<lambda>sid.
         fail_if (rid = [] \<or> sid = []) VALIDATION_ERROR (
         getRfq t rid (\<lambda>r.
         requireState (rf_state r) ''OPEN'' (
         suppliersFor t rid (\<lambda>cs.
         fail_if (sid \<notin> set cs) BUSINESS_RULE_VIOLATION (
         validateSupplier t False sid (
         given (if truthy (member ''replaces_quotation_id'' body)
                then map_sum id Some (as_string ho (the (member ''replaces_quotation_id'' body))) else Inr None) (\<lambda>previous.
         next_revision t rid sid r previous (\<lambda>revision.
         given (map_sum id (\<lambda>s. js_upper (js_trim s)) (as_string ho (or_else (member ''currency'' body) (JStr (rf_currency r))))) (\<lambda>currency.
         given (as_number ho (member ''total'' body)) (\<lambda>price.
         fail_if (\<not> quotation_fields_ok currency price (member ''lines'' body)) VALIDATION_ERROR (
         given (case previous of None \<Rightarrow> Inr None | Some p \<Rightarrow> map_sum id Some (uuid_of_text p)) (\<lambda>replaces.
         given (uuid_of_text sid) (\<lambda>supplier.
         given (stored ho ''numeric'' (JNum price)) (\<lambda>amount.
         given (quote_column ho ''date'' ''valid_until'' JNull body) (\<lambda>valid.
         given (quote_column ho ''integer'' ''lead_time_days'' JNull body) (\<lambda>lead.
         given (quote_column ho ''text'' ''payment_terms'' JNull body) (\<lambda>payment.
         given (quote_column ho ''text'' ''warranty'' JNull body) (\<lambda>warranty.
         given (quote_column ho ''text'' ''delivery_terms'' JNull body) (\<lambda>delivery.
         given (uuid_of_text i) (\<lambda>key.
           let row = \<lparr>qu_id = key, qu_tenant = t, qu_rfq = rf_id r, qu_supplier = supplier, qu_number = ''QUO-'' @ js_upper i,
                      qu_revision = revision, qu_replaces = replaces, qu_state = ''DRAFT'', qu_currency = currency,
                      qu_total = amount, qu_valid_until = valid, qu_lead_time_days = lead, qu_payment_terms = payment,
                      qu_warranty = warranty, qu_delivery_terms = delivery,
                      qu_terms = asObject (kept JNull (member ''terms'' body)), qu_lines = the (member ''lines'' body),
                      qu_attachments = (if is_array (member ''attachments'' body) then the (member ''attachments'' body) else JArr []),
                      qu_submitted_at = None, qu_version = 1, qu_created_by = cx_actor cx, qu_created_at = env_now env,
                      qu_updated_at = env_now env\<rparr>
           in given (sql_check ''23514'' (quotation_checks row)) (\<lambda>_.
              insert_into quotation_clash quotations (\<lambda>rows db. db\<lparr>quotations := rows\<rparr>) row (
              append_quotation_event t (env_uuid env 1) cx ''QUOTATION.CREATE'' ''QUOTATION.CREATED'' None None row (\<lambda>e.
              done_with [e]))))))))))))))))))))))))))"

definition quotation_update_draft ::
    "rfq_host \<Rightarrow> string \<Rightarrow> supplier_context \<Rightarrow> quotation \<Rightarrow> json_body \<Rightarrow> (rfq_db, rfq_event list) call" where
  "quotation_update_draft ho t cx current body =
     (let env = ho_env ho
      in requireState (qu_state current) ''DRAFT'' (
         given (case member ''currency'' body of None \<Rightarrow> Inr (js_trim (qu_currency current))
                | Some v \<Rightarrow> map_sum id (\<lambda>s. js_upper (js_trim s)) (as_string ho v)) (\<lambda>currency.
         given (as_number ho (Some (kept (qu_total current) (member ''total'' body)))) (\<lambda>price.
           let lines = kept (qu_lines current) (member ''lines'' body);
               attachments = kept (qu_attachments current) (member ''attachments'' body)
           in fail_if (\<not> quotation_fields_ok currency price (Some lines)) VALIDATION_ERROR (
              given (stored ho ''numeric'' (JNum price)) (\<lambda>amount.
              given (quote_column ho ''date'' ''valid_until'' (qu_valid_until current) body) (\<lambda>valid.
              given (quote_column ho ''integer'' ''lead_time_days'' (qu_lead_time_days current) body) (\<lambda>lead.
              given (quote_column ho ''text'' ''payment_terms'' (qu_payment_terms current) body) (\<lambda>payment.
              given (quote_column ho ''text'' ''warranty'' (qu_warranty current) body) (\<lambda>warranty.
              given (quote_column ho ''text'' ''delivery_terms'' (qu_delivery_terms current) body) (\<lambda>delivery.
              given (sql_check ''23514'' (is_array (Some attachments))) (\<lambda>_.
                let row = current\<lparr>qu_currency := currency, qu_total := amount, qu_valid_until := valid,
                      qu_lead_time_days := lead, qu_payment_terms := payment, qu_warranty := warranty,
                      qu_delivery_terms := delivery,
                      qu_terms := (case member ''terms'' body of None \<Rightarrow> qu_terms current | Some v \<Rightarrow> asObject v),
                      qu_lines := lines, qu_attachments := attachments, qu_version := qu_version current + 1,
                      qu_updated_at := env_now env\<rparr>
                in set_quotation t (qu_id current) row (
                   append_quotation_event t (env_uuid env 0) cx ''QUOTATION.UPDATE_DRAFT'' ''QUOTATION.UPDATED''
                     (Some ''DRAFT'') (Some (safeQuotation current)) row (\<lambda>e.
                   done_with [e]))))))))))))))"

definition quotation_target ::
    "rfq_host \<Rightarrow> string \<Rightarrow> rfq \<Rightarrow> quotation \<Rightarrow> string \<Rightarrow> (string \<times> string \<Rightarrow> (rfq_db, 'b) call) \<Rightarrow> (rfq_db, 'b) call" where
  "quotation_target ho t r current command k =
     (if command = ''QUOTATION.SUBMIT'' then
        requireState (qu_state current) ''DRAFT'' (
        requireState (rf_state r) ''OPEN'' (
        fail_if (rf_deadline r \<le> env_now (ho_env ho)) BUSINESS_RULE_VIOLATION (
        suppliersFor t (rf_id r) (\<lambda>cs.
        fail_if (qu_supplier current \<notin> set cs) BUSINESS_RULE_VIOLATION (
        validateSupplier t False (qu_supplier current) (
        load (\<lambda>db. find_row (\<lambda>q. qu_tenant q = t \<and> qu_rfq q = qu_rfq current \<and> qu_supplier q = qu_supplier current
                  \<and> qu_state q = ''SUBMITTED'' \<and> qu_id q \<noteq> qu_id current) (quotations db)) (\<lambda>active.
        fail_if (active \<noteq> None) BUSINESS_RULE_VIOLATION (k (''SUBMITTED'', ''QUOTATION.SUBMITTED'')))))))))
      else if command = ''QUOTATION.WITHDRAW'' then
        fail_if (qu_state current \<notin> set [''DRAFT'', ''SUBMITTED''] \<or> rf_state r \<notin> set [''OPEN'', ''EVALUATING''])
          BUSINESS_RULE_VIOLATION (k (''WITHDRAWN'', ''QUOTATION.WITHDRAWN''))
      else if command = ''QUOTATION.DISQUALIFY'' then
        requireState (qu_state current) ''SUBMITTED'' (
        requireState (rf_state r) ''EVALUATING'' (k (''DISQUALIFIED'', ''QUOTATION.DISQUALIFIED'')))
      else throw (AppError VALIDATION_ERROR))"

definition quotation_move ::
    "rfq_host \<Rightarrow> string \<Rightarrow> supplier_context \<Rightarrow> rfq \<Rightarrow> quotation \<Rightarrow> string \<Rightarrow> (rfq_db, rfq_event list) call" where
  "quotation_move ho t cx r current command =
     quotation_target ho t r current command (\<lambda>target.
       let row = moved_quotation (env_now (ho_env ho)) (fst target) current
       in set_quotation t (qu_id current) row (
          append_quotation_event t (env_uuid (ho_env ho) 0) cx command (snd target) (Some (qu_state current))
            (Some (safeQuotation current)) row (\<lambda>e. done_with [e])))"

section \<open>The command handler\<close>

definition starts_with :: "string \<Rightarrow> string \<Rightarrow> bool" where
  "starts_with p s \<longleftrightarrow> take (length p) s = p"

record rfq_input =
  ri_context :: supplier_context
  ri_command :: string
  ri_id :: string
  ri_expected :: js_number
  ri_body :: json_body

definition executeRfqCommand :: "rfq_host \<Rightarrow> string \<Rightarrow> rfq_input \<Rightarrow> (rfq_db, rfq_event list) call" where
  "executeRfqCommand ho t inp =
     (let command = ri_command inp; cx = ri_context inp; i = ri_id inp; body = ri_body inp
      in if command = ''RFQ.CREATE'' then rfq_create ho t cx body
         else if starts_with ''RFQ.'' command then
           getRfq t i (\<lambda>current.
           given (assertVersion (rf_version current) (ri_expected inp)) (\<lambda>_.
           load (candidates_of t (rf_id current)) (\<lambda>cs.
           if command = ''RFQ.UPDATE_DRAFT'' then rfq_update_draft ho t cx current cs body
           else rfq_move ho t cx i current cs command body)))
         else if command = ''QUOTATION.CREATE'' then quotation_create ho t cx body
         else
           getQuotation t i (\<lambda>hint.
           getRfq t (qu_rfq hint) (\<lambda>r.
           getQuotation t i (\<lambda>current.
           given (assertVersion (qu_version current) (ri_expected inp)) (\<lambda>_.
           if command = ''QUOTATION.UPDATE_DRAFT'' then quotation_update_draft ho t cx current body
           else quotation_move ho t cx r current command)))))"

definition readRfq :: "string \<Rightarrow> string \<Rightarrow> (rfq_db, rfq_view) call" where
  "readRfq t i = getRfq t i (\<lambda>r. load (candidates_of t (rf_id r)) (\<lambda>cs. done_with (safeRfq r cs)))"

definition listRfqs :: "string \<Rightarrow> nat \<Rightarrow> nat \<Rightarrow> string option \<Rightarrow> rfq_db \<Rightarrow> rfq_view list" where
  "listRfqs t limit offset state db =
     map (\<lambda>r. safeRfq r (candidates_of t (rf_id r) db)) (take limit (drop offset
       (sort_key (\<lambda>r. - rf_created_at r) (sort_key rf_id
         (select_rows (\<lambda>r. rf_tenant r = t \<and> (case state of None \<Rightarrow> True | Some x \<Rightarrow> rf_state r = x)) (rfqs db))))))"

definition listQuotations ::
    "string \<Rightarrow> nat \<Rightarrow> nat \<Rightarrow> string option \<Rightarrow> string option \<Rightarrow> (rfq_db, quotation_view list) call" where
  "listQuotations t limit offset rid state =
     given (case rid of None \<Rightarrow> Inr None | Some s \<Rightarrow> map_sum id Some (uuid_of_text s)) (\<lambda>key.
     load (\<lambda>db. map safeQuotation (take limit (drop offset
       (sort_key (\<lambda>q. - qu_created_at q) (sort_key qu_id
         (select_rows (\<lambda>q. qu_tenant q = t \<and> (case key of None \<Rightarrow> True | Some i \<Rightarrow> qu_rfq q = i)
            \<and> (case state of None \<Rightarrow> True | Some x \<Rightarrow> qu_state q = x)) (quotations db))))))) done_with)"

definition readQuotation :: "string \<Rightarrow> string \<Rightarrow> (rfq_db, quotation_view) call" where
  "readQuotation t i = getQuotation t i (\<lambda>q. done_with (safeQuotation q))"

section \<open>Success of the steps\<close>

lemma requireState_Inr [call_simps]: "requireState a e k db = (Inr b, db') \<longleftrightarrow> a = e \<and> k db = (Inr b, db')"
  by (auto simp: requireState_def fail_if_Inr)

lemma getRfq_Inr [call_simps]: "getRfq t i k db = (Inr b, db') \<longleftrightarrow>
    (\<exists>u r. uuid_of_text i = Inr u \<and> find_row (\<lambda>r. rf_tenant r = t \<and> rf_id r = u) (rfqs db) = Some r \<and> k r db = (Inr b, db'))"
  by (simp add: getRfq_def given_Inr load_Inr needed_Inr)

lemma getQuotation_Inr [call_simps]: "getQuotation t i k db = (Inr b, db') \<longleftrightarrow>
    (\<exists>u q. uuid_of_text i = Inr u \<and> find_row (\<lambda>q. qu_tenant q = t \<and> qu_id q = u) (quotations db) = Some q \<and> k q db = (Inr b, db'))"
  by (simp add: getQuotation_def given_Inr load_Inr needed_Inr)

lemma suppliersFor_Inr [call_simps]: "suppliersFor t i k db = (Inr b, db') \<longleftrightarrow>
    (\<exists>u. uuid_of_text i = Inr u \<and> k (candidates_of t u db) db = (Inr b, db'))"
  by (simp add: suppliersFor_def given_Inr load_Inr)

definition supplier_fits :: "string \<Rightarrow> bool \<Rightarrow> string \<Rightarrow> rfq_db \<Rightarrow> bool" where
  "supplier_fits t award sid db \<longleftrightarrow> (\<exists>u s. uuid_of_text sid = Inr u
     \<and> find_row (\<lambda>s. su_tenant s = t \<and> su_id s = u) (suppliers (rq_suppliers db)) = Some s
     \<and> su_state s \<in> set (if award then [APPROVED, PREFERRED] else [PROSPECT, APPROVED, PREFERRED]))"

lemma validateSupplier_Inr [call_simps]:
  "validateSupplier t award sid k db = (Inr b, db') \<longleftrightarrow> supplier_fits t award sid db \<and> k db = (Inr b, db')"
  by (auto simp: validateSupplier_def supplier_fits_def given_Inr load_Inr needed_Inr fail_if_Inr)

lemma validateSuppliers_Inr [call_simps]:
  "validateSuppliers t ss k db = (Inr b, db') \<longleftrightarrow> list_all (\<lambda>s. supplier_fits t False s db) ss \<and> k db = (Inr b, db')"
  by (induction ss) (auto simp: validateSupplier_Inr)

fun candidates_added :: "string \<Rightarrow> string \<Rightarrow> string list \<Rightarrow> rfq_candidate list \<Rightarrow> rfq_candidate list option" where
  "candidates_added t i [] cs = Some cs"
| "candidates_added t i (s # ss) cs = (case uuid_of_text s of
     Inl e \<Rightarrow> None
   | Inr u \<Rightarrow> Option.bind (insert_row same_candidate \<lparr>rc_tenant = t, rc_rfq = i, rc_supplier = u\<rparr> cs) (candidates_added t i ss))"

lemma insert_candidates_Inr [call_simps]:
  "insert_candidates t i ss k db = (Inr b, db') \<longleftrightarrow>
     (\<exists>cs. candidates_added t i ss (rfq_candidates db) = Some cs \<and> k (db\<lparr>rfq_candidates := cs\<rparr>) = (Inr b, db'))"
proof (induction ss arbitrary: db)
  case (Cons s ss)
  then show ?case
    by (cases "uuid_of_text s") (auto simp: given_def insert_into_def split: option.split)
qed simp

definition request_fits :: "string \<Rightarrow> json option \<Rightarrow> rfq_db \<Rightarrow> bool" where
  "request_fits t v db \<longleftrightarrow> truthy v \<longrightarrow> (\<exists>u r. uuid_column (the v) = Inr u
     \<and> find_row (\<lambda>r. pr_tenant r = t \<and> Some (pr_id r) = u) (procurement_requests (rq_requests db)) = Some r
     \<and> pr_state r = ''WAITING_RFQ'')"

lemma linkable_request_Inr [call_simps]:
  "linkable_request t v k db = (Inr b, db') \<longleftrightarrow> request_fits t v db \<and> k db = (Inr b, db')"
  by (auto simp: linkable_request_def request_fits_def given_Inr load_Inr needed_Inr fail_if_Inr)

lemma set_rfq_Inr [call_simps]: "set_rfq t i row k db = (Inr b, db') \<longleftrightarrow>
    k (db\<lparr>rfqs := update_rows (\<lambda>r. rf_tenant r = t \<and> rf_id r = i) (\<lambda>_. row) (rfqs db)\<rparr>) = (Inr b, db')"
  by (simp add: set_rfq_def store_Inr)

lemma set_quotation_Inr [call_simps]: "set_quotation t i row k db = (Inr b, db') \<longleftrightarrow>
    k (db\<lparr>quotations := update_rows (\<lambda>q. qu_tenant q = t \<and> qu_id q = i) (\<lambda>_. row) (quotations db)\<rparr>) = (Inr b, db')"
  by (simp add: set_quotation_def store_Inr)

lemma replace_candidates_Inr [call_simps]: "replace_candidates t i g ss k db = (Inr b, db') \<longleftrightarrow>
    (\<exists>cs. (if g then candidates_added t i ss (filter (\<lambda>c. \<not> (rc_tenant c = t \<and> rc_rfq c = i)) (rfq_candidates db)) = Some cs
           else cs = rfq_candidates db) \<and> k (db\<lparr>rfq_candidates := cs\<rparr>) = (Inr b, db'))"
  by (auto simp: replace_candidates_def store_Inr insert_candidates_Inr)

lemma append_rfq_event_Inr [call_simps]: "append_rfq_event t hid cx c ty p b r k db = (Inr x, db') \<longleftrightarrow>
    sized 2000 (cx_reason cx)
    \<and> (let h = trade_row t hid cx (rf_id r) (rf_version r) c p (rf_state r) b (safeRfq r (candidates_of t (rf_id r) db))
       in (\<forall>y\<in>set (rfq_history db). \<not> trade_entry_clash h y)
          \<and> k (trade_event Rfq ty (rf_id r) (rf_version r) (map_option rv_state b) (rf_state r))
              (db\<lparr>rfq_history := rfq_history db @ [h]\<rparr>) = (Inr x, db'))"
  by (simp add: append_rfq_event_def given_Inr load_Inr sql_check_Inr insert_into_Inr Let_def)

lemma append_quotation_event_Inr [call_simps]: "append_quotation_event t hid cx c ty p b q k db = (Inr x, db') \<longleftrightarrow>
    sized 2000 (cx_reason cx)
    \<and> (let h = trade_row t hid cx (qu_id q) (qu_version q) c p (qu_state q) b (safeQuotation q)
       in (\<forall>y\<in>set (quotation_history db). \<not> trade_entry_clash h y)
          \<and> k (trade_event Quotation ty (qu_id q) (qu_version q) (map_option qv_state b) (qu_state q))
              (db\<lparr>quotation_history := quotation_history db @ [h]\<rparr>) = (Inr x, db'))"
  by (simp add: append_quotation_event_def given_Inr sql_check_Inr insert_into_Inr Let_def)

lemmas trade_Inr = requireState_Inr getRfq_Inr getQuotation_Inr suppliersFor_Inr validateSupplier_Inr validateSuppliers_Inr
  insert_candidates_Inr linkable_request_Inr set_rfq_Inr set_quotation_Inr replace_candidates_Inr append_rfq_event_Inr
  append_quotation_event_Inr given_Inr load_Inr needed_Inr fail_if_Inr store_Inr sql_check_Inr insert_into_Inr done_with_Inr

section \<open>The moves of RFQs and quotations\<close>

text \<open>
  The specification of the commands: the moves that the RFQs and quotations of tenant \<open>t\<close> make, where the
  procurement requests \<open>W\<close> wait for an RFQ. Deciding an RFQ
  (an award, a close without award, a cancellation) gives every open quotation of it a verdict, and only the winner
  is accepted.
\<close>

definition own_quotation :: "rfq \<Rightarrow> quotation \<Rightarrow> bool" where
  "own_quotation r q \<longleftrightarrow> qu_tenant q = rf_tenant r \<and> qu_rfq q = rf_id r"

definition open_quotation :: "quotation \<Rightarrow> bool" where
  "open_quotation q \<longleftrightarrow> qu_state q \<in> {''DRAFT'', ''SUBMITTED''}"

text \<open>A quotation that was submitted, or is closed, and what a quotation offers; its state, version and times are
  not part of it.\<close>

definition fixed_quotation :: "quotation \<Rightarrow> bool" where
  "fixed_quotation q \<longleftrightarrow> qu_submitted_at q \<noteq> None \<or> \<not> open_quotation q"

definition offer :: "quotation \<Rightarrow> quotation" where
  "offer q = q\<lparr>qu_state := [], qu_submitted_at := None, qu_version := 0, qu_updated_at := 0\<rparr>"

definition same_rfq :: "rfq \<Rightarrow> rfq \<Rightarrow> bool" where
  "same_rfq r r' \<longleftrightarrow> rf_id r' = rf_id r \<and> rf_tenant r' = rf_tenant r \<and> rf_code r' = rf_code r \<and> rf_request r' = rf_request r"

definition put_rfq :: "rfq \<Rightarrow> rfq list \<Rightarrow> rfq list" where
  "put_rfq r rs = update_rows (\<lambda>x. rf_tenant x = rf_tenant r \<and> rf_id x = rf_id r) (\<lambda>_. r) rs"

definition put_quotation :: "quotation \<Rightarrow> quotation list \<Rightarrow> quotation list" where
  "put_quotation q qs = update_rows (\<lambda>x. qu_tenant x = qu_tenant q \<and> qu_id x = qu_id q) (\<lambda>_. q) qs"

definition rfq_edges :: "(string \<times> string) set" where
  "rfq_edges = {(''DRAFT'', ''OPEN''), (''OPEN'', ''EVALUATING'')}"

definition quotation_edges :: "(string \<times> string) set" where
  "quotation_edges = {(''DRAFT'', ''SUBMITTED''), (''DRAFT'', ''WITHDRAWN''), (''SUBMITTED'', ''WITHDRAWN''), (''SUBMITTED'', ''DISQUALIFIED'')}"

definition decided :: "rfq \<Rightarrow> int \<Rightarrow> (quotation \<Rightarrow> string) \<Rightarrow> quotation list \<Rightarrow> quotation list" where
  "decided r now verdict qs =
     map (\<lambda>q. if own_quotation r q \<and> open_quotation q then moved_quotation now (verdict q) q else q) qs"

inductive trade_step :: "string \<Rightarrow> string set \<Rightarrow> rfq list \<times> quotation list \<Rightarrow> rfq list \<times> quotation list \<Rightarrow> bool" for t W where
  new_rfq: "\<lbrakk>\<forall>x\<in>set rs. \<not> rfq_clash r x; rf_tenant r = t; rf_state r = ''DRAFT''; rf_awarded r = None;
      js_lower (rf_id r) = rf_id r; set_option (rf_request r) \<subseteq> W\<rbrakk>
     \<Longrightarrow> trade_step t W (rs, qs) (rs @ [r], qs)"
| revise_rfq: "\<lbrakk>r \<in> set rs; rf_tenant r = t; rf_state r = ''DRAFT''; same_rfq r r'; rf_state r' = ''DRAFT''; rf_awarded r' = rf_awarded r\<rbrakk>
     \<Longrightarrow> trade_step t W (rs, qs) (put_rfq r' rs, qs)"
| move_rfq: "\<lbrakk>r \<in> set rs; rf_tenant r = t; (rf_state r, rf_state r') \<in> rfq_edges; same_rfq r r'; rf_awarded r' = None\<rbrakk>
     \<Longrightarrow> trade_step t W (rs, qs) (put_rfq r' rs, qs)"
| decide_rfq: "\<lbrakk>r \<in> set rs; rf_tenant r = t; rf_state r \<in> {''DRAFT'', ''OPEN'', ''EVALUATING''};
      rf_state r' \<in> {''CANCELLED'', ''CLOSED_NO_AWARD'', ''AWARDED''}; same_rfq r r';
      rf_state r' = ''AWARDED'' \<longleftrightarrow> rf_awarded r' \<noteq> None;
      \<forall>w. rf_awarded r' = Some w \<longrightarrow> (\<exists>q\<in>set qs. own_quotation r q \<and> qu_id q = w \<and> qu_state q = ''SUBMITTED'');
      \<forall>q\<in>set qs. own_quotation r q \<and> open_quotation q \<longrightarrow>
        (if rf_awarded r' = Some (qu_id q) then verdict q = ''ACCEPTED'' else verdict q \<in> {''REJECTED'', ''VOID''})\<rbrakk>
     \<Longrightarrow> trade_step t W (rs, qs) (put_rfq r' rs, decided r now verdict qs)"
| new_quotation: "\<lbrakk>\<forall>x\<in>set qs. \<not> quotation_clash q x; r \<in> set rs; rf_tenant r = t; own_quotation r q; rf_state r = ''OPEN'';
      qu_state q = ''DRAFT''; qu_submitted_at q = None; js_lower (qu_id q) = qu_id q\<rbrakk>
     \<Longrightarrow> trade_step t W (rs, qs) (rs, qs @ [q])"
| revise_quotation: "\<lbrakk>q \<in> set qs; qu_tenant q = t; qu_state q = ''DRAFT''; qu_state q' = ''DRAFT''; qu_submitted_at q' = qu_submitted_at q;
      qu_id q' = qu_id q; qu_tenant q' = qu_tenant q; qu_rfq q' = qu_rfq q; qu_supplier q' = qu_supplier q;
      qu_number q' = qu_number q; qu_revision q' = qu_revision q; qu_replaces q' = qu_replaces q\<rbrakk>
     \<Longrightarrow> trade_step t W (rs, qs) (rs, put_quotation q' qs)"
| move_quotation: "\<lbrakk>q \<in> set qs; qu_tenant q = t; (qu_state q, state) \<in> quotation_edges;
      \<exists>r\<in>set rs. own_quotation r q \<and> rf_state r \<in> {''OPEN'', ''EVALUATING''};
      state = ''SUBMITTED'' \<longrightarrow> (\<exists>r\<in>set rs. own_quotation r q \<and> rf_state r = ''OPEN'' \<and> now < rf_deadline r)
        \<and> \<not> (\<exists>x\<in>set qs. qu_id x \<noteq> qu_id q \<and> qu_state x = ''SUBMITTED'' \<and> qu_tenant x = qu_tenant q
               \<and> qu_rfq x = qu_rfq q \<and> qu_supplier x = qu_supplier q)\<rbrakk>
     \<Longrightarrow> trade_step t W (rs, qs) (rs, put_quotation (moved_quotation now state q) qs)"

inductive_cases trade_stepE: "trade_step t W (rs, qs) (rs', qs')"

section \<open>The loop that closes quotations\<close>

fun closed_quotations :: "int \<Rightarrow> string \<Rightarrow> string option \<Rightarrow> quotation list \<Rightarrow> quotation list \<Rightarrow> quotation list" where
  "closed_quotations now command selected [] rows = rows"
| "closed_quotations now command selected (q # qs) rows =
     closed_quotations now command selected qs (case next_quotation command selected q of
       None \<Rightarrow> rows | Some (state, type) \<Rightarrow> put_quotation (moved_quotation now state q) rows)"

lemma moved_quotation_sel [simp]:
  "qu_id (moved_quotation now x q) = qu_id q" "qu_tenant (moved_quotation now x q) = qu_tenant q"
  "qu_rfq (moved_quotation now x q) = qu_rfq q" "qu_supplier (moved_quotation now x q) = qu_supplier q"
  "qu_state (moved_quotation now x q) = x" "qu_number (moved_quotation now x q) = qu_number q"
  "qu_revision (moved_quotation now x q) = qu_revision q"
  "qu_submitted_at (moved_quotation now x q) = (if x = ''SUBMITTED'' then Some now else qu_submitted_at q)"
  by (simp_all add: moved_quotation_def)

lemma offer_moved [simp]: "offer (moved_quotation now x q) = offer q"
  by (simp add: offer_def moved_quotation_def)

text \<open>The loop over quotations of one tenant, on the tables it writes.\<close>

lemma close_quotations_Inr:
  assumes "close_quotations ho t cx command selected n qs k db = (Inr b, db')" and "\<forall>q\<in>set qs. qu_tenant q = t"
  shows "\<exists>hs es. k es (db\<lparr>quotations := closed_quotations (env_now (ho_env ho)) command selected qs (quotations db),
     quotation_history := hs\<rparr>) = (Inr b, db')"
  using assms
proof (induction qs arbitrary: n k db)
  case Nil
  then show ?case by (intro exI [of _ "quotation_history db"] exI [of _ "[]"]) simp
next
  case (Cons q qs)
  show ?case
  proof (cases "next_quotation command selected q")
    case None
    with Cons show ?thesis by simp
  next
    case (Some st)
    obtain state type where st: "st = (state, type)" by (cases st)
    let ?row = "moved_quotation (env_now (ho_env ho)) state q"
    from Cons.prems Some st obtain e hs where
      "close_quotations ho t cx command selected (n + 1) qs (\<lambda>es. k (e # es))
         (db\<lparr>quotations := put_quotation ?row (quotations db), quotation_history := hs\<rparr>) = (Inr b, db')"
      by (auto simp: Let_def set_quotation_Inr append_quotation_event_Inr put_quotation_def)
    from Cons.IH [OF this] Cons.prems(2) obtain hs' es where
      "k (e # es) (db\<lparr>quotations := closed_quotations (env_now (ho_env ho)) command selected qs (put_quotation ?row (quotations db)),
         quotation_history := hs'\<rparr>) = (Inr b, db')" by auto
    with Some st show ?thesis by (intro exI [of _ hs'] exI [of _ "e # es"]) simp
  qed
qed

lemma closed_quotations_map:
  assumes "\<forall>x\<in>set rows. \<forall>y\<in>set rows. qu_id x = qu_id y \<longrightarrow> x = y" and "set qs \<subseteq> set rows" and "distinct qs"
    and "\<forall>q\<in>set qs. next_quotation command selected q \<noteq> None"
  shows "closed_quotations now command selected qs rows =
    map (\<lambda>x. if x \<in> set qs then moved_quotation now (fst (the (next_quotation command selected x))) x else x) rows"
  using assms
proof (induction qs arbitrary: rows)
  case (Cons q qs)
  obtain state type where st: "next_quotation command selected q = Some (state, type)" using Cons.prems(4) by auto
  let ?row = "moved_quotation now state q"
  let ?f = "\<lambda>x. if x = q then ?row else x"
  have q: "q \<in> set rows" using Cons.prems(2) by simp
  have put: "put_quotation ?row rows = map ?f rows"
    unfolding put_quotation_def update_rows_def using Cons.prems(1) q by (intro map_cong) auto
  have ids: "qu_id (?f x) = qu_id x" for x by simp
  have other: "x \<noteq> q" if "x \<in> set qs" for x using that Cons.prems(3) by auto
  have not_row: "?row \<notin> set qs"
  proof
    assume row: "?row \<in> set qs"
    then have "?row \<in> set rows" using Cons.prems(2) by auto
    then have "?row = q" using Cons.prems(1) q by auto
    with row other show False by auto
  qed
  have "closed_quotations now command selected qs (map ?f rows) =
     map (\<lambda>x. if x \<in> set qs then moved_quotation now (fst (the (next_quotation command selected x))) x else x) (map ?f rows)"
  proof (rule Cons.IH)
    show "\<forall>x\<in>set (map ?f rows). \<forall>y\<in>set (map ?f rows). qu_id x = qu_id y \<longrightarrow> x = y"
      using Cons.prems(1) q by (auto simp: ids)
    show "set qs \<subseteq> set (map ?f rows)" using Cons.prems(2) other by force
  qed (use Cons.prems in auto)
  also have "\<dots> = map (\<lambda>x. if x \<in> set (q # qs) then moved_quotation now (fst (the (next_quotation command selected x))) x else x) rows"
    using not_row other st by (auto simp: comp_def)
  finally show ?case by (simp add: st put)
qed simp

lemma next_quotation_open:
  assumes "deciding command" and "open_quotation q"
  obtains state type where "next_quotation command selected q = Some (state, type)"
    and "state = ''ACCEPTED'' \<longleftrightarrow> command = ''RFQ.AWARD'' \<and> qu_state q = ''SUBMITTED'' \<and> selected = Some (qu_id q)"
    and "state \<in> {''ACCEPTED'', ''REJECTED'', ''VOID''}"
  using assms
  by (cases "Some (qu_id q) = selected") (auto simp: next_quotation_def deciding_def open_quotation_def split: if_splits)

definition unique_ids :: "quotation list \<Rightarrow> bool" where
  "unique_ids qs \<longleftrightarrow> distinct (map qu_id qs)"

lemma unique_idsD: "unique_ids qs \<Longrightarrow> x \<in> set qs \<Longrightarrow> y \<in> set qs \<Longrightarrow> qu_id x = qu_id y \<Longrightarrow> x = y"
  by (auto simp: unique_ids_def distinct_map inj_on_def)

lemma closed_open_quotations:
  assumes "unique_ids (quotations db)" and "rf_tenant r = t" and "deciding command"
  shows "closed_quotations now command selected (open_quotations t (rf_id r) db) (quotations db) =
    decided r now (\<lambda>q. fst (the (next_quotation command selected q))) (quotations db)"
proof -
  let ?qs = "open_quotations t (rf_id r) db"
  have mem: "q \<in> set ?qs \<longleftrightarrow> q \<in> set (quotations db) \<and> own_quotation r q \<and> open_quotation q" for q
    using assms(2) by (auto simp: open_quotations_def select_rows_def own_quotation_def open_quotation_def)
  have "distinct (quotations db)" using assms(1) by (simp add: unique_ids_def distinct_map)
  then have dist: "distinct ?qs" by (simp add: open_quotations_def select_rows_def)
  have nxt: "\<forall>q\<in>set ?qs. next_quotation command selected q \<noteq> None"
  proof
    fix q assume "q \<in> set ?qs"
    then have "open_quotation q" by (simp add: mem)
    then show "next_quotation command selected q \<noteq> None"
      by (rule next_quotation_open [OF assms(3), of q selected]) simp
  qed
  have "closed_quotations now command selected ?qs (quotations db) =
      map (\<lambda>x. if x \<in> set ?qs then moved_quotation now (fst (the (next_quotation command selected x))) x else x) (quotations db)"
    using unique_idsD [OF assms(1)] by (intro closed_quotations_map dist nxt) (auto simp: mem)
  also have "\<dots> = decided r now (\<lambda>q. fst (the (next_quotation command selected q))) (quotations db)"
    unfolding decided_def by (rule map_cong) (auto simp: mem)
  finally show ?thesis .
qed

section \<open>The commands make these moves\<close>

definition trade_frame :: "rfq_db \<Rightarrow> rfq_db \<Rightarrow> bool" where
  "trade_frame db db' \<longleftrightarrow> rq_suppliers db' = rq_suppliers db \<and> rq_requests db' = rq_requests db
     \<and> rq_approvals db' = rq_approvals db"

text \<open>The procurement requests that wait for an RFQ.\<close>

definition waiting_requests :: "string \<Rightarrow> request_db \<Rightarrow> string set" where
  "waiting_requests t db = pr_id ` {r \<in> set (procurement_requests db). pr_tenant r = t \<and> pr_state r = ''WAITING_RFQ''}"

definition trade_moves :: "string \<Rightarrow> rfq_db \<Rightarrow> rfq_db \<Rightarrow> bool" where
  "trade_moves t db db' \<longleftrightarrow> trade_step t (waiting_requests t (rq_requests db)) (rfqs db, quotations db) (rfqs db', quotations db') \<and> trade_frame db db'"

definition lower_ids :: "quotation list \<Rightarrow> bool" where
  "lower_ids qs \<longleftrightarrow> (\<forall>q\<in>set qs. js_lower (qu_id q) = qu_id q)"

lemma uuid_of_text_idem: "uuid_of_text s = Inr u \<Longrightarrow> js_lower u = u"
  by (auto dest: uuid_of_text_lower)

lemma find_rfq_key: "find_row (\<lambda>r. rf_tenant r = t \<and> rf_id r = u) rs = Some r \<Longrightarrow> r \<in> set rs \<and> rf_tenant r = t \<and> rf_id r = u"
  by (auto dest: find_row_SomeD)

lemma find_quotation_key:
  "find_row (\<lambda>q. qu_tenant q = t \<and> qu_id q = u) qs = Some q \<Longrightarrow> q \<in> set qs \<and> qu_tenant q = t \<and> qu_id q = u"
  by (auto dest: find_row_SomeD)

lemma recheck_Inr [call_simps]: "recheck t selected qs k db = (Inr b, db') \<longleftrightarrow>
    (\<forall>s. selected = Some s \<longrightarrow> (\<forall>q. find_row (\<lambda>q. qu_id q = s) qs = Some q \<longrightarrow> qu_state q = ''SUBMITTED'')
       \<and> (find_row (\<lambda>q. qu_id q = s) qs = None \<longrightarrow> (\<exists>u q. uuid_of_text s = Inr u
            \<and> find_row (\<lambda>q. qu_tenant q = t \<and> qu_id q = u) (quotations db) = Some q \<and> qu_state q = ''SUBMITTED'')))
    \<and> k db = (Inr b, db')"
  by (auto simp: recheck_def requireState_Inr getQuotation_Inr split: option.split)

lemma trade_sel:
  "rq_suppliers (db\<lparr>rfqs := rs\<rparr>) = rq_suppliers db" "quotations (db\<lparr>rfqs := rs\<rparr>) = quotations db"
  "rfqs (db\<lparr>rfq_candidates := cs\<rparr>) = rfqs db" "quotations (db\<lparr>rfq_candidates := cs\<rparr>) = quotations db"
  "rfqs (db\<lparr>quotations := qs\<rparr>) = rfqs db" "rfq_candidates (db\<lparr>quotations := qs\<rparr>) = rfq_candidates db"
  "rfqs (db\<lparr>rfq_history := h1\<rparr>) = rfqs db" "quotations (db\<lparr>rfq_history := h1\<rparr>) = quotations db"
  "rfqs (db\<lparr>quotation_history := h2\<rparr>) = rfqs db" "quotations (db\<lparr>quotation_history := h2\<rparr>) = quotations db"
  by simp_all

lemma fitting_request:
  assumes "request_fits t v db" and "uuid_column (or_else v JNull) = Inr u"
  shows "set_option u \<subseteq> waiting_requests t (rq_requests db)"
proof (cases "truthy v")
  case True
  then obtain w where w: "v = Some w" "js_true w" by (cases v) (auto simp: truthy_def)
  then have "w \<noteq> JNull" by auto
  with w assms(2) have u: "uuid_column w = Inr u" by (simp add: or_else_def nullish_def)
  from assms(1) True w(1) obtain u' r where r: "uuid_column w = Inr u'" "pr_state r = ''WAITING_RFQ''"
    "find_row (\<lambda>r. pr_tenant r = t \<and> Some (pr_id r) = u') (procurement_requests (rq_requests db)) = Some r"
    by (auto simp: request_fits_def)
  from find_row_SomeD [OF r(3)] r(1,2) u show ?thesis by (auto simp: waiting_requests_def)
next
  case False
  have "uuid_of_text [] = Inl (SqlError ''22P02'')" by (simp add: uuid_of_text_def uuid_shape_def)
  with False assms(2) have "u = None"
    by (auto simp: truthy_def or_else_def nullish_def uuid_column_def split: option.splits json.splits if_splits)
  then show ?thesis by simp
qed

lemma rfq_create_moves:
  assumes "rfq_create ho t cx body db = (Inr es, db')"
  shows "trade_moves t db db'"
proof -
  obtain row cs h where "\<forall>x\<in>set (rfqs db). \<not> rfq_clash row x" "rf_tenant row = t" "rf_state row = ''DRAFT''" "rf_awarded row = None"
    "js_lower (rf_id row) = rf_id row" "set_option (rf_request row) \<subseteq> waiting_requests t (rq_requests db)"
    and "db' = db\<lparr>rfqs := rfqs db @ [row], rfq_candidates := cs, rfq_history := h\<rparr>"
    by (insert assms, unfold rfq_create_def Let_def trade_Inr, elim exE conjE, rule that [rotated -1], assumption,
        simp_all add: uuid_of_text_idem fitting_request)
  then show ?thesis by (simp add: trade_moves_def trade_frame_def trade_step.new_rfq)
qed

lemma put_rfq_eq: "same_rfq r row \<Longrightarrow> rf_tenant r = t \<Longrightarrow>
    update_rows (\<lambda>x. rf_tenant x = t \<and> rf_id x = rf_id r) (\<lambda>_. row) rs = put_rfq row rs"
  by (simp add: put_rfq_def same_rfq_def)

lemma rfq_update_draft_moves:
  assumes "rfq_update_draft ho t cx current cs body db = (Inr es, db')" and "current \<in> set (rfqs db)" and "rf_tenant current = t"
  shows "trade_moves t db db'"
proof -
  obtain row cs' h where row: "rf_state current = ''DRAFT''" "same_rfq current row" "rf_state row = ''DRAFT''" "rf_awarded row = rf_awarded current"
    and db': "db' = db\<lparr>rfqs := update_rows (\<lambda>r. rf_tenant r = t \<and> rf_id r = rf_id current) (\<lambda>_. row) (rfqs db),
      rfq_candidates := cs', rfq_history := h\<rparr>"
    by (insert assms, unfold rfq_update_draft_def Let_def trade_Inr, elim exE conjE, rule that [rotated -1],
        assumption, simp_all add: same_rfq_def)
  have "trade_step t (waiting_requests t (rq_requests db)) (rfqs db, quotations db) (put_rfq row (rfqs db), quotations db)"
    using row assms(2,3) by (intro trade_step.revise_rfq)
  then show ?thesis by (simp add: trade_moves_def trade_frame_def db' put_rfq_eq [OF row(2) assms(3)])
qed

lemma verdict_cases:
  assumes "deciding command" and "open_quotation q"
  shows "(fst (the (next_quotation command selected q)) = ''ACCEPTED'' \<longleftrightarrow>
      command = ''RFQ.AWARD'' \<and> qu_state q = ''SUBMITTED'' \<and> selected = Some (qu_id q))
    \<and> fst (the (next_quotation command selected q)) \<in> {''ACCEPTED'', ''REJECTED'', ''VOID''}"
  by (rule next_quotation_open [OF assms, of selected]) simp

lemma write_rfq_effect:
  assumes "write_rfq ho t cx current cs command target selected approval qs es db = (Inr es', db')"
  obtains awarded row h where "(case selected of None \<Rightarrow> Inr None | Some s \<Rightarrow> map_sum id Some (uuid_of_text s)) = Inr awarded"
    and "\<forall>s. selected = Some s \<longrightarrow> list_ex (\<lambda>q. qu_id q = s) qs"
    and "same_rfq current row" and "rf_state row = fst target" and "rf_awarded row = awarded"
    and "db' = db\<lparr>rfqs := update_rows (\<lambda>r. rf_tenant r = t \<and> rf_id r = rf_id current) (\<lambda>_. row) (rfqs db), rfq_history := h\<rparr>"
  by (insert assms, unfold write_rfq_def Let_def trade_Inr, elim exE conjE, rule that [rotated -1], assumption,
      simp_all add: same_rfq_def split: option.splits if_splits)

text \<open>The end of a move, with what an award has checked of its winner.\<close>

lemma finish_rfq_moves:
  assumes fin: "finish_rfq ho t cx current cs command target selected approval db = (Inr es, db')"
    and mem: "current \<in> set (rfqs db)" "rf_tenant current = t" and uniq: "unique_ids (quotations db)" "lower_ids (quotations db)"
    and ends: "deciding command \<Longrightarrow> rf_state current \<in> {''DRAFT'', ''OPEN'', ''EVALUATING''}
        \<and> fst target \<in> {''CANCELLED'', ''CLOSED_NO_AWARD'', ''AWARDED''}"
      "\<not> deciding command \<Longrightarrow> (rf_state current, fst target) \<in> rfq_edges"
    and award: "command = ''RFQ.AWARD'' \<longleftrightarrow> fst target = ''AWARDED''" "selected \<noteq> None \<longleftrightarrow> fst target = ''AWARDED''"
  shows "trade_moves t db db'"
proof -
  let ?now = "env_now (ho_env ho)"
  let ?qs = "if deciding command then open_quotations t (rf_id current) db else []"
  let ?qs' = "closed_quotations ?now command selected ?qs (quotations db)"
  have mem_qs: "q \<in> set (open_quotations t (rf_id current) db) \<longleftrightarrow> q \<in> set (quotations db) \<and> own_quotation current q \<and> open_quotation q" for q
    using mem(2) by (auto simp: open_quotations_def select_rows_def own_quotation_def open_quotation_def)
  from fin have again: "recheck t selected ?qs (\<lambda>db. (Inr (), db)) db = (Inr (), db)"
    and "close_quotations ho t cx command selected 1 ?qs (write_rfq ho t cx current cs command target selected approval ?qs) db = (Inr es, db')"
    by (simp_all add: finish_rfq_def load_Inr recheck_Inr)
  from close_quotations_Inr [OF this(2)] obtain hs es' where
    "write_rfq ho t cx current cs command target selected approval ?qs es' (db\<lparr>quotations := ?qs', quotation_history := hs\<rparr>) = (Inr es, db')"
    using mem_qs mem(2) by (auto simp: own_quotation_def)
  then obtain awarded row h where awarded: "(case selected of None \<Rightarrow> Inr None | Some s \<Rightarrow> map_sum id Some (uuid_of_text s)) = Inr awarded"
    and found: "\<forall>s. selected = Some s \<longrightarrow> list_ex (\<lambda>q. qu_id q = s) ?qs"
    and row: "same_rfq current row" "rf_state row = fst target" "rf_awarded row = awarded"
    and db': "db' = db\<lparr>quotations := ?qs', quotation_history := hs,
      rfqs := update_rows (\<lambda>r. rf_tenant r = t \<and> rf_id r = rf_id current) (\<lambda>_. row) (rfqs db), rfq_history := h\<rparr>"
    by (rule write_rfq_effect) simp
  have won: "rf_awarded row = selected
      \<and> (\<forall>w. selected = Some w \<longrightarrow> (\<exists>q\<in>set (quotations db). own_quotation current q \<and> qu_id q = w \<and> qu_state q = ''SUBMITTED''))"
  proof (cases selected)
    case None
    with awarded row(3) show ?thesis by simp
  next
    case (Some s)
    with found have "find_row (\<lambda>q. qu_id q = s) ?qs \<noteq> None" by (auto simp: find_row_None_iff list_ex_iff)
    then obtain q where q: "find_row (\<lambda>q. qu_id q = s) ?qs = Some q" by auto
    with Some again have "qu_state q = ''SUBMITTED''" by (auto simp: recheck_Inr)
    moreover from q have "q \<in> set (quotations db)" "own_quotation current q" "qu_id q = s"
      using find_row_SomeD [OF q] mem_qs by (auto split: if_splits)
    moreover from this(1,3) uniq(2) have "js_lower s = s" by (auto simp: lower_ids_def)
    ultimately show ?thesis using Some awarded row(3) by (cases "uuid_of_text s") (auto dest: uuid_of_text_lower)
  qed
  have "trade_step t (waiting_requests t (rq_requests db)) (rfqs db, quotations db) (put_rfq row (rfqs db), ?qs')"
  proof (cases "deciding command")
    case True
    let ?verdict = "\<lambda>q. fst (the (next_quotation command selected q))"
    have "?qs' = decided current ?now ?verdict (quotations db)"
      using closed_open_quotations [OF uniq(1) mem(2) True] True by simp
    moreover have "if rf_awarded row = Some (qu_id q) then ?verdict q = ''ACCEPTED'' else ?verdict q \<in> {''REJECTED'', ''VOID''}"
      if q: "q \<in> set (quotations db)" "own_quotation current q" "open_quotation q" for q
    proof -
      have "qu_state q = ''SUBMITTED''" if sel: "selected = Some (qu_id q)"
      proof -
        from won sel obtain q' where q': "q' \<in> set (quotations db)" "qu_id q' = qu_id q" "qu_state q' = ''SUBMITTED''" by blast
        then show ?thesis using unique_idsD [OF uniq(1) q'(1) q(1)] by simp
      qed
      moreover have "command = ''RFQ.AWARD''" if "selected = Some (qu_id q)" using award that by auto
      ultimately show ?thesis
        using won verdict_cases [OF True q(3), of selected] by (cases "selected = Some (qu_id q)") auto
    qed
    ultimately show ?thesis
      using mem row won ends(1) [OF True] award(2)
      by (auto intro!: trade_step.decide_rfq)
  next
    case False
    have "rf_awarded row = None"
      using won award False by (auto simp: deciding_def)
    with False show ?thesis
      using mem row ends(2) [OF False] by (auto intro!: trade_step.move_rfq)
  qed
  then show ?thesis by (simp add: trade_moves_def trade_frame_def db' put_rfq_eq [OF row(1) mem(2)])
qed

lemma rfq_target_Inr:
  assumes "rfq_target t current cs command k db = (Inr b, db')"
  obtains target where "k target db = (Inr b, db')"
    and "deciding command \<Longrightarrow> (command = ''RFQ.AWARD'' \<or> rf_state current \<in> {''DRAFT'', ''OPEN'', ''EVALUATING''})
      \<and> fst target \<in> {''CANCELLED'', ''CLOSED_NO_AWARD'', ''AWARDED''}"
    and "\<not> deciding command \<Longrightarrow> (rf_state current, fst target) \<in> rfq_edges"
    and "command = ''RFQ.AWARD'' \<longleftrightarrow> fst target = ''AWARDED''"
  using assms
  by (auto simp: rfq_target_def trade_Inr throw_def deciding_def rfq_edges_def split: if_splits)

definition linked_approvals :: "string \<Rightarrow> string \<Rightarrow> approval_db \<Rightarrow> approval_request set" where
  "linked_approvals t i db = {a \<in> set (approval_requests db). aq_tenant a = t \<and> aq_source_type a = ''RFQ_AWARD'' \<and> aq_source_id a = i}"

lemma award_approval_Inr:
  assumes "award_approval ho t i body k db = (Inr b, db')"
  obtains approval u where "uuid_of_text i = Inr u" and "k approval db = (Inr b, db')"
    and "\<forall>a\<in>linked_approvals t u (rq_approvals db). aq_state a = ''APPROVED''"
proof -
  let ?linked = "\<lambda>u. rev (select_rows (\<lambda>a. aq_tenant a = t \<and> aq_source_type a = ''RFQ_AWARD'' \<and> aq_source_id a = u)
               (approval_requests (rq_approvals db)))"
  have set_linked: "set (?linked u) = linked_approvals t u (rq_approvals db)" for u
    by (auto simp: select_rows_def linked_approvals_def)
  from assms obtain u supplied where u: "uuid_of_text i = Inr u"
    and "(if ?linked u \<noteq> [] then
       (let approval = find_row (\<lambda>a. supplied = None \<or> Some (aq_id a) = supplied) (?linked u)
        in fail_if (approval = None \<or> list_ex (\<lambda>a. aq_state a \<noteq> ''APPROVED'' \<or> aq_source_id a \<noteq> i) (?linked u)) BUSINESS_RULE_VIOLATION (
           k (map_option aq_id approval)))
     else fail_if (supplied \<noteq> None) BUSINESS_RULE_VIOLATION (k None)) db = (Inr b, db')"
    unfolding award_approval_def given_Inr load_Inr by blast
  then consider approval where "k approval db = (Inr b, db')" "?linked u = []"
    | approval where "k approval db = (Inr b, db')" "\<not> list_ex (\<lambda>a. aq_state a \<noteq> ''APPROVED'' \<or> aq_source_id a \<noteq> i) (?linked u)"
    by (auto simp: Let_def fail_if_Inr split: if_splits)
  then show thesis
  proof cases
    case 1
    then have "linked_approvals t u (rq_approvals db) = {}" using set_linked [of u] by simp
    with 1(1) u show thesis by (intro that [of u approval]) auto
  next
    case 2
    with u show thesis using set_linked [of u] by (intro that [of u approval]) (auto simp: list_ex_iff)
  qed
qed

lemma award_checks_Inr:
  assumes "award_checks ho t i current body k db = (Inr b, db')"
  obtains selected approval u v q where "k (selected, approval) db = (Inr b, db')" and "rf_state current = ''EVALUATING''"
    and "uuid_of_text i = Inr u" and "\<forall>a\<in>linked_approvals t u (rq_approvals db). aq_state a = ''APPROVED''"
    and "uuid_of_text selected = Inr v" and "find_row (\<lambda>q. qu_tenant q = t \<and> qu_id q = v) (quotations db) = Some q"
    and "qu_rfq q = i" and "qu_state q = ''SUBMITTED''" and "supplier_fits t True (qu_supplier q) db"
proof -
  from assms obtain selected where state: "rf_state current = ''EVALUATING''"
    and rest: "award_approval ho t i body (\<lambda>approval.
     getQuotation t selected (\<lambda>q. fail_if (qu_rfq q \<noteq> i) BUSINESS_RULE_VIOLATION (
     requireState (qu_state q) ''SUBMITTED'' (
     validateSupplier t True (qu_supplier q) (k (selected, approval)))))) db = (Inr b, db')"
    unfolding award_checks_def requireState_Inr given_Inr fail_if_Inr by blast
  from rest show thesis
    by (rule award_approval_Inr) (auto simp: getQuotation_Inr fail_if_Inr requireState_Inr validateSupplier_Inr
      intro: that [OF _ state])
qed

lemma rfq_move_moves:
  assumes move: "rfq_move ho t cx i current cs command body db = (Inr es, db')"
    and mem: "current \<in> set (rfqs db)" "rf_tenant current = t" and uniq: "unique_ids (quotations db)" "lower_ids (quotations db)"
  shows "trade_moves t db db'"
proof -
  from move obtain target where "(if command = ''RFQ.AWARD'' then
       award_checks ho t i current body (\<lambda>(selected, approval).
         finish_rfq ho t cx current cs command target (Some selected) approval)
     else finish_rfq ho t cx current cs command target None None) db = (Inr es, db')"
    and target: "deciding command \<Longrightarrow> (command = ''RFQ.AWARD'' \<or> rf_state current \<in> {''DRAFT'', ''OPEN'', ''EVALUATING''})
      \<and> fst target \<in> {''CANCELLED'', ''CLOSED_NO_AWARD'', ''AWARDED''}"
      "\<not> deciding command \<Longrightarrow> (rf_state current, fst target) \<in> rfq_edges"
      "command = ''RFQ.AWARD'' \<longleftrightarrow> fst target = ''AWARDED''"
    unfolding rfq_move_def by (rule rfq_target_Inr) (rule that, assumption, blast, blast, assumption)
  then consider selected approval where "finish_rfq ho t cx current cs command target (Some selected) approval db = (Inr es, db')"
      "rf_state current = ''EVALUATING''" "command = ''RFQ.AWARD''"
    | "finish_rfq ho t cx current cs command target None None db = (Inr es, db')" "command \<noteq> ''RFQ.AWARD''"
    by (auto split: if_splits elim: award_checks_Inr)
  then show ?thesis
  proof cases
    case 1
    then show ?thesis
      by (intro finish_rfq_moves [OF 1(1) mem uniq]) (use target 1 in \<open>auto simp: deciding_def\<close>)
  next
    case 2
    then show ?thesis
      by (intro finish_rfq_moves [OF 2(1) mem uniq]) (use target 2 in \<open>auto simp: deciding_def\<close>)
  qed
qed

text \<open>The revision that a new quotation takes, as a relation on the tables.\<close>

definition revision_for :: "string \<Rightarrow> string \<Rightarrow> string \<Rightarrow> rfq \<Rightarrow> string option \<Rightarrow> rfq_db \<Rightarrow> int \<Rightarrow> bool" where
  "revision_for t rid sid r previous db n \<longleftrightarrow> next_revision t rid sid r previous (\<lambda>n db. (Inr n, db)) db = (Inr n, db)"

lemma next_revision_Inr: "next_revision t rid sid r previous k db = (Inr b, db') \<longleftrightarrow>
    (\<exists>n. revision_for t rid sid r previous db n \<and> k n db = (Inr b, db'))"
  by (cases previous) (auto simp: next_revision_def revision_for_def trade_Inr)

lemma quotation_create_moves:
  assumes "quotation_create ho t cx body db = (Inr es, db')"
  shows "trade_moves t db db'"
proof -
  obtain r row h where r: "r \<in> set (rfqs db)" "rf_tenant r = t" "rf_state r = ''OPEN''"
    and row: "own_quotation r row" "qu_state row = ''DRAFT''" "qu_submitted_at row = None" "js_lower (qu_id row) = qu_id row"
      "\<forall>x\<in>set (quotations db). \<not> quotation_clash row x"
    and db': "db' = db\<lparr>quotations := quotations db @ [row], quotation_history := h\<rparr>"
    by (insert assms, unfold quotation_create_def Let_def trade_Inr next_revision_Inr, elim exE conjE, drule find_rfq_key, elim conjE,
        rule that [rotated -1], assumption, simp_all add: own_quotation_def uuid_of_text_idem, blast)
  then show ?thesis by (auto simp: trade_moves_def trade_frame_def intro!: trade_step.new_quotation)
qed

lemma put_quotation_eq: "qu_id q' = qu_id q \<Longrightarrow> qu_tenant q' = qu_tenant q \<Longrightarrow> qu_tenant q = t \<Longrightarrow>
    update_rows (\<lambda>x. qu_tenant x = t \<and> qu_id x = qu_id q) (\<lambda>_. q') qs = put_quotation q' qs"
  by (simp add: put_quotation_def)

lemma quotation_update_draft_moves:
  assumes "quotation_update_draft ho t cx current body db = (Inr es, db')"
    and mem: "current \<in> set (quotations db)" "qu_tenant current = t"
  shows "trade_moves t db db'"
proof -
  obtain row h where row: "qu_state current = ''DRAFT''" "qu_state row = ''DRAFT''" "qu_submitted_at row = qu_submitted_at current"
      "qu_id row = qu_id current" "qu_tenant row = qu_tenant current" "qu_rfq row = qu_rfq current"
      "qu_supplier row = qu_supplier current" "qu_number row = qu_number current" "qu_revision row = qu_revision current"
      "qu_replaces row = qu_replaces current"
    and db': "db' = db\<lparr>quotations := update_rows (\<lambda>q. qu_tenant q = t \<and> qu_id q = qu_id current) (\<lambda>_. row) (quotations db),
      quotation_history := h\<rparr>"
    by (insert assms(1), unfold quotation_update_draft_def Let_def trade_Inr, elim exE conjE, rule that [rotated -1], assumption, simp_all)
  have "trade_step t (waiting_requests t (rq_requests db)) (rfqs db, quotations db) (rfqs db, put_quotation row (quotations db))"
    using row mem by (intro trade_step.revise_quotation)
  then show ?thesis by (simp add: trade_moves_def trade_frame_def db' put_quotation_eq [OF row(4,5) mem(2)])
qed

lemma quotation_target_Inr:
  assumes "quotation_target ho t r current command k db = (Inr b, db')"
  obtains target where "k target db = (Inr b, db')" and "(qu_state current, fst target) \<in> quotation_edges"
    and "rf_state r \<in> {''OPEN'', ''EVALUATING''} \<or> fst target = ''SUBMITTED''"
    and "fst target = ''SUBMITTED'' \<longrightarrow> rf_state r = ''OPEN'' \<and> env_now (ho_env ho) < rf_deadline r
       \<and> \<not> (\<exists>x\<in>set (quotations db). qu_id x \<noteq> qu_id current \<and> qu_state x = ''SUBMITTED'' \<and> qu_tenant x = t
               \<and> qu_rfq x = qu_rfq current \<and> qu_supplier x = qu_supplier current)"
proof -
  from assms consider (submit) "command = ''QUOTATION.SUBMIT''" | (withdraw) "command = ''QUOTATION.WITHDRAW''"
    | (disqualify) "command = ''QUOTATION.DISQUALIFY''"
    by (auto simp: quotation_target_def throw_def split: if_splits)
  then show thesis
  proof cases
    case submit
    with assms have "k (''SUBMITTED'', ''QUOTATION.SUBMITTED'') db = (Inr b, db')" "qu_state current = ''DRAFT''"
      "rf_state r = ''OPEN''" "env_now (ho_env ho) < rf_deadline r"
      "find_row (\<lambda>q. qu_tenant q = t \<and> qu_rfq q = qu_rfq current \<and> qu_supplier q = qu_supplier current
                  \<and> qu_state q = ''SUBMITTED'' \<and> qu_id q \<noteq> qu_id current) (quotations db) = None"
      by (auto simp: quotation_target_def trade_Inr)
    then show thesis
      by (intro that [of "(''SUBMITTED'', ''QUOTATION.SUBMITTED'')"]) (auto simp: quotation_edges_def find_row_None_iff)
  next
    case withdraw
    with assms show thesis
      by (intro that [of "(''WITHDRAWN'', ''QUOTATION.WITHDRAWN'')"]) (auto simp: quotation_target_def trade_Inr quotation_edges_def)
  next
    case disqualify
    with assms show thesis
      by (intro that [of "(''DISQUALIFIED'', ''QUOTATION.DISQUALIFIED'')"]) (auto simp: quotation_target_def trade_Inr quotation_edges_def)
  qed
qed

lemma quotation_move_moves:
  assumes move: "quotation_move ho t cx r current command db = (Inr es, db')"
    and mem: "current \<in> set (quotations db)" "qu_tenant current = t"
    and parent: "r \<in> set (rfqs db)" "rf_tenant r = t" "rf_id r = qu_rfq current"
  shows "trade_moves t db db'"
proof -
  from move obtain target where "(let row = moved_quotation (env_now (ho_env ho)) (fst target) current
       in set_quotation t (qu_id current) row (
          append_quotation_event t (env_uuid (ho_env ho) 0) cx command (snd target) (Some (qu_state current))
            (Some (safeQuotation current)) row (\<lambda>e. done_with [e]))) db = (Inr es, db')"
    and edge: "(qu_state current, fst target) \<in> quotation_edges"
    and parent_open: "rf_state r \<in> {''OPEN'', ''EVALUATING''} \<or> fst target = ''SUBMITTED''"
    and submit: "fst target = ''SUBMITTED'' \<longrightarrow> rf_state r = ''OPEN'' \<and> env_now (ho_env ho) < rf_deadline r
       \<and> \<not> (\<exists>x\<in>set (quotations db). qu_id x \<noteq> qu_id current \<and> qu_state x = ''SUBMITTED'' \<and> qu_tenant x = t
               \<and> qu_rfq x = qu_rfq current \<and> qu_supplier x = qu_supplier current)"
    unfolding quotation_move_def by (rule quotation_target_Inr) (rule that, assumption+)
  from this(1) obtain h where db': "db' = db\<lparr>quotations := update_rows (\<lambda>q. qu_tenant q = t \<and> qu_id q = qu_id current)
      (\<lambda>_. moved_quotation (env_now (ho_env ho)) (fst target) current) (quotations db), quotation_history := h\<rparr>"
    by (auto simp: Let_def trade_Inr)
  have own: "own_quotation r current" using parent mem by (simp add: own_quotation_def)
  have "trade_step t (waiting_requests t (rq_requests db)) (rfqs db, quotations db)
      (rfqs db, put_quotation (moved_quotation (env_now (ho_env ho)) (fst target) current) (quotations db))"
    using mem edge parent_open submit parent own by (intro trade_step.move_quotation) auto
  then show ?thesis by (simp add: trade_moves_def trade_frame_def db' put_quotation_eq [OF _ _ mem(2)])
qed

text \<open>The RFQ of a quotation has the identifier that the quotation names.\<close>

lemma execute_moves:
  assumes run: "executeRfqCommand ho t inp db = (Inr es, db')" and uniq: "unique_ids (quotations db)" "lower_ids (quotations db)"
    and lower: "\<forall>r\<in>set (rfqs db). js_lower (rf_id r) = rf_id r"
    and parents: "\<forall>q\<in>set (quotations db). \<exists>r\<in>set (rfqs db). own_quotation r q"
  shows "trade_moves t db db'"
proof -
  consider (create) "rfq_create ho t (ri_context inp) (ri_body inp) db = (Inr es, db')"
    | (rfq) current cs where "current \<in> set (rfqs db)" "rf_tenant current = t"
        "rfq_update_draft ho t (ri_context inp) current cs (ri_body inp) db = (Inr es, db')
         \<or> rfq_move ho t (ri_context inp) (ri_id inp) current cs (ri_command inp) (ri_body inp) db = (Inr es, db')"
    | (quote) "quotation_create ho t (ri_context inp) (ri_body inp) db = (Inr es, db')"
    | (quotation) current r u where "current \<in> set (quotations db)" "qu_tenant current = t" "r \<in> set (rfqs db)" "rf_tenant r = t"
        "uuid_of_text (qu_rfq current) = Inr u" "rf_id r = u"
        "quotation_update_draft ho t (ri_context inp) current (ri_body inp) db = (Inr es, db')
         \<or> quotation_move ho t (ri_context inp) r current (ri_command inp) db = (Inr es, db')"
    using run unfolding executeRfqCommand_def Let_def
    by (auto simp: trade_Inr split: if_splits dest!: find_rfq_key find_quotation_key)
  then show ?thesis
  proof cases
    case create
    then show ?thesis by (rule rfq_create_moves)
  next
    case rfq
    then show ?thesis using uniq by (auto intro: rfq_update_draft_moves rfq_move_moves)
  next
    case quote
    then show ?thesis by (rule quotation_create_moves)
  next
    case quotation
    have "rf_id r = qu_rfq current"
    proof -
      from parents quotation(1) obtain r' where "r' \<in> set (rfqs db)" "rf_id r' = qu_rfq current" by (auto simp: own_quotation_def)
      with lower have "js_lower (qu_rfq current) = qu_rfq current" by metis
      with quotation(5,6) show ?thesis by (auto dest: uuid_of_text_lower)
    qed
    with quotation show ?thesis by (auto intro: quotation_update_draft_moves quotation_move_moves)
  qed
qed

section \<open>What the moves keep\<close>

definition rfq_ok :: "quotation list \<Rightarrow> rfq \<Rightarrow> bool" where
  "rfq_ok qs r \<longleftrightarrow>
     (rf_state r = ''AWARDED'' \<longleftrightarrow> rf_awarded r \<noteq> None)
     \<and> (\<forall>q\<in>set qs. own_quotation r q \<longrightarrow> rf_state r \<noteq> ''DRAFT''
          \<and> (rf_state r \<in> {''CANCELLED'', ''CLOSED_NO_AWARD'', ''AWARDED''} \<longrightarrow> \<not> open_quotation q)
          \<and> (qu_state q = ''ACCEPTED'' \<longleftrightarrow> rf_awarded r = Some (qu_id q)))
     \<and> (\<forall>w. rf_awarded r = Some w \<longrightarrow> (\<exists>q\<in>set qs. own_quotation r q \<and> qu_id q = w))"

definition trade_inv :: "rfq list \<Rightarrow> quotation list \<Rightarrow> bool" where
  "trade_inv rs qs \<longleftrightarrow> unique_rows rfq_clash rs \<and> unique_rows quotation_clash qs
     \<and> (\<forall>r\<in>set rs. js_lower (rf_id r) = rf_id r \<and> rfq_ok qs r)
     \<and> (\<forall>q\<in>set qs. js_lower (qu_id q) = qu_id q \<and> (qu_state q = ''DRAFT'' \<longrightarrow> qu_submitted_at q = None)
          \<and> (\<exists>r\<in>set rs. own_quotation r q))"

lemma rfq_clash_sym: "rfq_clash x y \<Longrightarrow> rfq_clash y x"
  by (auto simp: rfq_clash_def)

lemma quotation_clash_sym: "quotation_clash x y \<Longrightarrow> quotation_clash y x"
  unfolding quotation_clash_def same_submission_def by metis

lemma same_rfq_own: "same_rfq r r' \<Longrightarrow> own_quotation r' q = own_quotation r q"
  by (simp add: same_rfq_def own_quotation_def)

lemma own_quotation_one: "unique_rows rfq_clash rs \<Longrightarrow> r \<in> set rs \<Longrightarrow> x \<in> set rs \<Longrightarrow> own_quotation r q \<Longrightarrow> own_quotation x q \<Longrightarrow> x = r"
  by (auto simp: own_quotation_def rfq_clash_def dest: unique_rows_clashD)

lemma put_rfq_rows:
  assumes "unique_rows rfq_clash rs" and "r \<in> set rs" and "same_rfq r r'"
  shows "set (put_rfq r' rs) = insert r' (set rs - {r})"
    and "unique_rows rfq_clash (put_rfq r' rs)"
proof -
  have one: "x = r" if "x \<in> set rs" "rf_id x = rf_id r" for x
    using unique_rows_clashD [OF assms(1) that(1) assms(2)] that(2) by (simp add: rfq_clash_def)
  have hit: "rf_tenant x = rf_tenant r' \<and> rf_id x = rf_id r' \<longleftrightarrow> x = r" if "x \<in> set rs" for x
    using one [OF that] assms(3) by (auto simp: same_rfq_def)
  have eq: "put_rfq r' rs = map (\<lambda>x. if x = r then r' else x) rs"
    unfolding put_rfq_def update_rows_def using hit by (intro map_cong) auto
  show "set (put_rfq r' rs) = insert r' (set rs - {r})"
    using assms(2) by (auto simp: eq)
  have clash: "rfq_clash x r' = rfq_clash x r" "rfq_clash r' x = rfq_clash r x" for x
    using assms(3) by (auto simp: rfq_clash_def same_rfq_def)
  show "unique_rows rfq_clash (put_rfq r' rs)"
    unfolding put_rfq_def
  proof (rule unique_update_at [OF assms(1), where r = r])
    show "distinct rs" by (rule unique_rows_distinct [OF assms(1)]) (simp add: rfq_clash_def)
    show "x = r" if "x \<in> set rs" "rf_tenant x = rf_tenant r' \<and> rf_id x = rf_id r'" for x using hit that by blast
  qed (simp_all add: clash)
qed

lemma put_quotation_rows:
  assumes "unique_rows quotation_clash qs" and "q \<in> set qs" and "qu_id q' = qu_id q" and "qu_tenant q' = qu_tenant q"
  shows "put_quotation q' qs = map (\<lambda>x. if x = q then q' else x) qs"
    and "set (put_quotation q' qs) = insert q' (set qs - {q})"
    and "(\<And>x. x \<in> set qs \<Longrightarrow> quotation_clash x q' \<Longrightarrow> x \<noteq> q \<Longrightarrow> quotation_clash x q) \<Longrightarrow> unique_rows quotation_clash (put_quotation q' qs)"
proof -
  have one: "x = q" if "x \<in> set qs" "qu_id x = qu_id q" for x
    using unique_rows_clashD [OF assms(1) that(1) assms(2)] that(2) by (simp add: quotation_clash_def)
  have hit: "qu_tenant x = qu_tenant q' \<and> qu_id x = qu_id q' \<longleftrightarrow> x = q" if "x \<in> set qs" for x
    using one [OF that] assms(3,4) by auto
  show eq: "put_quotation q' qs = map (\<lambda>x. if x = q then q' else x) qs"
    unfolding put_quotation_def update_rows_def using hit by (intro map_cong) auto
  show "set (put_quotation q' qs) = insert q' (set qs - {q})"
    using assms(2) by (auto simp: eq)
  assume clash: "\<And>x. x \<in> set qs \<Longrightarrow> quotation_clash x q' \<Longrightarrow> x \<noteq> q \<Longrightarrow> quotation_clash x q"
  show "unique_rows quotation_clash (put_quotation q' qs)"
    unfolding put_quotation_def
  proof (rule unique_update_at [OF assms(1), where r = q])
    show "distinct qs" by (rule unique_rows_distinct [OF assms(1)]) (simp add: quotation_clash_def)
    show "x = q" if "x \<in> set qs" "qu_tenant x = qu_tenant q' \<and> qu_id x = qu_id q'" for x using hit that by blast
    show "\<not> quotation_clash x q' \<and> \<not> quotation_clash q' x"
      if "x \<in> set qs" "x \<noteq> q" "\<not> quotation_clash x q" "\<not> quotation_clash q x" for x
      using clash [of x] that quotation_clash_sym by blast
  qed
qed

lemma trade_inv_put_rfq:
  assumes inv: "trade_inv rs qs" and r: "r \<in> set rs" "same_rfq r r'" and ok: "rfq_ok qs r'"
  shows "trade_inv (put_rfq r' rs) qs"
proof -
  have uniq: "unique_rows rfq_clash rs" using inv by (simp add: trade_inv_def)
  have own: "own_quotation r' = own_quotation r" using same_rfq_own [OF r(2)] by auto
  have parent: "\<exists>x\<in>set (put_rfq r' rs). own_quotation x q" if "q \<in> set qs" for q
  proof -
    from inv that obtain x where "x \<in> set rs" "own_quotation x q" by (auto simp: trade_inv_def)
    then show ?thesis using own by (cases "x = r") (auto simp: put_rfq_rows(1) [OF uniq r])
  qed
  have "js_lower (rf_id r') = rf_id r'" using inv r by (auto simp: trade_inv_def same_rfq_def)
  with ok parent show ?thesis
    using inv put_rfq_rows(2) [OF uniq r] by (auto simp: trade_inv_def put_rfq_rows(1) [OF uniq r])
qed

lemma trade_inv_new_rfq:
  assumes inv: "trade_inv rs qs" and fresh: "\<forall>x\<in>set rs. \<not> rfq_clash r x" and r: "rf_state r = ''DRAFT''" "rf_awarded r = None"
    "js_lower (rf_id r) = rf_id r"
  shows "trade_inv (rs @ [r]) qs"
proof -
  have none: "\<not> own_quotation r q" if q: "q \<in> set qs" for q
  proof
    assume own: "own_quotation r q"
    from inv q obtain x where "x \<in> set rs" "own_quotation x q" by (auto simp: trade_inv_def)
    with own fresh show False by (auto simp: own_quotation_def rfq_clash_def)
  qed
  have "rfq_ok qs r" using none r by (simp add: rfq_ok_def)
  moreover have "unique_rows rfq_clash (rs @ [r])"
    by (rule unique_rows_snoc [where clash = rfq_clash]) (use inv fresh in \<open>simp_all add: trade_inv_def rfq_clash_sym\<close>)
  ultimately show ?thesis using inv r(3) by (simp add: trade_inv_def)
qed

lemma rfq_ok_append:
  assumes "rfq_ok qs r" and "own_quotation r q \<Longrightarrow> rf_state r = ''OPEN''" and "qu_state q = ''DRAFT''"
  shows "rfq_ok (qs @ [q]) r"
proof (cases "own_quotation r q")
  case True
  with assms(1,2) have "rf_awarded r = None" by (auto simp: rfq_ok_def)
  with assms True show ?thesis by (simp add: rfq_ok_def)
next
  case False
  with assms(1) show ?thesis unfolding rfq_ok_def set_append by (simp add: ball_Un bex_Un) 
qed

lemma trade_inv_new_quotation:
  assumes inv: "trade_inv rs qs" and fresh: "\<forall>x\<in>set qs. \<not> quotation_clash q x" and r: "r \<in> set rs" "own_quotation r q" "rf_state r = ''OPEN''"
    and q: "qu_state q = ''DRAFT''" "qu_submitted_at q = None" "js_lower (qu_id q) = qu_id q"
  shows "trade_inv rs (qs @ [q])"
proof -
  have uniq: "unique_rows rfq_clash rs" using inv by (simp add: trade_inv_def)
  have "rfq_ok (qs @ [q]) x" if "x \<in> set rs" for x
    using inv that own_quotation_one [OF uniq r(1) that r(2)] r(3) q(1) by (intro rfq_ok_append) (auto simp: trade_inv_def)
  moreover have "unique_rows quotation_clash (qs @ [q])"
    by (rule unique_rows_snoc [where clash = quotation_clash]) (use inv fresh in \<open>simp_all add: trade_inv_def quotation_clash_sym\<close>)
  ultimately show ?thesis using inv r(1,2) q by (auto simp: trade_inv_def)
qed

text \<open>Replacing one quotation by a row that is open when it was, or has left for good.\<close>

lemma rfq_ok_put_quotation:
  assumes ok: "rfq_ok qs r" and uniq: "unique_rows quotation_clash qs" and q: "q \<in> set qs" "open_quotation q"
    and q': "qu_id q' = qu_id q" "qu_tenant q' = qu_tenant q" "qu_rfq q' = qu_rfq q" "qu_state q' \<noteq> ''ACCEPTED''"
  shows "rfq_ok (put_quotation q' qs) r"
proof -
  note rows = put_quotation_rows(2) [OF uniq q(1) q'(1,2)]
  have own: "own_quotation r q' = own_quotation r q" using q' by (simp add: own_quotation_def)
  have "qu_state q \<noteq> ''ACCEPTED''" using q(2) by (auto simp: open_quotation_def)
  then have "own_quotation r q \<Longrightarrow> rf_awarded r \<noteq> Some (qu_id q)" using ok q(1) by (auto simp: rfq_ok_def)
  with ok q q' own show ?thesis unfolding rfq_ok_def rows by auto
qed

lemma rfq_ok_cong:
  assumes ok: "rfq_ok qs x" and same: "\<And>q. own_quotation x q \<Longrightarrow> q \<in> set qs' \<longleftrightarrow> q \<in> set qs"
  shows "rfq_ok qs' x"
  unfolding rfq_ok_def
proof (intro conjI ballI impI allI)
  show "rf_state x = ''AWARDED'' \<longleftrightarrow> rf_awarded x \<noteq> None" using ok by (simp add: rfq_ok_def)
next
  fix q assume "q \<in> set qs'" "own_quotation x q"
  with same have "q \<in> set qs" by blast
  with ok \<open>own_quotation x q\<close>
  show "rf_state x \<noteq> ''DRAFT''" "rf_state x \<in> {''CANCELLED'', ''CLOSED_NO_AWARD'', ''AWARDED''} \<Longrightarrow> \<not> open_quotation q"
    "qu_state q = ''ACCEPTED'' \<longleftrightarrow> rf_awarded x = Some (qu_id q)"
    unfolding rfq_ok_def by blast+
next
  fix w assume "rf_awarded x = Some w"
  with ok obtain q where "q \<in> set qs" "own_quotation x q" "qu_id q = w" unfolding rfq_ok_def by blast
  with same show "\<exists>q\<in>set qs'. own_quotation x q \<and> qu_id q = w" by blast
qed

lemma own_moved [simp]: "own_quotation x (moved_quotation now v q) = own_quotation x q"
  by (simp add: own_quotation_def)

lemma unique_rows_map:
  assumes "unique_rows clash t" and "\<And>x y. x \<in> set t \<Longrightarrow> y \<in> set t \<Longrightarrow> clash (g x) (g y) \<Longrightarrow> clash x y"
  shows "unique_rows clash (map g t)"
  using assms unfolding unique_rows_def sorted_wrt_map by (elim sorted_wrt_mono_rel [rotated]) blast

lemma put_rfq_parent:
  assumes "unique_rows rfq_clash rs" and "r \<in> set rs" and "same_rfq r r'" and "\<exists>x\<in>set rs. own_quotation x q"
  shows "\<exists>x\<in>set (put_rfq r' rs). own_quotation x q"
proof -
  from assms(4) obtain x where "x \<in> set rs" "own_quotation x q" by blast
  then show ?thesis
    by (cases "x = r") (auto simp: put_rfq_rows(1) [OF assms(1-3)] same_rfq_own [OF assms(3)])
qed

lemma trade_inv_decide:
  assumes inv: "trade_inv rs qs" and r: "r \<in> set rs" "same_rfq r r'" "rf_state r \<in> {''DRAFT'', ''OPEN'', ''EVALUATING''}"
    and r': "rf_state r' \<in> {''CANCELLED'', ''CLOSED_NO_AWARD'', ''AWARDED''}" "rf_state r' = ''AWARDED'' \<longleftrightarrow> rf_awarded r' \<noteq> None"
    and won: "\<forall>w. rf_awarded r' = Some w \<longrightarrow> (\<exists>q\<in>set qs. own_quotation r q \<and> qu_id q = w \<and> qu_state q = ''SUBMITTED'')"
    and verdict: "\<forall>q\<in>set qs. own_quotation r q \<and> open_quotation q \<longrightarrow>
        (if rf_awarded r' = Some (qu_id q) then verdict q = ''ACCEPTED'' else verdict q \<in> {''REJECTED'', ''VOID''})"
  shows "trade_inv (put_rfq r' rs) (decided r now verdict qs)"
proof -
  let ?g = "\<lambda>q. if own_quotation r q \<and> open_quotation q then moved_quotation now (verdict q) q else q"
  have uniq: "unique_rows rfq_clash rs" "unique_rows quotation_clash qs" using inv by (simp_all add: trade_inv_def)
  have dec: "decided r now verdict qs = map ?g qs" by (simp add: decided_def)
  have ids: "qu_id (?g q) = qu_id q" for q by simp
  have own: "own_quotation x (?g q) = own_quotation x q" for x q by simp
  have final: "verdict q \<notin> {''DRAFT'', ''SUBMITTED''}" if "q \<in> set qs" "own_quotation r q" "open_quotation q" for q
    using verdict that by (cases "rf_awarded r' = Some (qu_id q)") auto
  have one: "x = y" if "x \<in> set qs" "y \<in> set qs" "qu_id x = qu_id y" for x y
    using unique_rows_clashD [OF uniq(2) that(1,2)] that(3) by (simp add: quotation_clash_def)
  have old: "rf_awarded r = None" using inv r by (auto simp: trade_inv_def rfq_ok_def)
  have mine: "\<not> open_quotation (?g q) \<and> (qu_state (?g q) = ''ACCEPTED'' \<longleftrightarrow> rf_awarded r' = Some (qu_id q))"
    if q: "q \<in> set qs" "own_quotation r q" for q
  proof (cases "open_quotation q")
    case True
    with final [OF q True] verdict q show ?thesis by (auto simp: open_quotation_def split: if_splits)
  next
    case False
    have "rf_awarded r' \<noteq> Some (qu_id q)"
    proof
      assume "rf_awarded r' = Some (qu_id q)"
      with won obtain q0 where "q0 \<in> set qs" "qu_id q0 = qu_id q" "open_quotation q0" by (auto simp: open_quotation_def)
      with one [of q0 q] q(1) False show False by simp
    qed
    moreover have "qu_state q \<noteq> ''ACCEPTED''" using inv r(1) q old by (auto simp: trade_inv_def rfq_ok_def)
    ultimately show ?thesis using False by simp
  qed
  have won_ok: "rfq_ok (map ?g qs) r'"
    unfolding rfq_ok_def
  proof (intro conjI ballI impI allI)
    fix q' assume q': "q' \<in> set (map ?g qs)" "own_quotation r' q'"
    then obtain q where q: "q \<in> set qs" "q' = ?g q" by auto
    then have mq: "own_quotation r q" using q' own same_rfq_own [OF r(2)] by metis
    show "rf_state r' \<noteq> ''DRAFT''" using r'(1) by auto
    show "\<not> open_quotation q'" using mine [OF q(1) mq] q(2) by blast
    show "qu_state q' = ''ACCEPTED'' \<longleftrightarrow> rf_awarded r' = Some (qu_id q')" unfolding q(2) ids by (rule conjunct2 [OF mine [OF q(1) mq]])
  next
    fix w assume "rf_awarded r' = Some w"
    with won obtain q where "q \<in> set qs" "own_quotation r q" "qu_id q = w" by blast
    then show "\<exists>q\<in>set (map ?g qs). own_quotation r' q \<and> qu_id q = w"
      using same_rfq_own [OF r(2)] own by (intro bexI [of _ "?g q"]) auto
  qed (rule r'(2))
  have other_ok: "rfq_ok (map ?g qs) x" if x: "x \<in> set rs" "x \<noteq> r" for x
  proof -
    have other: "\<not> own_quotation r q" if "own_quotation x q" for q
      using own_quotation_one [OF uniq(1) r(1) x(1) _ that] x(2) by blast
    have "q \<in> set (map ?g qs) \<longleftrightarrow> q \<in> set qs" if q: "own_quotation x q" for q
    proof
      assume "q \<in> set (map ?g qs)"
      then obtain q0 where q0: "q0 \<in> set qs" "q = ?g q0" by auto
      with q have "own_quotation x q0" using own [of x q0] by simp
      with q0 other show "q \<in> set qs" by simp
    next
      assume "q \<in> set qs"
      moreover have "q = ?g q" using other [OF q] by simp
      ultimately show "q \<in> set (map ?g qs)" unfolding set_map by (rule rev_image_eqI)
    qed
    moreover have "rfq_ok qs x" using inv x(1) by (simp add: trade_inv_def)
    ultimately show ?thesis by (rule rfq_ok_cong [rotated])
  qed
  have rows: "\<forall>x\<in>set (put_rfq r' rs). js_lower (rf_id x) = rf_id x \<and> rfq_ok (map ?g qs) x"
  proof
    fix x assume "x \<in> set (put_rfq r' rs)"
    then consider "x = r'" | "x \<in> set rs" "x \<noteq> r" by (auto simp: put_rfq_rows(1) [OF uniq(1) r(1,2)])
    then show "js_lower (rf_id x) = rf_id x \<and> rfq_ok (map ?g qs) x"
    proof cases
      case 1
      have "js_lower (rf_id r') = rf_id r'" using inv r(1,2) by (auto simp: trade_inv_def same_rfq_def)
      then show ?thesis using won_ok unfolding 1 by (rule conjI)
    next
      case 2
      with inv have "js_lower (rf_id x) = rf_id x" by (simp add: trade_inv_def)
      then show ?thesis using other_ok [OF 2] by (rule conjI)
    qed
  qed
  have quotes: "\<forall>q'\<in>set (map ?g qs). js_lower (qu_id q') = qu_id q' \<and> (qu_state q' = ''DRAFT'' \<longrightarrow> qu_submitted_at q' = None)
      \<and> (\<exists>x\<in>set (put_rfq r' rs). own_quotation x q')"
  proof
    fix q' assume "q' \<in> set (map ?g qs)"
    then obtain q where q: "q \<in> set qs" "q' = ?g q" by auto
    with inv have old: "js_lower (qu_id q) = qu_id q" "qu_state q = ''DRAFT'' \<longrightarrow> qu_submitted_at q = None"
      "\<exists>x\<in>set rs. own_quotation x q" by (simp_all add: trade_inv_def)
    have "\<exists>x\<in>set (put_rfq r' rs). own_quotation x q" by (rule put_rfq_parent [OF uniq(1) r(1,2) old(3)])
    moreover have "qu_state q' = ''DRAFT'' \<longrightarrow> qu_submitted_at q' = None"
      using old(2) final [OF q(1)] by (auto simp: q(2))
    ultimately show "js_lower (qu_id q') = qu_id q' \<and> (qu_state q' = ''DRAFT'' \<longrightarrow> qu_submitted_at q' = None)
      \<and> (\<exists>x\<in>set (put_rfq r' rs). own_quotation x q')"
      using old(1) unfolding q(2) ids own by blast
  qed
  have "unique_rows quotation_clash (map ?g qs)"
  proof (rule unique_rows_map [OF uniq(2)])
    fix x y assume "x \<in> set qs" "y \<in> set qs" "quotation_clash (?g x) (?g y)"
    then show "quotation_clash x y"
      using final [of x] final [of y] by (auto simp: quotation_clash_def same_submission_def split: if_splits)
  qed
  with rows quotes show ?thesis
    using put_rfq_rows(2) [OF uniq(1) r(1,2)] unfolding trade_inv_def dec by blast
qed

lemma trade_inv_put_quotation:
  assumes inv: "trade_inv rs qs" and q: "q \<in> set qs" "open_quotation q"
    and q': "qu_id q' = qu_id q" "qu_tenant q' = qu_tenant q" "qu_rfq q' = qu_rfq q" "qu_state q' \<noteq> ''ACCEPTED''"
      "qu_state q' = ''DRAFT'' \<longrightarrow> qu_submitted_at q' = None"
    and clash: "\<And>x. x \<in> set qs \<Longrightarrow> quotation_clash x q' \<Longrightarrow> x \<noteq> q \<Longrightarrow> quotation_clash x q"
  shows "trade_inv rs (put_quotation q' qs)"
proof -
  have uniq: "unique_rows quotation_clash qs" using inv by (simp add: trade_inv_def)
  note rows = put_quotation_rows(2) [OF uniq q(1) q'(1,2)]
  have own: "own_quotation r q' = own_quotation r q" for r using q' by (simp add: own_quotation_def)
  have "\<forall>r\<in>set rs. js_lower (rf_id r) = rf_id r \<and> rfq_ok (put_quotation q' qs) r"
    using inv by (auto simp: trade_inv_def intro!: rfq_ok_put_quotation [OF _ uniq q q'(1-4)])
  moreover have "\<forall>x\<in>set (put_quotation q' qs). js_lower (qu_id x) = qu_id x \<and> (qu_state x = ''DRAFT'' \<longrightarrow> qu_submitted_at x = None)
      \<and> (\<exists>r\<in>set rs. own_quotation r x)"
    using inv q(1) q' own unfolding rows by (auto simp: trade_inv_def)
  moreover have "unique_rows quotation_clash (put_quotation q' qs)"
    by (rule put_quotation_rows(3) [OF uniq q(1) q'(1,2)]) (rule clash)
  ultimately show ?thesis using inv by (simp add: trade_inv_def)
qed

lemma trade_inv_step:
  assumes "trade_step t W s s'" and "trade_inv (fst s) (snd s)"
  shows "trade_inv (fst s') (snd s')"
  using assms
proof (induction rule: trade_step.induct)
  case (new_rfq rs r qs)
  then show ?case by (simp add: trade_inv_new_rfq)
next
  case (revise_rfq r rs r' qs)
  then have "rfq_ok qs r" and inv: "trade_inv rs qs" by (simp_all add: trade_inv_def)
  then have "rfq_ok qs r'" using revise_rfq by (auto simp: rfq_ok_def same_rfq_own)
  with inv revise_rfq show ?case by (simp add: trade_inv_put_rfq)
next
  case (move_rfq r rs r' qs)
  then have "rfq_ok qs r" and inv: "trade_inv rs qs" by (simp_all add: trade_inv_def)
  then have "rfq_ok qs r'" using move_rfq by (auto simp: rfq_ok_def same_rfq_own rfq_edges_def)
  with inv move_rfq show ?case by (simp add: trade_inv_put_rfq)
next
  case (decide_rfq r rs r' qs verdict now)
  then show ?case by (simp only: fst_conv snd_conv) (rule trade_inv_decide)
next
  case (new_quotation qs q r rs)
  then show ?case by (simp add: trade_inv_new_quotation)
next
  case (revise_quotation q qs q' rs)
  then have inv: "trade_inv rs qs" by simp
  then have "qu_submitted_at q = None" using revise_quotation by (auto simp: trade_inv_def)
  with inv revise_quotation show ?case
    by (auto simp: open_quotation_def quotation_clash_def same_submission_def intro!: trade_inv_put_quotation [of rs qs q q'])
next
  case (move_quotation q qs state rs now)
  then have inv: "trade_inv rs qs" by simp
  have "trade_inv rs (put_quotation (moved_quotation now state q) qs)"
  proof (rule trade_inv_put_quotation [OF inv])
    show "open_quotation q" using move_quotation by (auto simp: open_quotation_def quotation_edges_def)
    show "qu_state (moved_quotation now state q) \<noteq> ''ACCEPTED''"
      "qu_state (moved_quotation now state q) = ''DRAFT'' \<longrightarrow> qu_submitted_at (moved_quotation now state q) = None"
      using move_quotation by (auto simp: quotation_edges_def)
    show "quotation_clash x q" if "x \<in> set qs" "quotation_clash x (moved_quotation now state q)" "x \<noteq> q" for x
    proof -
      have "qu_id x \<noteq> qu_id q"
        using that(1,3) move_quotation(1) inv by (auto simp: trade_inv_def quotation_clash_def dest: unique_rows_clashD)
      then show ?thesis using that move_quotation by (auto simp: quotation_clash_def same_submission_def)
    qed
  qed (use move_quotation in simp_all)
  then show ?case by simp
qed

lemma frozen_step:
  assumes "trade_step t W s s'" and "trade_inv (fst s) (snd s)" and "q \<in> set (snd s)" and "fixed_quotation q"
  shows "\<exists>q'\<in>set (snd s'). offer q' = offer q \<and> qu_submitted_at q' = qu_submitted_at q \<and> (open_quotation q \<or> q' = q)"
  using assms
proof (induction rule: trade_step.induct)
  case (decide_rfq r rs r' qs verdict now)
  let ?q = "if own_quotation r q \<and> open_quotation q then moved_quotation now (verdict q) q else q"
  have "verdict q \<noteq> ''SUBMITTED''" if "own_quotation r q" "open_quotation q"
    using decide_rfq that by (cases "rf_awarded r' = Some (qu_id q)") auto
  then have "offer ?q = offer q \<and> qu_submitted_at ?q = qu_submitted_at q \<and> (open_quotation q \<or> ?q = q)" by simp
  moreover have "?q \<in> set (decided r now verdict qs)" using decide_rfq unfolding decided_def by auto
  ultimately show ?case unfolding snd_conv by blast
next
  case (revise_quotation q0 qs q1 rs)
  then have uniq: "unique_rows quotation_clash qs" and "\<not> fixed_quotation q0"
    by (auto simp: trade_inv_def fixed_quotation_def open_quotation_def)
  with revise_quotation have "q \<in> set (put_quotation q1 qs)"
    unfolding put_quotation_rows(2) [OF uniq revise_quotation(1) revise_quotation(6,7)] by auto
  then show ?case by auto
next
  case (move_quotation q0 qs state rs now)
  then have uniq: "unique_rows quotation_clash qs" by (simp add: trade_inv_def)
  have rows: "set (put_quotation (moved_quotation now state q0) qs) = insert (moved_quotation now state q0) (set qs - {q0})"
    by (rule put_quotation_rows(2) [OF uniq move_quotation(1)]) simp_all
  show ?case
  proof (cases "q = q0")
    case True
    have "state \<noteq> ''SUBMITTED''" "open_quotation q0"
      using move_quotation by (auto simp: trade_inv_def quotation_edges_def open_quotation_def fixed_quotation_def True)
    then show ?thesis unfolding snd_conv rows by (intro bexI [of _ "moved_quotation now state q0"]) (simp_all add: True)
  next
    case False
    with move_quotation rows show ?thesis by auto
  qed
qed auto

section \<open>Histories of calls\<close>

text \<open>
  The commands on the tables of this theory: those of suppliers, procurement requests and approvals on their own part.
\<close>

datatype trade_command =
    OnSuppliers "call_env \<times> supplier_context \<times> supplier_command"
  | OnRequests "call_env \<times> supplier_context \<times> request_command"
  | RequestApproval call_env approval_input
  | DecideApproval call_env decision_input
  | OnRfqs rfq_host rfq_input

definition on_part :: "('s \<Rightarrow> 'p) \<Rightarrow> ('p \<Rightarrow> 's \<Rightarrow> 's) \<Rightarrow> ('p, 'a) call \<Rightarrow> ('s, 'a) call" where
  "on_part part wr f db = (case f (part db) of (r, p) \<Rightarrow> (r, wr p db))"

lemma on_part_Inr: "on_part part wr f db = (Inr a, db') \<longleftrightarrow> (\<exists>p. f (part db) = (Inr a, p) \<and> db' = wr p db)"
  by (auto simp: on_part_def split: prod.splits)

text \<open>What the database and the host compute of texts, the same throughout a history.\<close>

record trade_world =
  tw_lower :: "string \<Rightarrow> string"
  tw_date :: "string \<Rightarrow> string option"
  tw_numeric :: "nat \<Rightarrow> js_number \<Rightarrow> int option"

fun trade_command_step :: "string \<Rightarrow> trade_world \<Rightarrow> trade_command \<Rightarrow> (rfq_db, unit) call" where
  "trade_command_step t w (OnSuppliers c) db =
     on_part rq_suppliers (\<lambda>p db. db\<lparr>rq_suppliers := p\<rparr>) (supplier_step t (tw_lower w) c) db"
| "trade_command_step t w (OnRequests c) db =
     on_part rq_requests (\<lambda>p db. db\<lparr>rq_requests := p\<rparr>) (request_step t (tw_date w) (tw_numeric w) c) db"
| "trade_command_step t w (RequestApproval env inp) db =
     on_part rq_approvals (\<lambda>p db. db\<lparr>rq_approvals := p\<rparr>) (\<lambda>p. forget (createApproval t env inp p)) db"
| "trade_command_step t w (DecideApproval env inp) db =
     on_part rq_approvals (\<lambda>p db. db\<lparr>rq_approvals := p\<rparr>) (\<lambda>p. forget (decideApproval t env (by_principal inp) p)) db"
| "trade_command_step t w (OnRfqs ho inp) db = forget (executeRfqCommand ho t inp db)"

fun trade_run :: "trade_world \<Rightarrow> (string \<times> trade_command) list \<Rightarrow> rfq_db \<Rightarrow> rfq_db" where
  "trade_run w [] db = db"
| "trade_run w ((t, c) # cs) db = trade_run w cs (snd (uow t (trade_command_step t w c) db))"

definition trade_db_inv :: "trade_world \<Rightarrow> rfq_db \<Rightarrow> bool" where
  "trade_db_inv w db \<longleftrightarrow> trade_inv (rfqs db) (quotations db) \<and> supplier_inv (tw_lower w) (rq_suppliers db)
     \<and> request_inv (rq_requests db) \<and> approval_inv (rq_approvals db) \<and> (\<forall>r\<in>set (rfqs db). rf_request r = None)"

lemma trade_inv_unique: "trade_inv rs qs \<Longrightarrow> unique_ids qs \<and> lower_ids qs"
proof -
  assume inv: "trade_inv rs qs"
  then have "unique_rows quotation_clash qs" by (simp add: trade_inv_def)
  then have "unique_ids qs"
    unfolding unique_ids_def by (induction qs) (auto simp: unique_rows_def quotation_clash_def)
  with inv show ?thesis by (simp add: trade_inv_def lower_ids_def)
qed

lemma reached_moves:
  assumes "trade_inv (rfqs db) (quotations db)" and "executeRfqCommand ho t inp db = (Inr es, db')"
  shows "trade_moves t db db'"
  using assms(1) trade_inv_unique [OF assms(1)]
  by (intro execute_moves [OF assms(2)]) (auto simp: trade_inv_def)

text \<open>No command of the code takes a procurement request to the state in which an RFQ may be made for it.\<close>

lemma none_waiting: "request_inv db \<Longrightarrow> waiting_requests t db = {}"
  unfolding waiting_requests_def request_inv_def request_stage_def Let_def by fastforce

lemma unlinked_step:
  assumes "trade_step t {} s s'" and "\<forall>r\<in>set (fst s). rf_request r = None"
  shows "\<forall>r\<in>set (fst s'). rf_request r = None"
  using assms
  by (induction rule: trade_step.induct) (auto simp: put_rfq_def set_update_rows same_rfq_def)

lemma trade_db_inv_step:
  assumes inv: "trade_db_inv w db" and ok: "trade_command_step t w c db = (Inr u, db')"
  shows "trade_db_inv w db'"
proof (cases c)
  case (OnSuppliers x)
  with ok inv show ?thesis by (auto simp: on_part_Inr trade_db_inv_def intro: supplier_inv_step)
next
  case (OnRequests x)
  with ok inv show ?thesis by (auto simp: on_part_Inr trade_db_inv_def intro: request_inv_step)
next
  case (RequestApproval env inp)
  with ok inv show ?thesis by (auto simp: on_part_Inr trade_db_inv_def forget_Inr intro: approval_inv_create)
next
  case (DecideApproval env inp)
  with ok inv show ?thesis by (auto simp: on_part_Inr trade_db_inv_def forget_Inr intro: approval_inv_decide [OF _ lower_principal])
next
  case (OnRfqs ho inp)
  with ok obtain es where run: "executeRfqCommand ho t inp db = (Inr es, db')" by (auto simp: forget_Inr)
  have trade: "trade_inv (rfqs db) (quotations db)" and requests: "request_inv (rq_requests db)"
    using inv by (simp_all add: trade_db_inv_def)
  have "trade_step t {} (rfqs db, quotations db) (rfqs db', quotations db')" and frame: "trade_frame db db'"
    using reached_moves [OF trade run] none_waiting [OF requests] by (simp_all add: trade_moves_def)
  from trade_inv_step [OF this(1)] unlinked_step [OF this(1)] frame inv show ?thesis
    by (simp add: trade_db_inv_def trade_frame_def)
qed

lemma trade_db_inv_run: "trade_db_inv w db \<Longrightarrow> trade_db_inv w (trade_run w cs db)"
proof (induction cs arbitrary: db)
  case (Cons c cs)
  obtain t k where c: "c = (t, k)" by (cases c)
  have "trade_db_inv w (snd (uow t (trade_command_step t w k) db))"
    by (rule pg.run_invariant [where I = "trade_db_inv w", OF Cons.prems]) (rule trade_db_inv_step [OF Cons.prems])
  with Cons.IH show ?case by (simp add: c)
qed simp

text \<open>A database with users and approval policies, and nothing procured yet.\<close>

definition no_trade :: "(string \<times> string) list \<Rightarrow> approval_policy list \<Rightarrow> rfq_db" where
  "no_trade us ps = \<lparr>rq_suppliers = no_suppliers, rq_requests = no_requests us,
     rq_approvals = \<lparr>approval_policies = ps, approval_requests = [], approval_decisions = []\<rparr>,
     rfqs = [], rfq_candidates = [], quotations = [], rfq_history = [], quotation_history = []\<rparr>"

lemma trade_db_inv_reached: "trade_db_inv w (trade_run w cs (no_trade us ps))"
  by (rule trade_db_inv_run)
    (simp add: trade_db_inv_def no_trade_def trade_inv_def request_inv_none supplier_inv_def no_suppliers_def
      approval_inv_def decided_by_others_def decisions_backed_def unique_rows_def)

lemma trade_run_append: "trade_run w (cs @ ds) db = trade_run w ds (trade_run w cs db)"
  by (induction cs arbitrary: db) auto

text \<open>What a call does to a quotation that was submitted once or is closed.\<close>

definition kept_quotation :: "quotation \<Rightarrow> quotation list \<Rightarrow> bool" where
  "kept_quotation q qs \<longleftrightarrow>
     (\<exists>q'\<in>set qs. offer q' = offer q \<and> qu_submitted_at q' = qu_submitted_at q \<and> (open_quotation q \<or> q' = q))"

lemma kept_call:
  assumes inv: "trade_db_inv w db" and q: "q \<in> set (quotations db)" "fixed_quotation q"
    and ok: "trade_command_step t w c db = (Inr u, db')"
  shows "kept_quotation q (quotations db')"
proof (cases c)
  case (OnRfqs ho inp)
  with ok obtain es where run: "executeRfqCommand ho t inp db = (Inr es, db')" by (auto simp: forget_Inr)
  have trade: "trade_inv (rfqs db) (quotations db)" using inv by (simp add: trade_db_inv_def)
  from reached_moves [OF trade run]
  have "trade_step t (waiting_requests t (rq_requests db)) (rfqs db, quotations db) (rfqs db', quotations db')"
    by (simp add: trade_moves_def)
  from frozen_step [OF this, of q] trade q show ?thesis by (simp add: kept_quotation_def)
next
  case (OnSuppliers x)
  with ok q(1) show ?thesis by (auto simp: on_part_Inr kept_quotation_def)
next
  case (OnRequests x)
  with ok q(1) show ?thesis by (auto simp: on_part_Inr kept_quotation_def)
next
  case (RequestApproval env inp)
  with ok q(1) show ?thesis by (auto simp: on_part_Inr kept_quotation_def)
next
  case (DecideApproval env inp)
  with ok q(1) show ?thesis by (auto simp: on_part_Inr kept_quotation_def)
qed

lemma kept_trans: "kept_quotation q qs \<Longrightarrow> fixed_quotation q \<Longrightarrow>
    (\<And>x. x \<in> set qs \<Longrightarrow> fixed_quotation x \<Longrightarrow> kept_quotation x qs') \<Longrightarrow> kept_quotation q qs'"
  unfolding kept_quotation_def fixed_quotation_def by metis

lemma kept_run:
  assumes "trade_db_inv w db" and "q \<in> set (quotations db)" and "fixed_quotation q"
  shows "kept_quotation q (quotations (trade_run w cs db))"
  using assms
proof (induction cs arbitrary: db q)
  case Nil
  then show ?case by (auto simp: kept_quotation_def)
next
  case (Cons c cs)
  obtain t k where c: "c = (t, k)" by (cases c)
  let ?db = "snd (uow t (trade_command_step t w k) db)"
  have "trade_db_inv w ?db \<and> kept_quotation q (quotations ?db)"
  proof (rule pg.run_invariant [where I = "\<lambda>db. trade_db_inv w db \<and> kept_quotation q (quotations db)"])
    show "trade_db_inv w db \<and> kept_quotation q (quotations db)" using Cons.prems by (auto simp: kept_quotation_def)
  qed (use Cons.prems trade_db_inv_step kept_call in blast)
  then have inv: "trade_db_inv w ?db" and "kept_quotation q (quotations ?db)" by simp_all
  from this(2) have "kept_quotation q (quotations (trade_run w cs ?db))"
    using Cons.prems(3) by (rule kept_trans) (rule Cons.IH [OF inv])
  then show ?case by (simp add: c)
qed

text \<open>The row that a successful award writes.\<close>

lemma finish_rfq_row:
  assumes "finish_rfq ho t cx current cs command target (Some s) approval db = (Inr es, db')"
    and mem: "current \<in> set (rfqs db)" "rf_tenant current = t"
  obtains row a where "row \<in> set (rfqs db')" and "same_rfq current row" and "rf_state row = fst target"
    and "uuid_of_text s = Inr a" and "rf_awarded row = Some a"
proof -
  let ?qs = "if deciding command then open_quotations t (rf_id current) db else []"
  from assms(1) have "close_quotations ho t cx command (Some s) 1 ?qs
      (write_rfq ho t cx current cs command target (Some s) approval ?qs) db = (Inr es, db')"
    by (simp add: finish_rfq_def load_Inr recheck_Inr)
  from close_quotations_Inr [OF this] obtain hs es' where "write_rfq ho t cx current cs command target (Some s) approval ?qs es'
      (db\<lparr>quotations := closed_quotations (env_now (ho_env ho)) command (Some s) ?qs (quotations db), quotation_history := hs\<rparr>) = (Inr es, db')"
    by (auto simp: open_quotations_def select_rows_def)
  then obtain awarded row h where "map_sum id Some (uuid_of_text s) = Inr awarded" and row: "same_rfq current row" "rf_state row = fst target"
    "rf_awarded row = awarded" and db': "rfqs db' = update_rows (\<lambda>r. rf_tenant r = t \<and> rf_id r = rf_id current) (\<lambda>_. row) (rfqs db)"
    by (rule write_rfq_effect) simp
  from this(1) obtain a where a: "uuid_of_text s = Inr a" "awarded = Some a" by (cases "uuid_of_text s") auto
  have "row \<in> set (rfqs db')" using mem unfolding db' set_update_rows by (auto intro: rev_image_eqI)
  with row a show thesis by (intro that) auto
qed

lemma award_effect:
  assumes run: "executeRfqCommand ho t inp db = (Inr es, db')" and award: "ri_command inp = ''RFQ.AWARD''"
    and inv: "trade_inv (rfqs db) (quotations db)"
  obtains r r' q where "r \<in> set (rfqs db)" and "rf_tenant r = t" and "rf_state r = ''EVALUATING''"
    and "q \<in> set (quotations db)" and "own_quotation r q" and "qu_state q = ''SUBMITTED''" and "supplier_fits t True (qu_supplier q) db"
    and "\<forall>a\<in>linked_approvals t (rf_id r) (rq_approvals db). aq_state a = ''APPROVED''"
    and "r' \<in> set (rfqs db')" and "same_rfq r r'" and "rf_state r' = ''AWARDED''" and "rf_awarded r' = Some (qu_id q)"
proof -
  from run award obtain u r where u: "uuid_of_text (ri_id inp) = Inr u"
    and r: "find_row (\<lambda>r. rf_tenant r = t \<and> rf_id r = u) (rfqs db) = Some r"
    and move: "rfq_move ho t (ri_context inp) (ri_id inp) r (candidates_of t (rf_id r) db) ''RFQ.AWARD'' (ri_body inp) db = (Inr es, db')"
    by (auto simp: executeRfqCommand_def Let_def starts_with_def trade_Inr)
  from find_rfq_key [OF r] have mem: "r \<in> set (rfqs db)" "rf_tenant r = t" "rf_id r = u" by simp_all
  from move have "award_checks ho t (ri_id inp) r (ri_body inp) (\<lambda>(selected, approval).
      finish_rfq ho t (ri_context inp) r (candidates_of t (rf_id r) db) ''RFQ.AWARD'' (''AWARDED'', ''RFQ.AWARDED'') (Some selected) approval) db
      = (Inr es, db')"
    by (simp add: rfq_move_def rfq_target_def)
  then show thesis
  proof (rule award_checks_Inr)
    fix selected approval u' v q
    assume fin: "(case (selected, approval) of (selected, approval) \<Rightarrow>
        finish_rfq ho t (ri_context inp) r (candidates_of t (rf_id r) db) ''RFQ.AWARD'' (''AWARDED'', ''RFQ.AWARDED'') (Some selected) approval) db
        = (Inr es, db')"
      and state: "rf_state r = ''EVALUATING''" and u': "uuid_of_text (ri_id inp) = Inr u'"
      and linked: "\<forall>a\<in>linked_approvals t u' (rq_approvals db). aq_state a = ''APPROVED''"
      and v: "uuid_of_text selected = Inr v" and q: "find_row (\<lambda>q. qu_tenant q = t \<and> qu_id q = v) (quotations db) = Some q"
      and qu: "qu_rfq q = ri_id inp" "qu_state q = ''SUBMITTED''" "supplier_fits t True (qu_supplier q) db"
    from find_quotation_key [OF q] have quote: "q \<in> set (quotations db)" "qu_tenant q = t" "qu_id q = v" by simp_all
    from inv quote(1) obtain x where "x \<in> set (rfqs db)" "rf_id x = qu_rfq q" by (auto simp: trade_inv_def own_quotation_def)
    with inv have "js_lower (qu_rfq q) = qu_rfq q" by (auto simp: trade_inv_def)
    with qu(1) u mem(3) have "rf_id r = qu_rfq q" by (auto dest: uuid_of_text_lower)
    with mem(2) quote(2) have own: "own_quotation r q" by (simp add: own_quotation_def)
    from fin have "finish_rfq ho t (ri_context inp) r (candidates_of t (rf_id r) db) ''RFQ.AWARD'' (''AWARDED'', ''RFQ.AWARDED'')
        (Some selected) approval db = (Inr es, db')" by simp
    then show thesis
      by (rule finish_rfq_row [OF _ mem(1,2)])
        (rule that [OF mem(1,2) state quote(1) own qu(2,3)], use linked u u' v mem(3) quote(3) in auto)
  qed
qed

lemma approved_by_other:
  assumes "approval_inv db" and "a \<in> linked_approvals t i db" and "aq_state a = ''APPROVED''"
  shows "\<exists>d\<in>set (approval_decisions db). ad_tenant d = aq_tenant a \<and> ad_request_id d = aq_id a
    \<and> ad_decision d = ''APPROVED'' \<and> ad_actor_id d \<noteq> aq_requested_by a"
proof -
  have a: "a \<in> set (approval_requests db)" using assms(2) by (simp add: linked_approvals_def)
  from assms(1,3) a obtain d where d: "d \<in> set (approval_decisions db)" "ad_tenant d = aq_tenant a" "ad_request_id d = aq_id a"
    "ad_decision d = ''APPROVED''"
    by (auto simp: approval_inv_def decisions_backed_def decisions_def)
  moreover have "aq_requested_by a \<noteq> ad_actor_id d"
    using assms(1) a d by (auto simp: approval_inv_def decided_by_others_def)
  ultimately show ?thesis by metis
qed

lemma fit_supplier_approved:
  assumes "supplier_fits t True sid db" and "supplier_inv lc (rq_suppliers db)"
  shows "\<exists>s\<in>set (suppliers (rq_suppliers db)). su_tenant s = t \<and> su_id s = js_lower sid \<and> su_state s \<in> {APPROVED, PREFERRED}
    \<and> (\<exists>h\<in>set (trail_of (rq_suppliers db) s). sh_action h = ''SUPPLIER.APPROVE'')"
proof -
  from assms(1) obtain u s where u: "uuid_of_text sid = Inr u"
    and s: "find_row (\<lambda>s. su_tenant s = t \<and> su_id s = u) (suppliers (rq_suppliers db)) = Some s" "su_state s \<in> {APPROVED, PREFERRED}"
    by (auto simp: supplier_fits_def)
  from find_row_SomeD [OF s(1)] have mem: "s \<in> set (suppliers (rq_suppliers db))" "su_tenant s = t" "su_id s = u" by auto
  with assms(2) have "supplier_ok (rq_suppliers db) s" by (simp add: supplier_inv_def)
  with s(2) have "approved_since (trail_of (rq_suppliers db) s)"
    by (intro trail_approved) (auto simp: supplier_ok_def trusted_states_def safeSnapshot_def)
  then have "\<exists>h\<in>set (trail_of (rq_suppliers db) s). sh_action h = ''SUPPLIER.APPROVE''"
    unfolding approved_since_def by fastforce
  with mem u s(2) show ?thesis by (auto dest: uuid_of_text_lower)
qed

section \<open>A run on concrete input\<close>

definition trade_host :: "(nat \<Rightarrow> string) \<Rightarrow> rfq_host" where
  "trade_host ids = \<lparr>ho_env = (supplier_env [])\<lparr>env_uuid := ids\<rparr>, ho_fr = (\<lambda>_. []), ho_parse = (\<lambda>_. Some 10),
     ho_number = (\<lambda>_. JNaN), ho_column = (\<lambda>_ v. Inr v)\<rparr>"

definition trade_call :: "string \<Rightarrow> string \<Rightarrow> string \<Rightarrow> int \<Rightarrow> json_body \<Rightarrow> (nat \<Rightarrow> string) \<Rightarrow> string \<times> trade_command" where
  "trade_call t command i v body ids =
     (t, OnRfqs (trade_host ids) \<lparr>ri_context = because ''bids'', ri_command = command, ri_id = i, ri_expected = JInt v, ri_body = body\<rparr>)"

definition plain_world :: trade_world where
  "plain_world = \<lparr>tw_lower = (\<lambda>s. s), tw_date = (\<lambda>s. Some s), tw_numeric = (\<lambda>_ _. None)\<rparr>"

text \<open>An approved supplier quotes for an RFQ, which is then closed, with an approval of its award.\<close>

definition bidding :: "(string \<times> trade_command) list" where
  "bidding =
    [(''t'', OnSuppliers (supplier_env (hex_id CHR ''a''), because ''new supplier'', CreateSupplier ''Acme'' acme_profile)),
     (''t'', OnSuppliers (supplier_env ''b'', because ''checked'', ChangeState (hex_id CHR ''a'') (JInt 1) ''APPROVE'')),
     trade_call ''t'' ''RFQ.CREATE'' [] 0
       [(''title'', JStr ''Desks''), (''currency'', JStr ''usd''), (''submission_deadline'', JStr ''soon''),
        (''supplier_ids'', JArr [JStr (hex_id CHR ''a'')])] (\<lambda>n. if n = 0 then hex_id CHR ''c'' else ''h1''),
     trade_call ''t'' ''RFQ.ISSUE'' (hex_id CHR ''c'') 1 [] (\<lambda>_. ''h2''),
     trade_call ''t'' ''QUOTATION.CREATE'' [] 0
       [(''rfq_id'', JStr (hex_id CHR ''c'')), (''supplier_id'', JStr (hex_id CHR ''a'')), (''total'', JNum (JInt 500)),
        (''lines'', JArr [])] (\<lambda>n. if n = 0 then hex_id CHR ''d'' else ''h3''),
     trade_call ''t'' ''QUOTATION.SUBMIT'' (hex_id CHR ''d'') 1 [] (\<lambda>_. ''h4''),
     trade_call ''t'' ''RFQ.CLOSE_SUBMISSIONS'' (hex_id CHR ''c'') 2 [] (\<lambda>_. ''h5''),
     (''t'', RequestApproval (supplier_env (hex_id CHR ''e''))
       \<lparr>pi_source_type = ''RFQ_AWARD'', pi_source_id = hex_id CHR ''c'', pi_policy_id = hex_id CHR ''1'', pi_policy_version = JInt 1,
        pi_requester_id = hex_id CHR ''2'', pi_context = None\<rparr>),
     (''t'', DecideApproval (supplier_env (hex_id CHR ''f''))
       \<lparr>dx_request_id = hex_id CHR ''e'', dx_expected_version = JInt 1, dx_actor_id = hex_id CHR ''3'', dx_decision = ''APPROVED'', dx_reason = ''ok''\<rparr>)]"

definition bid_start :: rfq_db where
  "bid_start = no_trade [] [\<lparr>apol_id = hex_id CHR ''1'', apol_tenant = ''t'', apol_version = 1, apol_state = ''ACTIVE''\<rparr>]"

definition bid_db :: rfq_db where
  "bid_db = trade_run plain_world bidding bid_start"

text \<open>The award, as a call and as one more command of the history.\<close>

definition award_host :: rfq_host where
  "award_host = trade_host (\<lambda>n. if n = 0 then ''h6'' else ''h7'')"

definition award_input :: rfq_input where
  "award_input = \<lparr>ri_context = because ''bids'', ri_command = ''RFQ.AWARD'', ri_id = hex_id CHR ''c'', ri_expected = JInt 3,
     ri_body = [(''quotation_id'', JStr (hex_id CHR ''d''))]\<rparr>"

definition trade_view ::
    "rfq_db \<Rightarrow> (string \<times> string \<times> string \<times> string option) list \<times> (string \<times> string \<times> string \<times> string \<times> int option) list" where
  "trade_view db = (map (\<lambda>r. (rf_tenant r, rf_id r, rf_state r, rf_awarded r)) (rfqs db),
     map (\<lambda>q. (qu_tenant q, qu_rfq q, qu_id q, qu_state q, qu_submitted_at q)) (quotations db))"

definition award_view :: "(string \<times> string \<times> string \<times> string option) list \<times> (string \<times> string \<times> string \<times> string \<times> int option) list" where
  "award_view = (case executeRfqCommand award_host ''t'' award_input bid_db of
     (Inl e, db) \<Rightarrow> ([], []) | (Inr es, db) \<Rightarrow> trade_view db)"

lemma bid_rows: "trade_view bid_db =
    ([(''t'', hex_id CHR ''c'', ''EVALUATING'', None)], [(''t'', hex_id CHR ''c'', hex_id CHR ''d'', ''SUBMITTED'', Some 0)])"
  by code_simp

lemma award_rows: "award_view =
    ([(''t'', hex_id CHR ''c'', ''AWARDED'', Some (hex_id CHR ''d''))], [(''t'', hex_id CHR ''c'', hex_id CHR ''d'', ''ACCEPTED'', Some 0)])"
  by code_simp

lemma award_succeeds:
  obtains es db' where "executeRfqCommand award_host ''t'' award_input bid_db = (Inr es, db')" and "trade_view db' = award_view"
proof -
  obtain x db' where run: "executeRfqCommand award_host ''t'' award_input bid_db = (x, db')" by fastforce
  then have "x = Inl e \<Longrightarrow> False" for e using award_rows by (simp add: award_view_def)
  with run that show thesis by (cases x) (auto simp: award_view_def)
qed

lemma award_run:
  assumes "executeRfqCommand award_host ''t'' award_input bid_db = (Inr es, db')"
  shows "trade_run plain_world (bidding @ [(''t'', OnRfqs award_host award_input)]) bid_start = db'"
proof -
  have "\<not> blank ''t''" by code_simp
  with assms show ?thesis by (simp add: trade_run_append uow_def uow_run_def plain_work_def forget_def bid_db_def)
qed

section \<open>Properties\<close>

text \<open>C4: Whatever commands run, on whatever inputs, an RFQ is AWARDED exactly when it names an awarded quotation; of its
  quotations exactly the one it names is ACCEPTED, and that one exists; a cancelled, closed or awarded RFQ keeps no
  draft or submitted quotation. So the triggers that check this at the end of each transaction never fire.\<close>

theorem rfq_award_decides:
  assumes "r \<in> set (rfqs (trade_run w cs (no_trade us ps)))"
  shows "(rf_state r = ''AWARDED'' \<longleftrightarrow> rf_awarded r \<noteq> None)
    \<and> {q \<in> set (quotations (trade_run w cs (no_trade us ps))). own_quotation r q \<and> qu_state q = ''ACCEPTED''}
        = {q \<in> set (quotations (trade_run w cs (no_trade us ps))). own_quotation r q \<and> rf_awarded r = Some (qu_id q)}
    \<and> (\<exists>q\<in>set (quotations (trade_run w cs (no_trade us ps))). own_quotation r q \<and> rf_awarded r = Some (qu_id q)) = (rf_awarded r \<noteq> None)
    \<and> (rf_state r \<in> {''CANCELLED'', ''CLOSED_NO_AWARD'', ''AWARDED''} \<longrightarrow>
        {q \<in> set (quotations (trade_run w cs (no_trade us ps))). own_quotation r q \<and> open_quotation q} = {})"
  using trade_db_inv_reached [of w cs us ps] assms unfolding trade_db_inv_def trade_inv_def rfq_ok_def by fastforce

theorem rfq_award_decides_witness:
  "\<exists>r\<in>set (rfqs (trade_run plain_world (bidding @ [(''t'', OnRfqs award_host award_input)]) bid_start)).
     \<exists>q\<in>set (quotations (trade_run plain_world (bidding @ [(''t'', OnRfqs award_host award_input)]) bid_start)).
       own_quotation r q \<and> rf_awarded r = Some (qu_id q) \<and> qu_state q = ''ACCEPTED''"
proof -
  obtain es db' where run: "executeRfqCommand award_host ''t'' award_input bid_db = (Inr es, db')" "trade_view db' = award_view"
    by (rule award_succeeds)
  from run(2) obtain r where r: "r \<in> set (rfqs db')" "rf_awarded r = Some (hex_id CHR ''d'')"
    unfolding award_rows trade_view_def by auto
  then show ?thesis
    using rfq_award_decides [of r plain_world "bidding @ [(''t'', OnRfqs award_host award_input)]" "[]"
        "[\<lparr>apol_id = hex_id CHR ''1'', apol_tenant = ''t'', apol_version = 1, apol_state = ''ACTIVE''\<rparr>]"]
    unfolding award_run [OF run(1), unfolded bid_start_def] award_run [OF run(1)] by blast
qed

text \<open>C3: An award needs everything it should: the RFQ was being evaluated, the awarded quotation is one of its own and
  was submitted, its supplier is approved or preferred and has an approval in its history, and each approval request
  for the award was approved by someone other than its requester.\<close>

theorem award_needs_approvals:
  assumes "executeRfqCommand ho t inp (trade_run w cs (no_trade us ps)) = (Inr es, db')" and "ri_command inp = ''RFQ.AWARD''"
  shows "\<exists>r\<in>set (rfqs (trade_run w cs (no_trade us ps))). \<exists>q\<in>set (quotations (trade_run w cs (no_trade us ps))). \<exists>r'\<in>set (rfqs db').
    rf_tenant r = t \<and> rf_state r = ''EVALUATING'' \<and> own_quotation r q \<and> qu_state q = ''SUBMITTED''
    \<and> same_rfq r r' \<and> rf_state r' = ''AWARDED'' \<and> rf_awarded r' = Some (qu_id q)
    \<and> (\<exists>s\<in>set (suppliers (rq_suppliers (trade_run w cs (no_trade us ps)))). su_tenant s = t \<and> su_id s = js_lower (qu_supplier q)
        \<and> su_state s \<in> {APPROVED, PREFERRED}
        \<and> (\<exists>h\<in>set (trail_of (rq_suppliers (trade_run w cs (no_trade us ps))) s). sh_action h = ''SUPPLIER.APPROVE''))
    \<and> linked_approvals t (rf_id r) (rq_approvals (trade_run w cs (no_trade us ps))) \<subseteq> {a. aq_state a = ''APPROVED''
        \<and> (\<exists>d\<in>set (approval_decisions (rq_approvals (trade_run w cs (no_trade us ps)))). ad_tenant d = aq_tenant a
            \<and> ad_request_id d = aq_id a \<and> ad_decision d = ''APPROVED'' \<and> ad_actor_id d \<noteq> aq_requested_by a)}"
proof -
  let ?db = "trade_run w cs (no_trade us ps)"
  have inv: "trade_inv (rfqs ?db) (quotations ?db)" "supplier_inv (tw_lower w) (rq_suppliers ?db)" "approval_inv (rq_approvals ?db)"
    using trade_db_inv_reached [of w cs us ps] by (simp_all add: trade_db_inv_def)
  from award_effect [OF assms inv(1)] obtain r r' q where r: "r \<in> set (rfqs ?db)" "rf_tenant r = t" "rf_state r = ''EVALUATING''"
    and q: "q \<in> set (quotations ?db)" "own_quotation r q" "qu_state q = ''SUBMITTED''" "supplier_fits t True (qu_supplier q) ?db"
    and linked: "\<forall>a\<in>linked_approvals t (rf_id r) (rq_approvals ?db). aq_state a = ''APPROVED''"
    and r': "r' \<in> set (rfqs db')" "same_rfq r r'" "rf_state r' = ''AWARDED''" "rf_awarded r' = Some (qu_id q)" .
  note supplier = fit_supplier_approved [OF q(4) inv(2)]
  have "linked_approvals t (rf_id r) (rq_approvals ?db) \<subseteq> {a. aq_state a = ''APPROVED'' \<and> (\<exists>d\<in>set (approval_decisions (rq_approvals ?db)).
      ad_tenant d = aq_tenant a \<and> ad_request_id d = aq_id a \<and> ad_decision d = ''APPROVED'' \<and> ad_actor_id d \<noteq> aq_requested_by a)}"
    using approved_by_other [OF inv(3)] linked by blast
  with r q(1-3) r' supplier show ?thesis by (intro bexI [of _ r] bexI [of _ q] bexI [of _ r'] conjI)
qed

theorem award_needs_approvals_witness:
  "\<exists>s\<in>set (suppliers (rq_suppliers bid_db)). su_state s \<in> {APPROVED, PREFERRED}
     \<and> (\<exists>h\<in>set (trail_of (rq_suppliers bid_db) s). sh_action h = ''SUPPLIER.APPROVE'')"
proof -
  obtain es db' where run: "executeRfqCommand award_host ''t'' award_input bid_db = (Inr es, db')" by (rule award_succeeds)
  have "ri_command award_input = ''RFQ.AWARD''" by (simp add: award_input_def)
  from award_needs_approvals [OF run [unfolded bid_db_def bid_start_def] this] show ?thesis
    unfolding bid_db_def bid_start_def by blast
qed

text \<open>C11: Once a quotation was submitted, what it offers and when it was submitted never change again, whatever commands
  follow; a quotation that is withdrawn, accepted, rejected, void or disqualified, submitted before or not, does
  not change at all. So the trigger that protects submitted quotations never fires.\<close>

theorem submitted_quotation_frozen:
  assumes "q \<in> set (quotations (trade_run w cs (no_trade us ps)))"
    and "qu_submitted_at q \<noteq> None \<or> qu_state q \<notin> {''DRAFT'', ''SUBMITTED''}"
  shows "\<exists>q'\<in>set (quotations (trade_run w (cs @ ds) (no_trade us ps))).
    offer q' = offer q \<and> qu_submitted_at q' = qu_submitted_at q \<and> (qu_state q \<in> {''DRAFT'', ''SUBMITTED''} \<or> q' = q)"
proof -
  have "fixed_quotation q" using assms(2) by (simp add: fixed_quotation_def open_quotation_def)
  from kept_run [OF trade_db_inv_reached assms(1) this, of ds] show ?thesis
    by (simp add: trade_run_append kept_quotation_def open_quotation_def)
qed

theorem submitted_quotation_frozen_witness:
  "\<exists>q\<in>set (quotations bid_db). \<exists>q'\<in>set (quotations (trade_run plain_world (bidding @ [(''t'', OnRfqs award_host award_input)]) bid_start)).
     offer q' = offer q \<and> qu_submitted_at q' = Some 0"
proof -
  from bid_rows obtain q where "q \<in> set (quotations bid_db)" "qu_submitted_at q = Some 0" unfolding trade_view_def by auto
  then show ?thesis
    using submitted_quotation_frozen [of q plain_world bidding "[]"
        "[\<lparr>apol_id = hex_id CHR ''1'', apol_tenant = ''t'', apol_version = 1, apol_state = ''ACTIVE''\<rparr>]" "[(''t'', OnRfqs award_host award_input)]"]
    unfolding bid_db_def bid_start_def by auto
qed

text \<open>C8: The commands refine the moves of the specification: a command that succeeds makes one move of its tenant's RFQs
  and quotations, with that move's conditions, and changes no supplier, procurement request or approval.\<close>

theorem rfq_commands_refine_moves:
  assumes "executeRfqCommand ho t inp (trade_run w cs (no_trade us ps)) = (Inr es, db')"
  shows "trade_step t (waiting_requests t (rq_requests (trade_run w cs (no_trade us ps))))
      (rfqs (trade_run w cs (no_trade us ps)), quotations (trade_run w cs (no_trade us ps))) (rfqs db', quotations db')
    \<and> rq_suppliers db' = rq_suppliers (trade_run w cs (no_trade us ps)) \<and> rq_requests db' = rq_requests (trade_run w cs (no_trade us ps))
    \<and> rq_approvals db' = rq_approvals (trade_run w cs (no_trade us ps))"
  using reached_moves [OF _ assms] trade_db_inv_reached [of w cs us ps]
  by (simp add: trade_db_inv_def trade_moves_def trade_frame_def)

theorem rfq_commands_refine_moves_witness:
  "\<exists>db'. trade_step ''t'' (waiting_requests ''t'' (rq_requests bid_db)) (rfqs bid_db, quotations bid_db) (rfqs db', quotations db')
     \<and> trade_view db' = award_view"
proof -
  obtain es db' where run: "executeRfqCommand award_host ''t'' award_input bid_db = (Inr es, db')" "trade_view db' = award_view"
    by (rule award_succeeds)
  from rfq_commands_refine_moves [OF run(1) [unfolded bid_db_def bid_start_def]] run(2) show ?thesis
    unfolding bid_db_def bid_start_def by blast
qed

text \<open>C39: No RFQ is ever linked to a procurement request: an RFQ can only be made for a request that waits for one, and no
  command takes a request to that state.\<close>

theorem rfq_never_linked:
  assumes "r \<in> set (rfqs (trade_run w cs (no_trade us ps)))"
  shows "rf_request r = None"
  using trade_db_inv_reached [of w cs us ps] assms by (simp add: trade_db_inv_def)

theorem rfq_never_linked_witness: "\<exists>r\<in>set (rfqs bid_db). rf_request r = None"
proof -
  from bid_rows obtain r where "r \<in> set (rfqs bid_db)" unfolding trade_view_def by fastforce
  with rfq_never_linked [of r plain_world bidding "[]" "[\<lparr>apol_id = hex_id CHR ''1'', apol_tenant = ''t'', apol_version = 1, apol_state = ''ACTIVE''\<rparr>]"]
  show ?thesis unfolding bid_db_def bid_start_def by blast
qed

end
