(* ===== verification/Spec2Isabelle.thy ===== *)
theory Spec2Isabelle
  imports Asset_Lifecycle Asset_Scoring License_Seats Helpdesk Maintenance Control_Plane Contract_Alerts
    Unit_Of_Work Platform_Properties Automation_Policies Edge_Policy License_Expiry Rfqs
begin

text \<open>
  A verification development of the IT centre platform under \<open>src/\<close>: a multi-tenant back office in
  TypeScript over PostgreSQL. Domain modules (\<open>modules/*\<close>) hold the rules, packages (\<open>packages/*\<close>) the
  shared mechanisms, and three programs (\<open>apps/api\<close>, \<open>apps/agent-gateway\<close>, \<open>apps/worker\<close>) drive them.

  How the parts meet. A request of the API is authenticated, authorized, and run in one unit of work under an idempotency
  key; a module's command reads rows, checks the version its caller names, moves a state machine and writes rows, an
  audit entry and an outbox event; the worker delivers events at least once to inbox consumers and runs schedulers over
  the same commands. The development follows these layers.

  \<^bold>\<open>Foundations.\<close> Prelude has JavaScript numbers, strings and JSON, and tables as lists of rows with the statement
  shapes the sources use (a query, an UPDATE, an INSERT against unique indexes). Api_Contracts is
  \<open>packages/api-contracts\<close>: error codes, the error response and \<open>assertVersion\<close>, with the locale
  \<open>versioned_command\<close> (no lost update). Lifecycle has the locales of table-driven state machines;
  Persistence is \<open>packages/persistence\<close>: the transaction runner (locale \<open>transaction_runner\<close>, interpreted on
  \<open>uow\<close>) and the operation registry, with Unit_Of_Work for its works statement by statement (a work that catches a
  failed statement is not committed; for the works of the modules, which catch none, \<open>uow\<close> is the run); its locale \<open>keyed_machine\<close> joins both contracts for a command on one row, and
  the modules interpret it on their own commands. Commands has the step combinators that the longer handlers are written
  with. Json_Text and Calendar are canonical JSON and Gregorian dates.

  \<^bold>\<open>Mechanisms.\<close> Messaging is \<open>packages/messaging/src/index.ts\<close> (outbox, inbox, consumer), Idempotency its
  \<open>idempotency.ts\<close>, Auth is \<open>packages/auth\<close>, Identity_Access the authorization, sessions and temporary
  privileges of \<open>modules/identity\<close> with \<open>apps/api/src/postgres-authorization.ts\<close>. Platform_Properties states what
  they give together: a command runs at most once per key, an event is applied once, a failed delivery is rolled back
  and recorded, a user decision is exactly what bindings and temporary grants say. Edge_Policy is
  \<open>apps/api/src/edge-policy.ts\<close>, the token buckets in front of every route (locale \<open>metered\<close>), computed in doubles.

  \<^bold>\<open>Modules.\<close> Asset_Lifecycle (\<open>modules/asset/application/lifecycle.ts\<close>), Asset_Scoring
  (\<open>modules/asset/domain/scoring.ts\<close>), License_Seats and License_Entitlements
  (\<open>assignments.ts\<close> and \<open>entitlements.ts\<close> of \<open>modules/license/application\<close>) with License_Expiry
  (\<open>apps/worker/src/license-expiry.ts\<close>) and Doubles (the rounding of doubles, which its cost check and Edge_Policy meet), Helpdesk
  (\<open>modules/ticket\<close>), Control_Plane (approvals and SLA clocks of \<open>modules/control-plane\<close>), Maintenance
  (\<open>modules/maintenance\<close>), Automation_Rules and Automation_Policies (\<open>modules/automation\<close>: the rule
  language, its capabilities, policies and registry), Contracts (\<open>modules/contract\<close>) and Contract_Alerts (its alert
  schedule and \<open>apps/worker/src/contract-alerts.ts\<close>), and of \<open>modules/procurement\<close> Suppliers, Procurement_Requests and
  Rfqs (requests for quotation and the quotations, over suppliers, requests and approvals). Each has a record per table, one definition per operation with
  the code's names, its invariant with the proof that every operation keeps it, and the properties.

  \<^bold>\<open>Abstract specifications.\<close> The consumer refines application of each event once; the user decision refines a
  set-level policy; rule validation and evaluation refine a typed syntax tree; warranty states refine a policy on day
  numbers; every contract command refines \<open>contract_effect\<close>, the moves of a contract row with its evidence;
  the history of a supplier replays to its row (\<open>audit_trail\<close>); every RFQ or quotation command refines \<open>trade_step\<close>, the
  moves of a tenant's RFQs and quotations together.

  \<^bold>\<open>State and errors.\<close> A call maps a state to an outcome (an exception \<open>exn\<close> or a value) and the state it leaves;
  \<open>uow\<close> undoes the state of a call that throws. The clock, fresh identifiers and results of calls into other
  modules are inputs of a call. A history is a list of calls run one after the other, each in its transaction: the code
  locks the rows it reads (\<open>FOR UPDATE\<close>), so interleavings are sequences of whole transactions.

  \<^bold>\<open>Parameters.\<close> What is not under \<open>src/\<close>, or is fixed by the JavaScript engine only: SHA-256 (\<open>sha\<close>), the decimal text
  of a fraction (\<open>fr\<close>), the regular expression engine (\<open>re\<close>), \<open>localeCompare\<close> (\<open>collate\<close>),
  \<open>Date.parse\<close> (\<open>parse\<close>), and what PostgreSQL reads from a text (\<open>pg_date\<close>, \<open>pg_num\<close>,
  \<open>ce_pg_time\<close>, \<open>ce_pg_uuid\<close>, \<open>ho_column\<close>) and its \<open>lower\<close> (\<open>lc\<close>). A property that relies on one names it as a hypothesis and has a witness. Strings range over 8-bit code
  units. A double that is not an integer is the rational it stands for. Where the code computes with such numbers
  and rounding can show, each operation is rounded as in the code (\<open>rounded\<close>, \<open>to_double\<close>): the tokens, refills and waits of
  Edge_Policy and the two decimals of a cost. Elsewhere the arithmetic is exact: Asset_Scoring compares an exact ratio and
  says up to which life that agrees with the doubles; a session's lifetime with a fraction of a millisecond is cut exactly.

  \<^bold>\<open>Bounds.\<close> No fuel is used: recursion is over rows, JSON values and lists of calls. The regular expression check and the
  rule validator have the depth and node bounds of the code. The edge limits hold for policies in whole numbers up to 2^20
  (\<open>policy_ok\<close>), where the rounding of a call adds at most a 2^51st of a bucket.

  \<^bold>\<open>Not modelled.\<close> HTTP routing and body parsing, logging, metrics and configuration; audit and timeline inserts (their
  statements cannot fail a command otherwise valid); read-side projections (reporting, search); sign-in by OpenID
  Connect; SQL migrations other than the constraints the commands meet. Not yet: the automation engine and executions,
  procurement after an award (orders, receipts, invoices), incident, problem, recommendation, work queue, software, network,
  monitoring, agent and document modules, offboarding, and the worker's other consumers.
\<close>

end
